(* ===== verification/Prelude.thy ===== *)
theory Prelude
  imports Main "HOL-Library.Char_ord" "HOL-Library.List_Lexorder" "HOL-Library.Multiset"
    "HOL-Library.AList"
begin

text \<open>
  The part of the Go language and of its standard library that the modelled packages use.
  A Go string is its list of bytes (\<^typ>\<open>string\<close>, a \<^typ>\<open>char\<close> being one byte), ordered
  bytewise by \<open>HOL-Library.List_Lexorder\<close>, which is Go's \<open><\<close> on strings.  A Go
  \<open>int\<close>/\<open>int64\<close> is an \<^typ>\<open>int\<close> reduced by \<open>wrap64\<close> wherever the source computes with it.
  A Go map is an association list with distinct keys whose order is the (arbitrary) iteration
  order of that run; \<open>sort.Slice\<close> is \<open>sort_by\<close> with the same \<open>less\<close> argument.

  \<open>strings.ToLower\<close>, \<open>ToUpper\<close> and \<open>EqualFold\<close> map the ASCII letters; the Unicode case
  tables for bytes from \<open>0x80\<close> on are not modelled (such bytes are left unchanged).
\<close>

section \<open>Collections of facts\<close>

named_theorems go_simps \<open>unfolding rules for the modelled standard library\<close>
named_theorems order_laws \<open>order laws of the comparison functions\<close>

section \<open>Integers\<close>

text \<open>Two's complement reduction of an arithmetic result to a 64-bit \<open>int\<close>.\<close>

definition wrap64 :: "int \<Rightarrow> int" where
  "wrap64 x = (x + 2 ^ 63) mod 2 ^ 64 - 2 ^ 63"

definition max_int64 :: int where
  "max_int64 = 2 ^ 63 - 1"

definition min_int64 :: int where
  "min_int64 = - (2 ^ 63)"

definition in_int64 :: "int \<Rightarrow> bool" where
  "in_int64 x \<longleftrightarrow> min_int64 \<le> x \<and> x \<le> max_int64"

lemma wrap64_id [simp]: "in_int64 x \<Longrightarrow> wrap64 x = x"
  by (simp add: wrap64_def in_int64_def min_int64_def max_int64_def)

lemma wrap64_in_int64 [simp]: "in_int64 (wrap64 x)"
proof -
  have "0 \<le> (x + 2 ^ 63) mod 2 ^ 64" "(x + 2 ^ 63) mod 2 ^ 64 < (2 ^ 64 :: int)"
    by (rule pos_mod_sign, simp) (rule pos_mod_bound, simp)
  then show ?thesis
    by (simp add: wrap64_def in_int64_def min_int64_def max_int64_def)
qed

lemma wrap64_small: "\<bar>x\<bar> < 2 ^ 63 \<Longrightarrow> wrap64 x = x"
  by (rule wrap64_id) (auto simp: in_int64_def min_int64_def max_int64_def)

lemma wrap64_add_wrap64 [simp]: "wrap64 (wrap64 x + y) = wrap64 (x + y)"
proof -
  have "(x + 2 ^ 63) mod 2 ^ 64 - 2 ^ 63 + y + 2 ^ 63 = (x + 2 ^ 63) mod 2 ^ 64 + (y :: int)"
    by simp
  moreover have "((x + 2 ^ 63) mod 2 ^ 64 + y) mod 2 ^ 64 = (x + y + 2 ^ 63) mod (2 ^ 64 :: int)"
    by (simp add: mod_simps algebra_simps)
  ultimately show ?thesis by (simp add: wrap64_def)
qed

section \<open>Bytes\<close>

definition is_digit :: "char \<Rightarrow> bool" where
  "is_digit c \<longleftrightarrow> CHR ''0'' \<le> c \<and> c \<le> CHR ''9''"

definition is_upper :: "char \<Rightarrow> bool" where
  "is_upper c \<longleftrightarrow> CHR ''A'' \<le> c \<and> c \<le> CHR ''Z''"

definition is_lower :: "char \<Rightarrow> bool" where
  "is_lower c \<longleftrightarrow> CHR ''a'' \<le> c \<and> c \<le> CHR ''z''"

definition lower_byte :: "char \<Rightarrow> char" where
  "lower_byte c = (if is_upper c then char_of (of_char c + 32 :: nat) else c)"

definition upper_byte :: "char \<Rightarrow> char" where
  "upper_byte c = (if is_lower c then char_of (of_char c - 32 :: nat) else c)"

definition digit_val :: "char \<Rightarrow> int" where
  "digit_val c = of_char c - 48"

lemmas byte_defs = is_digit_def is_upper_def is_lower_def lower_byte_def upper_byte_def
  digit_val_def

lemma digit_val_bounds: "is_digit c \<Longrightarrow> 0 \<le> digit_val c \<and> digit_val c \<le> 9"
proof -
  assume "is_digit c"
  then have "(48 :: nat) \<le> of_char c" "of_char c \<le> (57 :: nat)"
    by (simp_all add: is_digit_def less_eq_char_def)
  then have "(48 :: int) \<le> of_nat (of_char c)" "of_nat (of_char c) \<le> (57 :: int)"
    by linarith+
  then show ?thesis unfolding digit_val_def of_nat_of_char by linarith
qed

section \<open>strings\<close>

definition ToLower :: "string \<Rightarrow> string" where
  "ToLower s = map lower_byte s"

definition ToUpper :: "string \<Rightarrow> string" where
  "ToUpper s = map upper_byte s"

definition EqualFold :: "string \<Rightarrow> string \<Rightarrow> bool" where
  "EqualFold s t \<longleftrightarrow> ToLower s = ToLower t"

definition HasPrefix :: "string \<Rightarrow> string \<Rightarrow> bool" where
  "HasPrefix s p \<longleftrightarrow> take (length p) s = p"

definition HasSuffix :: "string \<Rightarrow> string \<Rightarrow> bool" where
  "HasSuffix s p \<longleftrightarrow> length p \<le> length s \<and> drop (length s - length p) s = p"

definition TrimPrefix :: "string \<Rightarrow> string \<Rightarrow> string" where
  "TrimPrefix s p = (if HasPrefix s p then drop (length p) s else s)"

definition TrimSuffix :: "string \<Rightarrow> string \<Rightarrow> string" where
  "TrimSuffix s p = (if HasSuffix s p then take (length s - length p) s else s)"

text \<open>
  \<open>strings.TrimSpace\<close> strips the code points of \<open>unicode.IsSpace\<close>; these are their UTF-8
  encodings.
\<close>

definition space_seqs :: "string list" where
  "space_seqs = [[CHR 0x20], [CHR 0x09], [CHR 0x0A], [CHR 0x0B], [CHR 0x0C], [CHR 0x0D],
     [CHR 0xC2, CHR 0x85], [CHR 0xC2, CHR 0xA0], [CHR 0xE1, CHR 0x9A, CHR 0x80],
     [CHR 0xE2, CHR 0x80, CHR 0x80], [CHR 0xE2, CHR 0x80, CHR 0x81],
     [CHR 0xE2, CHR 0x80, CHR 0x82], [CHR 0xE2, CHR 0x80, CHR 0x83],
     [CHR 0xE2, CHR 0x80, CHR 0x84], [CHR 0xE2, CHR 0x80, CHR 0x85],
     [CHR 0xE2, CHR 0x80, CHR 0x86], [CHR 0xE2, CHR 0x80, CHR 0x87],
     [CHR 0xE2, CHR 0x80, CHR 0x88], [CHR 0xE2, CHR 0x80, CHR 0x89],
     [CHR 0xE2, CHR 0x80, CHR 0x8A], [CHR 0xE2, CHR 0x80, CHR 0xA8],
     [CHR 0xE2, CHR 0x80, CHR 0xA9], [CHR 0xE2, CHR 0x80, CHR 0xAF],
     [CHR 0xE2, CHR 0x81, CHR 0x9F], [CHR 0xE3, CHR 0x80, CHR 0x80]]"

text \<open>The length of the space that starts \<open>s\<close>, 0 when none does.\<close>

definition space_len :: "string list \<Rightarrow> string \<Rightarrow> nat" where
  "space_len seqs s = (case find (\<lambda>p. HasPrefix s p) seqs of None \<Rightarrow> 0 | Some p \<Rightarrow> length p)"

lemma space_len_le: "space_len seqs s \<le> length s"
proof (cases "find (\<lambda>p. HasPrefix s p) seqs")
  case None
  then show ?thesis by (simp add: space_len_def)
next
  case (Some p)
  then have "take (length p) s = p"
    by (auto simp: find_Some_iff HasPrefix_def)
  then have "length p \<le> length s"
    by (metis length_take min.cobounded1)
  with Some show ?thesis by (simp add: space_len_def)
qed

function strip :: "string list \<Rightarrow> string \<Rightarrow> string" where
  "strip seqs s = (if space_len seqs s = 0 then s else strip seqs (drop (space_len seqs s) s))"
  by pat_completeness auto
termination
proof (relation "measure (\<lambda>(seqs, s). length s)")
  show "wf (measure (\<lambda>(seqs :: string list, s :: string). length s))" by simp
next
  fix seqs :: "string list" and s :: string
  assume "space_len seqs s \<noteq> 0"
  with space_len_le [of seqs s]
  show "((seqs, drop (space_len seqs s) s), seqs, s) \<in> measure (\<lambda>(seqs, s). length s)"
    by simp
qed

declare strip.simps [simp del]

definition TrimSpace :: "string \<Rightarrow> string" where
  "TrimSpace s = rev (strip (map rev space_seqs) (rev (strip space_seqs s)))"

text \<open>\<open>strings.Split\<close> at a one-byte separator, and \<open>strings.Join\<close>.\<close>

fun Split :: "string \<Rightarrow> char \<Rightarrow> string list" where
  "Split [] c = [[]]"
| "Split (x # xs) c =
     (if x = c then [] # Split xs c
      else case Split xs c of [] \<Rightarrow> [[x]] | y # ys \<Rightarrow> (x # y) # ys)"

fun Join :: "string list \<Rightarrow> string \<Rightarrow> string" where
  "Join [] sep = []"
| "Join [x] sep = x"
| "Join (x # y # ys) sep = x @ sep @ Join (y # ys) sep"

text \<open>\<open>strings.SplitN(s, sep, n)\<close> for \<open>n\<close> at least 1.\<close>

fun SplitN :: "string \<Rightarrow> char \<Rightarrow> nat \<Rightarrow> string list" where
  "SplitN s c 0 = []"
| "SplitN s c (Suc 0) = [s]"
| "SplitN s c (Suc (Suc n)) =
     (if c \<in> set s
      then takeWhile (\<lambda>x. x \<noteq> c) s # SplitN (tl (dropWhile (\<lambda>x. x \<noteq> c) s)) c (Suc n)
      else [s])"

text \<open>\<open>strings.Cut\<close> at the first, and the cut at \<open>strings.LastIndex\<close>, of a one-byte separator.\<close>

definition Cut :: "string \<Rightarrow> char \<Rightarrow> (string \<times> string) option" where
  "Cut s c = (case dropWhile (\<lambda>x. x \<noteq> c) s of
     [] \<Rightarrow> None | _ # rest \<Rightarrow> Some (takeWhile (\<lambda>x. x \<noteq> c) s, rest))"

definition CutLast :: "string \<Rightarrow> char \<Rightarrow> (string \<times> string) option" where
  "CutLast s c = (case Cut (rev s) c of None \<Rightarrow> None | Some (a, b) \<Rightarrow> Some (rev b, rev a))"

text \<open>The idiom \<open>if i := strings.IndexAny(v, cs); i >= 0 { v = v[:i] }\<close>.\<close>

definition before_any :: "string \<Rightarrow> string \<Rightarrow> string" where
  "before_any v cs = takeWhile (\<lambda>c. c \<notin> set cs) v"

text \<open>The idiom \<open>if i := strings.LastIndexAny(v, cs); i >= 0 { v = v[i+1:] }\<close>.\<close>

definition after_last :: "string \<Rightarrow> string \<Rightarrow> string" where
  "after_last v cs = rev (takeWhile (\<lambda>c. c \<notin> set cs) (rev v))"

lemmas [go_simps] = ToLower_def ToUpper_def EqualFold_def HasPrefix_def HasSuffix_def
  TrimPrefix_def TrimSuffix_def Cut_def CutLast_def before_any_def after_last_def

lemma takeWhile_free [simp]: "c \<notin> set v \<Longrightarrow> takeWhile (\<lambda>x. x \<noteq> c) v = v"
  by (auto simp: takeWhile_eq_all_conv)

lemma Split_not_Nil [simp]: "Split s c \<noteq> []"
  by (induction s) (auto split: list.splits)

lemma Join_Cons: "ys \<noteq> [] \<Longrightarrow> Join (x # ys) sep = x @ sep @ Join ys sep"
  by (cases ys) auto

lemma Join_Split [simp]: "Join (Split s c) [c] = s"
proof (induction s)
  case Nil
  then show ?case by simp
next
  case (Cons x xs)
  then show ?case
  proof (cases "x = c")
    case True
    then show ?thesis by (simp add: Join_Cons Cons.IH)
  next
    case False
    obtain y ys where y: "Split xs c = y # ys"
      by (cases "Split xs c") auto
    with Cons.IH False show ?thesis
      by (cases ys) auto
  qed
qed

lemma Split_no_sep: "s' \<in> set (Split s c) \<Longrightarrow> c \<notin> set s'"
  by (induction s arbitrary: s') (auto split: if_splits list.splits)

lemma Split_append_sep: "c \<notin> set x \<Longrightarrow> Split (x @ c # s) c = x # Split s c"
  by (induction x) auto

lemma Split_atom: "c \<notin> set x \<Longrightarrow> Split x c = [x]"
  by (induction x) auto

lemma Split_Join:
  "xs \<noteq> [] \<Longrightarrow> (\<And>x. x \<in> set xs \<Longrightarrow> c \<notin> set x) \<Longrightarrow> Split (Join xs [c]) c = xs"
proof (induction xs)
  case Nil
  then show ?case by simp
next
  case (Cons x xs)
  then show ?case
    by (cases "xs = []") (auto simp: Join_Cons Split_append_sep Split_atom)
qed

lemma Cut_Some: "Cut s c = Some (a, b) \<longleftrightarrow> s = a @ c # b \<and> c \<notin> set a"
proof
  assume "Cut s c = Some (a, b)"
  then obtain x where x: "dropWhile (\<lambda>x. x \<noteq> c) s = x # b" and a: "a = takeWhile (\<lambda>x. x \<noteq> c) s"
    by (auto simp: Cut_def split: list.splits)
  have "x = c"
    using hd_dropWhile [of "\<lambda>x. x \<noteq> c" s] x by simp
  moreover have "s = takeWhile (\<lambda>x. x \<noteq> c) s @ dropWhile (\<lambda>x. x \<noteq> c) s"
    by simp
  ultimately have "s = a @ c # b"
    using x a by simp
  moreover from a have "c \<notin> set a"
    by (auto dest: set_takeWhileD)
  ultimately show "s = a @ c # b \<and> c \<notin> set a" by simp
next
  assume "s = a @ c # b \<and> c \<notin> set a"
  then have "takeWhile (\<lambda>x. x \<noteq> c) s = a" "dropWhile (\<lambda>x. x \<noteq> c) s = c # b"
    by (auto simp: takeWhile_append dropWhile_append)
  then show "Cut s c = Some (a, b)" by (simp add: Cut_def)
qed

lemma CutLast_Some: "CutLast s c = Some (a, b) \<longleftrightarrow> s = a @ c # b \<and> c \<notin> set b"
proof -
  have "CutLast s c = Some (a, b) \<longleftrightarrow> Cut (rev s) c = Some (rev b, rev a)"
    by (auto simp: CutLast_def split: option.splits)
  also have "\<dots> \<longleftrightarrow> rev s = rev b @ c # rev a \<and> c \<notin> set b"
    by (simp add: Cut_Some)
  also have "\<dots> \<longleftrightarrow> s = a @ c # b \<and> c \<notin> set b"
    by (metis (no_types, opaque_lifting) append.assoc append_Cons append_Nil rev.simps(2)
        rev_append rev_rev_ident)
  finally show ?thesis .
qed

lemma HasPrefix_append [simp]: "HasPrefix (p @ s) p"
  by (simp add: HasPrefix_def)

lemma HasPrefix_iff: "HasPrefix s p \<longleftrightarrow> (\<exists>r. s = p @ r)"
  by (metis HasPrefix_def HasPrefix_append append_take_drop_id)

lemma TrimPrefix_append [simp]: "TrimPrefix (p @ s) p = s"
  by (simp add: TrimPrefix_def)

lemma before_any_idem [simp]: "before_any (before_any v cs) cs = before_any v cs"
  by (simp add: before_any_def takeWhile_idem)

text \<open>\<open>TrimSpace\<close> is a projection and commutes with changing the case of letters.\<close>

definition letter_free :: "string list \<Rightarrow> bool" where
  "letter_free seqs \<longleftrightarrow> list_all (\<lambda>p. p \<noteq> [] \<and> list_all (\<lambda>c. \<not> is_upper c \<and> \<not> is_lower c) p) seqs"

lemma letter_free_space_seqs: "letter_free space_seqs" "letter_free (map rev space_seqs)"
  by code_simp+

lemma space_len_0_iff:
  "letter_free seqs \<Longrightarrow> space_len seqs s = 0 \<longleftrightarrow> (\<forall>p\<in>set seqs. \<not> HasPrefix s p)"
  by (auto simp: space_len_def letter_free_def list_all_iff find_None_iff find_Some_iff
      split: option.splits)

lemma space_len_strip [simp]: "space_len seqs (strip seqs s) = 0"
proof (induction seqs s rule: strip.induct)
  case (1 seqs s)
  then show ?case by (cases "space_len seqs s = 0") (simp_all add: strip.simps [of seqs s])
qed

lemma strip_id: "space_len seqs s = 0 \<Longrightarrow> strip seqs s = s"
  by (simp add: strip.simps)

lemma strip_suffix: "\<exists>p. s = p @ strip seqs s"
proof (induction seqs s rule: strip.induct)
  case (1 seqs s)
  show ?case
  proof (cases "space_len seqs s = 0")
    case False
    with 1 obtain p where
      p: "drop (space_len seqs s) s = p @ strip seqs (drop (space_len seqs s) s)" by blast
    have "s = take (space_len seqs s) s @ drop (space_len seqs s) s" by simp
    also have "\<dots> = (take (space_len seqs s) s @ p) @ strip seqs (drop (space_len seqs s) s)"
      by (subst p) simp
    finally show ?thesis using False by (metis strip.simps)
  qed (simp add: strip_id)
qed

lemma HasPrefix_extend: "HasPrefix a p \<Longrightarrow> HasPrefix (a @ b) p"
  by (auto simp: HasPrefix_iff)

lemma TrimSpace_idem [simp]: "TrimSpace (TrimSpace s) = TrimSpace s"
proof -
  define l where "l = strip space_seqs s"
  define r where "r = strip (map rev space_seqs) (rev l)"
  obtain p where "rev l = p @ r" using strip_suffix r_def by blast
  then have l: "l = rev r @ rev p" by (metis rev_append rev_rev_ident)
  have "space_len space_seqs l = 0" by (simp add: l_def)
  then have "space_len space_seqs (rev r) = 0"
    unfolding space_len_0_iff [OF letter_free_space_seqs(1)]
    using l HasPrefix_extend by metis
  moreover have "space_len (map rev space_seqs) r = 0" by (simp add: r_def)
  moreover have "TrimSpace s = rev r" by (simp add: TrimSpace_def l_def r_def)
  ultimately show ?thesis by (simp add: TrimSpace_def strip_id)
qed

lemma lower_byte_letter: "is_upper c \<Longrightarrow> is_lower (lower_byte c)"
proof -
  assume u: "is_upper c"
  then have "65 \<le> (of_char c :: nat)" "of_char c \<le> (90 :: nat)"
    by (simp_all add: is_upper_def less_eq_char_def)
  with u show ?thesis by (simp add: lower_byte_def is_lower_def less_eq_char_def)
qed

lemma upper_byte_letter: "is_lower c \<Longrightarrow> is_upper (upper_byte c)"
proof -
  assume u: "is_lower c"
  then have "97 \<le> (of_char c :: nat)" "of_char c \<le> (122 :: nat)"
    by (simp_all add: is_lower_def less_eq_char_def)
  with u show ?thesis by (simp add: upper_byte_def is_upper_def less_eq_char_def) linarith
qed

text \<open>A byte map that leaves bytes other than letters alone and maps letters to letters.\<close>

definition case_map :: "(char \<Rightarrow> char) \<Rightarrow> bool" where
  "case_map f \<longleftrightarrow> (\<forall>c. f c = c \<or> (is_upper (f c) \<or> is_lower (f c)) \<and> (is_upper c \<or> is_lower c))"

lemma case_map_bytes: "case_map lower_byte" "case_map upper_byte"
  using lower_byte_letter upper_byte_letter
  by (auto simp: case_map_def lower_byte_def upper_byte_def)

lemma case_map_fixes:
  "case_map f \<Longrightarrow> list_all (\<lambda>c. \<not> is_upper c \<and> \<not> is_lower c) p \<Longrightarrow> map f xs = p \<longleftrightarrow> xs = p"
proof (induction xs arbitrary: p)
  case Nil
  then show ?case by auto
next
  case (Cons x xs)
  show ?case
  proof (cases p)
    case (Cons c cs)
    with \<open>list_all _ p\<close> have c: "\<not> is_upper c" "\<not> is_lower c" and cs: "list_all (\<lambda>c. \<not> is_upper c \<and> \<not> is_lower c) cs"
      by simp_all
    have "f x = c \<longleftrightarrow> x = c"
      using \<open>case_map f\<close> c unfolding case_map_def by metis
    with Cons.IH [OF \<open>case_map f\<close> cs] Cons show ?thesis by simp
  qed simp
qed

lemma HasPrefix_case_map:
  "case_map f \<Longrightarrow> list_all (\<lambda>c. \<not> is_upper c \<and> \<not> is_lower c) p \<Longrightarrow>
   HasPrefix (map f s) p = HasPrefix s p"
  by (simp add: HasPrefix_def take_map case_map_fixes)

lemma space_len_case_map:
  assumes "case_map f" and "letter_free seqs"
  shows "space_len seqs (map f s) = space_len seqs s"
proof -
  have "find (HasPrefix (map f s)) seqs = find (HasPrefix s) seqs"
    using assms(2)
    by (intro find_cong) (simp_all add: HasPrefix_case_map [OF assms(1)] letter_free_def list_all_iff)
  then show ?thesis by (simp add: space_len_def)
qed

lemma strip_case_map:
  "case_map f \<Longrightarrow> letter_free seqs \<Longrightarrow> strip seqs (map f s) = map f (strip seqs s)"
proof (induction seqs s rule: strip.induct)
  case (1 seqs s)
  have eq: "space_len seqs (map f s) = space_len seqs s"
    by (rule space_len_case_map [OF "1.prems"])
  show ?case
  proof (cases "space_len seqs s = 0")
    case True
    with eq show ?thesis by (simp add: strip_id)
  next
    case False
    then show ?thesis
      using "1.IH" [OF False "1.prems"] eq
      by (simp add: strip.simps [of seqs "map f s"] strip.simps [of seqs s] drop_map)
  qed
qed

lemma TrimSpace_case:
  "TrimSpace (ToLower s) = ToLower (TrimSpace s)" "TrimSpace (ToUpper s) = ToUpper (TrimSpace s)"
  by (simp_all add: TrimSpace_def ToLower_def ToUpper_def case_map_bytes letter_free_space_seqs
      strip_case_map rev_map)

section \<open>strconv.Atoi\<close>

definition dec_val :: "string \<Rightarrow> int" where
  "dec_val ds = foldl (\<lambda>a c. 10 * a + digit_val c) 0 ds"

text \<open>\<open>None\<close> is a syntax error; the value is unbounded here.\<close>

definition parse_int :: "string \<Rightarrow> int option" where
  "parse_int s =
     (let neg = HasPrefix s ''-'';
          ds = (if HasPrefix s ''-'' \<or> HasPrefix s ''+'' then drop 1 s else s)
      in if ds = [] \<or> \<not> list_all is_digit ds then None
         else Some (if neg then - dec_val ds else dec_val ds))"

text \<open>
  \<open>Atoi\<close> gives the value and whether the error is nil: a syntax error returns 0, a value out of
  range is clamped to the end of the range.
\<close>

definition Atoi :: "string \<Rightarrow> int \<times> bool" where
  "Atoi s = (case parse_int s of
     None \<Rightarrow> (0, False)
   | Some n \<Rightarrow> if n < min_int64 then (min_int64, False)
               else if max_int64 < n then (max_int64, False) else (n, True))"

lemma Atoi_in_int64: "in_int64 (fst (Atoi s))"
  by (auto simp: Atoi_def in_int64_def min_int64_def max_int64_def split: option.splits)

section \<open>sort.Slice\<close>

fun insert_by :: "('a \<Rightarrow> 'a \<Rightarrow> bool) \<Rightarrow> 'a \<Rightarrow> 'a list \<Rightarrow> 'a list" where
  "insert_by lt x [] = [x]"
| "insert_by lt x (y # ys) = (if lt y x then y # insert_by lt x ys else x # y # ys)"

definition sort_by :: "('a \<Rightarrow> 'a \<Rightarrow> bool) \<Rightarrow> 'a list \<Rightarrow> 'a list" where
  "sort_by lt xs = foldr (insert_by lt) xs []"

lemma mset_insert_by [simp]: "mset (insert_by lt x ys) = add_mset x (mset ys)"
  by (induction ys) auto

lemma mset_sort_by [simp]: "mset (sort_by lt xs) = mset xs"
  by (induction xs) (auto simp: sort_by_def)

lemma set_sort_by [simp]: "set (sort_by lt xs) = set xs"
  by (metis mset_sort_by set_mset_mset)

lemma length_sort_by [simp]: "length (sort_by lt xs) = length xs"
  by (metis mset_sort_by size_mset)

lemma distinct_sort_by [simp]: "distinct (sort_by lt xs) = distinct xs"
  by (metis mset_sort_by mset_eq_imp_distinct_iff)

text \<open>
  The contract of the \<open>less\<close> argument of \<open>sort.Slice\<close>: a strict weak order.  Every comparison
  function handed to a sort in this development is interpreted as an instance.
\<close>

locale strict_weak =
  fixes lt :: "'a \<Rightarrow> 'a \<Rightarrow> bool"
  assumes asym: "lt x y \<Longrightarrow> \<not> lt y x"
    and neg_trans: "lt x z \<Longrightarrow> lt x y \<or> lt y z"
begin

lemma irrefl: "\<not> lt x x"
  using asym by blast

lemma trans: "lt x y \<Longrightarrow> lt y z \<Longrightarrow> lt x z"
  using asym neg_trans by blast

lemma not_less_trans: "\<not> lt y x \<Longrightarrow> \<not> lt z y \<Longrightarrow> \<not> lt z x"
  using neg_trans by blast

lemma sorted_insert_by:
  "sorted_wrt (\<lambda>a b. \<not> lt b a) ys \<Longrightarrow> sorted_wrt (\<lambda>a b. \<not> lt b a) (insert_by lt x ys)"
proof (induction ys)
  case Nil
  then show ?case by simp
next
  case (Cons y ys)
  show ?case
  proof (cases "lt y x")
    case True
    have "\<not> lt z y" if "z \<in> set (insert_by lt x ys)" for z
    proof -
      from that have "z = x \<or> z \<in> set ys"
        by (metis insert_iff mset_insert_by set_mset_add_mset_insert set_mset_mset)
      then show ?thesis
        using Cons.prems True asym by auto
    qed
    with True Cons show ?thesis by simp
  next
    case False
    with Cons.prems show ?thesis
      using not_less_trans by auto
  qed
qed

theorem sorted_sort_by: "sorted_wrt (\<lambda>a b. \<not> lt b a) (sort_by lt xs)"
  unfolding sort_by_def by (induction xs) (auto intro: sorted_insert_by)

end

text \<open>A strict total order: the sorted list depends on the elements only, not on their order.\<close>

locale strict_total = strict_weak +
  assumes total: "x \<noteq> y \<Longrightarrow> lt x y \<or> lt y x"
begin

lemma sorted_unique:
  "sorted_wrt (\<lambda>a b. \<not> lt b a) xs \<Longrightarrow> sorted_wrt (\<lambda>a b. \<not> lt b a) ys \<Longrightarrow>
   mset xs = mset ys \<Longrightarrow> xs = ys"
proof (induction xs arbitrary: ys)
  case Nil
  then show ?case by simp
next
  case (Cons x xs)
  then obtain y ys' where ys: "ys = y # ys'"
    by (cases ys) auto
  have "x = y"
  proof (rule ccontr)
    assume "x \<noteq> y"
    have "y \<in> set (x # xs)" "x \<in> set ys"
      using Cons.prems(3) ys by (metis list.set_intros(1) set_mset_mset)+
    with \<open>x \<noteq> y\<close> Cons.prems(1,2) ys have "\<not> lt y x" "\<not> lt x y" by auto
    with total \<open>x \<noteq> y\<close> show False by blast
  qed
  with Cons ys show ?case by auto
qed

theorem sort_by_mset_cong: "mset xs = mset ys \<Longrightarrow> sort_by lt xs = sort_by lt ys"
  by (rule sorted_unique) (simp_all add: sorted_sort_by)

end

text \<open>Go's order on strings is such an order, so is the comparison of tuples field by field.\<close>

interpretation go_string_less: strict_total "(<) :: string \<Rightarrow> string \<Rightarrow> bool"
  by unfold_locales auto

section \<open>Three-way comparison functions\<close>

text \<open>
  The contract of a comparison that returns \<open>-1\<close>, \<open>0\<close> or \<open>1\<close>: a total preorder.  Comparing with
  \<open>< 0\<close> is then a legal \<open>less\<close> argument for \<open>sort.Slice\<close>.
\<close>

locale comparator =
  fixes cmp :: "'a \<Rightarrow> 'a \<Rightarrow> int"
  assumes range: "cmp x y \<in> {-1, 0, 1}"
    and swap: "cmp y x = - cmp x y"
    and le_trans: "cmp x y \<le> 0 \<Longrightarrow> cmp y z \<le> 0 \<Longrightarrow> cmp x z \<le> 0"
begin

lemma refl [simp]: "cmp x x = 0"
  using swap [of x x] by simp

lemma less_le_trans: "cmp x y < 0 \<Longrightarrow> cmp y z \<le> 0 \<Longrightarrow> cmp x z < 0"
  using le_trans [of y z x] swap [of x y] swap [of x z] le_trans [of x y z] by force

lemma le_less_trans: "cmp x y \<le> 0 \<Longrightarrow> cmp y z < 0 \<Longrightarrow> cmp x z < 0"
  using le_trans [of z x y] swap [of y z] swap [of x z] le_trans [of x y z] by force

lemma eq_trans: "cmp x y = 0 \<Longrightarrow> cmp y z = 0 \<Longrightarrow> cmp x z = 0"
  using le_trans [of x y z] le_trans [of z y x] swap [of x y] swap [of y z] swap [of x z] by simp

lemma zero_cong: "cmp x y = 0 \<Longrightarrow> cmp x z = cmp y z"
  using range [of x z] range [of y z] less_le_trans [of x z y] less_le_trans [of y z x]
    le_less_trans [of x y z] le_less_trans [of y x z] le_trans [of x y z] le_trans [of y x z]
    swap [of x y] swap [of x z] swap [of y z] eq_trans [of x y z] eq_trans [of y x z]
  by auto

end

sublocale comparator \<subseteq> strict_weak "\<lambda>x y. cmp x y < 0"
proof unfold_locales
  fix x y
  show "cmp x y < 0 \<Longrightarrow> \<not> cmp y x < 0" using swap [of x y] by simp
next
  fix x y z
  assume "cmp x z < 0"
  then show "cmp x y < 0 \<or> cmp y z < 0"
    using le_trans [of z y x] swap [of x y] swap [of y z] swap [of x z] by fastforce
qed

definition cmp3 :: "'a::linorder \<Rightarrow> 'a \<Rightarrow> int" where
  "cmp3 a b = (if a < b then -1 else if b < a then 1 else 0)"

lemma cmp3_less [simp]: "a < b \<Longrightarrow> cmp3 a b = -1"
  and cmp3_greater [simp]: "b < a \<Longrightarrow> cmp3 a b = 1"
  and cmp3_same [simp]: "cmp3 a a = 0"
  by (auto simp: cmp3_def)

lemma comparator_cmp3: "comparator (\<lambda>x y. cmp3 (key x) (key y))"
  by unfold_locales (auto simp: cmp3_def split: if_splits)

lemma comparator_comp: "comparator cmp \<Longrightarrow> comparator (\<lambda>x y. cmp (f x) (f y))"
  unfolding comparator_def by blast

definition lex2 :: "('a \<Rightarrow> 'a \<Rightarrow> int) \<Rightarrow> ('a \<Rightarrow> 'a \<Rightarrow> int) \<Rightarrow> 'a \<Rightarrow> 'a \<Rightarrow> int" where
  "lex2 c d x y = (if c x y \<noteq> 0 then c x y else d x y)"

lemma comparator_lex2:
  assumes "comparator c" and "comparator d"
  shows "comparator (lex2 c d)"
proof -
  note c = assms(1) and d = assms(2)
  show ?thesis
  proof unfold_locales
    fix x y
    show "lex2 c d x y \<in> {-1, 0, 1}"
      using comparator.range [OF c, of x y] comparator.range [OF d, of x y]
      by (auto simp: lex2_def)
    show "lex2 c d y x = - lex2 c d x y"
      using comparator.swap [OF c, of x y] comparator.swap [OF d, of x y] by (simp add: lex2_def)
  next
    fix x y z
    assume xy: "lex2 c d x y \<le> 0" and yz: "lex2 c d y z \<le> 0"
    then have le: "c x y \<le> 0" "c y z \<le> 0" by (auto simp: lex2_def split: if_splits)
    show "lex2 c d x z \<le> 0"
    proof (cases "c x y = 0 \<and> c y z = 0")
      case True
      with xy yz show ?thesis
        using comparator.eq_trans [OF c, of x y z] comparator.le_trans [OF d, of x y z]
        by (simp add: lex2_def)
    next
      case False
      with le have "c x z < 0"
        using comparator.less_le_trans [OF c, of x y z] comparator.le_less_trans [OF c, of x y z]
        by force
      then show ?thesis by (simp add: lex2_def)
    qed
  qed
qed

text \<open>
  Lists compared position by position, the shorter one extended with a padding element: the loop
  \<open>for i := 0; i < len(as) || i < len(bs); i++\<close> of the version comparisons.
\<close>

definition hd_pad :: "'a \<Rightarrow> 'a list \<Rightarrow> 'a" where
  "hd_pad p xs = (case xs of [] \<Rightarrow> p | x # _ \<Rightarrow> x)"

function padlex :: "('a \<Rightarrow> 'a \<Rightarrow> int) \<Rightarrow> 'a \<Rightarrow> 'a list \<Rightarrow> 'a list \<Rightarrow> int" where
  "padlex cmp p xs ys =
     (if xs = [] \<and> ys = [] then 0
      else if cmp (hd_pad p xs) (hd_pad p ys) \<noteq> 0 then cmp (hd_pad p xs) (hd_pad p ys)
      else padlex cmp p (tl xs) (tl ys))"
  by pat_completeness auto
termination
proof (relation "measure (\<lambda>(cmp, p, xs, ys). length xs + length ys)")
  fix cmp :: "'a \<Rightarrow> 'a \<Rightarrow> int" and p :: 'a and xs ys :: "'a list"
  assume "\<not> (xs = [] \<and> ys = [])"
  then have "0 < length xs + length ys" by auto
  then show "((cmp, p, tl xs, tl ys), cmp, p, xs, ys)
      \<in> measure (\<lambda>(cmp, p, xs, ys). length xs + length ys)"
    by (cases xs; cases ys) auto
qed simp

declare padlex.simps [simp del]

lemma padlex_Nil [simp]: "padlex cmp p [] [] = 0"
  by (subst padlex.simps) simp

context comparator
begin

lemma padlex_unfold:
  "padlex cmp p xs ys =
     (if cmp (hd_pad p xs) (hd_pad p ys) \<noteq> 0 then cmp (hd_pad p xs) (hd_pad p ys)
      else padlex cmp p (tl xs) (tl ys))"
proof (cases "xs = [] \<and> ys = []")
  case True
  then show ?thesis by (simp add: hd_pad_def padlex_Nil)
next
  case False
  then show ?thesis by (subst padlex.simps) (simp only: if_False)
qed

lemma padlex_range: "padlex cmp p xs ys \<in> {-1, 0, 1}"
proof (induction "length xs + length ys" arbitrary: xs ys rule: less_induct)
  case less
  show ?case
  proof (cases "xs = [] \<and> ys = []")
    case False
    then have "length (tl xs) + length (tl ys) < length xs + length ys"
      by (cases xs; cases ys; simp)
    then have "padlex cmp p (tl xs) (tl ys) \<in> {-1, 0, 1}" by (rule less)
    then show ?thesis
      using range [of "hd_pad p xs" "hd_pad p ys"] by (auto simp: padlex_unfold [of p xs ys])
  qed simp
qed

lemma padlex_swap: "padlex cmp p ys xs = - padlex cmp p xs ys"
proof (induction "length xs + length ys" arbitrary: xs ys rule: less_induct)
  case less
  show ?case
  proof (cases "xs = [] \<and> ys = []")
    case False
    then have "length (tl xs) + length (tl ys) < length xs + length ys"
      by (cases xs; cases ys; simp)
    then have "padlex cmp p (tl ys) (tl xs) = - padlex cmp p (tl xs) (tl ys)"
      by (rule less)
    then show ?thesis
      using swap [of "hd_pad p xs" "hd_pad p ys"]
      by (simp add: padlex_unfold [of p xs ys] padlex_unfold [of p ys xs])
  qed simp
qed

lemma padlex_le_trans:
  "padlex cmp p xs ys \<le> 0 \<Longrightarrow> padlex cmp p ys zs \<le> 0 \<Longrightarrow> padlex cmp p xs zs \<le> 0"
proof (induction "length xs + length ys + length zs" arbitrary: xs ys zs rule: less_induct)
  case less
  show ?case
  proof (cases "xs = [] \<and> ys = [] \<and> zs = []")
    case False
    define x y z where "x = hd_pad p xs" and "y = hd_pad p ys" and "z = hd_pad p zs"
    note un = padlex_unfold [of p xs ys] padlex_unfold [of p ys zs] padlex_unfold [of p xs zs]
    from False have tls:
      "length (tl xs) + length (tl ys) + length (tl zs) < length xs + length ys + length zs"
      by (cases xs; cases ys; cases zs; simp)
    from less.prems have le: "cmp x y \<le> 0" "cmp y z \<le> 0"
      by (auto simp: un x_def y_def z_def split: if_splits)
    show ?thesis
    proof (cases "cmp x y = 0 \<and> cmp y z = 0")
      case True
      with less.prems less.hyps [OF tls] eq_trans [of x y z] show ?thesis
        by (simp add: un x_def y_def z_def)
    next
      case False
      with le have "cmp x z < 0"
        using less_le_trans [of x y z] le_less_trans [of x y z] by force
      then show ?thesis by (simp add: un x_def z_def)
    qed
  qed simp
qed

lemma comparator_padlex: "comparator (padlex cmp p)"
  by unfold_locales (use padlex_range padlex_swap padlex_le_trans in blast)+

end

section \<open>Maps\<close>

type_synonym ('k, 'v) gomap = "('k \<times> 'v) list"

definition wf_map :: "('k, 'v) gomap \<Rightarrow> bool" where
  "wf_map m \<longleftrightarrow> distinct (map fst m)"

text \<open>\<open>m[k]\<close> with the zero value \<open>z\<close> of the element type.\<close>

definition get :: "'v \<Rightarrow> ('k, 'v) gomap \<Rightarrow> 'k \<Rightarrow> 'v" where
  "get z m k = (case map_of m k of None \<Rightarrow> z | Some v \<Rightarrow> v)"

lemma wf_map_Nil [simp]: "wf_map []"
  by (simp add: wf_map_def)

lemma wf_map_update [simp]: "wf_map m \<Longrightarrow> wf_map (AList.update k v m)"
  by (simp add: wf_map_def distinct_update)

lemma get_update [simp]: "get z (AList.update k v m) k' = (if k' = k then v else get z m k')"
  by (simp add: get_def update_conv')

lemma get_Nil [simp]: "get z [] k = z"
  by (simp add: get_def)

lemma dom_update [simp]: "fst ` set (AList.update k v m) = insert k (fst ` set m)"
  by (simp add: dom_update)

text \<open>Two iteration orders of one map: the same lookups.\<close>

lemma wf_map_mset: "wf_map m \<Longrightarrow> mset m = mset m' \<Longrightarrow> wf_map m'"
  unfolding wf_map_def by (metis mset_eq_imp_distinct_iff mset_map)

lemma map_of_mset: "wf_map m \<Longrightarrow> mset m = mset m' \<Longrightarrow> map_of m = map_of m'"
  using map_of_inject_set [of m m'] wf_map_mset [of m m'] mset_eq_setD [of m m']
  by (simp add: wf_map_def)

lemma get_mset: "wf_map m \<Longrightarrow> mset m = mset m' \<Longrightarrow> get z m = get z m'"
  by (rule ext) (simp add: get_def map_of_mset [of m m'])

end
