(* ===== verification/Versions.thy ===== *)
theory Versions
  imports Prelude "HOL-Library.Product_Lexorder"
begin

text \<open>
  Package coordinates and version order: \<open>src/internal/domain/purl.go\<close>.  A \<open>PURL\<close> is a record
  of its three strings, \<open>ParsePURL\<close> returns an error or a coordinate, and the version functions
  work on the raw version string as the source does.  The theory shows that canonical
  coordinates survive printing and parsing, and that \<open>CompareVersions\<close> is a total preorder, so
  sorting measured versions with it is well defined up to ties.
\<close>

section \<open>Coordinates\<close>

record PURL =
  pEcosystem :: string
  pName :: string
  pVersion :: string

definition AllowedEcosystems :: "string list" where
  "AllowedEcosystems = [''npm'', ''pypi'', ''cargo'', ''golang'', ''maven'', ''composer'',
     ''gem'', ''hex'', ''pub'']"

definition VerifiableEcosystems :: "string list" where
  "VerifiableEcosystems = sort_by (<) AllowedEcosystems"

definition CanonicalVersion :: "string \<Rightarrow> string \<Rightarrow> string" where
  "CanonicalVersion ecosystem version =
     (if ecosystem \<noteq> ''golang'' \<or> version = [] \<or> HasPrefix version ''v'' then version
      else if \<not> is_digit (hd version) then version
      else ''v'' @ version)"

text \<open>\<open>net/url.PathUnescape\<close>: every \<open>%\<close> must be followed by two hexadecimal digits.\<close>

definition hex_val :: "char \<Rightarrow> nat option" where
  "hex_val c =
     (if is_digit c then Some (of_char c - 48)
      else if CHR ''a'' \<le> c \<and> c \<le> CHR ''f'' then Some (of_char c - 87)
      else if CHR ''A'' \<le> c \<and> c \<le> CHR ''F'' then Some (of_char c - 55)
      else None)"

fun PathUnescape :: "string \<Rightarrow> string option" where
  "PathUnescape [] = Some []"
| "PathUnescape (c # cs) =
     (if c = CHR ''%'' then
        (case cs of
           a # b # rest \<Rightarrow>
             (case (hex_val a, hex_val b) of
                (Some x, Some y) \<Rightarrow> map_option (Cons (char_of (16 * x + y))) (PathUnescape rest)
              | _ \<Rightarrow> None)
         | _ \<Rightarrow> None)
      else map_option (Cons c) (PathUnescape cs))"

datatype purl_error = MissingPrefix | MissingEcosystemOrName | MissingVersion
  | EmptyNameOrVersion | BadEscaping

definition ParsePURL :: "string \<Rightarrow> purl_error + PURL" where
  "ParsePURL s =
     (if \<not> HasPrefix s ''pkg:'' then Inl MissingPrefix
      else case Cut (drop 4 s) CHR ''/'' of
        None \<Rightarrow> Inl MissingEcosystemOrName
      | Some (eco0, rest) \<Rightarrow>
          if eco0 = [] \<or> rest = [] then Inl MissingEcosystemOrName
          else let eco = ToLower eco0 in
            (case CutLast rest CHR ''@'' of
               None \<Rightarrow> Inl MissingVersion
             | Some (name, version) \<Rightarrow>
                 if name = [] then Inl MissingVersion
                 else if version = [] \<or> HasSuffix name ''/'' then Inl EmptyNameOrVersion
                 else (case PathUnescape name of
                         None \<Rightarrow> Inl BadEscaping
                       | Some decoded \<Rightarrow>
                           Inr \<lparr>pEcosystem = eco, pName = decoded,
                                pVersion = CanonicalVersion eco version\<rparr>)))"

definition PURL_String :: "PURL \<Rightarrow> string" where
  "PURL_String p =
     (let name = (if HasPrefix (pName p) ''@'' then ''%40'' @ drop 1 (pName p) else pName p)
      in ''pkg:'' @ pEcosystem p @ ''/'' @ name @ ''@'' @ pVersion p)"

definition concrete_byte :: "char \<Rightarrow> bool" where
  "concrete_byte c \<longleftrightarrow> is_digit c \<or> is_lower c \<or> is_upper c \<or>
     c \<in> {CHR ''.'', CHR ''_'', CHR ''-'', CHR ''+'', CHR ''!''}"

definition ConcreteResolvedVersion :: "string \<Rightarrow> bool" where
  "ConcreteResolvedVersion v \<longleftrightarrow>
     v \<noteq> [] \<and> TrimSpace v = v \<and> list_all concrete_byte v \<and> list_ex is_digit v"

definition AnyVersionPattern :: "PURL \<Rightarrow> string" where
  "AnyVersionPattern p =
     PURL_String \<lparr>pEcosystem = pEcosystem p, pName = pName p, pVersion = ''%''\<rparr>"

section \<open>Version buckets\<close>

definition versionSegments :: "PURL \<Rightarrow> string list" where
  "versionSegments p = Split (before_any (pVersion p) ''-+'') CHR ''.''"

definition Major :: "PURL \<Rightarrow> string" where
  "Major p =
     (let seg = hd (versionSegments p)
      in if pEcosystem p = ''golang'' \<and> \<not> HasPrefix seg ''v'' then ''v'' @ seg else seg)"

definition BreakingBucket :: "PURL \<Rightarrow> string" where
  "BreakingBucket p =
     (let segs = versionSegments p
      in if segs = [] then []
         else if hd segs \<noteq> ''0'' \<and> hd segs \<noteq> ''v0'' then Major p
         else if length segs < 2 then Major p
         else Major p @ ''.'' @ segs ! 1)"

definition MajorMinor :: "PURL \<Rightarrow> string" where
  "MajorMinor p =
     (let segs = versionSegments p
      in if length segs < 2 then Major p else Major p @ ''.'' @ segs ! 1)"

section \<open>Version order\<close>

definition leadingRun :: "string \<Rightarrow> string \<times> string" where
  "leadingRun s =
     (takeWhile (\<lambda>c. is_digit c = is_digit (hd s)) s,
      dropWhile (\<lambda>c. is_digit c = is_digit (hd s)) s)"

lemma leadingRun_decreases: "s \<noteq> [] \<Longrightarrow> length (snd (leadingRun s)) < length s"
proof -
  assume "s \<noteq> []"
  then obtain c cs where s: "s = c # cs" by (cases s) auto
  have "length (dropWhile (\<lambda>d. is_digit d = is_digit c) cs) \<le> length cs"
    by (rule length_dropWhile_le)
  with s show ?thesis by (simp add: leadingRun_def)
qed

text \<open>One pair of leading runs: both digits compare by value, otherwise bytewise.\<close>

definition compareRun :: "string \<Rightarrow> string \<Rightarrow> int" where
  "compareRun xr yr =
     (if is_digit (hd xr) \<and> is_digit (hd yr)
      then (let xi = fst (Atoi xr); yi = fst (Atoi yr)
            in if xi \<noteq> yi then (if xi < yi then -1 else 1) else 0)
      else if xr \<noteq> yr then (if xr < yr then -1 else 1)
      else 0)"

function compareMixed :: "string \<Rightarrow> string \<Rightarrow> int" where
  "compareMixed x y =
     (if x \<noteq> [] \<and> y \<noteq> [] then
        (let c = compareRun (fst (leadingRun x)) (fst (leadingRun y))
         in if c \<noteq> 0 then c else compareMixed (snd (leadingRun x)) (snd (leadingRun y)))
      else if x = [] \<and> y = [] then 0
      else if x = [] then -1
      else 1)"
  by pat_completeness auto
termination
  by (relation "measure (\<lambda>(x, y). length x)") (auto intro: leadingRun_decreases)

declare compareMixed.simps [simp del]

definition compareSegment :: "string \<Rightarrow> string \<Rightarrow> int" where
  "compareSegment x y =
     (if x = y then 0
      else if x = [] then -1
      else if y = [] then 1
      else (case (Atoi x, Atoi y) of
        ((xi, xok), (yi, yok)) \<Rightarrow>
          if xok \<and> yok then (if xi \<noteq> yi then (if xi < yi then -1 else 1) else 0)
          else if xok then 1
          else if yok then -1
          else compareMixed x y))"

definition compareSegments :: "string \<Rightarrow> string \<Rightarrow> int" where
  "compareSegments a b = padlex compareSegment [] (Split a CHR ''.'') (Split b CHR ''.'')"

definition coreVersion :: "string \<Rightarrow> string" where
  "coreVersion v = before_any (TrimPrefix (TrimSpace v) ''v'') ''-+''"

definition preRelease :: "string \<Rightarrow> string" where
  "preRelease v =
     (let w = before_any (TrimPrefix (TrimSpace v) ''v'') ''+''
      in case Cut w CHR ''-'' of None \<Rightarrow> [] | Some (_, suffix) \<Rightarrow> suffix)"

definition comparePre :: "string \<Rightarrow> string \<Rightarrow> int" where
  "comparePre ap bp =
     (if ap = [] \<and> bp = [] then 0
      else if ap = [] then 1
      else if bp = [] then -1
      else compareSegments ap bp)"

definition CompareVersions :: "string \<Rightarrow> string \<Rightarrow> int" where
  "CompareVersions a b =
     (let c = compareSegments (coreVersion a) (coreVersion b)
      in if c \<noteq> 0 then c else comparePre (preRelease a) (preRelease b))"

section \<open>The comparison is a total preorder\<close>

text \<open>
  A run is ranked by its class, its value and its bytes; the runs of a segment are compared
  position by position with the empty run as padding.
\<close>

definition run_key :: "string \<Rightarrow> nat \<times> int \<times> string" where
  "run_key r =
     (if r = [] then (0, 0, [])
      else if is_digit (hd r) then (49, fst (Atoi r), [])
      else (Suc (of_char (hd r)), 0, r))"

function runs :: "string \<Rightarrow> string list" where
  "runs s = (if s = [] then [] else fst (leadingRun s) # runs (snd (leadingRun s)))"
  by pat_completeness auto
termination
  by (relation "measure length") (auto intro: leadingRun_decreases)

declare runs.simps [simp del]

lemma digit_code: "is_digit c \<longleftrightarrow> (48 :: nat) \<le> of_char c \<and> of_char c \<le> (57 :: nat)"
  by (simp add: is_digit_def less_eq_char_def)

lemma string_less_hd:
  "x \<noteq> [] \<Longrightarrow> y \<noteq> [] \<Longrightarrow> (of_char (hd x) :: nat) < of_char (hd y) \<Longrightarrow> (x :: string) < y"
  by (cases x; cases y; simp add: less_char_def)

lemma compareRun_bytes:
  "\<not> (is_digit (hd x) \<and> is_digit (hd y)) \<Longrightarrow> compareRun x y = cmp3 x y"
  by (auto simp: compareRun_def cmp3_def not_less_iff_gr_or_eq)

lemma compareRun_key:
  assumes "x \<noteq> []" and "y \<noteq> []"
  shows "compareRun x y = cmp3 (run_key x) (run_key y)"
proof (cases "is_digit (hd x) = is_digit (hd y)")
  case True
  show ?thesis
  proof (cases "is_digit (hd x)")
    case True
    with \<open>is_digit (hd x) = is_digit (hd y)\<close> assms show ?thesis
      by (auto simp: compareRun_def run_key_def cmp3_def Let_def)
  next
    case False
    have "(of_char (hd x) :: nat) < of_char (hd y) \<Longrightarrow> x < y"
      "(of_char (hd y) :: nat) < of_char (hd x) \<Longrightarrow> y < x"
      using assms string_less_hd by blast+
    moreover from False \<open>is_digit (hd x) = is_digit (hd y)\<close>
    have "run_key x = (Suc (of_char (hd x)), 0, x)" "run_key y = (Suc (of_char (hd y)), 0, y)"
      using assms by (simp_all add: run_key_def)
    moreover have "compareRun x y = cmp3 x y"
      using False by (simp add: compareRun_bytes)
    ultimately show ?thesis
      by (cases "(of_char (hd x) :: nat) < of_char (hd y)";
          cases "(of_char (hd y) :: nat) < of_char (hd x)")
        (simp_all add: cmp3_def order.asym)
  qed
next
  case False
  consider (xd) "is_digit (hd x)" "\<not> is_digit (hd y)" | (yd) "\<not> is_digit (hd x)" "is_digit (hd y)"
    using False by blast
  then show ?thesis
  proof cases
    case xd
    have "x < y \<and> run_key x < run_key y \<or> y < x \<and> run_key y < run_key x"
      using xd assms string_less_hd [of x y] string_less_hd [of y x]
      by (cases "(of_char (hd y) :: nat) < 48") (simp_all add: run_key_def digit_code)
    with xd show ?thesis using compareRun_bytes [of x y] by auto
  next
    case yd
    have "x < y \<and> run_key x < run_key y \<or> y < x \<and> run_key y < run_key x"
      using yd assms string_less_hd [of x y] string_less_hd [of y x]
      by (cases "(of_char (hd x) :: nat) < 48") (simp_all add: run_key_def digit_code)
    with yd show ?thesis using compareRun_bytes [of x y] by auto
  qed
qed

lemma run_nonempty: "s \<noteq> [] \<Longrightarrow> fst (leadingRun s) \<noteq> []"
  by (cases s) (simp_all add: leadingRun_def)

abbreviation run_cmp :: "string \<Rightarrow> string \<Rightarrow> int" where
  "run_cmp \<equiv> \<lambda>x y. cmp3 (run_key x) (run_key y)"

interpretation run_order: comparator run_cmp
  by (rule comparator_cmp3)

lemma run_key_pos: "r \<noteq> [] \<Longrightarrow> run_key [] < run_key r"
  by (simp add: run_key_def)

lemma compareMixed_runs: "compareMixed x y = padlex run_cmp [] (runs x) (runs y)"
proof (induction x y rule: compareMixed.induct)
  case (1 x y)
  show ?case
  proof (cases "x \<noteq> [] \<and> y \<noteq> []")
    case True
    then have ne: "fst (leadingRun x) \<noteq> []" "fst (leadingRun y) \<noteq> []" by (simp_all add: run_nonempty)
    have r: "runs x = fst (leadingRun x) # runs (snd (leadingRun x))"
      "runs y = fst (leadingRun y) # runs (snd (leadingRun y))"
      using True by (simp_all add: runs.simps [of x] runs.simps [of y])
    show ?thesis
      using "1" True compareRun_key [OF ne]
      by (subst compareMixed.simps, subst run_order.padlex_unfold)
        (simp add: r hd_pad_def Let_def)
  next
    case False
    have key: "\<And>s. s \<noteq> [] \<Longrightarrow> run_key [] < run_key (fst (leadingRun s))"
      by (simp add: run_key_pos run_nonempty)
    show ?thesis
    proof (cases "x = []"; cases "y = []")
      assume "x = []" "y = []"
      then show ?thesis by (simp add: compareMixed.simps runs.simps)
    next
      assume "x = []" "y \<noteq> []"
      with key [of y] show ?thesis
        by (subst compareMixed.simps, subst run_order.padlex_unfold)
          (simp add: runs.simps [of y] runs.simps [of "[]"] hd_pad_def cmp3_def)
    next
      assume "x \<noteq> []" "y = []"
      with key [of x] show ?thesis
        by (subst compareMixed.simps, subst run_order.padlex_unfold)
          (simp add: runs.simps [of x] runs.simps [of "[]"] hd_pad_def cmp3_def)
    next
      assume "x \<noteq> []" "y \<noteq> []"
      with False show ?thesis by simp
    qed
  qed
qed

interpretation mixed_order: comparator compareMixed
proof -
  have "compareMixed = (\<lambda>x y. padlex run_cmp [] (runs x) (runs y))"
    by (intro ext) (rule compareMixed_runs)
  moreover have "comparator (\<lambda>x y. padlex run_cmp [] (runs x) (runs y))"
    by (rule comparator_comp, rule run_order.comparator_padlex)
  ultimately show "comparator compareMixed" by (simp only:)
qed

text \<open>A segment is empty, alphanumeric or a number, in this order.\<close>

definition seg_class :: "string \<Rightarrow> nat \<times> int" where
  "seg_class x =
     (if x = [] then (0, 0) else if snd (Atoi x) then (2, fst (Atoi x)) else (1, 0))"

lemma compareSegment_class:
  "compareSegment x y =
     (if seg_class x < seg_class y then -1 else if seg_class y < seg_class x then 1
      else if fst (seg_class x) = 1 then compareMixed x y else 0)"
  by (auto simp: compareSegment_def seg_class_def split: prod.splits)

interpretation segment_order: comparator compareSegment
proof unfold_locales
  fix x y
  show "compareSegment x y \<in> {-1, 0, 1}"
    using mixed_order.range [of x y] by (simp add: compareSegment_class)
  show "compareSegment y x = - compareSegment x y"
    using mixed_order.swap [of x y] by (auto simp: compareSegment_class)
next
  fix x y z
  assume "compareSegment x y \<le> 0" and "compareSegment y z \<le> 0"
  then show "compareSegment x z \<le> 0"
    using mixed_order.le_trans [of x y z]
    by (cases "seg_class x = seg_class y"; cases "seg_class y = seg_class z")
      (auto simp: compareSegment_class split: if_splits)
qed

interpretation segments_order: comparator compareSegments
proof -
  have "compareSegments =
      (\<lambda>a b. padlex compareSegment [] (Split a CHR ''.'') (Split b CHR ''.''))"
    by (intro ext) (rule compareSegments_def)
  moreover have "comparator
      (\<lambda>a b. padlex compareSegment [] (Split a CHR ''.'') (Split b CHR ''.''))"
    by (rule comparator_comp, rule segment_order.comparator_padlex)
  ultimately show "comparator compareSegments" by (simp only:)
qed

interpretation pre_order: comparator comparePre
proof unfold_locales
  fix x y
  show "comparePre x y \<in> {-1, 0, 1}"
    using segments_order.range [of x y] by (simp add: comparePre_def)
  show "comparePre y x = - comparePre x y"
    using segments_order.swap [of x y] by (simp add: comparePre_def)
next
  fix x y z
  assume "comparePre x y \<le> 0" and "comparePre y z \<le> 0"
  then show "comparePre x z \<le> 0"
    using segments_order.le_trans [of x y z] by (simp add: comparePre_def split: if_splits)
qed

lemma CompareVersions_lex2:
  "CompareVersions = lex2 (\<lambda>a b. compareSegments (coreVersion a) (coreVersion b))
     (\<lambda>a b. comparePre (preRelease a) (preRelease b))"
  by (intro ext) (simp add: CompareVersions_def lex2_def Let_def)

interpretation version_order: comparator CompareVersions
  unfolding CompareVersions_lex2
  by (rule comparator_lex2)
    (rule comparator_comp, rule segments_order.comparator_axioms,
     rule comparator_comp, rule pre_order.comparator_axioms)

section \<open>Properties\<close>

subsection \<open>Order\<close>

text \<open>C21: \<open>CompareVersions\<close> answers \<open>-1\<close>, \<open>0\<close> or \<open>1\<close>, swapping its arguments negates the answer,
  and "not above" is transitive: it is a total preorder on all strings, well formed or not.\<close>

theorem compare_versions_total_preorder:
  "CompareVersions a b \<in> {-1, 0, 1} \<and> CompareVersions b a = - CompareVersions a b \<and>
   (CompareVersions a b \<le> 0 \<and> CompareVersions b c \<le> 0 \<longrightarrow> CompareVersions a c \<le> 0)"
  using version_order.range version_order.swap version_order.le_trans by blast

theorem compare_versions_total_preorder_witness:
  "CompareVersions ''1.9.0'' ''1.10.0-rc2'' = -1 \<and> CompareVersions ''1.10.0-rc2'' ''v1.10.0'' = -1 \<and>
   CompareVersions ''1.9.0'' ''v1.10.0'' \<le> 0"
proof -
  have "CompareVersions ''1.9.0'' ''1.10.0-rc2'' = -1" by code_simp
  moreover have "CompareVersions ''1.10.0-rc2'' ''v1.10.0'' = -1" by code_simp
  ultimately show ?thesis
    using compare_versions_total_preorder [of "''1.9.0''" "''1.10.0-rc2''" "''v1.10.0''"] by simp
qed

lemma before_any_free: "set cs \<inter> set v = {} \<Longrightarrow> before_any v cs = v"
  by (auto simp: before_any_def takeWhile_eq_all_conv)

lemma before_any_stop: "set cs \<inter> set v = {} \<Longrightarrow> c \<in> set cs \<Longrightarrow> before_any (v @ c # w) cs = v"
  by (auto simp: before_any_def takeWhile_append takeWhile_eq_all_conv)

text \<open>A pre-release is below the release it precedes: appending \<open>-pre\<close> to a version without
  suffix gives a smaller version, whatever the numbers and the suffix are.\<close>

theorem prerelease_below_release:
  assumes "TrimSpace c = c" and "TrimSpace (c @ ''-'' @ pre) = c @ ''-'' @ pre"
    and "\<not> HasPrefix c ''v''" and "c \<noteq> []" and "CHR ''-'' \<notin> set c" and "CHR ''+'' \<notin> set c"
    and "pre \<noteq> []" and "CHR ''+'' \<notin> set pre"
  shows "CompareVersions (c @ ''-'' @ pre) c = -1"
proof -
  have noV: "\<not> HasPrefix (c @ ''-'' @ pre) ''v''"
    using assms(3,4) by (cases c) (auto simp: HasPrefix_def)
  have core: "coreVersion c = c" "coreVersion (c @ ''-'' @ pre) = c"
    using assms noV by (simp_all add: coreVersion_def TrimPrefix_def before_any_free before_any_stop)
  have "preRelease c = []"
    using assms by (auto simp: preRelease_def TrimPrefix_def before_any_free Let_def Cut_Some
        split: option.splits)
  moreover have "preRelease (c @ ''-'' @ pre) = pre"
  proof -
    have "Cut (c @ ''-'' @ pre) CHR ''-'' = Some (c, pre)" using assms(5) by (simp add: Cut_Some)
    then show ?thesis
      using assms noV by (simp add: preRelease_def TrimPrefix_def before_any_free Let_def)
  qed
  ultimately show ?thesis
    using assms(7) by (simp only: CompareVersions_def Let_def core comparePre_def) simp
qed

theorem prerelease_below_release_witness: "CompareVersions ''1.2.0-rc1'' ''1.2.0'' = -1"
proof -
  have "TrimSpace ''1.2.0'' = ''1.2.0''" "TrimSpace ''1.2.0-rc1'' = ''1.2.0-rc1''" by code_simp+
  then show ?thesis
    using prerelease_below_release [of "''1.2.0''" "''rc1''"] by (simp add: HasPrefix_def)
qed

subsection \<open>Parsing and printing\<close>

lemma lower_byte_idem [simp]: "lower_byte (lower_byte c) = lower_byte c"
proof (cases "is_upper c")
  case True
  then have "(65 :: nat) \<le> of_char c" "of_char c \<le> (90 :: nat)"
    by (simp_all add: is_upper_def less_eq_char_def)
  then have "(of_char (char_of (of_char c + 32 :: nat)) :: nat) = of_char c + 32" by simp
  then have "\<not> is_upper (char_of (of_char c + 32 :: nat))"
    using \<open>(65 :: nat) \<le> of_char c\<close> by (simp add: is_upper_def less_eq_char_def)
  with True show ?thesis by (simp add: lower_byte_def)
qed (simp add: lower_byte_def)

lemma ToLower_idem [simp]: "ToLower (ToLower s) = ToLower s"
  by (simp add: ToLower_def)

lemma ToLower_eq_Nil [simp]: "ToLower s = [] \<longleftrightarrow> s = []"
  by (simp add: ToLower_def)

lemma slash_notin_ToLower: "CHR ''/'' \<notin> set s \<Longrightarrow> CHR ''/'' \<notin> set (ToLower s)"
proof -
  have "c = CHR ''/''" if "lower_byte c = CHR ''/''" for c
  proof (cases "is_upper c")
    case True
    then have "(65 :: nat) \<le> of_char c" "of_char c \<le> (90 :: nat)"
      by (simp_all add: is_upper_def less_eq_char_def)
    moreover from True that have "(of_char c + 32) mod 256 = (47 :: nat)"
      by (simp add: lower_byte_def char_of_eq_iff take_bit_eq_mod)
    ultimately show ?thesis by simp
  qed (use that in \<open>simp add: lower_byte_def\<close>)
  then show "CHR ''/'' \<notin> set s \<Longrightarrow> CHR ''/'' \<notin> set (ToLower s)"
    by (auto simp: ToLower_def) metis
qed

lemma CanonicalVersion_idem [simp]:
  "CanonicalVersion e (CanonicalVersion e v) = CanonicalVersion e v"
  by (auto simp: CanonicalVersion_def HasPrefix_def)

lemma CanonicalVersion_at: "CHR ''@'' \<notin> set v \<Longrightarrow> CHR ''@'' \<notin> set (CanonicalVersion e v)"
  by (auto simp: CanonicalVersion_def)

lemma CanonicalVersion_Nil [simp]: "CanonicalVersion e v = [] \<longleftrightarrow> v = []"
  by (auto simp: CanonicalVersion_def)

lemma PathUnescape_id: "CHR ''%'' \<notin> set s \<Longrightarrow> PathUnescape s = Some s"
  by (induction s) auto

lemma PathUnescape_Nil: "PathUnescape s = Some [] \<Longrightarrow> s = []"
  by (cases s) (auto split: if_splits list.splits option.splits)

lemma PathUnescape_at: "PathUnescape (''%40'' @ s) = map_option (Cons CHR ''@'') (PathUnescape s)"
  by (simp add: hex_val_def is_digit_def less_eq_char_def char_of_def bit_simps)

text \<open>The coordinates \<open>String\<close> prints faithfully: the name carries no \<open>%\<close>, which would be taken for an
  escape, and does not end in \<open>/\<close>.\<close>

definition canonical_purl :: "PURL \<Rightarrow> bool" where
  "canonical_purl p \<longleftrightarrow>
     pEcosystem p \<noteq> [] \<and> CHR ''/'' \<notin> set (pEcosystem p) \<and> ToLower (pEcosystem p) = pEcosystem p \<and>
     pName p \<noteq> [] \<and> \<not> HasSuffix (pName p) ''/'' \<and> CHR ''%'' \<notin> set (pName p) \<and>
     pVersion p \<noteq> [] \<and> CHR ''@'' \<notin> set (pVersion p) \<and>
     CanonicalVersion (pEcosystem p) (pVersion p) = pVersion p"

definition print_name :: "string \<Rightarrow> string" where
  "print_name n = (if HasPrefix n ''@'' then ''%40'' @ drop 1 n else n)"

lemma PURL_String_print_name:
  "PURL_String p = ''pkg:'' @ pEcosystem p @ ''/'' @ print_name (pName p) @ ''@'' @ pVersion p"
  by (simp add: PURL_String_def print_name_def)

lemma print_name_unescape: "CHR ''%'' \<notin> set n \<Longrightarrow> PathUnescape (print_name n) = Some n"
proof (cases "HasPrefix n ''@''")
  case True
  moreover assume "CHR ''%'' \<notin> set n"
  ultimately obtain r where "n = CHR ''@'' # r" "CHR ''%'' \<notin> set r"
    by (auto simp: HasPrefix_iff)
  then show ?thesis
    by (simp add: print_name_def HasPrefix_def PathUnescape_id PathUnescape_at [simplified])
qed (simp add: print_name_def PathUnescape_id)

lemma print_name_suffix: "n \<noteq> [] \<Longrightarrow> HasSuffix (print_name n) ''/'' = HasSuffix n ''/''"
proof (cases "HasPrefix n ''@''")
  case True
  then obtain r where "n = CHR ''@'' # r" by (auto simp: HasPrefix_iff)
  then show ?thesis by (cases r rule: rev_cases) (simp_all add: print_name_def HasPrefix_def HasSuffix_def)
qed (simp add: print_name_def)

lemma ParsePURL_print: "canonical_purl p \<Longrightarrow> ParsePURL (PURL_String p) = Inr p"
proof -
  assume c: "canonical_purl p"
  let ?n = "print_name (pName p)"
  have "Cut (pEcosystem p @ ''/'' @ ?n @ ''@'' @ pVersion p) CHR ''/'' =
      Some (pEcosystem p, ?n @ ''@'' @ pVersion p)"
    using c by (simp add: Cut_Some canonical_purl_def)
  moreover have "CutLast (?n @ ''@'' @ pVersion p) CHR ''@'' = Some (?n, pVersion p)"
    using c by (simp add: CutLast_Some canonical_purl_def)
  moreover have "?n \<noteq> []" using c by (auto simp: print_name_def canonical_purl_def)
  ultimately show ?thesis
    using c print_name_suffix [of "pName p"] print_name_unescape [of "pName p"]
    by (simp add: ParsePURL_def PURL_String_print_name HasPrefix_def canonical_purl_def)
qed

lemma ParsePURL_result:
  assumes "ParsePURL s = Inr p"
  shows "pEcosystem p \<noteq> []" and "CHR ''/'' \<notin> set (pEcosystem p)"
    and "ToLower (pEcosystem p) = pEcosystem p" and "pName p \<noteq> []" and "pVersion p \<noteq> []"
    and "CHR ''@'' \<notin> set (pVersion p)"
    and "CanonicalVersion (pEcosystem p) (pVersion p) = pVersion p"
  using assms
  by (auto simp: ParsePURL_def Let_def Cut_Some CutLast_Some slash_notin_ToLower CanonicalVersion_at
      dest!: PathUnescape_Nil split: if_splits option.splits)

text \<open>C31: printing and parsing again is the identity on every parsed coordinate whose decoded name
  holds no \<open>%\<close> and no trailing slash: equal coordinates have one spelling, scoped npm names and Go
  versions without \<open>v\<close> included.\<close>

theorem parse_print_roundtrip:
  assumes "ParsePURL s = Inr p" and "CHR ''%'' \<notin> set (pName p)" and "\<not> HasSuffix (pName p) ''/''"
  shows "ParsePURL (PURL_String p) = Inr p"
  using assms by (intro ParsePURL_print) (simp add: canonical_purl_def ParsePURL_result [OF assms(1)])

theorem parse_print_roundtrip_witness:
  "ParsePURL ''pkg:NPM/%40types/node@20.1.0'' =
     Inr \<lparr>pEcosystem = ''npm'', pName = ''@types/node'', pVersion = ''20.1.0''\<rparr> \<and>
   ParsePURL (PURL_String \<lparr>pEcosystem = ''npm'', pName = ''@types/node'', pVersion = ''20.1.0''\<rparr>) =
     Inr \<lparr>pEcosystem = ''npm'', pName = ''@types/node'', pVersion = ''20.1.0''\<rparr>"
proof -
  have h: "ParsePURL ''pkg:NPM/%40types/node@20.1.0'' =
     Inr \<lparr>pEcosystem = ''npm'', pName = ''@types/node'', pVersion = ''20.1.0''\<rparr>" by code_simp
  show ?thesis using h parse_print_roundtrip [OF h] by (simp add: HasSuffix_def)
qed

subsection \<open>Buckets\<close>

lemma versionSegments_not_Nil [simp]: "versionSegments p \<noteq> []"
  by (simp add: versionSegments_def)

lemma Major_no_dot: "CHR ''.'' \<notin> set (Major p)"
proof -
  have "hd (versionSegments p) \<in> set (versionSegments p)" by (rule hd_in_set) simp
  then have "CHR ''.'' \<notin> set (hd (versionSegments p))"
    unfolding versionSegments_def by (rule Split_no_sep)
  then show ?thesis by (simp add: Major_def Let_def)
qed

lemma Major_zero:
  "hd (versionSegments p) = ''0'' \<or> hd (versionSegments p) = ''v0'' \<longleftrightarrow> Major p = ''0'' \<or> Major p = ''v0''"
  by (auto simp: Major_def Let_def HasPrefix_def)

lemma BreakingBucket_alt:
  "BreakingBucket p = (if Major p = ''0'' \<or> Major p = ''v0'' then MajorMinor p else Major p)"
  using Major_zero [of p] by (auto simp: BreakingBucket_def MajorMinor_def Let_def)

lemma Major_of_MajorMinor: "takeWhile (\<lambda>c. c \<noteq> CHR ''.'') (MajorMinor p) = Major p"
proof -
  have "takeWhile (\<lambda>c. c \<noteq> CHR ''.'') (Major p @ r) = Major p @ takeWhile (\<lambda>c. c \<noteq> CHR ''.'') r" for r
    using Major_no_dot [of p] by (induction "Major p") (auto simp: takeWhile_append)
  from this [of "[]"] this [of "''.'' @ versionSegments p ! 1"] show ?thesis
    by (simp add: MajorMinor_def Let_def)
qed

lemma Major_of_BreakingBucket: "takeWhile (\<lambda>c. c \<noteq> CHR ''.'') (BreakingBucket p) = Major p"
  using Major_of_MajorMinor [of p] Major_no_dot [of p]
  by (auto simp: BreakingBucket_alt takeWhile_eq_all_conv)

text \<open>The three version buckets of one ecosystem are nested: coordinates in the same
  \<open>major.minor\<close> are in the same breaking line, and those in the same breaking line have the same
  major; the breaking line is the minor one exactly below \<open>1.0\<close>.\<close>

theorem buckets_nested:
  "(MajorMinor p = MajorMinor q \<longrightarrow> BreakingBucket p = BreakingBucket q) \<and>
   (BreakingBucket p = BreakingBucket q \<longrightarrow> Major p = Major q) \<and>
   BreakingBucket p = (if Major p = ''0'' \<or> Major p = ''v0'' then MajorMinor p else Major p)"
proof (intro conjI impI)
  assume "MajorMinor p = MajorMinor q"
  then have "Major p = Major q" using Major_of_MajorMinor by metis
  with \<open>MajorMinor p = MajorMinor q\<close> show "BreakingBucket p = BreakingBucket q"
    by (simp add: BreakingBucket_alt)
next
  assume "BreakingBucket p = BreakingBucket q"
  then show "Major p = Major q" using Major_of_BreakingBucket by metis
qed (rule BreakingBucket_alt)

theorem buckets_nested_witness:
  "MajorMinor \<lparr>pEcosystem = ''cargo'', pName = ''axum'', pVersion = ''0.6.20''\<rparr> = ''0.6'' \<and>
   BreakingBucket \<lparr>pEcosystem = ''cargo'', pName = ''axum'', pVersion = ''0.6.20''\<rparr> =
   BreakingBucket \<lparr>pEcosystem = ''cargo'', pName = ''axum'', pVersion = ''0.6.1''\<rparr>"
proof -
  have "MajorMinor \<lparr>pEcosystem = ''cargo'', pName = ''axum'', pVersion = ''0.6.20''\<rparr> = ''0.6''"
    "MajorMinor \<lparr>pEcosystem = ''cargo'', pName = ''axum'', pVersion = ''0.6.1''\<rparr> = ''0.6''"
    by code_simp+
  then show ?thesis
    using buckets_nested [of "\<lparr>pEcosystem = ''cargo'', pName = ''axum'', pVersion = ''0.6.20''\<rparr>"
        "\<lparr>pEcosystem = ''cargo'', pName = ''axum'', pVersion = ''0.6.1''\<rparr>"] by simp
qed

end
