(* ===== verification/EnvFingerprint.thy ===== *)
theory EnvFingerprint
  imports Prelude
begin

text \<open>
  The environment fingerprint of \<open>src/internal/domain/envfp.go\<close>: the sparse description of where
  an observation or a verification ran, its normalization (placeholders become absence, derivable
  dimensions are filled in), its privacy-lowering bucketed form and the release line a job may
  demand.  \<open>Hash\<close> is SHA-256 over canonical JSON and is an argument of the definitions that use it.
\<close>

section \<open>The record\<close>

record EnvironmentFingerprint =
  eSchemaVersion :: int
  eEcosystem :: string
  eOS :: string
  eOSVersionBucket :: string
  eArch :: string
  eRuntime :: string
  eRuntimeVersion :: string
  eLanguage :: string
  eLanguageVersion :: string
  eCompiler :: string
  eCompilerVersion :: string
  ePackageManager :: string
  ePackageManagerVersion :: string
  eModuleSystem :: string
  eFrameworks :: "string list"
  eExecutionContext :: string
  eBrowserFamily :: string
  eBrowserMajor :: string
  eEngine :: string
  eEngineVersion :: string
  eVirtualization :: string
  eContainerRuntime :: string
  eLibc :: string
  eLibcVersion :: string
  eDistro :: string
  eCI :: bool

text \<open>The zero value of the struct, from which sparse fingerprints are built.\<close>

definition zero_env :: EnvironmentFingerprint where
  "zero_env = \<lparr>eSchemaVersion = 0, eEcosystem = [], eOS = [], eOSVersionBucket = [], eArch = [],
     eRuntime = [], eRuntimeVersion = [], eLanguage = [], eLanguageVersion = [], eCompiler = [],
     eCompilerVersion = [], ePackageManager = [], ePackageManagerVersion = [], eModuleSystem = [],
     eFrameworks = [], eExecutionContext = [], eBrowserFamily = [], eBrowserMajor = [],
     eEngine = [], eEngineVersion = [], eVirtualization = [], eContainerRuntime = [], eLibc = [],
     eLibcVersion = [], eDistro = [], eCI = False\<rparr>"

definition ContextLabel :: "EnvironmentFingerprint \<Rightarrow> string" where
  "ContextLabel e =
     (if eBrowserFamily e \<noteq> [] then
        (if eBrowserMajor e \<noteq> [] then eBrowserFamily e @ '' '' @ eBrowserMajor e
         else eBrowserFamily e)
      else let ctx = (if eExecutionContext e = [] then eRuntime e else eExecutionContext e) in
        if ctx = [] then []
        else if eRuntimeVersion e \<noteq> [] then ctx @ '' '' @ eRuntimeVersion e
        else ctx)"

section \<open>Normalization\<close>

definition placeholderValues :: "string list" where
  "placeholderValues = [''unknown'', ''unspecified'', ''undefined'', ''n/a'', ''na'', ''null'',
     ''nil'', ''?'', ''-'', '''']"

definition clearPlaceholder :: "string \<Rightarrow> string" where
  "clearPlaceholder v = (if ToLower (TrimSpace v) \<in> set placeholderValues then [] else v)"

text \<open>The loop over the addresses of the cleared fields, one update per field.\<close>

definition clear_fields :: "EnvironmentFingerprint \<Rightarrow> EnvironmentFingerprint" where
  "clear_fields e = e\<lparr>
     eOS := clearPlaceholder (eOS e),
     eOSVersionBucket := clearPlaceholder (eOSVersionBucket e),
     eArch := clearPlaceholder (eArch e),
     eRuntime := clearPlaceholder (eRuntime e),
     eRuntimeVersion := clearPlaceholder (eRuntimeVersion e),
     eLanguage := clearPlaceholder (eLanguage e),
     eLanguageVersion := clearPlaceholder (eLanguageVersion e),
     eCompiler := clearPlaceholder (eCompiler e),
     eCompilerVersion := clearPlaceholder (eCompilerVersion e),
     eModuleSystem := clearPlaceholder (eModuleSystem e),
     ePackageManager := clearPlaceholder (ePackageManager e),
     ePackageManagerVersion := clearPlaceholder (ePackageManagerVersion e),
     eExecutionContext := clearPlaceholder (eExecutionContext e),
     eBrowserFamily := clearPlaceholder (eBrowserFamily e),
     eBrowserMajor := clearPlaceholder (eBrowserMajor e),
     eEngine := clearPlaceholder (eEngine e),
     eEngineVersion := clearPlaceholder (eEngineVersion e),
     eVirtualization := clearPlaceholder (eVirtualization e),
     eContainerRuntime := clearPlaceholder (eContainerRuntime e),
     eLibc := clearPlaceholder (eLibc e),
     eLibcVersion := clearPlaceholder (eLibcVersion e),
     eDistro := clearPlaceholder (eDistro e)\<rparr>"

definition derive_context :: "EnvironmentFingerprint \<Rightarrow> EnvironmentFingerprint" where
  "derive_context e =
     (if eExecutionContext e = [] \<and> eRuntime e \<in> {''node'', ''bun'', ''deno''}
      then e\<lparr>eExecutionContext := eRuntime e\<rparr> else e)"

definition engine_of_family :: "string \<Rightarrow> string" where
  "engine_of_family f =
     (if f \<in> {''chrome'', ''edge'', ''chromium'', ''android-webview'', ''electron''} then ''chromium''
      else if f = ''firefox'' then ''gecko''
      else if f \<in> {''safari'', ''ios-wkwebview''} then ''webkit''
      else [])"

definition derive_engine :: "EnvironmentFingerprint \<Rightarrow> EnvironmentFingerprint" where
  "derive_engine e =
     (if eEngine e = [] then e\<lparr>eEngine := engine_of_family (eBrowserFamily e)\<rparr> else e)"

definition Normalize :: "EnvironmentFingerprint \<Rightarrow> EnvironmentFingerprint" where
  "Normalize e = derive_engine (derive_context (clear_fields e))"

section \<open>Buckets\<close>

definition versionBucket :: "string \<Rightarrow> string" where
  "versionBucket v =
     (if v = [] then []
      else let segs = SplitN v CHR ''.'' 3
           in if 2 \<le> length segs then segs ! 0 @ ''.'' @ segs ! 1 else segs ! 0)"

definition majorBucket :: "string \<Rightarrow> string" where
  "majorBucket v = (if v = [] then [] else hd (SplitN v CHR ''.'' 2))"

definition Bucketed :: "EnvironmentFingerprint \<Rightarrow> EnvironmentFingerprint" where
  "Bucketed e = e\<lparr>
     eRuntimeVersion := versionBucket (eRuntimeVersion e),
     eLanguageVersion := versionBucket (eLanguageVersion e),
     eCompilerVersion := versionBucket (eCompilerVersion e),
     ePackageManagerVersion := majorBucket (ePackageManagerVersion e),
     eBrowserMajor := majorBucket (eBrowserMajor e),
     eEngineVersion := majorBucket (eEngineVersion e)\<rparr>"

definition RuntimeLine :: "string \<Rightarrow> string \<Rightarrow> string" where
  "RuntimeLine runtime version =
     (let v = TrimSpace version in
      if v = [] then []
      else if ToLower (TrimSpace runtime) \<in> {''node'', ''nodejs'', ''bun'', ''deno'', ''java'',
          ''chrome'', ''chromium'', ''firefox'', ''safari'', ''edge'', ''electron''}
      then majorBucket v
      else versionBucket v)"

section \<open>Lemmas\<close>

text \<open>The first segments of a dotted version, and their laws.\<close>

definition seg0 :: "string \<Rightarrow> string" where
  "seg0 v = takeWhile (\<lambda>c. c \<noteq> CHR ''.'') v"

definition rest0 :: "string \<Rightarrow> string" where
  "rest0 v = tl (dropWhile (\<lambda>c. c \<noteq> CHR ''.'') v)"

lemma majorBucket_seg0: "majorBucket v = seg0 v"
  by (simp add: majorBucket_def seg0_def numeral_2_eq_2)

lemma versionBucket_segs:
  "versionBucket v = (if CHR ''.'' \<in> set v then seg0 v @ ''.'' @ seg0 (rest0 v) else v)"
  by (simp add: versionBucket_def seg0_def rest0_def numeral_3_eq_3 Let_def)

lemma seg0_no_dot: "CHR ''.'' \<notin> set (seg0 v)"
  by (auto simp: seg0_def dest: set_takeWhileD)

lemma seg0_id: "CHR ''.'' \<notin> set v \<Longrightarrow> seg0 v = v"
  by (auto simp: seg0_def takeWhile_eq_all_conv)

lemma seg0_dot: "CHR ''.'' \<notin> set a \<Longrightarrow> seg0 (a @ CHR ''.'' # b) = a"
  by (auto simp: seg0_def takeWhile_append takeWhile_eq_all_conv)

lemma rest0_dot: "CHR ''.'' \<notin> set a \<Longrightarrow> rest0 (a @ CHR ''.'' # b) = b"
  by (auto simp: rest0_def dropWhile_append)

lemma majorBucket_idem [simp]: "majorBucket (majorBucket v) = majorBucket v"
  by (simp add: majorBucket_seg0 seg0_id seg0_no_dot)

lemma versionBucket_idem [simp]: "versionBucket (versionBucket v) = versionBucket v"
  by (auto simp: versionBucket_segs seg0_dot rest0_dot seg0_no_dot seg0_id)

lemma majorBucket_versionBucket [simp]: "majorBucket (versionBucket v) = majorBucket v"
  by (auto simp: majorBucket_seg0 versionBucket_segs seg0_dot seg0_no_dot)

lemma versionBucket_empty: "versionBucket v = [] \<longleftrightarrow> v = []"
  by (auto simp: versionBucket_segs)

lemma clearPlaceholder_Nil [simp]: "clearPlaceholder [] = []"
  by (simp add: clearPlaceholder_def)

lemma clearPlaceholder_idem [simp]: "clearPlaceholder (clearPlaceholder v) = clearPlaceholder v"
  by (simp add: clearPlaceholder_def [of v])

lemma clearPlaceholder_context [simp]:
  "clearPlaceholder ''node'' = ''node''" "clearPlaceholder ''bun'' = ''bun''"
  "clearPlaceholder ''deno'' = ''deno''" "clearPlaceholder ''chromium'' = ''chromium''"
  "clearPlaceholder ''gecko'' = ''gecko''" "clearPlaceholder ''webkit'' = ''webkit''"
  by code_simp+

lemma clearPlaceholder_engine [simp]:
  "clearPlaceholder (engine_of_family f) = engine_of_family f"
  by (simp add: engine_of_family_def)

text \<open>The dimensions that \<open>Normalize\<close> clears, read off a fingerprint.\<close>

definition dimensions :: "EnvironmentFingerprint \<Rightarrow> string list" where
  "dimensions e = [eOS e, eOSVersionBucket e, eArch e, eRuntime e, eRuntimeVersion e, eLanguage e,
     eLanguageVersion e, eCompiler e, eCompilerVersion e, eModuleSystem e, ePackageManager e,
     ePackageManagerVersion e, eExecutionContext e, eBrowserFamily e, eBrowserMajor e, eEngine e,
     eEngineVersion e, eVirtualization e, eContainerRuntime e, eLibc e, eLibcVersion e, eDistro e]"

definition all_clear :: "EnvironmentFingerprint \<Rightarrow> bool" where
  "all_clear e \<longleftrightarrow> list_all (\<lambda>d. clearPlaceholder d = d) (dimensions e)"

lemma clear_fields_id: "all_clear e \<Longrightarrow> clear_fields e = e"
  by (cases e) (simp add: all_clear_def dimensions_def clear_fields_def)

lemma all_clear_clear_fields: "all_clear (clear_fields e)"
  by (simp add: all_clear_def dimensions_def clear_fields_def)

lemma all_clear_derive_context: "all_clear e \<Longrightarrow> all_clear (derive_context e)"
  by (simp add: all_clear_def dimensions_def derive_context_def)

lemma all_clear_derive_engine: "all_clear e \<Longrightarrow> all_clear (derive_engine e)"
  by (simp add: all_clear_def dimensions_def derive_engine_def)

lemma all_clear_Normalize: "all_clear (Normalize e)"
  by (simp add: Normalize_def all_clear_clear_fields all_clear_derive_context
      all_clear_derive_engine)

lemma derive_context_fix: "derive_context (derive_engine (derive_context e)) = derive_engine (derive_context e)"
  by (auto simp: derive_context_def derive_engine_def)

lemma derive_engine_fix: "derive_engine (derive_engine e) = derive_engine e"
  by (simp add: derive_engine_def)

lemma clearPlaceholder_fixed:
  "clearPlaceholder d = d \<longleftrightarrow> d = [] \<or> ToLower (TrimSpace d) \<notin> set placeholderValues"
  by (auto simp: clearPlaceholder_def)

lemma Normalize_idem [simp]: "Normalize (Normalize e) = Normalize e"
proof -
  have "derive_context (Normalize e) = Normalize e"
    by (simp add: Normalize_def derive_context_fix)
  then show ?thesis
    unfolding Normalize_def [of "Normalize e"]
    by (simp add: clear_fields_id all_clear_Normalize) (simp add: Normalize_def derive_engine_fix)
qed

section \<open>Properties\<close>

text \<open>Normalization is idempotent, so a fingerprint normalized by a client and again by the
  server is one fingerprint, and it leaves no placeholder behind: each of the 22 cleared dimensions
  is either absent or a value that is not one of the ten spellings of "I do not know".\<close>

theorem normalize_idempotent_and_clear:
  "Normalize (Normalize e) = Normalize e \<and>
   filter (\<lambda>d. d \<noteq> [] \<and> ToLower (TrimSpace d) \<in> set placeholderValues) (dimensions (Normalize e)) = []"
proof
  show "Normalize (Normalize e) = Normalize e" by (rule Normalize_idem)
  show "filter (\<lambda>d. d \<noteq> [] \<and> ToLower (TrimSpace d) \<in> set placeholderValues)
      (dimensions (Normalize e)) = []"
    using all_clear_Normalize [of e]
    by (auto simp: all_clear_def clearPlaceholder_fixed list_all_iff filter_empty_conv)
qed

text \<open>The bucketed form is a fixed point, and the release line a job demands depends on the
  bucketed version only: machines in one version bucket run one release line, for every runtime.\<close>

theorem bucketed_fixed_and_line:
  "Bucketed (Bucketed e) = Bucketed e \<and>
   (TrimSpace v = v \<and> TrimSpace w = w \<and> versionBucket v = versionBucket w \<longrightarrow>
      RuntimeLine r v = RuntimeLine r w)"
proof
  show "Bucketed (Bucketed e) = Bucketed e" by (simp add: Bucketed_def)
next
  show "TrimSpace v = v \<and> TrimSpace w = w \<and> versionBucket v = versionBucket w \<longrightarrow>
      RuntimeLine r v = RuntimeLine r w"
  proof (intro impI, elim conjE)
    assume trim: "TrimSpace v = v" "TrimSpace w = w" and b: "versionBucket v = versionBucket w"
    have "majorBucket v = majorBucket w" using b by (metis majorBucket_versionBucket)
    moreover have "v = [] \<longleftrightarrow> w = []" using b by (metis versionBucket_empty)
    ultimately show "RuntimeLine r v = RuntimeLine r w"
      using b by (simp add: RuntimeLine_def Let_def trim)
  qed
qed

theorem bucketed_fixed_and_line_witness:
  "versionBucket ''22.18.1'' = versionBucket ''22.18.7'' \<and>
   RuntimeLine ''node'' ''22.18.1'' = RuntimeLine ''node'' ''22.18.7''"
proof -
  have "TrimSpace ''22.18.1'' = ''22.18.1''" "TrimSpace ''22.18.7'' = ''22.18.7''"
    "versionBucket ''22.18.1'' = versionBucket ''22.18.7''" by code_simp+
  then show ?thesis
    using bucketed_fixed_and_line [of zero_env "''22.18.1''" "''22.18.7''" "''node''"] by simp
qed

end
