(* ===== verification/Float64.thy ===== *)
theory Float64
  imports Prelude Complex_Main
begin

text \<open>
  Go's \<open>float64\<close> as the rationals it can represent: every operation computes the exact result
  and rounds it to 53 significant bits, ties to even (\<open>fl\<close>), as IEEE 754 binary64 does.  The
  exponent is unbounded: the modelled code divides, multiplies and compares tallies and weights
  whose magnitude lies between \<open>2^-64\<close> and \<open>2^80\<close>, so neither overflow to infinity nor a
  subnormal result occurs.  NaN does not occur because every divisor is tested positive first.
\<close>

section \<open>Rounding\<close>

fun bits :: "nat \<Rightarrow> nat" where
  "bits n = (if n = 0 then 0 else Suc (bits (n div 2)))"

declare bits.simps [simp del]

text \<open>The exponent of the leading bit of a positive rational.\<close>

definition f64_exp :: "rat \<Rightarrow> int" where
  "f64_exp x =
     (let (n, d) = quotient_of x;
          e = int (bits (nat n)) - int (bits (nat d))
      in if (2 :: rat) powi e \<le> x then e else e - 1)"

definition rne :: "rat \<Rightarrow> int" where
  "rne y =
     (let f = \<lfloor>y\<rfloor>; d = y - of_int f
      in if d < 1 / 2 then f else if 1 / 2 < d then f + 1 else if even f then f else f + 1)"

definition fl_pos :: "rat \<Rightarrow> rat" where
  "fl_pos x = (let u = (2 :: rat) powi (f64_exp x - 52) in of_int (rne (x / u)) * u)"

definition fl :: "rat \<Rightarrow> rat" where
  "fl x = (if x = 0 then 0 else if x < 0 then - fl_pos (- x) else fl_pos x)"

text \<open>The operations of the language on \<open>float64\<close>, and the conversion of an integer.\<close>

definition f_of_int :: "int \<Rightarrow> rat" where
  "f_of_int n = fl (of_int n)"

definition f_add :: "rat \<Rightarrow> rat \<Rightarrow> rat" where
  "f_add x y = fl (x + y)"

definition f_sub :: "rat \<Rightarrow> rat \<Rightarrow> rat" where
  "f_sub x y = fl (x - y)"

definition f_mul :: "rat \<Rightarrow> rat \<Rightarrow> rat" where
  "f_mul x y = fl (x * y)"

definition f_div :: "rat \<Rightarrow> rat \<Rightarrow> rat" where
  "f_div x y = fl (x / y)"

lemmas f64_defs = f_of_int_def f_add_def f_sub_def f_mul_def f_div_def

section \<open>The exponent\<close>

lemma bits_bounds: "0 < n \<Longrightarrow> 0 < bits n \<and> 2 ^ (bits n - 1) \<le> n \<and> n < 2 ^ bits n"
proof (induction n rule: bits.induct)
  case (1 n)
  then have b: "bits n = Suc (bits (n div 2))"
    by (simp add: bits.simps [of n])
  show ?case
  proof (cases "n = 1")
    case True
    then show ?thesis by (simp add: bits.simps)
  next
    case False
    with "1.prems" have "0 < n div 2" by simp
    with "1" have h: "0 < bits (n div 2)" "2 ^ (bits (n div 2) - 1) \<le> n div 2"
      "n div 2 < 2 ^ bits (n div 2)" by simp_all
    have "(2 :: nat) ^ bits (n div 2) = 2 * 2 ^ (bits (n div 2) - 1)"
      using h(1) by (metis Suc_pred' power_Suc)
    with h have "2 ^ bits (n div 2) \<le> n" by linarith
    moreover have "n < 2 * 2 ^ bits (n div 2)" using h(3) by linarith
    ultimately show ?thesis by (simp add: b)
  qed
qed

lemma powi_less_iff: "(2 :: rat) powi a < 2 powi b \<longleftrightarrow> a < b"
  by (metis linorder_not_less one_less_numeral_iff power_int_increasing
      power_int_strict_increasing semiring_norm(76) order_less_imp_le)

lemma powi_le_iff: "(2 :: rat) powi a \<le> 2 powi b \<longleftrightarrow> a \<le> b"
  by (meson linorder_not_less powi_less_iff)

lemma powi_split: "(2 :: rat) powi (a + b) = 2 powi a * 2 powi b"
  by (simp add: power_int_add)

lemma f64_exp_bounds:
  assumes "0 < x"
  shows "2 powi (f64_exp x) \<le> x \<and> x < 2 powi (f64_exp x + 1)"
proof -
  obtain n d where q: "quotient_of x = (n, d)" by (cases "quotient_of x")
  then have d: "0 < d" and x: "x = of_int n / of_int d"
    by (auto dest: quotient_of_denom_pos quotient_of_div)
  with assms have n: "0 < n" by (simp add: zero_less_divide_iff)
  define bn bd where "bn = bits (nat n)" and "bd = bits (nat d)"
  have bn: "0 < bn" "2 ^ (bn - 1) \<le> nat n" "nat n < 2 ^ bn"
    and bd: "0 < bd" "2 ^ (bd - 1) \<le> nat d" "nat d < 2 ^ bd"
    using bits_bounds [of "nat n"] bits_bounds [of "nat d"] n d by (auto simp: bn_def bd_def)
  have "rat_of_nat (2 ^ (bn - 1)) \<le> of_nat (nat n)" "rat_of_nat (nat n) < of_nat (2 ^ bn)"
    "rat_of_nat (2 ^ (bd - 1)) \<le> of_nat (nat d)" "rat_of_nat (nat d) < of_nat (2 ^ bd)"
    using bn bd of_nat_le_iff of_nat_less_iff by blast+
  then have rn: "(2 :: rat) ^ (bn - 1) \<le> of_int n" "(of_int n :: rat) < 2 ^ bn"
    and rd: "(2 :: rat) ^ (bd - 1) \<le> of_int d" "(of_int d :: rat) < 2 ^ bd"
    using n d by simp_all
  have powi_nat: "(2 :: rat) powi int k = 2 ^ k" for k by simp
  have pn: "(2 :: rat) powi (int bn - 1) = 2 ^ (bn - 1)" and pd: "(2 :: rat) powi (int bd - 1) = 2 ^ (bd - 1)"
    using bn(1) bd(1) powi_nat [of "bn - 1"] powi_nat [of "bd - 1"] by (simp_all add: of_nat_diff)
  define e where "e = int bn - int bd"
  have up: "x < 2 powi (e + 1)"
  proof -
    have "2 powi (e + 1) * 2 powi (int bd - 1) = (2 :: rat) powi int bn"
      unfolding e_def by (subst powi_split [symmetric]) simp
    then have "2 powi (e + 1) * (2 :: rat) ^ (bd - 1) = 2 ^ bn" by (simp add: pd)
    moreover have "2 powi (e + 1) * (2 :: rat) ^ (bd - 1) \<le> 2 powi (e + 1) * of_int d"
      using rd(1) by (intro mult_left_mono) simp_all
    ultimately have "of_int n < 2 powi (e + 1) * (of_int d :: rat)" using rn(2) by linarith
    then show ?thesis using d by (simp add: x pos_divide_less_eq)
  qed
  have lo: "2 powi (e - 1) \<le> x"
  proof -
    have "2 powi (e - 1) * 2 powi int bd = (2 :: rat) powi (int bn - 1)"
      unfolding e_def by (subst powi_split [symmetric]) simp
    then have "2 powi (e - 1) * (2 :: rat) ^ bd = 2 ^ (bn - 1)" by (simp add: pn)
    moreover have "2 powi (e - 1) * (of_int d :: rat) \<le> 2 powi (e - 1) * 2 ^ bd"
      using rd(2) by (intro mult_left_mono) simp_all
    ultimately have "2 powi (e - 1) * (of_int d :: rat) \<le> of_int n" using rn(1) by linarith
    then show ?thesis using d by (simp add: x pos_le_divide_eq)
  qed
  have "f64_exp x = (if 2 powi e \<le> x then e else e - 1)"
    by (simp add: f64_exp_def q e_def bn_def bd_def)
  with up lo show ?thesis by auto
qed

lemma f64_exp_unique:
  assumes "0 < x" and "2 powi e \<le> x" and "x < 2 powi (e + 1)"
  shows "f64_exp x = e"
proof -
  from f64_exp_bounds [OF assms(1)] assms
  have "(2 :: rat) powi (f64_exp x) < 2 powi (e + 1)" "(2 :: rat) powi e < 2 powi (f64_exp x + 1)"
    by linarith+
  then show ?thesis by (simp add: powi_less_iff)
qed

lemma f64_exp_mono:
  assumes "0 < x" and "x \<le> y"
  shows "f64_exp x \<le> f64_exp y"
proof -
  have "2 powi (f64_exp x) \<le> x" "y < 2 powi (f64_exp y + 1)"
    using f64_exp_bounds assms by simp_all
  with assms have "(2 :: rat) powi (f64_exp x) < 2 powi (f64_exp y + 1)" by linarith
  then show ?thesis by (simp add: powi_less_iff)
qed

section \<open>Rounding to an integer\<close>

lemma rne_of_int [simp]: "rne (of_int n) = n"
  by (simp add: rne_def)

lemma rne_error: "\<bar>of_int (rne y) - y\<bar> \<le> 1 / 2"
proof -
  have "of_int \<lfloor>y\<rfloor> \<le> y" "y < of_int \<lfloor>y\<rfloor> + 1" by linarith+
  then show ?thesis by (simp add: rne_def Let_def abs_le_iff)
qed

lemma rne_mono:
  assumes "x \<le> y"
  shows "rne x \<le> rne y"
proof (cases "\<lfloor>x\<rfloor> = \<lfloor>y\<rfloor>")
  case True
  with assms show ?thesis by (auto simp: rne_def Let_def)
next
  case False
  with assms have "\<lfloor>x\<rfloor> + 1 \<le> \<lfloor>y\<rfloor>" using floor_mono [of x y] by simp
  moreover have "rne x \<le> \<lfloor>x\<rfloor> + 1" "\<lfloor>y\<rfloor> \<le> rne y" by (auto simp: rne_def Let_def)
  ultimately show ?thesis by simp
qed

section \<open>Laws of rounding\<close>

lemma fl_pos_bounds:
  assumes "0 < x"
  shows "2 powi (f64_exp x) \<le> fl_pos x \<and> fl_pos x \<le> 2 powi (f64_exp x + 1)"
proof -
  define u where "u = (2 :: rat) powi (f64_exp x - 52)"
  have u: "0 < u" by (simp add: u_def)
  have top: "2 powi (f64_exp x + 1) = 2 ^ 53 * u" and bot: "2 powi (f64_exp x) = 2 ^ 52 * u"
    using powi_split [of 53 "f64_exp x - 52"] powi_split [of 52 "f64_exp x - 52"]
    by (simp_all add: u_def add.commute)
  have "2 ^ 52 \<le> x / u" "x / u \<le> 2 ^ 53"
    using f64_exp_bounds [OF assms] u by (simp_all add: top bot pos_le_divide_eq pos_divide_le_eq)
  then have "rne (of_int (2 ^ 52)) \<le> rne (x / u)" "rne (x / u) \<le> rne (of_int (2 ^ 53))"
    by (intro rne_mono; simp)+
  then have "2 ^ 52 \<le> rne (x / u)" "rne (x / u) \<le> 2 ^ 53"
    by (simp_all only: rne_of_int)
  then have "(2 ^ 52 :: rat) \<le> of_int (rne (x / u))" "of_int (rne (x / u)) \<le> (2 ^ 53 :: rat)"
    using of_int_le_iff [where ?'a = rat, of "2 ^ 52" "rne (x / u)"]
      of_int_le_iff [where ?'a = rat, of "rne (x / u)" "2 ^ 53"] by simp_all
  with u have "2 ^ 52 * u \<le> of_int (rne (x / u)) * u" "of_int (rne (x / u)) * u \<le> 2 ^ 53 * u"
    by (intro mult_right_mono; simp)+
  then show ?thesis by (simp add: fl_pos_def Let_def u_def top bot)
qed

lemma fl_pos_mono:
  assumes "0 < x" and "x \<le> y"
  shows "fl_pos x \<le> fl_pos y"
proof (cases "f64_exp x = f64_exp y")
  case True
  define u where "u = (2 :: rat) powi (f64_exp y - 52)"
  have u: "0 < u" by (simp add: u_def)
  with assms have "rne (x / u) \<le> rne (y / u)"
    by (intro rne_mono) (simp add: divide_right_mono)
  with u have "of_int (rne (x / u)) * u \<le> of_int (rne (y / u)) * u"
    by (intro mult_right_mono) simp_all
  with True show ?thesis by (simp add: fl_pos_def Let_def u_def)
next
  case False
  with f64_exp_mono [OF assms] have "f64_exp x + 1 \<le> f64_exp y" by simp
  then have "(2 :: rat) powi (f64_exp x + 1) \<le> 2 powi (f64_exp y)" by (simp only: powi_le_iff)
  with fl_pos_bounds [of x] fl_pos_bounds [of y] assms show ?thesis by linarith
qed

lemma fl_pos_pos: "0 < x \<Longrightarrow> 0 < fl_pos x"
  using fl_pos_bounds [of x] zero_less_power_int [of "2 :: rat" "f64_exp x"] by linarith

lemma fl_0 [simp]: "fl 0 = 0"
  by (simp add: fl_def)

theorem fl_mono: "x \<le> y \<Longrightarrow> fl x \<le> fl y"
  using fl_pos_mono [of x y] fl_pos_mono [of "- y" "- x"] fl_pos_pos [of y] fl_pos_pos [of "- x"]
  by (auto simp: fl_def)

lemma fl_nonneg: "0 \<le> x \<Longrightarrow> 0 \<le> fl x"
  using fl_mono [of 0 x] by simp

text \<open>An integer of at most 53 bits is represented exactly.\<close>

lemma fl_pos_of_int:
  assumes "0 < n" and "n < 2 ^ 53"
  shows "fl_pos (of_int n) = of_int n"
proof -
  define e where "e = f64_exp (of_int n)"
  have "2 powi e \<le> (of_int n :: rat)" "(of_int n :: rat) < 2 powi (e + 1)"
    using f64_exp_bounds [of "of_int n"] assms by (simp_all add: e_def)
  moreover have "(of_int n :: rat) < of_int (2 ^ 53)" using assms(2) by (simp only: of_int_less_iff)
  ultimately have "(2 :: rat) powi e < 2 powi 53" "(2 :: rat) powi 0 < 2 powi (e + 1)"
    using assms(1) by (simp_all add: order.strict_trans1 [of 1 "of_int n"])
  then have "e \<le> 52" "0 \<le> e" by (simp_all only: powi_less_iff)
  define k where "k = nat (52 - e)"
  have u: "(2 :: rat) powi (e - 52) = 1 / 2 ^ k"
    using \<open>e \<le> 52\<close> by (simp add: k_def power_int_def inverse_eq_divide power_one_over)
  have "of_int n / (2 :: rat) powi (e - 52) = of_int (n * 2 ^ k)" by (simp add: u)
  then have "fl_pos (of_int n) = of_int (rne (of_int (n * 2 ^ k))) * (1 / 2 ^ k)"
    unfolding fl_pos_def Let_def e_def [symmetric] by (simp only: u)
  then show ?thesis by (simp only: rne_of_int) simp
qed

theorem fl_of_int: "\<bar>n\<bar> < 2 ^ 53 \<Longrightarrow> fl (of_int n) = of_int n"
  using fl_pos_of_int [of n] fl_pos_of_int [of "- n"] by (auto simp: fl_def)

lemma fl_1 [simp]: "fl 1 = 1"
  using fl_of_int [of 1] by simp

lemma fl_le_1: "x \<le> 1 \<Longrightarrow> fl x \<le> 1"
  using fl_mono [of x 1] by simp

lemma f_of_int_exact: "\<bar>n\<bar> < 2 ^ 53 \<Longrightarrow> f_of_int n = of_int n"
  by (simp add: f_of_int_def fl_of_int)

text \<open>On the unit interval a rounded value is within \<open>2^-54\<close> of the exact one.\<close>

theorem fl_unit_error:
  assumes "0 \<le> x" and "x \<le> 1"
  shows "\<bar>fl x - x\<bar> \<le> 1 / 2 ^ 54"
proof (cases "x = 0 \<or> x = 1")
  case True
  then show ?thesis by auto
next
  case False
  with assms have x: "0 < x" "x < 1" by auto
  define u where "u = (2 :: rat) powi (f64_exp x - 52)"
  have u: "0 < u" by (simp add: u_def)
  have "(2 :: rat) powi (f64_exp x) < 2 powi 0"
    using f64_exp_bounds [OF x(1)] x(2) by (simp add: order.strict_trans1)
  then have "f64_exp x < 0" by (simp only: powi_less_iff)
  then have "u \<le> (2 :: rat) powi (- 53)" unfolding u_def by (simp only: powi_le_iff)
  then have u2: "u * (1 / 2) \<le> 1 / 2 ^ 54" by (simp add: power_int_def inverse_eq_divide power_one_over)
  have "\<bar>of_int (rne (x / u)) - x / u\<bar> * u \<le> 1 / 2 * u"
    using rne_error [of "x / u"] u by (intro mult_right_mono) simp_all
  moreover have "\<bar>of_int (rne (x / u)) - x / u\<bar> * u = \<bar>of_int (rne (x / u)) * u - x\<bar>"
    using u abs_mult_pos [of u "of_int (rne (x / u)) - x / u"] by (simp add: left_diff_distrib)
  ultimately have "\<bar>of_int (rne (x / u)) * u - x\<bar> \<le> 1 / 2 ^ 54" using u2 by linarith
  with x show ?thesis by (simp add: fl_def fl_pos_def Let_def u_def)
qed

text \<open>Constants of the source that are clearly apart stay apart, also when rounded twice.\<close>

lemma fl_strict:
  assumes "0 \<le> x" and "x + 1 / 2 ^ 53 < y" and "y \<le> 1"
  shows "fl x < fl y"
proof -
  have "(0 :: rat) < 1 / 2 ^ 53" by simp
  with assms have "x \<le> 1" "0 \<le> y" by linarith+
  with assms have "\<bar>fl x - x\<bar> \<le> 1 / 2 ^ 54" "\<bar>fl y - y\<bar> \<le> 1 / 2 ^ 54"
    using fl_unit_error by blast+
  moreover have "(1 / 2 ^ 53 :: rat) = 1 / 2 ^ 54 + 1 / 2 ^ 54" by simp
  ultimately show ?thesis using assms(2) by linarith
qed

lemma fl_fl_le:
  assumes "0 \<le> x" and "x + 1 / 2 ^ 54 \<le> y" and "x \<le> 1"
  shows "fl (fl x) \<le> fl y"
  using fl_unit_error [OF assms(1,3)] assms(2) by (intro fl_mono) linarith

text \<open>
  The quotient of two tallies compared with a threshold: as long as the denominator is below
  \<open>2^48\<close>, the rounded quotient reaches the rounded threshold exactly when the exact quotient
  reaches the exact one.  This is what makes the floating-point rules of the source rules about
  counts.
\<close>

theorem fl_ratio_ge_iff:
  assumes "0 \<le> p" and "p \<le> t" and "0 < t" and "t \<le> 2 ^ 48"
    and "0 \<le> a" and "a \<le> b" and "0 < b" and "b \<le> 20"
  shows "fl (of_int a / of_int b) \<le> fl (of_int p / of_int t) \<longleftrightarrow> a * t \<le> p * b"
proof
  assume "a * t \<le> p * b"
  then have "of_int (a * t) \<le> (of_int (p * b) :: rat)" by (simp only: of_int_le_iff)
  then have "of_int a / of_int b \<le> (of_int p / of_int t :: rat)"
    using assms by (simp add: divide_le_eq pos_le_divide_eq mult.commute)
  then show "fl (of_int a / of_int b) \<le> fl (of_int p / of_int t)" by (rule fl_mono)
next
  assume fl: "fl (of_int a / of_int b) \<le> fl (of_int p / of_int t)"
  show "a * t \<le> p * b"
  proof (rule ccontr)
    assume "\<not> a * t \<le> p * b"
    then have "p * b + 1 \<le> a * t" by simp
    then have "of_int (p * b + 1) \<le> (of_int (a * t) :: rat)" by (simp only: of_int_le_iff)
    moreover have "0 < of_int t * (of_int b :: rat)" using assms by simp
    ultimately have "of_int (p * b + 1) / (of_int t * of_int b :: rat)
        \<le> of_int (a * t) / (of_int t * of_int b)"
      by (intro divide_right_mono) simp_all
    then have gap: "of_int p / of_int t + 1 / (of_int t * of_int b) \<le> (of_int a / of_int b :: rat)"
      using assms by (simp add: add_divide_distrib)
    have "t * b \<le> 2 ^ 48 * 20"
      using assms by (intro mult_mono) simp_all
    then have "(of_int (t * b) :: rat) \<le> of_int (2 ^ 48 * 20)" by (simp only: of_int_le_iff)
    then have tb: "of_int t * of_int b < (2 ^ 53 :: rat)" by simp
    have "0 < of_int t * (of_int b :: rat)" using assms by simp
    with tb have "1 / 2 ^ 53 < 1 / (of_int t * of_int b :: rat)"
      by (intro divide_strict_left_mono) simp_all
    moreover have "\<bar>fl (of_int a / of_int b) - of_int a / of_int b\<bar> \<le> 1 / 2 ^ 54"
      "\<bar>fl (of_int p / of_int t) - of_int p / of_int t\<bar> \<le> 1 / 2 ^ 54"
      using assms by (intro fl_unit_error; simp add: divide_le_eq)+
    moreover have "(1 / 2 ^ 53 :: rat) = 1 / 2 ^ 54 + 1 / 2 ^ 54" by simp
    ultimately show False using fl gap by linarith
  qed
qed

text \<open>A tally over its total is a rate: rounding keeps it between 0 and 1.\<close>

lemma fl_ratio_unit:
  "0 \<le> p \<Longrightarrow> p \<le> t \<Longrightarrow> 0 < t \<Longrightarrow> 0 \<le> fl (p / t) \<and> fl (p / t) \<le> 1"
  by (simp add: fl_nonneg fl_le_1)

end
