(* ===== verification/Domain.thy ===== *)
theory Domain
  imports Versions EnvFingerprint Float64
begin

text \<open>
  The shared evidence types of \<open>src/internal/domain/types.go\<close>, \<open>search.go\<close> and \<open>failure.go\<close>:
  match grades, stage results, signed verification receipts, cases and search results.  A Go
  string type whose values are a closed list of constants is a \<open>datatype\<close>; \<open>Stage\<close> stays a string
  because rows of any stage are read.  A pointer is an \<open>option\<close>.
\<close>

datatype MatchGrade = GradeExact | GradeCompatible | GradeAdaptationRequired
  | GradeReferenceOnly | GradeNoSafeMatch

datatype Result = ResultPass | ResultFail

type_synonym Stage = string

record VerifierImage =
  viReference :: string
  viDigest :: string

record FailureTermination =
  ftKind :: string
  ftExitCode :: "int option"
  ftSignal :: string
  ftTimeoutMillis :: int

record FailureEvidence =
  feTerminationKind :: string
  feExitCode :: "int option"
  feSignal :: string
  feTimeoutMillis :: int
  feErrorSummary :: string
  feErrorCode :: string
  feFingerprint :: string
  feEvidenceQuality :: string
  feOuterCommand :: string
  feOuterStage :: Stage
  feActualToolchain :: string
  feStageEvidence :: string
  feEvidenceGap :: string

record VerificationReceipt =
  vrSchemaVersion :: int
  vrSampleID :: string
  vrCaseID :: string
  vrEnvironmentHash :: string
  vrEnvironment :: EnvironmentFingerprint
  vrStages :: "(string, string) gomap"
  vrStageFailures :: "(string, FailureEvidence) gomap"
  vrResolvedPackages :: "string list"
  vrVerifierImage :: "VerifierImage option"
  vrVerifierAdapter :: string
  vrSandboxCapability :: string
  vrLogsDigest :: string
  vrCreatedAt :: string
  vrPeerID :: string
  vrPeerPubkey :: string
  vrPeerSignature :: string

definition zero_receipt :: VerificationReceipt where
  "zero_receipt = \<lparr>vrSchemaVersion = 0, vrSampleID = [], vrCaseID = [], vrEnvironmentHash = [],
     vrEnvironment = zero_env, vrStages = [], vrStageFailures = [], vrResolvedPackages = [],
     vrVerifierImage = None, vrVerifierAdapter = [], vrSandboxCapability = [], vrLogsDigest = [],
     vrCreatedAt = [], vrPeerID = [], vrPeerPubkey = [], vrPeerSignature = []\<rparr>"

record Case =
  caSchemaVersion :: int
  caCaseID :: string
  caKind :: string
  caGoal :: string
  caPackages :: "string list"
  caSymbols :: "string list"
  caConstraints :: "(string, string) gomap"
  caContract :: "string list"
  caBelieved :: string

record FailureHypothesis =
  fhDomain :: string
  fhConfidence :: rat

record EvidenceSummary =
  esProjectCompileObservations :: int
  esCleanBuilds :: int
  esContractPasses :: int
  esIndependentCrossPeers :: int
  esUniquePeerBuckets :: int
  esPassRate :: rat
  esConfidence :: string
  esElevatedFailures :: "string list"
  esLastSeen :: string

record KnownFailure =
  kfErrorCode :: string
  kfFingerprint :: string
  kfCount :: int
  kfEnvSummary :: "(string, string) gomap"
  kfHypotheses :: "FailureHypothesis list"

record SearchResult =
  srGrade :: MatchGrade
  srConfidence :: string
  srScore :: rat
  srCase :: "Case option"
  srSampleID :: string
  srSampleURL :: string
  srSampleStatus :: string
  srExactFailureMatched :: bool
  srExact :: "string list"
  srDifferent :: "string list"
  srAdaptation :: "string list"
  srEvidence :: EvidenceSummary
  srKnownFailures :: "KnownFailure list"

text \<open>The zero values of the structs, from which examples are built.\<close>

definition zero_case :: Case where
  "zero_case = \<lparr>caSchemaVersion = 0, caCaseID = [], caKind = [], caGoal = [], caPackages = [],
     caSymbols = [], caConstraints = [], caContract = [], caBelieved = []\<rparr>"

definition zero_evidence :: EvidenceSummary where
  "zero_evidence = \<lparr>esProjectCompileObservations = 0, esCleanBuilds = 0, esContractPasses = 0,
     esIndependentCrossPeers = 0, esUniquePeerBuckets = 0, esPassRate = 0, esConfidence = [],
     esElevatedFailures = [], esLastSeen = []\<rparr>"

definition zero_result :: SearchResult where
  "zero_result = \<lparr>srGrade = GradeNoSafeMatch, srConfidence = [], srScore = 0, srCase = None,
     srSampleID = [], srSampleURL = [], srSampleStatus = [], srExactFailureMatched = False,
     srExact = [], srDifferent = [], srAdaptation = [], srEvidence = zero_evidence,
     srKnownFailures = []\<rparr>"

end
