(* ===== verification/Ranking.thy ===== *)
theory Ranking
  imports Domain
begin

text \<open>
  \<open>src/internal/search/rank.go\<close>: the relation between the packages a caller names and those a
  sample was verified with, the verification level that receipts prove, and the score factors.
  The two nested loops of \<open>packageRelation\<close> are a fold over the pairs in the loops' order; the
  \<open>peers\<close> set of \<open>verificationLevel\<close> is the list of distinct named peers.
\<close>

section \<open>The package relation (rank.go)\<close>

datatype pkgRel = relUnspecified | relNone | relMajorDiff | relPackageOnly | relMajor
  | relMajorMinor | relExactVersion

primrec pkgRel_iota :: "pkgRel \<Rightarrow> nat" where
  "pkgRel_iota relUnspecified = 0"
| "pkgRel_iota relNone = 1"
| "pkgRel_iota relMajorDiff = 2"
| "pkgRel_iota relPackageOnly = 3"
| "pkgRel_iota relMajor = 4"
| "pkgRel_iota relMajorMinor = 5"
| "pkgRel_iota relExactVersion = 6"

lemma pkgRel_iota_inj: "pkgRel_iota r = pkgRel_iota s \<Longrightarrow> r = s"
  by (cases r; cases s) simp_all

instantiation pkgRel :: linorder
begin

definition less_eq_pkgRel :: "pkgRel \<Rightarrow> pkgRel \<Rightarrow> bool" where
  "r \<le> s \<longleftrightarrow> pkgRel_iota r \<le> pkgRel_iota s"

definition less_pkgRel :: "pkgRel \<Rightarrow> pkgRel \<Rightarrow> bool" where
  "r < s \<longleftrightarrow> pkgRel_iota r < pkgRel_iota s"

instance
  by standard (auto simp: less_eq_pkgRel_def less_pkgRel_def intro: pkgRel_iota_inj)

end

definition equalFoldName :: "string \<Rightarrow> string \<Rightarrow> bool" where
  "equalFoldName a b = EqualFold a b"

definition zero_purl :: PURL where
  "zero_purl = \<lparr>pEcosystem = [], pName = [], pVersion = []\<rparr>"

text \<open>The switch of the inner loop body.\<close>

definition pairRel :: "PURL \<Rightarrow> PURL \<Rightarrow> pkgRel" where
  "pairRel rp cp =
     (if pVersion rp = pVersion cp then relExactVersion
      else if MajorMinor rp = MajorMinor cp then relMajorMinor
      else if BreakingBucket rp = BreakingBucket cp then relMajor
      else relMajorDiff)"

definition sharedPair :: "PURL \<Rightarrow> PURL \<Rightarrow> bool" where
  "sharedPair rp cp \<longleftrightarrow> pEcosystem rp = pEcosystem cp \<and> equalFoldName (pName rp) (pName cp)"

text \<open>The variables \<open>best, reqP, samP, found\<close> that the two loops carry, and one iteration.\<close>

type_synonym relState = "pkgRel \<times> PURL \<times> PURL \<times> bool"

fun packageRelation_step :: "PURL \<times> PURL \<Rightarrow> relState \<Rightarrow> relState" where
  "packageRelation_step (rp, cp) (best, reqP, samP, found) =
     (if \<not> sharedPair rp cp then (best, reqP, samP, found)
      else if \<not> found \<or> pairRel rp cp < best then (pairRel rp cp, rp, cp, True)
      else (best, reqP, samP, found))"

definition packageRelation :: "PURL list \<Rightarrow> PURL list \<Rightarrow> pkgRel \<times> PURL \<times> PURL" where
  "packageRelation reqPkgs candPkgs =
     (let samP = (if candPkgs \<noteq> [] then candPkgs ! 0 else zero_purl) in
      if reqPkgs = [] then (relUnspecified, zero_purl, samP)
      else case fold packageRelation_step (List.product reqPkgs candPkgs)
                  (relNone, reqPkgs ! 0, samP, False) of
        (best, reqP, samP, found) \<Rightarrow>
          if \<not> found then (relNone, reqP, samP) else (best, reqP, samP))"

section \<open>Score factors and the verification level\<close>

definition relWeight :: "pkgRel \<Rightarrow> rat" where
  "relWeight r = (case r of
     relExactVersion \<Rightarrow> fl (45 / 100)
   | relMajorMinor \<Rightarrow> fl (40 / 100)
   | relMajor \<Rightarrow> fl (28 / 100)
   | relPackageOnly \<Rightarrow> fl (28 / 100)
   | relMajorDiff \<Rightarrow> fl (10 / 100)
   | _ \<Rightarrow> 0)"

text \<open>The difference of two 64-bit numbers wraps.\<close>

definition intDistance :: "string \<Rightarrow> string \<Rightarrow> int" where
  "intDistance a b =
     (let (ai, aok) = Atoi a; (bi, bok) = Atoi b in
      if \<not> aok \<or> \<not> bok then (if a = b then 0 else 1)
      else if bi < ai then wrap64 (ai - bi) else wrap64 (bi - ai))"

definition contractResult :: "(string, string) gomap \<Rightarrow> Result option" where
  "contractResult stages =
     (if get [] stages ''contract'' = ''PASS'' then Some ResultPass
      else if get [] stages ''contract'' = ''FAIL'' then Some ResultFail
      else None)"

definition contract_passes :: "VerificationReceipt list \<Rightarrow> VerificationReceipt list" where
  "contract_passes receipts = filter (\<lambda>r. contractResult (vrStages r) = Some ResultPass) receipts"

definition named_peers :: "VerificationReceipt list \<Rightarrow> string list" where
  "named_peers receipts =
     remdups (filter (\<lambda>p. p \<noteq> []) (map vrPeerID (contract_passes receipts)))"

definition verificationLevel ::
  "string \<Rightarrow> (string, string) gomap \<Rightarrow> VerificationReceipt list \<Rightarrow> int" where
  "verificationLevel status contractStages receipts =
     (let lvl0 = (if status = ''STABLE'' \<or> status = ''MATRIX_PASS'' then 5
                  else if status = ''CROSS_PASS'' then 4
                  else if status = ''LOCAL_PASS'' then 3 else 0);
          peers = length (named_peers receipts);
          passes = length (contract_passes receipts);
          lvl1 = (if 2 \<le> peers \<and> lvl0 < 4 then 4
                  else if 1 \<le> passes \<and> lvl0 < 3 then 3 else lvl0)
      in if get [] contractStages ''contract'' = ''PASS'' \<and> lvl1 < 3 then 3 else lvl1)"

definition strengthBoost :: "int \<Rightarrow> rat" where
  "strengthBoost level = (if 4 \<le> level then 3 else if level = 3 then 2 else 1)"

section \<open>The worst shared pair\<close>

definition shared_pairs :: "PURL list \<Rightarrow> PURL list \<Rightarrow> (PURL \<times> PURL) list" where
  "shared_pairs reqs cands = filter (\<lambda>(rp, cp). sharedPair rp cp) (List.product reqs cands)"

lemma step_found:
  "fold packageRelation_step ps (pairRel rp cp, rp, cp, True) = (best, rp', cp', found) \<Longrightarrow>
   found \<and> best = pairRel rp' cp' \<and> best \<le> pairRel rp cp \<and>
   ((rp', cp') = (rp, cp) \<or> (rp', cp') \<in> set ps \<and> sharedPair rp' cp') \<and>
   (\<forall>(a, b)\<in>set ps. sharedPair a b \<longrightarrow> best \<le> pairRel a b)"
proof (induction ps arbitrary: rp cp)
  case Nil
  then show ?case by auto
next
  case (Cons p ps)
  obtain a b where p: "p = (a, b)" by fastforce
  show ?case
  proof (cases "sharedPair a b \<and> pairRel a b < pairRel rp cp")
    case True
    with Cons.prems p
    have "fold packageRelation_step ps (pairRel a b, a, b, True) = (best, rp', cp', found)" by simp
    from Cons.IH [OF this] True p show ?thesis by auto
  next
    case False
    with Cons.prems p
    have "fold packageRelation_step ps (pairRel rp cp, rp, cp, True) = (best, rp', cp', found)"
      by (auto split: if_splits)
    from Cons.IH [OF this] False p show ?thesis by auto
  qed
qed

lemma step_search:
  "fold packageRelation_step ps (relNone, r0, s0, False) = (best, rp, cp, found) \<Longrightarrow>
   (if \<exists>(a, b)\<in>set ps. sharedPair a b
    then found \<and> best = pairRel rp cp \<and> (rp, cp) \<in> set ps \<and> sharedPair rp cp \<and>
      (\<forall>(a, b)\<in>set ps. sharedPair a b \<longrightarrow> best \<le> pairRel a b)
    else \<not> found \<and> rp = r0 \<and> cp = s0)"
proof (induction ps)
  case Nil
  then show ?case by simp
next
  case (Cons p ps)
  obtain a b where p: "p = (a, b)" by fastforce
  show ?case
  proof (cases "sharedPair a b")
    case True
    with Cons.prems p
    have "fold packageRelation_step ps (pairRel a b, a, b, True) = (best, rp, cp, found)" by simp
    from step_found [OF this] True p show ?thesis by auto
  next
    case False
    with Cons.prems p
    have "fold packageRelation_step ps (relNone, r0, s0, False) = (best, rp, cp, found)" by simp
    from Cons.IH [OF this] False p show ?thesis by (simp split: if_splits) blast?
  qed
qed

text \<open>C24: the package relation that is graded is the worst one among the packages both sides
  share.  It belongs to a shared pair of the request and the candidate, no shared pair relates
  worse, and with no shared pair the relation is "none" (or "unspecified" without a request).\<close>

theorem package_relation_worst:
  assumes "packageRelation reqs cands = (r, rp, cp)"
  shows "if reqs = [] then r = relUnspecified
         else if shared_pairs reqs cands = [] then r = relNone
         else (rp, cp) \<in> set (shared_pairs reqs cands) \<and> r = pairRel rp cp \<and>
           (\<forall>(a, b)\<in>set (shared_pairs reqs cands). r \<le> pairRel a b)"
proof (cases "reqs = []")
  case True
  with assms show ?thesis by (simp add: packageRelation_def Let_def)
next
  case False
  obtain best rp' cp' found where f:
    "fold packageRelation_step (List.product reqs cands)
       (relNone, reqs ! 0, if cands \<noteq> [] then cands ! 0 else zero_purl, False)
     = (best, rp', cp', found)"
    by (metis prod_cases4)
  have "shared_pairs reqs cands = [] \<longleftrightarrow> \<not> (\<exists>(a, b)\<in>set (List.product reqs cands). sharedPair a b)"
    by (auto simp: shared_pairs_def filter_empty_conv)
  with step_search [OF f] assms False f show ?thesis
    by (auto simp: packageRelation_def Let_def shared_pairs_def split: if_splits)
qed

theorem package_relation_worst_witness:
  "fst (packageRelation
     [\<lparr>pEcosystem = ''npm'', pName = ''react'', pVersion = ''19.2.0''\<rparr>,
      \<lparr>pEcosystem = ''npm'', pName = ''react-dom'', pVersion = ''19.2.0''\<rparr>]
     [\<lparr>pEcosystem = ''npm'', pName = ''react'', pVersion = ''19.2.0''\<rparr>,
      \<lparr>pEcosystem = ''npm'', pName = ''react-dom'', pVersion = ''18.3.1''\<rparr>]) \<le> relMajorDiff"
proof -
  let ?rq = "[\<lparr>pEcosystem = ''npm'', pName = ''react'', pVersion = ''19.2.0''\<rparr>,
      \<lparr>pEcosystem = ''npm'', pName = ''react-dom'', pVersion = ''19.2.0''\<rparr>] :: PURL list"
  let ?ca = "[\<lparr>pEcosystem = ''npm'', pName = ''react'', pVersion = ''19.2.0''\<rparr>,
      \<lparr>pEcosystem = ''npm'', pName = ''react-dom'', pVersion = ''18.3.1''\<rparr>] :: PURL list"
  obtain r rp cp where p: "packageRelation ?rq ?ca = (r, rp, cp)" by (metis prod_cases3)
  have "shared_pairs ?rq ?ca = [(?rq ! 0, ?ca ! 0), (?rq ! 1, ?ca ! 1)]" by code_simp
  moreover have "pairRel (?rq ! 1) (?ca ! 1) = relMajorDiff" by code_simp
  ultimately show ?thesis using package_relation_worst [OF p] p by auto
qed

section \<open>Distances\<close>

lemma dec_val_nonneg: "list_all is_digit ds \<Longrightarrow> 0 \<le> dec_val ds"
proof -
  have "list_all is_digit ds \<Longrightarrow> 0 \<le> a \<Longrightarrow> 0 \<le> foldl (\<lambda>a c. 10 * a + digit_val c) a ds" for a :: int
  proof (induction ds arbitrary: a)
    case Nil
    then show ?case by simp
  next
    case (Cons c ds)
    then have "0 \<le> digit_val c" using digit_val_bounds by simp
    with Cons show ?case by simp
  qed
  then show "list_all is_digit ds \<Longrightarrow> 0 \<le> dec_val ds" by (simp add: dec_val_def)
qed

lemma Atoi_nonneg: "\<not> HasPrefix s ''-'' \<Longrightarrow> 0 \<le> fst (Atoi s)"
proof (cases "parse_int s")
  case None
  then show ?thesis by (simp add: Atoi_def)
next
  case (Some n)
  assume "\<not> HasPrefix s ''-''"
  with Some have "0 \<le> n"
    by (auto simp: parse_int_def Let_def dec_val_nonneg simp del: not_Cons_self2 split: if_splits)
  with Some show ?thesis by (simp add: Atoi_def min_int64_def max_int64_def)
qed

lemma intDistance_nonneg:
  assumes "\<not> HasPrefix a ''-''" and "\<not> HasPrefix b ''-''"
  shows "0 \<le> intDistance a b"
proof -
  have "0 \<le> fst (Atoi a)" "0 \<le> fst (Atoi b)" "in_int64 (fst (Atoi a))" "in_int64 (fst (Atoi b))"
    using Atoi_nonneg assms Atoi_in_int64 by blast+
  then show ?thesis
    by (auto simp: intDistance_def Let_def in_int64_def max_int64_def wrap64_small
        split: prod.splits)
qed

section \<open>Independence of verification\<close>

lemma two_peers_iff:
  "2 \<le> length (named_peers rs) \<longleftrightarrow>
     (\<exists>r1\<in>set rs. \<exists>r2\<in>set rs. contractResult (vrStages r1) = Some ResultPass \<and>
        contractResult (vrStages r2) = Some ResultPass \<and> vrPeerID r1 \<noteq> [] \<and> vrPeerID r2 \<noteq> [] \<and>
        vrPeerID r1 \<noteq> vrPeerID r2)" (is "_ \<longleftrightarrow> ?two")
proof -
  let ?P = "set (filter (\<lambda>p. p \<noteq> []) (map vrPeerID (contract_passes rs)))"
  have "length (named_peers rs) = card ?P" by (simp add: named_peers_def length_remdups_card_conv)
  moreover have "2 \<le> card ?P \<longleftrightarrow> (\<exists>a\<in>?P. \<exists>b\<in>?P. a \<noteq> b)"
  proof
    assume "2 \<le> card ?P"
    then obtain a b where "a \<in> ?P" "b \<in> ?P" "a \<noteq> b"
      by (metis card_le_Suc0_iff_eq finite_set not_less_eq_eq numeral_2_eq_2)
    then show "\<exists>a\<in>?P. \<exists>b\<in>?P. a \<noteq> b" by blast
  next
    assume "\<exists>a\<in>?P. \<exists>b\<in>?P. a \<noteq> b"
    then show "2 \<le> card ?P"
      by (metis card_le_Suc0_iff_eq finite_set not_less_eq_eq numeral_2_eq_2)
  qed
  moreover have "(\<exists>a\<in>?P. \<exists>b\<in>?P. a \<noteq> b) \<longleftrightarrow> ?two"
    by (auto simp: contract_passes_def)
  ultimately show ?thesis by simp
qed

text \<open>Receipts alone reach level 4 only through contract passes of two different named
  peers: below a CROSS_PASS status the level is at least 4 exactly then.  An unnamed receipt never
  counts as a peer, and receipts and stages alone never reach level 5.\<close>

theorem level_four_needs_two_peers:
  "(4 \<le> verificationLevel status stages rs \<longleftrightarrow>
     status \<in> {''STABLE'', ''MATRIX_PASS'', ''CROSS_PASS''} \<or>
     (\<exists>r1\<in>set rs. \<exists>r2\<in>set rs. contractResult (vrStages r1) = Some ResultPass \<and>
        contractResult (vrStages r2) = Some ResultPass \<and> vrPeerID r1 \<noteq> [] \<and> vrPeerID r2 \<noteq> [] \<and>
        vrPeerID r1 \<noteq> vrPeerID r2)) \<and>
   (5 \<le> verificationLevel status stages rs \<longleftrightarrow> status \<in> {''STABLE'', ''MATRIX_PASS''})"
  unfolding two_peers_iff [symmetric] by (auto simp: verificationLevel_def Let_def)

end
