(* ===== verification/Grading.thy ===== *)
theory Grading
  imports Ranking
begin

text \<open>
  The local search engine's grader, \<open>src/internal/search/grade.go\<close> and \<open>delta.go\<close>:
  the comparison of the caller's environment with the one a sample was verified in, dimension by
  dimension; the execution-context axis; the match grade with its adaptations; the
  Exact/Different lists shown to the reader; the environment factor of the score.  Each block of
  \<open>compareEnv\<close> is one definition, in the order of the code.  Floating point factors are the rounded rationals of \<open>Float64\<close>.
\<close>

section \<open>Version buckets and display strings (delta.go)\<close>

definition majorOf :: "string \<Rightarrow> string" where
  "majorOf v = (if v = [] then [] else hd (SplitN (before_any v ''-+'') CHR ''.'' 2))"

definition two_segments :: "string \<Rightarrow> string" where
  "two_segments v =
     (let segs = SplitN v CHR ''.'' 3
      in if 2 \<le> length segs then segs ! 0 @ ''.'' @ segs ! 1 else segs ! 0)"

definition releaseLineOf :: "string \<Rightarrow> string \<Rightarrow> string" where
  "releaseLineOf toolchain version =
     (if version = [] then []
      else let version = before_any version ''-+'' in
        if ToLower toolchain \<in> {''go'', ''golang'', ''python'', ''elixir'', ''dart''}
        then two_segments version
        else majorOf version)"

definition majorMinorOf :: "string \<Rightarrow> string" where
  "majorMinorOf v = (if v = [] then [] else two_segments (before_any v ''-+''))"

definition runtimeShow :: "string \<Rightarrow> string \<Rightarrow> string" where
  "runtimeShow name version =
     (if name = [] then []
      else let line = releaseLineOf name version in
        if line \<noteq> [] then name @ '' '' @ line else name)"

definition langShow :: "string \<Rightarrow> string \<Rightarrow> string" where
  "langShow name version =
     (let mm = majorMinorOf version in if mm \<noteq> [] then name @ '' '' @ mm else name)"

definition osShow :: "EnvironmentFingerprint \<Rightarrow> string" where
  "osShow e = (if eOSVersionBucket e \<noteq> [] then eOS e @ '' '' @ eOSVersionBucket e else eOS e)"

definition libcShow :: "EnvironmentFingerprint \<Rightarrow> string" where
  "libcShow e = (if eLibcVersion e = [] then eLibc e else eLibc e @ '' '' @ eLibcVersion e)"

section \<open>Comparing environments (grade.go)\<close>

record dimComparison =
  dcEqual :: bool
  dcExactEntry :: string
  dcSamShow :: string
  dcReqShow :: string
  dcAdaptation :: string
  dcRefOnly :: bool

text \<open>The composite literals the code appends: an agreement, and a difference.\<close>

definition dim_agrees :: "string \<Rightarrow> dimComparison" where
  "dim_agrees entry = \<lparr>dcEqual = True, dcExactEntry = entry, dcSamShow = [], dcReqShow = [],
     dcAdaptation = [], dcRefOnly = False\<rparr>"

definition dim_differs :: "string \<Rightarrow> string \<Rightarrow> string \<Rightarrow> bool \<Rightarrow> dimComparison" where
  "dim_differs samShow reqShow adaptation refOnly = \<lparr>dcEqual = False, dcExactEntry = [],
     dcSamShow = samShow, dcReqShow = reqShow, dcAdaptation = adaptation, dcRefOnly = refOnly\<rparr>"

definition compareEcosystem ::
  "EnvironmentFingerprint \<Rightarrow> EnvironmentFingerprint \<Rightarrow> bool \<Rightarrow> dimComparison list" where
  "compareEcosystem req sam ecosystemInferred =
     (if eEcosystem req \<noteq> [] \<and> eEcosystem sam \<noteq> [] then
        let r = ToLower (eEcosystem req); s = ToLower (eEcosystem sam) in
        if EqualFold (eEcosystem req) (eEcosystem sam) then [dim_agrees (''ecosystem '' @ s)]
        else if ecosystemInferred then
          [dim_differs (''ecosystem '' @ s) (''ecosystem '' @ r)
             (''translate from '' @ s @ '' to '' @ r) False]
        else [dim_differs (''ecosystem '' @ s) (''ecosystem '' @ r) [] True]
      else [])"

definition compareRuntime ::
  "EnvironmentFingerprint \<Rightarrow> EnvironmentFingerprint \<Rightarrow> dimComparison list" where
  "compareRuntime req sam =
     (if eRuntime req \<noteq> [] \<and> eRuntime sam \<noteq> [] then
        let reqShow = runtimeShow (eRuntime req) (eRuntimeVersion req);
            samShow = runtimeShow (eRuntime sam) (eRuntimeVersion sam);
            same = EqualFold (eRuntime req) (eRuntime sam)
        in
        if same \<and> releaseLineOf (eRuntime req) (eRuntimeVersion req) =
              releaseLineOf (eRuntime sam) (eRuntimeVersion sam) then [dim_agrees samShow]
        else if same \<and> (eRuntimeVersion req = [] \<or> eRuntimeVersion sam = [])
          then [dim_agrees samShow]
        else if same \<and> majorOf (eRuntimeVersion req) = majorOf (eRuntimeVersion sam)
          then [dim_differs samShow reqShow (''verify on '' @ ToLower reqShow) False]
        else if same then [dim_differs samShow reqShow [] True]
        else [dim_differs samShow reqShow [] False]
      else [])"

definition compareLanguage ::
  "EnvironmentFingerprint \<Rightarrow> EnvironmentFingerprint \<Rightarrow> dimComparison list" where
  "compareLanguage req sam =
     (if eLanguage req \<noteq> [] \<and> eLanguage sam \<noteq> [] then
        let reqShow = langShow (eLanguage req) (eLanguageVersion req);
            samShow = langShow (eLanguage sam) (eLanguageVersion sam);
            sameLang = EqualFold (eLanguage req) (eLanguage sam);
            unknownVersion = (eLanguageVersion req = [] \<or> eLanguageVersion sam = [])
        in
        if sameLang \<and> (unknownVersion \<or>
             majorMinorOf (eLanguageVersion req) = majorMinorOf (eLanguageVersion sam))
        then [dim_agrees samShow]
        else [dim_differs samShow reqShow [] False]
      else [])"

definition compareCompiler ::
  "EnvironmentFingerprint \<Rightarrow> EnvironmentFingerprint \<Rightarrow> string \<Rightarrow> dimComparison list" where
  "compareCompiler req sam ecosystem =
     (if eCompiler req \<noteq> [] \<and> eCompiler sam \<noteq> [] then
        let reqShow = runtimeShow (eCompiler req) (eCompilerVersion req);
            samShow = runtimeShow (eCompiler sam) (eCompilerVersion sam);
            sameCompiler = EqualFold (eCompiler req) (eCompiler sam);
            unknownCompilerVersion = (eCompilerVersion req = [] \<or> eCompilerVersion sam = [])
        in
        if sameCompiler \<and> (unknownCompilerVersion \<or>
             releaseLineOf (eCompiler req) (eCompilerVersion req) =
             releaseLineOf (eCompiler sam) (eCompilerVersion sam))
        then [dim_agrees samShow]
        else [dim_differs samShow reqShow [] (ecosystem = ''cargo'' \<or> ecosystem = ''golang'')]
      else [])"

definition compareModuleSystem ::
  "EnvironmentFingerprint \<Rightarrow> EnvironmentFingerprint \<Rightarrow> dimComparison list" where
  "compareModuleSystem req sam =
     (if eModuleSystem req \<noteq> [] \<and> eModuleSystem sam \<noteq> [] then
        (if EqualFold (eModuleSystem req) (eModuleSystem sam)
         then [dim_agrees (ToUpper (eModuleSystem sam))]
         else [dim_differs (ToUpper (eModuleSystem sam)) (ToUpper (eModuleSystem req))
                 ''Import syntax only'' False])
      else [])"

text \<open>The arrow of the adaptation text is U+2192, three bytes.\<close>

definition comparePackageManager ::
  "EnvironmentFingerprint \<Rightarrow> EnvironmentFingerprint \<Rightarrow> dimComparison list" where
  "comparePackageManager req sam =
     (if ePackageManager req \<noteq> [] \<and> ePackageManager sam \<noteq> [] then
        (if EqualFold (ePackageManager req) (ePackageManager sam)
         then [dim_agrees (ToLower (ePackageManager sam))]
         else [dim_differs (ToLower (ePackageManager sam)) (ToLower (ePackageManager req))
                 (''Package manager commands ('' @ ToLower (ePackageManager sam) @
                  [CHR '' '', CHR 0xE2, CHR 0x86, CHR 0x92, CHR '' ''] @
                  ToLower (ePackageManager req) @ '')'') False])
      else [])"

definition compareOS ::
  "EnvironmentFingerprint \<Rightarrow> EnvironmentFingerprint \<Rightarrow> dimComparison list" where
  "compareOS req sam =
     (if eOS req \<noteq> [] \<and> eOS sam \<noteq> [] then
        (if EqualFold (eOS req) (eOS sam) then [dim_agrees (osShow sam)]
         else [dim_differs (osShow sam) (osShow req) [] False])
      else [])"

definition compareArch ::
  "EnvironmentFingerprint \<Rightarrow> EnvironmentFingerprint \<Rightarrow> dimComparison list" where
  "compareArch req sam =
     (if eArch req \<noteq> [] \<and> eArch sam \<noteq> [] then
        (if EqualFold (eArch req) (eArch sam) then [dim_agrees (eArch sam)]
         else [dim_differs (eArch sam) (eArch req) [] False])
      else [])"

text \<open>
  The loop over both segment lists, a missing segment being 0; \<open>Atoi\<close>'s error is dropped, so an
  unparsable segment is 0 as well and one out of range is the end of the range.
\<close>

definition compareLibcVersions :: "string \<Rightarrow> string \<Rightarrow> int" where
  "compareLibcVersions a b =
     padlex cmp3 0 (map (fst \<circ> Atoi) (Split a CHR ''.'')) (map (fst \<circ> Atoi) (Split b CHR ''.''))"

definition olderLibc :: "string \<Rightarrow> string \<Rightarrow> bool" where
  "olderLibc reqVer samVer =
     (if reqVer = [] \<or> samVer = [] then False else compareLibcVersions reqVer samVer < 0)"

definition compareLibc ::
  "EnvironmentFingerprint \<Rightarrow> EnvironmentFingerprint \<Rightarrow> dimComparison list" where
  "compareLibc req sam =
     (if eLibc req \<noteq> [] \<and> eLibc sam \<noteq> [] then
        (if \<not> EqualFold (eLibc req) (eLibc sam) then [dim_differs (eLibc sam) (eLibc req) [] False]
         else if olderLibc (eLibcVersion req) (eLibcVersion sam)
           then [dim_differs (libcShow sam) (libcShow req) [] False]
         else [dim_agrees (libcShow sam)])
      else [])"

definition compareEnv ::
  "EnvironmentFingerprint \<Rightarrow> EnvironmentFingerprint \<Rightarrow> string \<Rightarrow> bool \<Rightarrow> dimComparison list" where
  "compareEnv req sam ecosystem ecosystemInferred =
     compareEcosystem req sam ecosystemInferred @
     compareRuntime req sam @
     compareLanguage req sam @
     compareCompiler req sam ecosystem @
     compareModuleSystem req sam @
     comparePackageManager req sam @
     compareOS req sam @
     compareArch req sam @
     compareLibc req sam"

section \<open>The execution context (grade.go)\<close>

record contextDelta =
  cdMismatch :: bool
  cdBrowserAdapt :: bool
  cdVerifyIn :: string
  cdMajorDistance :: int
  cdSamShow :: string
  cdReqShow :: string

definition zero_context :: contextDelta where
  "zero_context = \<lparr>cdMismatch = False, cdBrowserAdapt = False, cdVerifyIn = [],
     cdMajorDistance = 0, cdSamShow = [], cdReqShow = []\<rparr>"

definition contextOf :: "EnvironmentFingerprint \<Rightarrow> string" where
  "contextOf e0 =
     (let e = Normalize e0 in
      if eExecutionContext e \<noteq> [] then ToLower (eExecutionContext e)
      else if eBrowserFamily e \<noteq> [] then ''browser''
      else if eRuntime e \<noteq> [] then ToLower (eRuntime e)
      else [])"

definition ctxDisplay :: "EnvironmentFingerprint \<Rightarrow> string" where
  "ctxDisplay e =
     (if eBrowserFamily e \<noteq> [] then
        (if eBrowserMajor e \<noteq> [] then eBrowserFamily e @ '' '' @ eBrowserMajor e
         else eBrowserFamily e)
      else if ContextLabel e \<noteq> [] then ContextLabel e
      else eExecutionContext e)"

definition compareContext :: "EnvironmentFingerprint \<Rightarrow> EnvironmentFingerprint \<Rightarrow> contextDelta" where
  "compareContext req sam =
     (let rc = contextOf req; sc = contextOf sam in
      if rc = [] \<or> sc = [] then zero_context
      else
        let d = zero_context\<lparr>cdReqShow := ctxDisplay req, cdSamShow := ctxDisplay sam\<rparr> in
        if \<not> EqualFold rc sc then d\<lparr>cdMismatch := True, cdVerifyIn := cdReqShow d\<rparr>
        else
          let rf = ToLower (eBrowserFamily req); sf = ToLower (eBrowserFamily sam) in
          if rf \<noteq> [] \<and> sf \<noteq> [] then
            if rf \<noteq> sf then
              let re = eEngine (Normalize req); se = eEngine (Normalize sam) in
              (if re \<noteq> [] \<and> se \<noteq> [] \<and> \<not> EqualFold re se then d\<lparr>cdMismatch := True\<rparr>
               else d\<lparr>cdBrowserAdapt := True\<rparr>)\<lparr>cdVerifyIn := cdReqShow d\<rparr>
            else if eBrowserMajor req \<noteq> [] \<and> eBrowserMajor sam \<noteq> [] \<and>
                eBrowserMajor req \<noteq> eBrowserMajor sam then
              d\<lparr>cdBrowserAdapt := True, cdVerifyIn := cdReqShow d,
                cdMajorDistance := intDistance (eBrowserMajor req) (eBrowserMajor sam)\<rparr>
            else d
          else d)"

section \<open>The grade (grade.go)\<close>

definition anyComparable :: "dimComparison list \<Rightarrow> bool" where
  "anyComparable dims \<longleftrightarrow> 0 < length dims"

text \<open>The loop over the dimensions carries \<open>refOnly, adapt, anyDifference, adaptations\<close>.\<close>

type_synonym gradeState = "bool \<times> bool \<times> bool \<times> string list"

fun buildGrade_step :: "dimComparison \<Rightarrow> gradeState \<Rightarrow> gradeState" where
  "buildGrade_step d (refOnly, adapt, anyDifference, adaptations) =
     (if dcEqual d then (refOnly, adapt, anyDifference, adaptations)
      else (refOnly \<or> dcRefOnly d, adapt \<or> dcAdaptation d \<noteq> [], True,
            if dcAdaptation d \<noteq> [] then adaptations @ [dcAdaptation d] else adaptations))"

definition buildGrade ::
  "pkgRel \<Rightarrow> dimComparison list \<Rightarrow> contextDelta \<Rightarrow> bool \<Rightarrow> MatchGrade \<times> string list" where
  "buildGrade rel dims cd elevated =
     (case fold buildGrade_step dims
             (elevated \<or> rel = relMajorDiff \<or> rel = relNone, False, False, []) of
        (refOnly, adapt0, anyDifference, adaptations0) \<Rightarrow>
          let ctx = cdMismatch cd \<or> cdBrowserAdapt cd;
              adapt = (adapt0 \<or> ctx);
              adaptations = (if ctx \<and> cdVerifyIn cd \<noteq> []
                             then adaptations0 @ [''verify in '' @ cdVerifyIn cd] else adaptations0)
          in if refOnly then (GradeReferenceOnly, adaptations)
             else if adapt then (GradeAdaptationRequired, adaptations)
             else if rel = relExactVersion \<or> rel = relMajorMinor then
               (if \<not> anyComparable dims \<or> anyDifference then (GradeCompatible, adaptations)
                else (GradeExact, adaptations))
             else (GradeCompatible, adaptations))"

section \<open>The delta lists (delta.go)\<close>

text \<open>\<open>dedupe\<close>: the loop with the \<open>seen\<close> set and the output so far.\<close>

fun dedupe_loop :: "string list \<Rightarrow> string list \<Rightarrow> string list \<Rightarrow> string list" where
  "dedupe_loop seen out [] = out"
| "dedupe_loop seen out (s # ss) =
     (if s \<in> set seen then dedupe_loop seen out ss else dedupe_loop (s # seen) (out @ [s]) ss)"

definition dedupe :: "string list \<Rightarrow> string list" where
  "dedupe xs = dedupe_loop [] [] xs"

definition rel_exact :: "pkgRel \<Rightarrow> PURL \<Rightarrow> string list" where
  "rel_exact rel samP =
     (if rel = relExactVersion \<or> rel = relMajorMinor then [pName samP @ '' '' @ MajorMinor samP]
      else [])"

text \<open>The dash of the last text is U+2014, three bytes.\<close>

definition rel_different :: "pkgRel \<Rightarrow> PURL \<Rightarrow> PURL \<Rightarrow> string list" where
  "rel_different rel reqP samP = (case rel of
     relPackageOnly \<Rightarrow>
       [''Sample uses '' @ pName samP @ '' (version not established by this shard)'']
   | relMajor \<Rightarrow> [''Sample uses '' @ pName samP @ '' '' @ MajorMinor samP,
                  ''Current project uses '' @ pName reqP @ '' '' @ MajorMinor reqP]
   | relMajorDiff \<Rightarrow> [''Sample uses '' @ pName samP @ '' '' @ MajorMinor samP,
                  ''Current project uses '' @ pName reqP @ '' '' @ MajorMinor reqP]
   | relNone \<Rightarrow> (if pName samP \<noteq> [] \<and> pName reqP \<noteq> []
       then [''Sample uses '' @ pName samP @ '' '' @ MajorMinor samP,
             ''Current project uses '' @ pName reqP @ '' '' @ MajorMinor reqP @
               [CHR '' '', CHR 0xE2, CHR 0x80, CHR 0x94] @ '' a different package'']
       else [])
   | _ \<Rightarrow> [])"

fun buildDelta_step :: "dimComparison \<Rightarrow> string list \<times> string list \<Rightarrow> string list \<times> string list" where
  "buildDelta_step d (exact, different) =
     (if dcEqual d then (if dcExactEntry d \<noteq> [] then exact @ [dcExactEntry d] else exact, different)
      else if dcSamShow d \<noteq> [] \<or> dcReqShow d \<noteq> [] then
        (exact, different @ [''Sample uses '' @ dcSamShow d, ''Current project uses '' @ dcReqShow d])
      else (exact, different))"

definition buildDelta ::
  "pkgRel \<Rightarrow> PURL \<Rightarrow> PURL \<Rightarrow> dimComparison list \<Rightarrow> contextDelta \<Rightarrow> string list \<times> string list" where
  "buildDelta rel reqP samP dims cd =
     (case fold buildDelta_step dims (rel_exact rel samP, rel_different rel reqP samP) of
        (exact, different) \<Rightarrow>
          let different' =
            (if (cdMismatch cd \<or> cdBrowserAdapt cd) \<and> cdSamShow cd \<noteq> [] \<and> cdReqShow cd \<noteq> []
             then different @ [''Sample uses '' @ cdSamShow cd,
                               ''Current project uses '' @ cdReqShow cd]
             else different)
          in (dedupe exact, dedupe different'))"

text \<open>\<open>humanEnvSummary\<close>: the runtime leads, the other keys follow sorted.\<close>

definition humanEnvSummary :: "(string, string) gomap \<Rightarrow> string" where
  "humanEnvSummary summary =
     (if summary = [] then ''unknown environment''
      else
        let lead = (case map_of summary ''runtime'' of
                      Some rt \<Rightarrow> [map (\<lambda>c. if c = CHR ''@'' then CHR '' '' else c) rt]
                    | None \<Rightarrow> []);
            keys = sort_by (<) (filter (\<lambda>k. k \<noteq> ''runtime'') (map fst summary))
        in Join (lead @ map (get [] summary) keys) '' + '')"

section \<open>The environment factor (rank.go)\<close>

definition envFit :: "MatchGrade \<Rightarrow> contextDelta \<Rightarrow> rat" where
  "envFit grade cd = (case grade of
     GradeExact \<Rightarrow> 1
   | GradeCompatible \<Rightarrow> fl (9 / 10)
   | GradeAdaptationRequired \<Rightarrow>
       let f0 = (if cdMismatch cd then fl (55 / 100) else fl (7 / 10));
           f = f_sub f0 (f_mul (fl (2 / 100)) (f_of_int (cdMajorDistance cd)))
       in if f < fl (4 / 10) then fl (4 / 10) else f
   | _ \<Rightarrow> fl (35 / 100))"

section \<open>Lemmas\<close>

lemma fold_buildGrade:
  "fold buildGrade_step dims (r, a, x, as) =
     (r \<or> (\<exists>d\<in>set dims. \<not> dcEqual d \<and> dcRefOnly d),
      a \<or> (\<exists>d\<in>set dims. \<not> dcEqual d \<and> dcAdaptation d \<noteq> []),
      x \<or> (\<exists>d\<in>set dims. \<not> dcEqual d),
      as @ map dcAdaptation (filter (\<lambda>d. \<not> dcEqual d \<and> dcAdaptation d \<noteq> []) dims))"
  by (induction dims arbitrary: r a x as) auto

lemma grade_exact_iff:
  "fst (buildGrade rel dims cd elevated) = GradeExact \<longleftrightarrow>
     \<not> elevated \<and> (rel = relExactVersion \<or> rel = relMajorMinor) \<and> dims \<noteq> [] \<and>
     (\<forall>d\<in>set dims. dcEqual d) \<and> \<not> cdMismatch cd \<and> \<not> cdBrowserAdapt cd"
  by (auto simp: buildGrade_def fold_buildGrade Let_def anyComparable_def)

lemma grade_demoted_iff:
  "fst (buildGrade rel dims cd elevated) \<in> {GradeAdaptationRequired, GradeReferenceOnly} \<longleftrightarrow>
     elevated \<or> rel = relMajorDiff \<or> rel = relNone \<or>
     (\<exists>d\<in>set dims. \<not> dcEqual d \<and> (dcRefOnly d \<or> dcAdaptation d \<noteq> [])) \<or>
     cdMismatch cd \<or> cdBrowserAdapt cd"
  by (auto simp: buildGrade_def fold_buildGrade Let_def)

lemmas compare_dim_defs = compareEcosystem_def compareRuntime_def compareLanguage_def
  compareCompiler_def compareModuleSystem_def comparePackageManager_def compareOS_def
  compareArch_def compareLibc_def dim_agrees_def dim_differs_def

lemma dim_equal [simp]:
  "dcEqual (dim_agrees e)" "\<not> dcEqual (dim_differs s r a x)"
  by (simp_all add: dim_agrees_def dim_differs_def)

lemma dim_show [simp]:
  "dcSamShow (dim_differs s r a x) = s" "dcReqShow (dim_differs s r a x) = r"
  "dcAdaptation (dim_differs s r a x) = a" "dcRefOnly (dim_differs s r a x) = x"
  by (simp_all add: dim_differs_def)

lemma show_nonempty:
  "n \<noteq> [] \<Longrightarrow> runtimeShow n v \<noteq> []" "n \<noteq> [] \<Longrightarrow> langShow n v \<noteq> []"
  "eOS e \<noteq> [] \<Longrightarrow> osShow e \<noteq> []" "eLibc e \<noteq> [] \<Longrightarrow> libcShow e \<noteq> []"
  by (auto simp: runtimeShow_def langShow_def osShow_def libcShow_def Let_def)

lemma case_nonempty [simp]: "ToLower s = [] \<longleftrightarrow> s = []" "ToUpper s = [] \<longleftrightarrow> s = []"
  by (simp_all add: ToLower_def ToUpper_def)

text \<open>A difference is never silent: it names the environment the sample ran in.\<close>

lemma compareEnv_shown:
  assumes "d \<in> set (compareEnv req sam eco guessed)" and "\<not> dcEqual d"
  shows "dcSamShow d \<noteq> [] \<and> dcReqShow d \<noteq> []"
proof -
  let ?ok = "\<lambda>ds. \<forall>d\<in>set ds. \<not> dcEqual d \<longrightarrow> dcSamShow d \<noteq> [] \<and> dcReqShow d \<noteq> []"
  have "?ok (compareEcosystem req sam guessed)" "?ok (compareModuleSystem req sam)"
    "?ok (comparePackageManager req sam)" "?ok (compareArch req sam)"
    by (simp_all add: compareEcosystem_def compareModuleSystem_def comparePackageManager_def
        compareArch_def Let_def)
  moreover have "?ok (compareRuntime req sam)" "?ok (compareLanguage req sam)"
    "?ok (compareCompiler req sam eco)" "?ok (compareOS req sam)" "?ok (compareLibc req sam)"
    by (simp_all add: compareRuntime_def compareLanguage_def compareCompiler_def compareOS_def
        compareLibc_def Let_def show_nonempty)
  ultimately show ?thesis using assms by (auto simp: compareEnv_def)
qed

lemma contextOf_shown: "contextOf e \<noteq> [] \<Longrightarrow> ctxDisplay e \<noteq> []"
  by (auto simp: contextOf_def ctxDisplay_def ContextLabel_def Normalize_def derive_engine_def
      derive_context_def clear_fields_def clearPlaceholder_def Let_def split: if_splits)

lemma compareContext_shown:
  "cdMismatch (compareContext req sam) \<or> cdBrowserAdapt (compareContext req sam) \<Longrightarrow>
   cdSamShow (compareContext req sam) \<noteq> [] \<and> cdReqShow (compareContext req sam) \<noteq> []"
  using contextOf_shown [of req] contextOf_shown [of sam]
  by (auto simp: compareContext_def zero_context_def Let_def split: if_splits)

text \<open>\<open>dedupe\<close> keeps exactly the distinct entries.\<close>

lemma dedupe_loop_set:
  "set seen = set out \<Longrightarrow> set (dedupe_loop seen out ss) = set out \<union> set ss"
  by (induction ss arbitrary: seen out) auto

lemma dedupe_set [simp]: "set (dedupe ss) = set ss"
  by (simp add: dedupe_def dedupe_loop_set)

lemma dedupe_loop_distinct:
  "set seen = set out \<Longrightarrow> distinct out \<Longrightarrow> distinct (dedupe_loop seen out ss)"
  by (induction ss arbitrary: seen out) auto

lemma dedupe_distinct [simp]: "distinct (dedupe ss)"
  by (simp add: dedupe_def dedupe_loop_distinct)

lemma dedupe_empty [simp]: "dedupe ss = [] \<longleftrightarrow> ss = []"
  by (metis dedupe_set set_empty)

lemma fold_buildDelta:
  "set (snd (fold buildDelta_step dims (ex, df))) = set df \<union>
     (\<Union>d \<in> {d \<in> set dims. \<not> dcEqual d \<and> (dcSamShow d \<noteq> [] \<or> dcReqShow d \<noteq> [])}.
        {''Sample uses '' @ dcSamShow d, ''Current project uses '' @ dcReqShow d})"
  by (induction dims arbitrary: ex df) auto

lemma different_set:
  "set (snd (buildDelta rel reqP samP dims cd)) = set (rel_different rel reqP samP) \<union>
     (\<Union>d \<in> {d \<in> set dims. \<not> dcEqual d \<and> (dcSamShow d \<noteq> [] \<or> dcReqShow d \<noteq> [])}.
        {''Sample uses '' @ dcSamShow d, ''Current project uses '' @ dcReqShow d}) \<union>
     (if (cdMismatch cd \<or> cdBrowserAdapt cd) \<and> cdSamShow cd \<noteq> [] \<and> cdReqShow cd \<noteq> []
      then {''Sample uses '' @ cdSamShow cd, ''Current project uses '' @ cdReqShow cd} else {})"
proof -
  obtain ex df where f:
    "fold buildDelta_step dims (rel_exact rel samP, rel_different rel reqP samP) = (ex, df)"
    by fastforce
  have "set df = set (rel_different rel reqP samP) \<union>
     (\<Union>d \<in> {d \<in> set dims. \<not> dcEqual d \<and> (dcSamShow d \<noteq> [] \<or> dcReqShow d \<noteq> [])}.
        {''Sample uses '' @ dcSamShow d, ''Current project uses '' @ dcReqShow d})"
    using fold_buildDelta [of dims "rel_exact rel samP" "rel_different rel reqP samP"]
    by (simp only: f snd_conv)
  then show ?thesis by (simp add: buildDelta_def f Let_def)
qed

section \<open>What the grades promise\<close>

text \<open>
  The specification of "nothing here differs from yours": each dimension that both sides declare
  agrees, a version that one side leaves out is not a difference, and the caller's libc is not
  older than the one the sample ran on.
\<close>

definition both :: "string \<Rightarrow> string \<Rightarrow> bool" where
  "both a b \<longleftrightarrow> a \<noteq> [] \<and> b \<noteq> []"

definition versions_agree :: "(string \<Rightarrow> string) \<Rightarrow> (string \<Rightarrow> string) \<Rightarrow> string \<Rightarrow> string \<Rightarrow> bool" where
  "versions_agree line line' v w \<longleftrightarrow> v = [] \<or> w = [] \<or> line v = line' w"

definition env_agrees :: "EnvironmentFingerprint \<Rightarrow> EnvironmentFingerprint \<Rightarrow> bool" where
  "env_agrees req sam \<longleftrightarrow>
     (both (eEcosystem req) (eEcosystem sam) \<longrightarrow> EqualFold (eEcosystem req) (eEcosystem sam)) \<and>
     (both (eRuntime req) (eRuntime sam) \<longrightarrow> EqualFold (eRuntime req) (eRuntime sam) \<and>
        versions_agree (releaseLineOf (eRuntime req)) (releaseLineOf (eRuntime sam))
          (eRuntimeVersion req) (eRuntimeVersion sam)) \<and>
     (both (eLanguage req) (eLanguage sam) \<longrightarrow> EqualFold (eLanguage req) (eLanguage sam) \<and>
        versions_agree majorMinorOf majorMinorOf (eLanguageVersion req) (eLanguageVersion sam)) \<and>
     (both (eCompiler req) (eCompiler sam) \<longrightarrow> EqualFold (eCompiler req) (eCompiler sam) \<and>
        versions_agree (releaseLineOf (eCompiler req)) (releaseLineOf (eCompiler sam))
          (eCompilerVersion req) (eCompilerVersion sam)) \<and>
     (both (eModuleSystem req) (eModuleSystem sam) \<longrightarrow>
        EqualFold (eModuleSystem req) (eModuleSystem sam)) \<and>
     (both (ePackageManager req) (ePackageManager sam) \<longrightarrow>
        EqualFold (ePackageManager req) (ePackageManager sam)) \<and>
     (both (eOS req) (eOS sam) \<longrightarrow> EqualFold (eOS req) (eOS sam)) \<and>
     (both (eArch req) (eArch sam) \<longrightarrow> EqualFold (eArch req) (eArch sam)) \<and>
     (both (eLibc req) (eLibc sam) \<longrightarrow> EqualFold (eLibc req) (eLibc sam) \<and>
        \<not> olderLibc (eLibcVersion req) (eLibcVersion sam))"

definition shares_dimension :: "EnvironmentFingerprint \<Rightarrow> EnvironmentFingerprint \<Rightarrow> bool" where
  "shares_dimension req sam \<longleftrightarrow>
     both (eEcosystem req) (eEcosystem sam) \<or> both (eRuntime req) (eRuntime sam) \<or>
     both (eLanguage req) (eLanguage sam) \<or> both (eCompiler req) (eCompiler sam) \<or>
     both (eModuleSystem req) (eModuleSystem sam) \<or>
     both (ePackageManager req) (ePackageManager sam) \<or> both (eOS req) (eOS sam) \<or>
     both (eArch req) (eArch sam) \<or> both (eLibc req) (eLibc sam)"

lemma all_equal_blocks:
  "(\<forall>d\<in>set (compareEcosystem req sam g). dcEqual d) \<longleftrightarrow>
     (both (eEcosystem req) (eEcosystem sam) \<longrightarrow> EqualFold (eEcosystem req) (eEcosystem sam))"
  "(\<forall>d\<in>set (compareModuleSystem req sam). dcEqual d) \<longleftrightarrow>
     (both (eModuleSystem req) (eModuleSystem sam) \<longrightarrow>
        EqualFold (eModuleSystem req) (eModuleSystem sam))"
  "(\<forall>d\<in>set (comparePackageManager req sam). dcEqual d) \<longleftrightarrow>
     (both (ePackageManager req) (ePackageManager sam) \<longrightarrow>
        EqualFold (ePackageManager req) (ePackageManager sam))"
  "(\<forall>d\<in>set (compareOS req sam). dcEqual d) \<longleftrightarrow>
     (both (eOS req) (eOS sam) \<longrightarrow> EqualFold (eOS req) (eOS sam))"
  "(\<forall>d\<in>set (compareArch req sam). dcEqual d) \<longleftrightarrow>
     (both (eArch req) (eArch sam) \<longrightarrow> EqualFold (eArch req) (eArch sam))"
  "(\<forall>d\<in>set (compareLibc req sam). dcEqual d) \<longleftrightarrow>
     (both (eLibc req) (eLibc sam) \<longrightarrow> EqualFold (eLibc req) (eLibc sam) \<and>
        \<not> olderLibc (eLibcVersion req) (eLibcVersion sam))"
  by (simp_all add: compareEcosystem_def compareModuleSystem_def comparePackageManager_def
      compareOS_def compareArch_def compareLibc_def both_def Let_def)

lemma all_equal_versioned_blocks:
  "(\<forall>d\<in>set (compareRuntime req sam). dcEqual d) \<longleftrightarrow>
     (both (eRuntime req) (eRuntime sam) \<longrightarrow> EqualFold (eRuntime req) (eRuntime sam) \<and>
        versions_agree (releaseLineOf (eRuntime req)) (releaseLineOf (eRuntime sam))
          (eRuntimeVersion req) (eRuntimeVersion sam))"
  "(\<forall>d\<in>set (compareLanguage req sam). dcEqual d) \<longleftrightarrow>
     (both (eLanguage req) (eLanguage sam) \<longrightarrow> EqualFold (eLanguage req) (eLanguage sam) \<and>
        versions_agree majorMinorOf majorMinorOf (eLanguageVersion req) (eLanguageVersion sam))"
  "(\<forall>d\<in>set (compareCompiler req sam eco). dcEqual d) \<longleftrightarrow>
     (both (eCompiler req) (eCompiler sam) \<longrightarrow> EqualFold (eCompiler req) (eCompiler sam) \<and>
        versions_agree (releaseLineOf (eCompiler req)) (releaseLineOf (eCompiler sam))
          (eCompilerVersion req) (eCompilerVersion sam))"
  by (auto simp: compareRuntime_def compareLanguage_def compareCompiler_def both_def
      versions_agree_def Let_def)

lemma all_equal_iff:
  "(\<forall>d\<in>set (compareEnv req sam eco g). dcEqual d) \<longleftrightarrow> env_agrees req sam"
  by (simp only: compareEnv_def set_append ball_Un all_equal_blocks all_equal_versioned_blocks
      env_agrees_def)

lemma compareEnv_Nil_iff: "compareEnv req sam eco g = [] \<longleftrightarrow> \<not> shares_dimension req sam"
proof -
  have "compareEcosystem req sam g = [] \<longleftrightarrow> \<not> both (eEcosystem req) (eEcosystem sam)"
    "compareRuntime req sam = [] \<longleftrightarrow> \<not> both (eRuntime req) (eRuntime sam)"
    "compareLanguage req sam = [] \<longleftrightarrow> \<not> both (eLanguage req) (eLanguage sam)"
    "compareCompiler req sam eco = [] \<longleftrightarrow> \<not> both (eCompiler req) (eCompiler sam)"
    "compareModuleSystem req sam = [] \<longleftrightarrow> \<not> both (eModuleSystem req) (eModuleSystem sam)"
    "comparePackageManager req sam = [] \<longleftrightarrow> \<not> both (ePackageManager req) (ePackageManager sam)"
    "compareOS req sam = [] \<longleftrightarrow> \<not> both (eOS req) (eOS sam)"
    "compareArch req sam = [] \<longleftrightarrow> \<not> both (eArch req) (eArch sam)"
    "compareLibc req sam = [] \<longleftrightarrow> \<not> both (eLibc req) (eLibc sam)"
    by (simp_all add: compareEcosystem_def compareRuntime_def compareLanguage_def
        compareCompiler_def compareModuleSystem_def comparePackageManager_def compareOS_def
        compareArch_def compareLibc_def both_def Let_def)
  then show ?thesis by (simp add: compareEnv_def shares_dimension_def)
qed

text \<open>C17: EXACT is handed out exactly when the versions share a major.minor line, no elevated
  failure is known, at least one dimension is declared on both sides, every such dimension agrees,
  and the execution contexts neither mismatch nor need a browser adaptation.\<close>

theorem exact_grade_iff:
  "fst (buildGrade rel (compareEnv req sam eco g) (compareContext req sam) elevated) = GradeExact \<longleftrightarrow>
     \<not> elevated \<and> (rel = relExactVersion \<or> rel = relMajorMinor) \<and>
     shares_dimension req sam \<and> env_agrees req sam \<and>
     \<not> cdMismatch (compareContext req sam) \<and> \<not> cdBrowserAdapt (compareContext req sam)"
  by (simp add: grade_exact_iff all_equal_iff compareEnv_Nil_iff)

text \<open>The grade and the delta describe one comparison.  An EXACT answer has an empty
  Different list; an answer demoted to ADAPTATION_REQUIRED or REFERENCE_ONLY without an elevated
  failure always says what differs, the two packages being named when they share nothing.\<close>

theorem grade_matches_delta:
  assumes "g = fst (buildGrade rel (compareEnv req sam eco inferred) (compareContext req sam) elevated)"
    and "different = snd (buildDelta rel reqP samP (compareEnv req sam eco inferred)
                            (compareContext req sam))"
    and "pName reqP \<noteq> []" and "pName samP \<noteq> []"
  shows "(g = GradeExact \<longrightarrow> different = []) \<and>
         (g \<in> {GradeAdaptationRequired, GradeReferenceOnly} \<and> \<not> elevated \<longrightarrow> different \<noteq> [])"
proof (intro conjI impI)
  assume "g = GradeExact"
  then show "different = []"
    unfolding assms(1,2) grade_exact_iff set_empty [symmetric]
    by (auto simp: different_set rel_different_def)
next
  let ?dims = "compareEnv req sam eco inferred" and ?cd = "compareContext req sam"
  assume "g \<in> {GradeAdaptationRequired, GradeReferenceOnly} \<and> \<not> elevated"
  then consider "rel = relMajorDiff \<or> rel = relNone"
    | d where "d \<in> set ?dims" "\<not> dcEqual d"
    | "cdMismatch ?cd \<or> cdBrowserAdapt ?cd"
    unfolding assms(1) grade_demoted_iff by blast
  then have "set different \<noteq> {}"
  proof cases
    case 1
    with assms(3,4) show ?thesis by (auto simp: assms(2) different_set rel_different_def)
  next
    case 2
    with compareEnv_shown [OF 2] show ?thesis by (auto simp: assms(2) different_set)
  next
    case 3
    with compareContext_shown [OF 3] show ?thesis by (simp add: assms(2) different_set)
  qed
  then show "different \<noteq> []" by auto
qed

theorem grade_matches_delta_witness:
  "fst (buildGrade relMajorMinor (compareEnv (zero_env\<lparr>eOS := ''linux''\<rparr>) (zero_env\<lparr>eOS := ''linux''\<rparr>)
      ''npm'' False) (compareContext (zero_env\<lparr>eOS := ''linux''\<rparr>) (zero_env\<lparr>eOS := ''linux''\<rparr>)) False)
     = GradeExact \<and>
   snd (buildDelta relMajorMinor \<lparr>pEcosystem = ''npm'', pName = ''a'', pVersion = ''1.2.0''\<rparr>
      \<lparr>pEcosystem = ''npm'', pName = ''a'', pVersion = ''1.2.1''\<rparr>
      (compareEnv (zero_env\<lparr>eOS := ''linux''\<rparr>) (zero_env\<lparr>eOS := ''linux''\<rparr>) ''npm'' False)
      (compareContext (zero_env\<lparr>eOS := ''linux''\<rparr>) (zero_env\<lparr>eOS := ''linux''\<rparr>))) = []"
proof -
  let ?e = "zero_env\<lparr>eOS := ''linux''\<rparr>"
  have "fst (buildGrade relMajorMinor (compareEnv ?e ?e ''npm'' False) (compareContext ?e ?e) False)
      = GradeExact" by code_simp
  then show ?thesis
    using grade_matches_delta [OF refl refl, where rel = relMajorMinor and req = ?e and sam = ?e
        and eco = "''npm''" and inferred = False and elevated = False
        and reqP = "\<lparr>pEcosystem = ''npm'', pName = ''a'', pVersion = ''1.2.0''\<rparr>"
        and samP = "\<lparr>pEcosystem = ''npm'', pName = ''a'', pVersion = ''1.2.1''\<rparr>"]
    by simp
qed

section \<open>The environment factor\<close>

lemma distance_nonneg:
  "\<not> HasPrefix (eBrowserMajor req) ''-'' \<Longrightarrow> \<not> HasPrefix (eBrowserMajor sam) ''-'' \<Longrightarrow>
   0 \<le> cdMajorDistance (compareContext req sam)"
  by (simp add: compareContext_def zero_context_def Let_def intDistance_nonneg)

lemma envFit_adaptation_bounds:
  assumes "0 \<le> cdMajorDistance cd"
  shows "fl (4 / 10) \<le> envFit GradeAdaptationRequired cd \<and>
         envFit GradeAdaptationRequired cd \<le> fl (8 / 10)"
proof -
  define p where "p = f_mul (fl (2 / 100)) (f_of_int (cdMajorDistance cd))"
  have "0 \<le> p"
    using assms by (simp add: p_def f_mul_def f_of_int_def fl_nonneg)
  then have le: "f_sub x p \<le> fl x" for x
    by (simp add: f_sub_def fl_mono)
  have twice: "fl (fl (7 / 10)) \<le> fl (8 / 10)" "fl (fl (55 / 100)) \<le> fl (8 / 10)"
    by (rule fl_fl_le; simp)+
  define f where "f = f_sub (if cdMismatch cd then fl (55 / 100) else fl (7 / 10)) p"
  have "f \<le> fl (8 / 10)"
    unfolding f_def using order.trans [OF le twice(1)] order.trans [OF le twice(2)]
    by (cases "cdMismatch cd") (simp_all only: if_True if_False)
  moreover have "fl (4 / 10) \<le> fl (8 / 10)" by (rule fl_mono) simp
  moreover have "envFit GradeAdaptationRequired cd = (if f < fl (4 / 10) then fl (4 / 10) else f)"
    by (simp only: envFit_def Let_def f_def p_def MatchGrade.case)
  ultimately show ?thesis by (cases "f < fl (4 / 10)") (simp_all only: if_True if_False not_less simp_thms order.refl)
qed

text \<open>With browser majors that are not negative numbers, the environment factor is ordered
  by the grade, whatever the contexts are: every REFERENCE_ONLY answer is scored below every
  ADAPTATION_REQUIRED one, those below COMPATIBLE, and COMPATIBLE below EXACT, which is 1.\<close>

theorem env_fit_ordered_by_grade:
  assumes "\<not> HasPrefix (eBrowserMajor req) ''-''" and "\<not> HasPrefix (eBrowserMajor sam) ''-''"
  shows "0 < envFit GradeReferenceOnly c1 \<and>
         envFit GradeReferenceOnly c1 < envFit GradeAdaptationRequired (compareContext req sam) \<and>
         envFit GradeAdaptationRequired (compareContext req sam) < envFit GradeCompatible c2 \<and>
         envFit GradeCompatible c2 < envFit GradeExact c3 \<and> envFit GradeExact c3 = 1"
proof -
  have "fl 0 < fl (35 / 100)" "fl (35 / 100) < fl (4 / 10)" "fl (8 / 10) < fl (9 / 10)"
    "fl (9 / 10) < fl 1" by (rule fl_strict; simp)+
  moreover have "envFit GradeReferenceOnly c1 = fl (35 / 100)" "envFit GradeCompatible c2 = fl (9 / 10)"
    "envFit GradeExact c3 = 1" by (simp_all add: envFit_def)
  ultimately show ?thesis
    using envFit_adaptation_bounds [OF distance_nonneg [OF assms]] by simp
qed

theorem env_fit_ordered_by_grade_witness:
  "envFit GradeReferenceOnly zero_context < envFit GradeAdaptationRequired
     (compareContext (zero_env\<lparr>eBrowserFamily := ''safari'', eBrowserMajor := ''19''\<rparr>)
                     (zero_env\<lparr>eBrowserFamily := ''safari'', eBrowserMajor := ''15''\<rparr>))"
  using env_fit_ordered_by_grade [of "zero_env\<lparr>eBrowserFamily := ''safari'', eBrowserMajor := ''19''\<rparr>"
      "zero_env\<lparr>eBrowserFamily := ''safari'', eBrowserMajor := ''15''\<rparr>" zero_context zero_context
      zero_context]
  by (simp add: HasPrefix_def)

section \<open>Environment summaries\<close>

text \<open>The summary of a failure's environment does not depend on the iteration order of the
  map it is rendered from.\<close>

theorem human_summary_order_free:
  assumes "wf_map m" and "mset m = mset m'"
  shows "humanEnvSummary m = humanEnvSummary m'"
proof -
  note same = map_of_mset [OF assms] get_mset [OF assms, of "[]"]
  have "mset (filter (\<lambda>k. k \<noteq> ''runtime'') (map fst m)) =
      mset (filter (\<lambda>k. k \<noteq> ''runtime'') (map fst m'))"
    using arg_cong [OF assms(2), where f = "\<lambda>M. filter_mset (\<lambda>k. k \<noteq> ''runtime'') (image_mset fst M)"]
    by (simp only: mset_filter mset_map)
  then have "sort_by (<) (filter (\<lambda>k. k \<noteq> ''runtime'') (map fst m)) =
      sort_by (<) (filter (\<lambda>k. k \<noteq> ''runtime'') (map fst m'))"
    by (rule go_string_less.sort_by_mset_cong)
  moreover have "m = [] \<longleftrightarrow> m' = []" using assms(2) by (metis mset_zero_iff)
  ultimately show ?thesis
    by (simp only: humanEnvSummary_def same Let_def)
qed

theorem human_summary_order_free_witness:
  "humanEnvSummary [(''moduleSystem'', ''esm''), (''runtime'', ''node@18'')] = ''node 18 + esm'' \<and>
   humanEnvSummary [(''moduleSystem'', ''esm''), (''runtime'', ''node@18'')] =
   humanEnvSummary [(''runtime'', ''node@18''), (''moduleSystem'', ''esm'')]"
proof
  show "humanEnvSummary [(''moduleSystem'', ''esm''), (''runtime'', ''node@18'')] = ''node 18 + esm''"
    by code_simp
  show "humanEnvSummary [(''moduleSystem'', ''esm''), (''runtime'', ''node@18'')] =
      humanEnvSummary [(''runtime'', ''node@18''), (''moduleSystem'', ''esm'')]"
    by (rule human_summary_order_free) (simp_all add: wf_map_def)
qed

end
