(* ===== verification/Anomaly.thy ===== *)
theory Anomaly
  imports Domain
begin

text \<open>
  Anomaly reports, \<open>src/internal/domain/anomaly.go\<close>: an agent's claim that the network and a local
  machine disagree.  The report, its normalization, the admission test with its errors as values,
  the dedupe key and the verdict a signed receipt gives.  \<open>SHA256Hex\<close> is the argument \<open>sha\<close> of the
  dedupe key.
\<close>

section \<open>The report\<close>

definition AnomalyTypes :: "string list" where
  "AnomalyTypes = [''csx-pass-local-fail'', ''csx-fail-local-pass'', ''symbol-signature-mismatch'',
     ''upgrade-path-broken'', ''dependency-graph-unknown'', ''evidence-conflict'',
     ''broken-internal-reference'', ''repeated-no-safe-match'']"

datatype AnomalyVerdict = VerdictCSXDefect | VerdictCompatibilityBoundary | VerdictNewEvidence
  | VerdictEnvironmentDifference | VerdictNotReproducible | VerdictInsufficientEvidence
  | VerdictDuplicate

fun AnomalyVerdictConfirmed :: "AnomalyVerdict \<Rightarrow> bool" where
  "AnomalyVerdictConfirmed VerdictCSXDefect = True"
| "AnomalyVerdictConfirmed VerdictCompatibilityBoundary = True"
| "AnomalyVerdictConfirmed VerdictNewEvidence = True"
| "AnomalyVerdictConfirmed _ = False"

record AnomalyObservation =
  aoResult :: string
  aoStage :: string
  aoDetail :: string

record AnomalyReport =
  arSchemaVersion :: int
  arAnomalyType :: string
  arPackage :: string
  arSymbol :: string
  arEnvironment :: EnvironmentFingerprint
  arSampleID :: string
  arEvidenceID :: string
  arSearchFingerprint :: string
  arCSXObserved :: AnomalyObservation
  arLocalObserved :: AnomalyObservation
  arReproducible :: string
  arConfidence :: string
  arErrorCode :: string
  arErrorFingerprint :: string
  arErrorTemplate :: string
  arRelatedIDs :: "string list"
  arLLMHypothesis :: string

datatype anomaly_error = ErrAnomalySchema | ErrAnomalyType | ErrAnomalyPackage
  | ErrAnomalyNoLocalObs | ErrAnomalyNoMismatch | ErrAnomalyReproducible | ErrAnomalyConfidence
  | ErrAnomalyStage | ErrAnomalyIdentifier | ErrAnomalyErrorCode | ErrAnomalyNoSafeMatchAlone

section \<open>Identifiers\<close>

definition hex_lower :: "char \<Rightarrow> bool" where
  "hex_lower c \<longleftrightarrow> is_digit c \<or> CHR ''a'' \<le> c \<and> c \<le> CHR ''f''"

definition anomalyContentID :: "string \<Rightarrow> bool" where
  "anomalyContentID s =
     (if length s \<noteq> length ''sha256:'' + 64 \<or> \<not> HasPrefix s ''sha256:'' then False
      else list_all hex_lower (drop (length ''sha256:'') s))"

definition contentIDNamespaces :: "string list" where
  "contentIDNamespaces = [''clievidence'', ''cliobs'', ''cliexp'', ''clisubject'']"

text \<open>\<open>strings.CutPrefix\<close>, and the loop that answers at the first namespace that fits.\<close>

definition CutPrefix :: "string \<Rightarrow> string \<Rightarrow> string option" where
  "CutPrefix s p = (if HasPrefix s p then Some (drop (length p) s) else None)"

fun namespaced_loop :: "string list \<Rightarrow> string \<Rightarrow> bool" where
  "namespaced_loop [] s = False"
| "namespaced_loop (ns # nss) s = (case CutPrefix s (ns @ '':'') of
     Some rest \<Rightarrow> anomalyContentID rest
   | None \<Rightarrow> namespaced_loop nss s)"

definition IsNamespacedContentID :: "string \<Rightarrow> bool" where
  "IsNamespacedContentID s = namespaced_loop contentIDNamespaces s"

definition anomalyEvidenceID :: "string \<Rightarrow> bool" where
  "anomalyEvidenceID s =
     (if anomalyContentID s then True
      else case CutPrefix s ''clievidence:'' of None \<Rightarrow> False | Some rest \<Rightarrow> anomalyContentID rest)"

definition anomalyReferenceID :: "string \<Rightarrow> bool" where
  "anomalyReferenceID s =
     (if s = [] \<or> 256 < length s then False
      else if anomalyContentID s then True
      else if CHR '':'' \<notin> set s then False
      else list_all (\<lambda>c. is_lower c \<or> is_upper c \<or> is_digit c \<or> c \<in> set ''-_.:@+'') s)"

definition anomalyErrorCode :: "string \<Rightarrow> bool" where
  "anomalyErrorCode s =
     (if s = [] then True
      else if 128 < length s then False
      else list_all (\<lambda>c. is_lower c \<or> is_upper c \<or> is_digit c \<or> c \<in> set ''-_.:'') s)"

definition anomalyStage :: "string \<Rightarrow> bool" where
  "anomalyStage s \<longleftrightarrow> s \<in> {'''', ''resolve'', ''compile'', ''typecheck'', ''test'', ''run'', ''contract''}"

section \<open>Normalization\<close>

definition normalizeResult :: "string \<Rightarrow> string" where
  "normalizeResult s =
     (let u = ToUpper (TrimSpace s) in
      if u = ''PASS'' then ''PASS''
      else if u = ''FAIL'' then ''FAIL''
      else if u = '''' \<or> u = ''UNKNOWN'' then ''UNKNOWN''
      else '''')"

definition normalizeLower :: "string \<Rightarrow> string" where
  "normalizeLower s = ToLower (TrimSpace s)"

definition normalizeObservation :: "AnomalyObservation \<Rightarrow> AnomalyObservation" where
  "normalizeObservation o1 = o1\<lparr>aoResult := normalizeResult (aoResult o1),
     aoStage := normalizeLower (aoStage o1)\<rparr>"

definition NormalizeReport :: "AnomalyReport \<Rightarrow> AnomalyReport" where
  "NormalizeReport r = r\<lparr>
     arAnomalyType := normalizeLower (arAnomalyType r),
     arPackage := TrimSpace (arPackage r),
     arSymbol := TrimSpace (arSymbol r),
     arSampleID := TrimSpace (arSampleID r),
     arEvidenceID := TrimSpace (arEvidenceID r),
     arSearchFingerprint := TrimSpace (arSearchFingerprint r),
     arCSXObserved := normalizeObservation (arCSXObserved r),
     arLocalObserved := normalizeObservation (arLocalObserved r),
     arReproducible := (if normalizeLower (arReproducible r) = [] then ''unknown''
                        else normalizeLower (arReproducible r)),
     arConfidence := (if normalizeLower (arConfidence r) = [] then ''medium''
                      else normalizeLower (arConfidence r)),
     arErrorCode := TrimSpace (arErrorCode r),
     arErrorFingerprint := normalizeLower (arErrorFingerprint r),
     arEnvironment := Normalize (arEnvironment r)\<rparr>"

section \<open>The admission test\<close>

text \<open>The last switch of \<open>Validate\<close>: the mismatch each type of report has to carry.\<close>

definition validateMismatch :: "AnomalyReport \<Rightarrow> anomaly_error option" where
  "validateMismatch r =
     (let csx = aoResult (arCSXObserved r); local = aoResult (arLocalObserved r) in
      if arAnomalyType r = ''dependency-graph-unknown'' \<or>
         arAnomalyType r = ''broken-internal-reference'' then
        (if csx \<noteq> ''UNKNOWN'' then Some ErrAnomalyNoMismatch else None)
      else if arAnomalyType r = ''evidence-conflict'' \<or>
         arAnomalyType r = ''symbol-signature-mismatch'' then
        (if csx = ''UNKNOWN'' \<or> csx = local then Some ErrAnomalyNoMismatch else None)
      else if arAnomalyType r = ''repeated-no-safe-match'' then
        (if local \<noteq> ''FAIL'' \<or> arErrorFingerprint r = [] \<or> arReproducible r \<noteq> ''yes''
         then Some ErrAnomalyNoSafeMatchAlone else None)
      else if csx = local \<or> csx = ''UNKNOWN'' then Some ErrAnomalyNoMismatch else None)"

definition ValidateReport :: "AnomalyReport \<Rightarrow> anomaly_error option" where
  "ValidateReport r =
     (if arSchemaVersion r \<noteq> 1 then Some ErrAnomalySchema
      else if arAnomalyType r \<notin> set AnomalyTypes then Some ErrAnomalyType
      else if isl (ParsePURL (arPackage r)) then Some ErrAnomalyPackage
      else if aoResult (arLocalObserved r) \<noteq> ''PASS'' \<and> aoResult (arLocalObserved r) \<noteq> ''FAIL''
        then Some ErrAnomalyNoLocalObs
      else if aoResult (arCSXObserved r) = [] \<or> arReproducible r = [] then Some ErrAnomalyNoMismatch
      else if \<not> anomalyStage (aoStage (arCSXObserved r)) \<or>
              \<not> anomalyStage (aoStage (arLocalObserved r)) then Some ErrAnomalyStage
      else if (arSampleID r \<noteq> [] \<and> \<not> anomalyContentID (arSampleID r)) \<or>
              (arEvidenceID r \<noteq> [] \<and> \<not> anomalyEvidenceID (arEvidenceID r)) \<or>
              (arSearchFingerprint r \<noteq> [] \<and> \<not> anomalyContentID (arSearchFingerprint r)) \<or>
              (arErrorFingerprint r \<noteq> [] \<and> \<not> anomalyContentID (arErrorFingerprint r))
        then Some ErrAnomalyIdentifier
      else if \<not> list_all anomalyReferenceID (arRelatedIDs r) then Some ErrAnomalyIdentifier
      else if \<not> anomalyErrorCode (arErrorCode r) then Some ErrAnomalyErrorCode
      else if arReproducible r \<notin> {''yes'', ''no'', ''unknown''} then Some ErrAnomalyReproducible
      else if arConfidence r \<notin> {''low'', ''medium'', ''high''} then Some ErrAnomalyConfidence
      else validateMismatch r)"

section \<open>The dedupe key and the verdict\<close>

definition anomalyEnvKey :: "EnvironmentFingerprint \<Rightarrow> string" where
  "anomalyEnvKey env0 =
     (let env = Normalize env0 in
      Join [normalizeLower (eEcosystem env), normalizeLower (eOS env), normalizeLower (eArch env),
        normalizeLower (eRuntime env),
        normalizeLower (RuntimeLine (eRuntime env) (eRuntimeVersion env)),
        normalizeLower (eLibc env), normalizeLower (eExecutionContext env),
        normalizeLower (eBrowserFamily env), normalizeLower (eBrowserMajor env)] ''|'')"

definition Fingerprint :: "(string \<Rightarrow> string) \<Rightarrow> AnomalyReport \<Rightarrow> string" where
  "Fingerprint sha r =
     (let n = NormalizeReport r in
      sha (Join [''anomaly'', ''v1'', arAnomalyType n, arPackage n, arSymbol n,
        anomalyEnvKey (arEnvironment n), aoResult (arCSXObserved n), aoResult (arLocalObserved n),
        aoStage (arLocalObserved n), arErrorCode n, arErrorFingerprint n, arSampleID n] ''|''))"

text \<open>\<open>None\<close> is \<open>decided = false\<close>: the report stays open.\<close>

definition AnomalyVerdictFromReceipt ::
  "AnomalyReport \<Rightarrow> VerificationReceipt \<Rightarrow> AnomalyVerdict option" where
  "AnomalyVerdictFromReceipt report receipt =
     (let r = NormalizeReport report in
      if arAnomalyType r \<in> {''dependency-graph-unknown'', ''evidence-conflict'',
           ''broken-internal-reference''} then None
      else
        let contract = normalizeResult (get [] (vrStages receipt) ''contract'') in
        if contract \<noteq> ''PASS'' \<and> contract \<noteq> ''FAIL'' then None
        else
          let sameEnvironment =
            (anomalyEnvKey (arEnvironment r) = anomalyEnvKey (vrEnvironment receipt)) in
          if contract = aoResult (arLocalObserved r) \<and> contract \<noteq> aoResult (arCSXObserved r) then
            (if arAnomalyType r = ''csx-fail-local-pass'' then Some VerdictNewEvidence
             else if arAnomalyType r = ''symbol-signature-mismatch'' \<or>
                     arAnomalyType r = ''upgrade-path-broken''
               then Some VerdictCompatibilityBoundary
             else Some VerdictCSXDefect)
          else if sameEnvironment then Some VerdictNotReproducible
          else Some VerdictEnvironmentDifference)"

section \<open>Lemmas\<close>

lemma normalizeLower_idem [simp]: "normalizeLower (normalizeLower s) = normalizeLower s"
  by (simp add: normalizeLower_def TrimSpace_case)

lemma normalizeLower_Trim [simp]: "normalizeLower (TrimSpace s) = normalizeLower s"
  by (simp add: normalizeLower_def)

lemma normalizeLower_consts [simp]:
  "normalizeLower ''unknown'' = ''unknown''" "normalizeLower ''medium'' = ''medium''"
  by code_simp+

lemma normalizeResult_cases:
  "normalizeResult s \<in> {''PASS'', ''FAIL'', ''UNKNOWN'', ''''}"
  by (simp add: normalizeResult_def Let_def)

text \<open>
  The one literal that normalization does not keep: an unrecognized result becomes the empty
  string, which a second pass reads as UNKNOWN.
\<close>

lemma normalizeResult_fixed [simp]:
  "normalizeResult ''PASS'' = ''PASS''" "normalizeResult ''FAIL'' = ''FAIL''"
  "normalizeResult ''UNKNOWN'' = ''UNKNOWN''" "normalizeResult '''' = ''UNKNOWN''"
  by code_simp+

lemma normalizeResult_idem: "normalizeResult s \<noteq> [] \<Longrightarrow> normalizeResult (normalizeResult s) = normalizeResult s"
  using normalizeResult_cases [of s] by auto

definition recognized :: "AnomalyReport \<Rightarrow> bool" where
  "recognized r \<longleftrightarrow> normalizeResult (aoResult (arCSXObserved r)) \<noteq> [] \<and>
     normalizeResult (aoResult (arLocalObserved r)) \<noteq> []"

lemma NormalizeReport_idem: "recognized r \<Longrightarrow> NormalizeReport (NormalizeReport r) = NormalizeReport r"
  by (simp add: NormalizeReport_def normalizeObservation_def recognized_def normalizeResult_idem)

lemma NormalizeReport_sel [simp]:
  "arAnomalyType (NormalizeReport r) = normalizeLower (arAnomalyType r)"
  "aoResult (arCSXObserved (NormalizeReport r)) = normalizeResult (aoResult (arCSXObserved r))"
  "aoResult (arLocalObserved (NormalizeReport r)) = normalizeResult (aoResult (arLocalObserved r))"
  "arEnvironment (NormalizeReport r) = Normalize (arEnvironment r)"
  by (simp_all add: NormalizeReport_def normalizeObservation_def)

lemma anomalyEnvKey_Normalize [simp]: "anomalyEnvKey (Normalize e) = anomalyEnvKey e"
  by (simp add: anomalyEnvKey_def)

text \<open>The report with everything replaced that no verdict and no dedupe key may depend on.\<close>

definition reworded :: "AnomalyReport \<Rightarrow> AnomalyReport \<Rightarrow> AnomalyReport" where
  "reworded r r' = r\<lparr>arLLMHypothesis := arLLMHypothesis r', arConfidence := arConfidence r',
     arReproducible := arReproducible r', arErrorTemplate := arErrorTemplate r',
     arRelatedIDs := arRelatedIDs r', arEvidenceID := arEvidenceID r',
     arSearchFingerprint := arSearchFingerprint r',
     arCSXObserved := (arCSXObserved r)\<lparr>aoDetail := aoDetail (arCSXObserved r'),
       aoStage := aoStage (arCSXObserved r')\<rparr>,
     arLocalObserved := (arLocalObserved r)\<lparr>aoDetail := aoDetail (arLocalObserved r')\<rparr>\<rparr>"

lemma reworded_sel [simp]:
  "arAnomalyType (reworded r r') = arAnomalyType r"
  "aoResult (arCSXObserved (reworded r r')) = aoResult (arCSXObserved r)"
  "aoResult (arLocalObserved (reworded r r')) = aoResult (arLocalObserved r)"
  "arEnvironment (reworded r r') = arEnvironment r"
  by (simp_all add: reworded_def)

text \<open>The verdict as a function of the four values it is computed from.\<close>

lemma verdict_confirmed_iff:
  fixes r :: AnomalyReport and rec :: VerificationReceipt
  defines "t \<equiv> normalizeLower (arAnomalyType r)"
    and "c \<equiv> normalizeResult (get [] (vrStages rec) ''contract'')"
    and "l \<equiv> normalizeResult (aoResult (arLocalObserved r))"
    and "x \<equiv> normalizeResult (aoResult (arCSXObserved r))"
  shows "(\<exists>v. AnomalyVerdictFromReceipt r rec = Some v \<and> AnomalyVerdictConfirmed v) \<longleftrightarrow>
     t \<notin> {''dependency-graph-unknown'', ''evidence-conflict'', ''broken-internal-reference''} \<and>
     c \<in> {''PASS'', ''FAIL''} \<and> c = l \<and> c \<noteq> x"
proof -
  have v: "AnomalyVerdictFromReceipt r rec =
    (if t \<in> {''dependency-graph-unknown'', ''evidence-conflict'', ''broken-internal-reference''}
     then None
     else if c \<noteq> ''PASS'' \<and> c \<noteq> ''FAIL'' then None
     else if c = l \<and> c \<noteq> x then
       Some (if t = ''csx-fail-local-pass'' then VerdictNewEvidence
             else if t = ''symbol-signature-mismatch'' \<or> t = ''upgrade-path-broken''
               then VerdictCompatibilityBoundary else VerdictCSXDefect)
     else Some (if anomalyEnvKey (arEnvironment r) = anomalyEnvKey (vrEnvironment rec)
                then VerdictNotReproducible else VerdictEnvironmentDifference))"
    unfolding AnomalyVerdictFromReceipt_def Let_def NormalizeReport_sel anomalyEnvKey_Normalize
      t_def [symmetric] c_def [symmetric] l_def [symmetric] x_def [symmetric]
    by (simp only: if_distrib [of Some] split: if_splits)
  have conf: "AnomalyVerdictConfirmed (if a then VerdictNewEvidence else if b
      then VerdictCompatibilityBoundary else VerdictCSXDefect)"
    "\<not> AnomalyVerdictConfirmed (if a then VerdictNotReproducible else VerdictEnvironmentDifference)"
    for a b by simp_all
  show ?thesis
    unfolding v by (simp only: option.inject insert_iff empty_iff simp_thms conf split: if_split) blast
qed

section \<open>Properties\<close>

text \<open>A verdict confirms a report exactly when the report is of a type a contract can measure,
  the receipt's contract ran, its result is the one the reporter measured and it is not the one
  the network served.  Confidence, hypothesis and prose never matter: rewording a report changes
  neither its verdict nor its dedupe key.\<close>

theorem verdict_rests_on_the_receipt:
  "((\<exists>v. AnomalyVerdictFromReceipt r rec = Some v \<and> AnomalyVerdictConfirmed v) \<longleftrightarrow>
     normalizeLower (arAnomalyType r) \<notin> {''dependency-graph-unknown'', ''evidence-conflict'',
       ''broken-internal-reference''} \<and>
     normalizeResult (get [] (vrStages rec) ''contract'') \<in> {''PASS'', ''FAIL''} \<and>
     normalizeResult (get [] (vrStages rec) ''contract'') = normalizeResult (aoResult (arLocalObserved r)) \<and>
     normalizeResult (get [] (vrStages rec) ''contract'') \<noteq> normalizeResult (aoResult (arCSXObserved r))) \<and>
   AnomalyVerdictFromReceipt (reworded r r') rec = AnomalyVerdictFromReceipt r rec \<and>
   Fingerprint sha (reworded r r') = Fingerprint sha r"
proof (intro conjI)
  show "AnomalyVerdictFromReceipt (reworded r r') rec = AnomalyVerdictFromReceipt r rec"
    by (simp only: AnomalyVerdictFromReceipt_def Let_def NormalizeReport_sel reworded_sel)
  show "Fingerprint sha (reworded r r') = Fingerprint sha r"
    by (simp add: Fingerprint_def Let_def NormalizeReport_def normalizeObservation_def reworded_def)
qed (rule verdict_confirmed_iff)

text \<open>The admission test.  A normalized report that passes carries a parsable coordinate, a
  local PASS or FAIL, only canonical identifiers, and the mismatch its type stands for: an UNKNOWN
  answer for the two unknown-style types, a reproducible fingerprinted local failure for a repeated
  miss, and two different concrete outcomes for every other type.\<close>

theorem admitted_reports_carry_a_mismatch:
  assumes "ValidateReport (NormalizeReport r) = None"
  shows "let n = NormalizeReport r; csx = aoResult (arCSXObserved n); loc = aoResult (arLocalObserved n) in
     (\<exists>p. ParsePURL (arPackage n) = Inr p) \<and> loc \<in> {''PASS'', ''FAIL''} \<and>
     (arErrorFingerprint n = [] \<or> anomalyContentID (arErrorFingerprint n)) \<and>
     (arAnomalyType n \<in> {''dependency-graph-unknown'', ''broken-internal-reference''} \<and> csx = ''UNKNOWN'' \<or>
      arAnomalyType n = ''repeated-no-safe-match'' \<and> loc = ''FAIL'' \<and>
        anomalyContentID (arErrorFingerprint n) \<and> arReproducible n = ''yes'' \<or>
      csx \<in> {''PASS'', ''FAIL''} \<and> csx \<noteq> loc)"
proof -
  define n where "n = NormalizeReport r"
  have csx: "aoResult (arCSXObserved n) \<in> {''PASS'', ''FAIL'', ''UNKNOWN'', ''''}"
    unfolding n_def by (simp only: NormalizeReport_sel normalizeResult_cases)
  from assms have v: "ValidateReport n = None" by (simp add: n_def)
  then have ok: "\<not> isl (ParsePURL (arPackage n))" "aoResult (arLocalObserved n) \<in> {''PASS'', ''FAIL''}"
    "aoResult (arCSXObserved n) \<noteq> []"
    "arErrorFingerprint n = [] \<or> anomalyContentID (arErrorFingerprint n)"
    and mis: "validateMismatch n = None"
    unfolding ValidateReport_def by (auto split: if_splits)
  from ok(1) obtain p where "ParsePURL (arPackage n) = Inr p" by (cases "ParsePURL (arPackage n)") auto
  moreover from mis ok csx have
    "arAnomalyType n \<in> {''dependency-graph-unknown'', ''broken-internal-reference''} \<and>
       aoResult (arCSXObserved n) = ''UNKNOWN'' \<or>
     arAnomalyType n = ''repeated-no-safe-match'' \<and> aoResult (arLocalObserved n) = ''FAIL'' \<and>
       anomalyContentID (arErrorFingerprint n) \<and> arReproducible n = ''yes'' \<or>
     aoResult (arCSXObserved n) \<in> {''PASS'', ''FAIL''} \<and>
       aoResult (arCSXObserved n) \<noteq> aoResult (arLocalObserved n)"
    unfolding validateMismatch_def Let_def
    by (simp only: insert_iff empty_iff) (metis option.distinct(1))
  ultimately show ?thesis using ok unfolding Let_def n_def [symmetric] by blast
qed

definition example_report :: AnomalyReport where
  "example_report = \<lparr>arSchemaVersion = 1, arAnomalyType = ''csx-pass-local-fail'',
     arPackage = ''pkg:npm/axios@1.12.0'', arSymbol = [], arEnvironment = zero_env, arSampleID = [],
     arEvidenceID = [], arSearchFingerprint = [],
     arCSXObserved = \<lparr>aoResult = ''pass'', aoStage = [], aoDetail = []\<rparr>,
     arLocalObserved = \<lparr>aoResult = '' Fail '', aoStage = ''test'', aoDetail = []\<rparr>,
     arReproducible = [], arConfidence = [], arErrorCode = [], arErrorFingerprint = [],
     arErrorTemplate = [], arRelatedIDs = [], arLLMHypothesis = []\<rparr>"

theorem admitted_reports_carry_a_mismatch_witness:
  "ValidateReport (NormalizeReport example_report) = None \<and>
   aoResult (arCSXObserved (NormalizeReport example_report)) \<noteq>
   aoResult (arLocalObserved (NormalizeReport example_report))"
proof -
  have "ValidateReport (NormalizeReport example_report) = None"
    "arAnomalyType (NormalizeReport example_report) = ''csx-pass-local-fail''" by code_simp+
  then show ?thesis
    using admitted_reports_carry_a_mismatch [of example_report] unfolding Let_def by auto
qed

text \<open>A repeated-no-safe-match report is admitted although the network and the machine agree:
  the type is exempt from the comparison of the two outcomes.\<close>

theorem repeated_miss_admits_agreement:
  "\<exists>r. ValidateReport (NormalizeReport r) = None \<and>
       aoResult (arCSXObserved (NormalizeReport r)) = aoResult (arLocalObserved (NormalizeReport r))"
proof -
  let ?r = "example_report\<lparr>arAnomalyType := ''repeated-no-safe-match'',
     arCSXObserved := \<lparr>aoResult = ''FAIL'', aoStage = [], aoDetail = []\<rparr>,
     arErrorFingerprint := ''sha256:'' @ replicate 64 CHR ''0'', arReproducible := ''yes''\<rparr>"
  have "ValidateReport (NormalizeReport ?r) = None" by code_simp
  moreover have "aoResult (arCSXObserved (NormalizeReport ?r)) =
      aoResult (arLocalObserved (NormalizeReport ?r))" by code_simp
  ultimately show ?thesis by blast
qed

end
