(* ===== verification/Offers.thy ===== *)
theory Offers
  imports Grading "HOL-Library.Sublist"
begin

text \<open>
  What is done with a graded search result before it is offered: \<open>src/internal/domain/search.go\<close>
  (whether it may be offered as verified, its classification, whether it is about the failed command
  at all, the reason behind its confidence) and \<open>dedupesamples.go\<close> (one result per coordinate).
\<close>

section \<open>Classification (search.go)\<close>

definition VerifiedOffer :: "SearchResult \<Rightarrow> bool" where
  "VerifiedOffer r =
     (if esContractPasses (srEvidence r) \<le> 0 \<or> 0 < length (srDifferent r) \<or>
         0 < length (srAdaptation r) then False
      else srGrade r = GradeExact \<or> srGrade r = GradeCompatible)"

definition RecommendationClassification :: "SearchResult \<Rightarrow> string \<times> bool \<times> string" where
  "RecommendationClassification r =
     (if srConfidence r = ''LOW'' then (''REFERENCE_CANDIDATE'', True, ''confidence is LOW'')
      else if \<not> VerifiedOffer r then
        (''REFERENCE_CANDIDATE'', True, ''the match is reference-only or requires adaptation'')
      else (''VERIFIED_MATCH'', False,
        ''the sample contract passed without a disclosed environment delta''))"

definition buildToolEcosystems :: "(string, string) gomap" where
  "buildToolEcosystems = [
     (''npm'', ''npm''), (''pnpm'', ''npm''), (''yarn'', ''npm''), (''node'', ''npm''), (''tsc'', ''npm''),
     (''npx'', ''npm''), (''python'', ''pypi''), (''python3'', ''pypi''), (''pytest'', ''pypi''),
     (''pip'', ''pypi''), (''pip3'', ''pypi''), (''uv'', ''pypi''), (''go'', ''golang''),
     (''cargo'', ''cargo''), (''rustc'', ''cargo''), (''mvn'', ''maven''), (''mvnw'', ''maven''),
     (''gradle'', ''maven''), (''gradlew'', ''maven''), (''java'', ''maven''), (''javac'', ''maven''),
     (''composer'', ''composer''), (''php'', ''composer''), (''bundle'', ''gem''), (''ruby'', ''gem''),
     (''dart'', ''pub''), (''flutter'', ''pub''), (''mix'', ''hex''), (''elixir'', ''hex'')]"

text \<open>The loop over the launcher suffixes stops at the first that fits.\<close>

fun trim_launcher :: "string list \<Rightarrow> string \<Rightarrow> string" where
  "trim_launcher [] tool = tool"
| "trim_launcher (ext # exts) tool =
     (if HasSuffix tool ext then TrimSuffix tool ext else trim_launcher exts tool)"

definition CommandTool :: "string list \<Rightarrow> string" where
  "CommandTool argv =
     (if argv = [] then []
      else trim_launcher [''.exe'', ''.cmd'', ''.bat'', ''.ps1'']
             (ToLower (after_last (argv ! 0) [CHR 0x2F, CHR 0x5C])))"

definition CommandEcosystem :: "string list \<Rightarrow> string" where
  "CommandEcosystem argv = get [] buildToolEcosystems (CommandTool argv)"

fun unrelated_loop :: "string \<Rightarrow> string list \<Rightarrow> bool" where
  "unrelated_loop want [] = (want \<noteq> [])"
| "unrelated_loop want (raw # raws) = (case ParsePURL raw of
     Inl _ \<Rightarrow> unrelated_loop want raws
   | Inr p \<Rightarrow>
       if pEcosystem p = ''generic'' then unrelated_loop want raws
       else if want \<noteq> [] \<and> pEcosystem p = want then False
       else if want = [] then True
       else unrelated_loop want raws)"

definition UnrelatedToCommand :: "SearchResult \<Rightarrow> string list \<Rightarrow> bool" where
  "UnrelatedToCommand r argv =
     (if srExactFailureMatched r then False
      else case srCase r of
        None \<Rightarrow> False
      | Some c \<Rightarrow> if caPackages c = [] then False
                  else unrelated_loop (CommandEcosystem argv) (caPackages c))"

fun ecosystems_loop :: "string list \<Rightarrow> string list \<Rightarrow> string list" where
  "ecosystems_loop out [] = out"
| "ecosystems_loop out (raw # raws) = (case ParsePURL raw of
     Inl _ \<Rightarrow> ecosystems_loop out raws
   | Inr p \<Rightarrow> if pEcosystem p = ''generic'' \<or> pEcosystem p \<in> set out then ecosystems_loop out raws
              else ecosystems_loop (out @ [pEcosystem p]) raws)"

definition SampleEcosystems :: "SearchResult \<Rightarrow> string list" where
  "SampleEcosystems r = (case srCase r of None \<Rightarrow> [] | Some c \<Rightarrow> ecosystems_loop [] (caPackages c))"

definition ConfidenceReason :: "SearchResult \<Rightarrow> string" where
  "ConfidenceReason r =
     (let e = srEvidence r;
          independence = (if esUniquePeerBuckets e > esIndependentCrossPeers e
                          then esUniquePeerBuckets e else esIndependentCrossPeers e)
      in if srConfidence r = ''HIGH'' then []
         else if independence \<ge> 2 then []
         else if esContractPasses e > 0 \<and> independence \<le> 1 then
           ''its contract passed here, but only one peer key has run it; runs from a second one are what raises this''
         else if esProjectCompileObservations e = 0 \<and> esContractPasses e = 0 then
           ''nothing has been observed or verified for this yet''
         else ''only one peer key has reported on this so far'')"

section \<open>One result per coordinate (dedupesamples.go)\<close>

definition ResultCoordinate :: "SearchResult \<Rightarrow> string option" where
  "ResultCoordinate r = (case srCase r of
     None \<Rightarrow> None
   | Some c \<Rightarrow>
       if caPackages c = [] \<and> caSymbols c = [] then None
       else Some (Join (sort_by (<) (caPackages c)) '','' @ [CHR 0x00] @
                  Join (sort_by (<) (caSymbols c)) '',''))"

fun dedupe_results :: "string list \<Rightarrow> SearchResult list \<Rightarrow> SearchResult list" where
  "dedupe_results seen [] = []"
| "dedupe_results seen (r # rs) = (case ResultCoordinate r of
     None \<Rightarrow> r # dedupe_results seen rs
   | Some key \<Rightarrow> if key \<in> set seen then dedupe_results seen rs
                 else r # dedupe_results (key # seen) rs)"

definition DedupeResultsByCoordinate :: "SearchResult list \<Rightarrow> SearchResult list" where
  "DedupeResultsByCoordinate results =
     (if length results < 2 then results else dedupe_results [] results)"

section \<open>Lemmas\<close>

lemma dedupe_results_coords:
  "distinct (map ResultCoordinate (filter (\<lambda>r. ResultCoordinate r \<noteq> None) (dedupe_results seen rs))) \<and>
   (\<forall>r\<in>set (dedupe_results seen rs). \<forall>k. ResultCoordinate r = Some k \<longrightarrow> k \<notin> set seen)"
proof (induction rs arbitrary: seen)
  case Nil
  then show ?case by simp
next
  case (Cons r rs)
  show ?case
  proof (cases "ResultCoordinate r")
    case None
    with Cons [of seen] show ?thesis by simp
  next
    case (Some key)
    show ?thesis
    proof (cases "key \<in> set seen")
      case True
      with Some Cons [of seen] show ?thesis by simp
    next
      case False
      from Cons [of "key # seen"] have
        "distinct (map ResultCoordinate (filter (\<lambda>r. ResultCoordinate r \<noteq> None) (dedupe_results (key # seen) rs)))"
        and new: "\<forall>r\<in>set (dedupe_results (key # seen) rs). \<forall>k. ResultCoordinate r = Some k \<longrightarrow> k \<noteq> key \<and> k \<notin> set seen"
        by auto
      with Some False show ?thesis by auto
    qed
  qed
qed

text \<open>The best result of each coordinate survives: what is dropped has an earlier equal.\<close>

lemma dedupe_results_keeps:
  "r \<in> set rs \<Longrightarrow> ResultCoordinate r = None \<Longrightarrow> r \<in> set (dedupe_results seen rs)"
  by (induction rs arbitrary: seen) (auto split: option.splits)

lemma dedupe_results_first:
  assumes "ResultCoordinate r = Some k" and "k \<notin> set seen"
    and "\<forall>r'\<in>set before. ResultCoordinate r' \<noteq> Some k"
  shows "r \<in> set (dedupe_results seen (before @ r # after))"
  using assms(2,3)
proof (induction before arbitrary: seen)
  case Nil
  with assms(1) show ?case by simp
next
  case (Cons b bs)
  show ?case
  proof (cases "ResultCoordinate b")
    case None
    with Cons show ?thesis by simp
  next
    case (Some kb)
    with Cons.prems have "kb \<noteq> k" by auto
    with Some Cons show ?thesis by simp
  qed
qed

lemma dedupe_results_subseq: "subseq (dedupe_results seen rs) rs"
  by (induction rs arbitrary: seen) (auto split: option.splits)

lemma ecosystems_loop_set:
  "set (ecosystems_loop out raws) = set out \<union>
     {pEcosystem p | raw p. raw \<in> set raws \<and> ParsePURL raw = Inr p \<and> pEcosystem p \<noteq> ''generic''}"
proof (induction raws arbitrary: out)
  case Nil
  then show ?case by simp
next
  case (Cons raw raws)
  show ?case
  proof (cases "ParsePURL raw")
    case (Inl e)
    with Cons show ?thesis by auto
  next
    case (Inr p)
    then show ?thesis by (auto simp: Cons)
  qed
qed

lemma unrelated_loop_iff:
  "want \<noteq> ''generic'' \<Longrightarrow> unrelated_loop want raws \<longleftrightarrow>
     (if want = [] then set (ecosystems_loop [] raws) \<noteq> {} else want \<notin> set (ecosystems_loop [] raws))"
proof (induction raws)
  case Nil
  then show ?case by simp
next
  case (Cons raw raws)
  note sets = ecosystems_loop_set [of "[]" "raw # raws"] ecosystems_loop_set [of "[]" raws]
  show ?case
  proof (cases "ParsePURL raw")
    case (Inl e)
    then have "unrelated_loop want (raw # raws) = unrelated_loop want raws"
      "set (ecosystems_loop [] (raw # raws)) = set (ecosystems_loop [] raws)" by simp_all
    with Cons show ?thesis by simp
  next
    case (Inr p)
    then have s: "set (ecosystems_loop [] (raw # raws)) = set (ecosystems_loop [] raws) \<union>
        (if pEcosystem p = ''generic'' then {} else {pEcosystem p})"
      unfolding sets by auto
    with Inr Cons show ?thesis by (auto simp del: ecosystems_loop.simps)
  qed
qed

lemma CommandEcosystem_not_generic: "CommandEcosystem argv \<noteq> ''generic''"
proof -
  have "\<forall>v\<in>set (map snd buildToolEcosystems). v \<noteq> ''generic''" by code_simp
  then have "map_of buildToolEcosystems k \<noteq> Some ''generic''" for k
    using map_of_SomeD by fastforce
  then show ?thesis by (auto simp: CommandEcosystem_def get_def split: option.splits)
qed

section \<open>Properties\<close>

text \<open>C25: a verified offer is safe to reuse as it is.  When the grade, the adaptations and the
  Different list of a result are those the grader computes for a request and a sample, and the
  result counts as a verified offer, then a contract passed, every environment dimension both sides
  declare agrees, the contexts match, and no shared package differs in its breaking version.\<close>

theorem verified_offer_has_no_delta:
  assumes "VerifiedOffer r"
    and "srGrade r = fst (buildGrade rel (compareEnv req sam eco g) (compareContext req sam) elevated)"
    and "srAdaptation r = snd (buildGrade rel (compareEnv req sam eco g) (compareContext req sam) elevated)"
    and "srDifferent r = snd (buildDelta rel reqP samP (compareEnv req sam eco g) (compareContext req sam))"
  shows "0 < esContractPasses (srEvidence r) \<and> \<not> elevated \<and> env_agrees req sam \<and>
         \<not> cdMismatch (compareContext req sam) \<and> \<not> cdBrowserAdapt (compareContext req sam) \<and>
         rel \<in> {relExactVersion, relMajorMinor, relUnspecified}"
proof -
  from assms(1) have pass: "0 < esContractPasses (srEvidence r)" and diff: "srDifferent r = []"
    and grade: "srGrade r = GradeExact \<or> srGrade r = GradeCompatible"
    by (auto simp: VerifiedOffer_def split: if_splits)
  from grade have nd: "fst (buildGrade rel (compareEnv req sam eco g) (compareContext req sam) elevated)
      \<notin> {GradeAdaptationRequired, GradeReferenceOnly}"
    unfolding assms(2) by auto
  then have rel: "\<not> elevated" "rel \<noteq> relMajorDiff" "rel \<noteq> relNone"
    "\<not> cdMismatch (compareContext req sam)" "\<not> cdBrowserAdapt (compareContext req sam)"
    unfolding grade_demoted_iff by blast+
  have empty: "set (snd (buildDelta rel reqP samP (compareEnv req sam eco g) (compareContext req sam))) = {}"
    using diff assms(4) by simp
  then have "\<forall>d\<in>set (compareEnv req sam eco g). dcEqual d"
    unfolding different_set using compareEnv_shown [of _ req sam eco g] by blast
  then have env: "env_agrees req sam" by (simp only: all_equal_iff)
  from empty have "set (rel_different rel reqP samP) = {}" unfolding different_set by blast
  then have "rel \<in> {relExactVersion, relMajorMinor, relUnspecified}"
    using rel(2,3) by (cases rel) (simp_all add: rel_different_def)
  with pass rel env show ?thesis by simp
qed

definition linux_env :: EnvironmentFingerprint where
  "linux_env = zero_env\<lparr>eOS := ''linux''\<rparr>"

definition offer_example :: SearchResult where
  "offer_example = zero_result\<lparr>srGrade := GradeExact, srConfidence := ''MEDIUM'',
     srEvidence := zero_evidence\<lparr>esContractPasses := 1\<rparr>\<rparr>"

theorem verified_offer_has_no_delta_witness:
  "VerifiedOffer offer_example \<and> env_agrees linux_env linux_env"
proof -
  let ?p = "\<lparr>pEcosystem = ''npm'', pName = ''a'', pVersion = ''1.2.0''\<rparr>"
  have v: "VerifiedOffer offer_example" by code_simp
  have b: "buildGrade relExactVersion (compareEnv linux_env linux_env ''npm'' False)
      (compareContext linux_env linux_env) False = (GradeExact, [])" by code_simp
  have d: "snd (buildDelta relExactVersion ?p ?p (compareEnv linux_env linux_env ''npm'' False)
      (compareContext linux_env linux_env)) = []" by code_simp
  have r: "srGrade offer_example = GradeExact" "srAdaptation offer_example = []"
    "srDifferent offer_example = []" by (simp_all add: offer_example_def zero_result_def)
  from verified_offer_has_no_delta [of offer_example relExactVersion linux_env linux_env "''npm''"
      False False ?p ?p] v b d r
  show ?thesis by simp
qed

text \<open>Deduplication keeps, in order, one result per coordinate: no coordinate occurs twice, a
  result without a coordinate is never dropped, and the first (best) result of each coordinate
  stays.\<close>

theorem dedupe_keeps_the_best:
  assumes "rs = before @ r # after"
    and "\<forall>r'\<in>set before. ResultCoordinate r' \<noteq> ResultCoordinate r"
  shows "subseq (DedupeResultsByCoordinate rs) rs \<and>
         distinct (map ResultCoordinate (filter (\<lambda>r. ResultCoordinate r \<noteq> None)
                     (DedupeResultsByCoordinate rs))) \<and>
         r \<in> set (DedupeResultsByCoordinate rs)"
proof (cases "length rs < 2")
  case True
  with assms(1) have "rs = [r]" by (cases before) auto
  then show ?thesis by (simp add: DedupeResultsByCoordinate_def)
next
  case False
  then have eq: "DedupeResultsByCoordinate rs = dedupe_results [] rs"
    by (simp add: DedupeResultsByCoordinate_def)
  have "r \<in> set (dedupe_results [] rs)"
  proof (cases "ResultCoordinate r")
    case None
    with assms(1) show ?thesis by (intro dedupe_results_keeps) simp_all
  next
    case (Some k)
    with assms show ?thesis using dedupe_results_first [of r k "[]" before after] by simp
  qed
  with dedupe_results_coords [of "[]" rs] dedupe_results_subseq [of "[]" rs] eq
  show ?thesis by simp
qed

theorem dedupe_keeps_the_best_witness:
  "let a = zero_result\<lparr>srSampleID := ''a'', srCase := Some (zero_case\<lparr>caPackages := [''p'', ''q'']\<rparr>)\<rparr>;
       b = zero_result\<lparr>srSampleID := ''b'', srCase := Some (zero_case\<lparr>caPackages := [''q'', ''p'']\<rparr>)\<rparr>
   in ResultCoordinate a = ResultCoordinate b \<and> a \<in> set (DedupeResultsByCoordinate [a, b])"
proof -
  let ?a = "zero_result\<lparr>srSampleID := ''a'', srCase := Some (zero_case\<lparr>caPackages := [''p'', ''q'']\<rparr>)\<rparr>"
  let ?b = "zero_result\<lparr>srSampleID := ''b'', srCase := Some (zero_case\<lparr>caPackages := [''q'', ''p'']\<rparr>)\<rparr>"
  have "ResultCoordinate ?a = ResultCoordinate ?b" by code_simp
  then show ?thesis
    using dedupe_keeps_the_best [of "[?a, ?b]" "[]" ?a "[?b]"] by (simp add: Let_def)
qed

text \<open>The relevance gate.  A result is unrelated to the failed command exactly when it is no
  exact failure match, declares packages, and the command's ecosystem is not among the sample's
  (for a command of no known ecosystem: when the sample is pinned to some ecosystem).\<close>

theorem unrelated_iff_other_ecosystem:
  "UnrelatedToCommand r argv \<longleftrightarrow>
     \<not> srExactFailureMatched r \<and> (\<exists>c. srCase r = Some c \<and> caPackages c \<noteq> []) \<and>
     (if CommandEcosystem argv = [] then SampleEcosystems r \<noteq> []
      else CommandEcosystem argv \<notin> set (SampleEcosystems r))"
  using CommandEcosystem_not_generic [of argv]
  by (auto simp: UnrelatedToCommand_def SampleEcosystems_def unrelated_loop_iff split: option.splits)

end
