(* ===== verification/Applicability.thy ===== *)
theory Applicability
  imports Domain
begin

text \<open>
  Which coordinates can hold which assets: \<open>src/internal/domain/applicable.go\<close> (coordinates that no
  sample, dependency graph or observation can exist for), \<open>wanted_target.go\<close> (the closed public
  vocabulary of engines, SDKs, operating systems and tools), \<open>presence.go\<close> (the bounded presence
  payload) and \<open>samplebucket.go\<close>.
\<close>

section \<open>Coordinates without assets (applicable.go)\<close>

definition npmPlatformTokens :: "(string, string) gomap" where
  "npmPlatformTokens = [(''darwin'', ''darwin''), (''win32'', ''windows''), (''linux'', ''linux''),
     (''android'', ''android''), (''freebsd'', ''freebsd''), (''openbsd'', ''openbsd''),
     (''sunos'', ''sunos''), (''aix'', ''aix'')]"

definition npmArchTokens :: "string list" where
  "npmArchTokens = [''x64'', ''x86'', ''ia32'', ''arm'', ''arm64'', ''aarch64'', ''64'', ''32'', ''ppc64'',
     ''ppc64le'', ''s390x'', ''riscv64'', ''mips64el'', ''loong64'', ''universal'']"

text \<open>The part of a name after its last slash.\<close>

definition base_name :: "string \<Rightarrow> string" where
  "base_name name = (case CutLast name CHR ''/'' of None \<Rightarrow> name | Some (_, b) \<Rightarrow> b)"

fun platform_loop :: "string list \<Rightarrow> string option" where
  "platform_loop (p # q # parts) =
     (case map_of npmPlatformTokens p of
        Some os \<Rightarrow> if q \<in> set npmArchTokens then Some os else platform_loop (q # parts)
      | None \<Rightarrow> platform_loop (q # parts))"
| "platform_loop _ = None"

definition NPMPackagePlatform :: "string \<Rightarrow> string option" where
  "NPMPackagePlatform name = platform_loop (Split (base_name name) CHR ''-'')"

definition MavenPomOnlyByName :: "string \<Rightarrow> bool" where
  "MavenPomOnlyByName name = HasSuffix (base_name name) ''.gradle.plugin''"

definition SampleNotApplicable :: "string \<Rightarrow> string \<Rightarrow> string option" where
  "SampleNotApplicable ecosystem name =
     (if ecosystem = ''npm'' then
        (case NPMPackagePlatform name of
           Some _ \<Rightarrow> Some ''npm per-platform native build: what a sample would import is the .node binary its parent selects''
         | None \<Rightarrow> None)
      else if ecosystem = ''maven'' then
        (if MavenPomOnlyByName name
         then Some ''gradle plugin marker: a pom with no classes, so no contract can call anything''
         else None)
      else None)"

definition dependencyScannable :: "(string, bool) gomap" where
  "dependencyScannable = [(''npm'', True), (''pypi'', True), (''cargo'', True), (''golang'', True)]"

definition DependencyScannableEcosystems :: "string list" where
  "DependencyScannableEcosystems = sort_by (<) (map fst dependencyScannable)"

definition evidenceObservable :: "(string, bool) gomap" where
  "evidenceObservable = [(''npm'', True), (''pypi'', True), (''cargo'', True), (''golang'', True)]"

definition EvidenceObservableEcosystems :: "string list" where
  "EvidenceObservableEcosystems = sort_by (<) (map fst evidenceObservable)"

definition EvidenceNotApplicable :: "string \<Rightarrow> string option" where
  "EvidenceNotApplicable ecosystem =
     (if get False evidenceObservable ecosystem then None
      else Some (''no local project scanner ships for '' @ ecosystem @
        '': csx run cannot name a package here, so no observation can be recorded''))"

definition DependencyNotApplicable :: "string \<Rightarrow> string option" where
  "DependencyNotApplicable ecosystem =
     (if get False dependencyScannable ecosystem then None
      else Some (''no dependency scanner ships for '' @ ecosystem @
        '': the tree is unread, not empty''))"

section \<open>The public target vocabulary (wanted\_target.go)\<close>

definition wantedTargetNames :: "(string, string) gomap" where
  "wantedTargetNames = [
    (''unity'', ''engine/unity''), (''unreal'', ''engine/unreal''),
    (''godot'', ''engine/godot''), (''android-sdk'', ''sdk/android''),
    (''ios-sdk'', ''sdk/ios''), (''macos-sdk'', ''sdk/macos''),
    (''windows-sdk'', ''sdk/windows''), (''jdk'', ''sdk/jdk''), (''dotnet-sdk'', ''sdk/dotnet''),
    (''xcode'', ''sdk/xcode''), (''cuda'', ''sdk/cuda''), (''vulkan'', ''sdk/vulkan''),
    (''windows'', ''os/windows''), (''ubuntu'', ''os/ubuntu''), (''debian'', ''os/debian''),
    (''rhel'', ''os/rhel''), (''alpine'', ''os/alpine''), (''macos'', ''os/macos''),
    (''bash'', ''cli/bash''), (''busybox'', ''cli/busybox''), (''coreutils'', ''cli/coreutils''),
    (''powershell'', ''cli/powershell''), (''windows-powershell'', ''cli/windows-powershell''),
    (''cmd'', ''cli/cmd''), (''git'', ''cli/git''), (''npm'', ''cli/npm''),
    (''node'', ''cli/node''), (''npx'', ''cli/npx''), (''tsc'', ''cli/tsc''),
    (''go'', ''cli/go''), (''python'', ''cli/python''), (''python3'', ''cli/python3''),
    (''pytest'', ''cli/pytest''), (''rustc'', ''cli/rustc''), (''dotnet'', ''cli/dotnet''),
    (''java'', ''cli/java''), (''javac'', ''cli/javac''), (''php'', ''cli/php''),
    (''ruby'', ''cli/ruby''), (''elixir'', ''cli/elixir''), (''flutter'', ''cli/flutter''),
    (''ssh'', ''cli/ssh''), (''scp'', ''cli/scp''), (''pwsh'', ''cli/pwsh''),
    (''mvn'', ''cli/mvn''), (''mvnw'', ''cli/mvnw''), (''gradlew'', ''cli/gradlew''),
    (''pip3'', ''cli/pip3''), (''bundle'', ''cli/bundle''), (''pnpm'', ''cli/pnpm''),
    (''yarn'', ''cli/yarn''), (''bun'', ''cli/bun''), (''deno'', ''cli/deno''),
    (''maven'', ''cli/maven''), (''gradle'', ''cli/gradle''), (''pip'', ''cli/pip''),
    (''uv'', ''cli/uv''), (''cargo'', ''cli/cargo''), (''gem'', ''cli/gem''),
    (''bundler'', ''cli/bundler''), (''composer'', ''cli/composer''), (''mix'', ''cli/mix''),
    (''dart'', ''cli/dart''), (''curl'', ''cli/curl''), (''jq'', ''cli/jq''),
    (''openssl'', ''cli/openssl''), (''tar'', ''cli/tar''), (''grep'', ''cli/grep''),
    (''sed'', ''cli/sed''), (''findutils'', ''cli/findutils''), (''docker'', ''cli/docker''),
    (''docker-compose'', ''cli/docker-compose''), (''kubectl'', ''cli/kubectl''),
    (''helm'', ''cli/helm''), (''terraform'', ''cli/terraform''),
    (''opentofu'', ''cli/opentofu''), (''ffmpeg'', ''cli/ffmpeg''),
    (''ripgrep'', ''cli/ripgrep''), (''gh'', ''cli/gh'')]"

definition wantedTargetCoordinates :: "string list" where
  "wantedTargetCoordinates = map snd wantedTargetNames"

definition PublicTargetFromDescriptor :: "string \<Rightarrow> PURL option" where
  "PublicTargetFromDescriptor value0 =
     (case CutLast (TrimSpace value0) CHR ''@'' of
        None \<Rightarrow> None
      | Some (before, after) \<Rightarrow>
          if before = [] \<or> after = [] then None
          else
            let name = ToLower (TrimSpace before); version = TrimSpace after in
            case map_of wantedTargetNames name of
              None \<Rightarrow> None
            | Some coordinate \<Rightarrow>
                if \<not> ConcreteResolvedVersion version then None
                else Some \<lparr>pEcosystem = ''generic'', pName = coordinate, pVersion = version\<rparr>)"

definition WantedTargetFromFramework :: "string \<Rightarrow> PURL option" where
  "WantedTargetFromFramework value0 = PublicTargetFromDescriptor value0"

definition IsWantedTarget :: "PURL \<Rightarrow> bool" where
  "IsWantedTarget p \<longleftrightarrow> pEcosystem p = ''generic'' \<and> pName p \<in> set wantedTargetCoordinates \<and>
     ConcreteResolvedVersion (pVersion p)"

section \<open>Presence (presence.go, samplebucket.go)\<close>

definition IsPublicClientClass :: "string \<Rightarrow> bool" where
  "IsPublicClientClass clientClass =
     (ToLower (TrimSpace clientClass) \<in> {''ordinary'', ''external''})"

record PresencePayload =
  ppSchemaVersion :: int
  ppClientClass :: string
  ppClientVersion :: string
  ppEpoch1d :: string
  ppToken1d :: string
  ppEpoch7d :: string
  ppToken7d :: string
  ppEpoch30d :: string
  ppToken30d :: string

datatype presence_error = ErrPresenceSchemaVersion | ErrPresenceClientClass
  | ErrPresenceClientVersion | ErrPresenceEpoch1d | ErrPresenceEpoch7d | ErrPresenceEpoch30d
  | ErrPresenceToken1d | ErrPresenceToken7d | ErrPresenceToken30d

text \<open>The four anchored regular expressions, as predicates on the bytes.\<close>

definition validClientClass :: "string \<Rightarrow> bool" where
  "validClientClass s \<longleftrightarrow> 1 \<le> length s \<and> length s \<le> 64 \<and>
     list_all (\<lambda>c. is_lower c \<or> is_upper c \<or> is_digit c \<or> c \<in> set ''_-.'') s"

definition validHexToken :: "string \<Rightarrow> bool" where
  "validHexToken s \<longleftrightarrow> 16 \<le> length s \<and> length s \<le> 64 \<and>
     list_all (\<lambda>c. is_digit c \<or> CHR ''a'' \<le> c \<and> c \<le> CHR ''f'' \<or> CHR ''A'' \<le> c \<and> c \<le> CHR ''F'') s"

definition validEpoch1d :: "string \<Rightarrow> bool" where
  "validEpoch1d s \<longleftrightarrow> length s = 10 \<and> s ! 4 = CHR ''-'' \<and> s ! 7 = CHR ''-'' \<and>
     list_all (\<lambda>i. is_digit (s ! i)) [0, 1, 2, 3, 5, 6, 8, 9]"

definition validEpochInt :: "string \<Rightarrow> bool" where
  "validEpochInt s \<longleftrightarrow> 1 \<le> length s \<and> length s \<le> 16 \<and> list_all is_digit s"

definition ValidatePresence :: "PresencePayload \<Rightarrow> presence_error option" where
  "ValidatePresence p =
     (if ppSchemaVersion p \<noteq> 1 then Some ErrPresenceSchemaVersion
      else if \<not> validClientClass (ppClientClass p) then Some ErrPresenceClientClass
      else if ppClientVersion p = [] \<or> 64 < length (ppClientVersion p)
        then Some ErrPresenceClientVersion
      else if \<not> validEpoch1d (ppEpoch1d p) then Some ErrPresenceEpoch1d
      else if \<not> validEpochInt (ppEpoch7d p) then Some ErrPresenceEpoch7d
      else if \<not> validEpochInt (ppEpoch30d p) then Some ErrPresenceEpoch30d
      else if \<not> validHexToken (ppToken1d p) then Some ErrPresenceToken1d
      else if \<not> validHexToken (ppToken7d p) then Some ErrPresenceToken7d
      else if \<not> validHexToken (ppToken30d p) then Some ErrPresenceToken30d
      else None)"

definition SampleProjectBucket :: "string \<Rightarrow> string" where
  "SampleProjectBucket sampleID = TrimPrefix sampleID ''sha256:''"

section \<open>Lemmas\<close>

lemma platform_loop_iff:
  "(\<exists>os. platform_loop parts = Some os) \<longleftrightarrow>
     (\<exists>i. Suc i < length parts \<and> parts ! i \<in> set (map fst npmPlatformTokens) \<and>
          parts ! Suc i \<in> set npmArchTokens)"
proof (induction parts rule: platform_loop.induct)
  case (1 p q parts)
  have split: "(\<exists>i. Suc i < length (p # q # parts) \<and> P ((p # q # parts) ! i) ((p # q # parts) ! Suc i)) \<longleftrightarrow>
      P p q \<or> (\<exists>i. Suc i < length (q # parts) \<and> P ((q # parts) ! i) ((q # parts) ! Suc i))"
    for P :: "string \<Rightarrow> string \<Rightarrow> bool"
    by (rule iffI; elim exE disjE) (metis Suc_less_eq length_Cons nth_Cons_0 nth_Cons_Suc old.nat.exhaust,
        force, metis Suc_less_eq length_Cons nth_Cons_Suc)
  show ?case
  proof (cases "map_of npmPlatformTokens p")
    case None
    then have "p \<notin> set (map fst npmPlatformTokens)" by (simp add: map_of_eq_None_iff)
    with None show ?thesis
      using 1(1) [OF None] split [of "\<lambda>a b. a \<in> set (map fst npmPlatformTokens) \<and> b \<in> set npmArchTokens"] by simp
  next
    case (Some os)
    then have "p \<in> set (map fst npmPlatformTokens)" by (metis domI dom_map_of_conv_image_fst set_map)
    with Some show ?thesis
      using 1(2) [OF Some] split [of "\<lambda>a b. a \<in> set (map fst npmPlatformTokens) \<and> b \<in> set npmArchTokens"]
      by (cases "q \<in> set npmArchTokens") simp_all
  qed
qed simp_all

lemma base_name_scoped: "CHR ''/'' \<notin> set n \<Longrightarrow> base_name (scope @ CHR ''/'' # n) = n"
  using CutLast_Some [of "scope @ CHR ''/'' # n" "CHR ''/''" scope n] by (simp add: base_name_def)

lemma concrete_plain: "concrete_byte c \<Longrightarrow> c \<notin> set (concat space_seqs)"
proof -
  have "list_all (\<lambda>c. \<not> concrete_byte c) (concat space_seqs)" by code_simp
  then show "concrete_byte c \<Longrightarrow> c \<notin> set (concat space_seqs)" by (auto simp: list_all_iff)
qed

lemma strip_plain:
  assumes "letter_free seqs" and "set s \<inter> set (concat seqs) = {}"
  shows "strip seqs s = s"
proof (rule strip_id)
  show "space_len seqs s = 0"
    unfolding space_len_0_iff [OF assms(1)]
  proof (intro ballI notI)
    fix p assume p: "p \<in> set seqs" "HasPrefix s p"
    then obtain r where s: "s = p @ r" by (auto simp: HasPrefix_iff)
    obtain c cs where "p = c # cs" using assms(1) p(1) by (cases p) (auto simp: letter_free_def list_all_iff)
    with s p(1) have "c \<in> set s" "c \<in> set (concat seqs)" by (simp, force)
    with assms(2) show False by blast
  qed
qed

lemma TrimSpace_plain: "set s \<inter> set (concat space_seqs) = {} \<Longrightarrow> TrimSpace s = s"
proof -
  assume s: "set s \<inter> set (concat space_seqs) = {}"
  moreover have "set (concat (map rev space_seqs)) = set (concat space_seqs)" by simp
  ultimately have "strip space_seqs s = s" "strip (map rev space_seqs) (rev s) = rev s"
    using strip_plain letter_free_space_seqs by (metis set_rev)+
  then show "TrimSpace s = s" by (simp add: TrimSpace_def)
qed

definition plain_name :: "string \<Rightarrow> bool" where
  "plain_name n \<longleftrightarrow> n \<noteq> [] \<and> ToLower n = n \<and> list_all concrete_byte n"

lemma wanted_names_plain: "list_all (\<lambda>(n, c). plain_name n) wantedTargetNames"
  by code_simp

lemma wanted_names_wf: "wf_map wantedTargetNames"
  by code_simp

lemma descriptor_of_target:
  assumes "(n, c) \<in> set wantedTargetNames" and "ConcreteResolvedVersion v"
  shows "PublicTargetFromDescriptor (n @ CHR ''@'' # v) =
    Some \<lparr>pEcosystem = ''generic'', pName = c, pVersion = v\<rparr>"
proof -
  have n: "n \<noteq> []" "ToLower n = n" "list_all concrete_byte n"
    using wanted_names_plain assms(1) by (auto simp: list_all_iff plain_name_def)
  have v: "v \<noteq> []" "TrimSpace v = v" "list_all concrete_byte v"
    using assms(2) by (simp_all add: ConcreteResolvedVersion_def)
  have at: "\<not> concrete_byte CHR ''@''" "CHR ''@'' \<notin> set (concat space_seqs)" by code_simp+
  have nv: "set n \<inter> set (concat space_seqs) = {}" "set v \<inter> set (concat space_seqs) = {}"
    using n(3) v(3) concrete_plain unfolding list_all_iff by blast+
  with at(2) have "set (n @ CHR ''@'' # v) \<inter> set (concat space_seqs) = {}"
    by (simp only: set_append list.set Int_Un_distrib2 Int_insert_left if_False Un_empty)
  with nv(1) have plain: "TrimSpace n = n" "TrimSpace (n @ CHR ''@'' # v) = n @ CHR ''@'' # v"
    by (rule_tac TrimSpace_plain; simp only:)+
  have "CHR ''@'' \<notin> set v" using v(3) at(1) by (auto simp: list_all_iff)
  then have "CutLast (n @ CHR ''@'' # v) CHR ''@'' = Some (n, v)" by (simp add: CutLast_Some)
  moreover have "map_of wantedTargetNames n = Some c"
    using wanted_names_wf assms(1) by (simp add: wf_map_def)
  ultimately show ?thesis
    using n v plain assms(2) by (simp add: PublicTargetFromDescriptor_def)
qed

section \<open>Properties\<close>

text \<open>The public vocabulary is closed and complete: the coordinates that pass
  \<open>IsWantedTarget\<close> are exactly those some descriptor names, so no private name can leave the
  machine through a descriptor and no public target is out of reach of one.\<close>

theorem wanted_targets_are_the_vocabulary:
  "(\<exists>d. PublicTargetFromDescriptor d = Some p) \<longleftrightarrow> IsWantedTarget p"
proof
  assume "\<exists>d. PublicTargetFromDescriptor d = Some p"
  then obtain d where "PublicTargetFromDescriptor d = Some p" by blast
  then show "IsWantedTarget p"
    by (auto simp: PublicTargetFromDescriptor_def IsWantedTarget_def wantedTargetCoordinates_def
        Let_def split: option.splits if_splits dest: map_of_SomeD) (metis image_eqI map_of_SomeD snd_conv)
next
  assume p: "IsWantedTarget p"
  then obtain n where "(n, pName p) \<in> set wantedTargetNames"
    by (auto simp: IsWantedTarget_def wantedTargetCoordinates_def)
  with p descriptor_of_target [of n "pName p" "pVersion p"]
  show "\<exists>d. PublicTargetFromDescriptor d = Some p"
    by (intro exI [of _ "n @ CHR ''@'' # pVersion p"]) (simp add: IsWantedTarget_def)
qed

text \<open>An npm coordinate is closed to samples exactly when, in its name without the scope, a
  platform token is directly followed by an architecture token; other ecosystems never are, but
  for the Gradle plugin markers of maven.\<close>

theorem sample_not_applicable_iff:
  "(\<exists>why. SampleNotApplicable eco name = Some why) \<longleftrightarrow>
     eco = ''npm'' \<and> (let parts = Split (base_name name) CHR ''-'' in
        \<exists>i. Suc i < length parts \<and> parts ! i \<in> set (map fst npmPlatformTokens) \<and>
            parts ! Suc i \<in> set npmArchTokens) \<or>
     eco = ''maven'' \<and> MavenPomOnlyByName name"
  using platform_loop_iff [of "Split (base_name name) CHR ''-''"]
  by (cases "platform_loop (Split (base_name name) CHR ''-'')")
    (simp_all add: SampleNotApplicable_def NPMPackagePlatform_def Let_def)

text \<open>An admitted presence payload is bounded: all its strings together are at most 362 bytes,
  and apart from the client version none holds a space, a quote, a slash or a byte beyond ASCII
  punctuation.\<close>

theorem presence_payload_bounded:
  assumes "ValidatePresence p = None"
  shows "length (concat [ppClientClass p, ppClientVersion p, ppEpoch1d p, ppToken1d p, ppEpoch7d p,
            ppToken7d p, ppEpoch30d p, ppToken30d p]) \<le> 362 \<and>
         list_all (\<lambda>c. is_lower c \<or> is_upper c \<or> is_digit c \<or> c \<in> set ''_-.'')
           (ppClientClass p @ ppToken1d p @ ppEpoch7d p @ ppToken7d p @ ppEpoch30d p @ ppToken30d p)"
proof -
  define ok where "ok = (\<lambda>c. is_lower c \<or> is_upper c \<or> is_digit c \<or> c \<in> set ''_-.'')"
  have hex: "is_digit c \<or> CHR ''a'' \<le> c \<and> c \<le> CHR ''f'' \<or> CHR ''A'' \<le> c \<and> c \<le> CHR ''F'' \<Longrightarrow>
      is_lower c \<or> is_upper c \<or> is_digit c" for c
    by (auto simp: is_lower_def is_upper_def less_eq_char_def)
  from assms have v: "validClientClass (ppClientClass p)" "length (ppClientVersion p) \<le> 64"
    "validEpoch1d (ppEpoch1d p)" "validEpochInt (ppEpoch7d p)" "validEpochInt (ppEpoch30d p)"
    "validHexToken (ppToken1d p)" "validHexToken (ppToken7d p)" "validHexToken (ppToken30d p)"
    by (auto simp: ValidatePresence_def split: if_splits)
  then have "length (concat [ppClientClass p, ppClientVersion p, ppEpoch1d p, ppToken1d p, ppEpoch7d p,
            ppToken7d p, ppEpoch30d p, ppToken30d p]) \<le> 362"
    by (simp add: validClientClass_def validHexToken_def validEpoch1d_def validEpochInt_def)
  moreover have "list_all ok (ppClientClass p)"
    using v(1) unfolding validClientClass_def ok_def by blast
  moreover have "list_all ok (ppEpoch7d p)" "list_all ok (ppEpoch30d p)"
    using v(4,5) unfolding validEpochInt_def ok_def
    by (auto elim: list.pred_mono_strong)
  moreover have "validHexToken t \<Longrightarrow> list_all ok t" for t
    unfolding validHexToken_def ok_def using hex by (auto elim!: list.pred_mono_strong)
  ultimately show ?thesis using v(6-8) unfolding ok_def list_all_append by blast
qed

theorem presence_payload_bounded_witness:
  "let p = \<lparr>ppSchemaVersion = 1, ppClientClass = ''ordinary'', ppClientVersion = ''1.0'',
       ppEpoch1d = ''2026-08-13'', ppToken1d = ''0123456789abcdef'', ppEpoch7d = ''2954'',
       ppToken7d = ''0123456789abcdef'', ppEpoch30d = ''689'', ppToken30d = ''0123456789abcdef''\<rparr>
   in ValidatePresence p = None \<and> length (concat [ppClientClass p, ppClientVersion p, ppEpoch1d p,
        ppToken1d p, ppEpoch7d p, ppToken7d p, ppEpoch30d p, ppToken30d p]) \<le> 362"
proof -
  let ?p = "\<lparr>ppSchemaVersion = 1, ppClientClass = ''ordinary'', ppClientVersion = ''1.0'',
       ppEpoch1d = ''2026-08-13'', ppToken1d = ''0123456789abcdef'', ppEpoch7d = ''2954'',
       ppToken7d = ''0123456789abcdef'', ppEpoch30d = ''689'', ppToken30d = ''0123456789abcdef''\<rparr>"
  have v: "ValidatePresence ?p = None" by code_simp
  from presence_payload_bounded [OF v] v show ?thesis unfolding Let_def by blast
qed

end
