(* ===== verification/Failure.thy ===== *)
theory Failure
  imports Domain "HOL-Library.Word"
begin

text \<open>
  Failure evidence, \<open>src/internal/domain/failure.go\<close>: structured termination states, the canonical
  signed form of a process exit status (a 32-bit two's complement reading of what Windows reports
  as an unsigned value), the cluster fingerprints and the repair of an observation that was recorded
  under the unsigned spelling.  \<open>sha\<close> stands for \<open>SHA256Hex\<close>.
\<close>

section \<open>Observations (types.go)\<close>

record ObservationBatch =
  obSchemaVersion :: int
  obEpoch :: string
  obAnonID :: string
  obProjectBucket :: string
  obPackage :: string
  obSymbol :: string
  obSymbolConfidence :: string
  obEnvironment :: EnvironmentFingerprint
  obStage :: Stage
  obResult :: string
  obObservationCount :: int
  obErrorFingerprint :: string
  obErrorCode :: string
  obTerminationKind :: string
  obExitCode :: "int option"
  obSignal :: string
  obTimeoutMillis :: int
  obErrorSummary :: string
  obEvidenceQuality :: string
  obOuterCommand :: string
  obOuterStage :: Stage
  obActualToolchain :: string
  obStageEvidence :: string
  obFailureEvidenceGap :: string
  obDirect :: bool
  obCoresident :: "string list"
  obDependsOn :: "string list"
  obDependsOnNone :: bool

section \<open>Exit codes\<close>

text \<open>\<open>strconv\<close>/\<open>fmt\<close> decimal notation of an integer.\<close>

fun dec_digits :: "nat \<Rightarrow> string" where
  "dec_digits n = (if n < 10 then [char_of (n + 48)] else dec_digits (n div 10) @ [char_of (n mod 10 + 48)])"

declare dec_digits.simps [simp del]

definition itoa :: "int \<Rightarrow> string" where
  "itoa i = (if i < 0 then CHR ''-'' # dec_digits (nat (- i)) else dec_digits (nat i))"

definition CanonicalExitCode :: "int \<Rightarrow> int option" where
  "CanonicalExitCode v =
     (if - (2 ^ 31) \<le> v \<and> v \<le> 2 ^ 31 - 1 then Some v
      else if 2 ^ 31 - 1 < v \<and> v \<le> 2 ^ 32 - 1 then Some (sint (word_of_int v :: 32 word))
      else None)"

definition Canonical :: "FailureTermination \<Rightarrow> FailureTermination" where
  "Canonical t = (case ftExitCode t of
     None \<Rightarrow> t
   | Some code0 \<Rightarrow> (case CanonicalExitCode code0 of
       None \<Rightarrow> t
     | Some code \<Rightarrow> if code = code0 then t else t\<lparr>ftExitCode := Some code\<rparr>))"

section \<open>Termination states and fingerprints\<close>

definition Structured :: "FailureTermination \<Rightarrow> bool" where
  "Structured t =
     (if ftKind t = ''exit'' then ftExitCode t \<noteq> None
      else if ftKind t = ''signal'' then TrimSpace (ftSignal t) \<noteq> []
      else if ftKind t = ''timeout'' then True
      else if ftKind t = ''process-start-failed'' then True
      else False)"

definition FingerprintCoordinate :: "FailureTermination \<Rightarrow> string" where
  "FingerprintCoordinate t =
     (if ftKind t = ''exit'' then
        (case ftExitCode t of None \<Rightarrow> ''exit:unknown'' | Some code \<Rightarrow> ''exit:'' @ itoa code)
      else if ftKind t = ''signal'' then ''signal:'' @ ToUpper (TrimSpace (ftSignal t))
      else if ftKind t = ''timeout'' then
        (if 0 < ftTimeoutMillis t then ''timeout:'' @ itoa (ftTimeoutMillis t) @ ''ms'' else ''timeout'')
      else if ftKind t = ''process-start-failed'' then ''process-start-failed''
      else ''unknown'')"

definition FailureFingerprint ::
  "(string \<Rightarrow> string) \<Rightarrow> Stage \<Rightarrow> FailureTermination \<Rightarrow> string \<Rightarrow> string \<Rightarrow> string" where
  "FailureFingerprint sha stage term errorCode errorSummary =
     sha (''v2|'' @ stage @ ''|'' @ FingerprintCoordinate term @ ''|'' @ errorCode @ ''|'' @ errorSummary)"

definition ClassifiedFailureFingerprint ::
  "(string \<Rightarrow> string) \<Rightarrow> Stage \<Rightarrow> string \<Rightarrow> FailureTermination \<Rightarrow> string \<Rightarrow> string \<Rightarrow> string" where
  "ClassifiedFailureFingerprint sha stage actualToolchain term errorCode errorSummary =
     sha (''v3|'' @ stage @ ''|'' @ ToLower (TrimSpace actualToolchain) @ ''|'' @
          FingerprintCoordinate term @ ''|'' @ errorCode @ ''|'' @ errorSummary)"

definition Termination :: "FailureEvidence \<Rightarrow> FailureTermination" where
  "Termination f = \<lparr>ftKind = feTerminationKind f, ftExitCode = feExitCode f, ftSignal = feSignal f,
     ftTimeoutMillis = feTimeoutMillis f\<rparr>"

section \<open>Repair of observations\<close>

definition obTermination :: "ObservationBatch \<Rightarrow> FailureTermination" where
  "obTermination b = \<lparr>ftKind = obTerminationKind b, ftExitCode = obExitCode b,
     ftSignal = obSignal b, ftTimeoutMillis = obTimeoutMillis b\<rparr>"

text \<open>The digest of an observation: version 2, or version 3 when the failing toolchain is known.\<close>

definition obDigest :: "(string \<Rightarrow> string) \<Rightarrow> ObservationBatch \<Rightarrow> string" where
  "obDigest sha b =
     (if obActualToolchain b \<noteq> [] then
        ClassifiedFailureFingerprint sha (obStage b) (obActualToolchain b) (obTermination b)
          (obErrorCode b) (obErrorSummary b)
      else FailureFingerprint sha (obStage b) (obTermination b) (obErrorCode b) (obErrorSummary b))"

definition digested :: "ObservationBatch \<Rightarrow> bool" where
  "digested b \<longleftrightarrow> obErrorFingerprint b \<noteq> [] \<and>
     (obEvidenceQuality b = ''complete'' \<or> obEvidenceQuality b = ''partial'')"

definition CanonicalizeObservationFailure ::
  "(string \<Rightarrow> string) \<Rightarrow> ObservationBatch \<Rightarrow> ObservationBatch" where
  "CanonicalizeObservationFailure sha b = (case obExitCode b of
     None \<Rightarrow> b
   | Some code0 \<Rightarrow> (case CanonicalExitCode code0 of
       None \<Rightarrow> b
     | Some code \<Rightarrow>
         if code = code0 then b
         else if digested b \<and> obErrorFingerprint b \<noteq> obDigest sha b then b
         else let b' = b\<lparr>obExitCode := Some code\<rparr> in
           if digested b' then b'\<lparr>obErrorFingerprint := obDigest sha b'\<rparr> else b'))"

section \<open>Lemmas\<close>

lemma sint_wrap: "2 ^ 31 \<le> v \<Longrightarrow> v \<le> 2 ^ 32 - 1 \<Longrightarrow> sint (word_of_int v :: 32 word) = v - 2 ^ 32"
proof -
  assume v: "2 ^ 31 \<le> v" "v \<le> 2 ^ 32 - 1"
  have "sint (word_of_int v :: 32 word) = signed_take_bit 31 v"
    by (simp add: sint_uint signed_take_bit_take_bit unsigned_of_int)
  also have "\<dots> = (v + 2 ^ 31) mod 2 ^ 32 - 2 ^ 31"
    by (simp add: signed_take_bit_eq_take_bit_shift take_bit_eq_mod)
  also have "(v + 2 ^ 31) mod 2 ^ 32 = (v + 2 ^ 31 - 2 ^ 32) mod 2 ^ 32"
    by (rule minus_mod_self2 [symmetric])
  also have "\<dots> = v + 2 ^ 31 - 2 ^ 32"
    by (rule mod_pos_pos_trivial) (use v in simp_all)
  finally show ?thesis by simp
qed

lemma CanonicalExitCode_spec:
  "CanonicalExitCode v =
     (if v < - (2 ^ 31) \<or> 2 ^ 32 - 1 < v then None
      else if v < 2 ^ 31 then Some v else Some (v - 2 ^ 32))"
  by (auto simp: CanonicalExitCode_def sint_wrap)

lemma CanonicalExitCode_fixed:
  "CanonicalExitCode v = Some c \<Longrightarrow> CanonicalExitCode c = Some c"
  by (auto simp: CanonicalExitCode_spec split: if_splits)

section \<open>Properties\<close>

text \<open>The canonical exit status.  Exactly the values of a signed or an unsigned 32-bit status
  are accepted; the result is the signed 32-bit number congruent to the input modulo \<open>2^32\<close>, and
  canonical values stay as they are.\<close>

theorem canonical_exit_code:
  "CanonicalExitCode v = Some c \<longleftrightarrow>
     - (2 ^ 31) \<le> v \<and> v < 2 ^ 32 \<and> - (2 ^ 31) \<le> c \<and> c < 2 ^ 31 \<and> (c - v) mod 2 ^ 32 = 0"
proof
  assume "CanonicalExitCode v = Some c"
  then show "- (2 ^ 31) \<le> v \<and> v < 2 ^ 32 \<and> - (2 ^ 31) \<le> c \<and> c < 2 ^ 31 \<and> (c - v) mod 2 ^ 32 = 0"
    by (auto simp: CanonicalExitCode_spec split: if_splits)
next
  assume c: "- (2 ^ 31) \<le> v \<and> v < 2 ^ 32 \<and> - (2 ^ 31) \<le> c \<and> c < 2 ^ 31 \<and> (c - v) mod 2 ^ 32 = 0"
  then obtain k where k: "c - v = 2 ^ 32 * k" by (metis mod_0_imp_dvd dvdE)
  with c have "k = 0 \<or> k = -1" by simp linarith
  with k have "c = v \<or> c = v - 2 ^ 32" by auto
  with c show "CanonicalExitCode v = Some c" by (auto simp: CanonicalExitCode_spec)
qed

text \<open>The repair of an observation is idempotent, touches nothing but the exit code and its
  derived fingerprint, and never turns a forged fingerprint into a valid one: a complete or partial
  failure whose digest is not the one of its own unsigned spelling comes back unchanged, and one
  whose digest was right is right afterwards.\<close>

theorem canonicalize_observation:
  fixes sha :: "string \<Rightarrow> string"
  assumes "b' = CanonicalizeObservationFailure sha b"
  shows "b'\<lparr>obExitCode := obExitCode b, obErrorFingerprint := obErrorFingerprint b\<rparr> = b \<and>
         (digested b \<and> obErrorFingerprint b \<noteq> obDigest sha b \<longrightarrow> b' = b) \<and>
         (digested b \<and> obErrorFingerprint b = obDigest sha b \<longrightarrow> obErrorFingerprint b' = obDigest sha b') \<and>
         CanonicalizeObservationFailure sha b' = b'"
proof (cases "obExitCode b")
  case None
  with assms show ?thesis by (simp add: CanonicalizeObservationFailure_def)
next
  case (Some code0)
  show ?thesis
  proof (cases "CanonicalExitCode code0")
    case None
    with Some assms show ?thesis by (simp add: CanonicalizeObservationFailure_def)
  next
    case (Some code)
    note fixed = CanonicalExitCode_fixed [OF Some]
    have digested: "digested (b\<lparr>obExitCode := c\<rparr>) = digested b" for c by (simp add: digested_def)
    show ?thesis
    proof (cases "code = code0 \<or> digested b \<and> obErrorFingerprint b \<noteq> obDigest sha b")
      case True
      then have "b' = b" using \<open>obExitCode b = Some code0\<close> Some assms
        by (auto simp: CanonicalizeObservationFailure_def)
      then show ?thesis using assms by auto
    next
      case False
      then have b': "b' = (let b1 = b\<lparr>obExitCode := Some code\<rparr> in
          if digested b then b1\<lparr>obErrorFingerprint := obDigest sha b1\<rparr> else b1)"
        using \<open>obExitCode b = Some code0\<close> Some assms digested
        by (auto simp: CanonicalizeObservationFailure_def Let_def)
      then have "obExitCode b' = Some code" by (simp add: Let_def)
      then have idem: "CanonicalizeObservationFailure sha b' = b'"
        using fixed by (simp add: CanonicalizeObservationFailure_def)
      have "obDigest sha (b1\<lparr>obErrorFingerprint := f\<rparr>) = obDigest sha b1" for b1 f
        by (simp add: obDigest_def obTermination_def)
      with b' False idem show ?thesis by (auto simp: Let_def)
    qed
  qed
qed

definition example_batch :: ObservationBatch where
  "example_batch = \<lparr>obSchemaVersion = 2, obEpoch = ''2026-08-13'', obAnonID = [], obProjectBucket = [],
     obPackage = ''pkg:npm/a@1.0.0'', obSymbol = [], obSymbolConfidence = [], obEnvironment = zero_env,
     obStage = ''PROJECT_TEST'', obResult = ''FAIL'', obObservationCount = 1,
     obErrorFingerprint = ''v2|PROJECT_TEST|exit:4294967295||'', obErrorCode = [],
     obTerminationKind = ''exit'', obExitCode = Some 4294967295, obSignal = [], obTimeoutMillis = 0,
     obErrorSummary = [], obEvidenceQuality = ''complete'', obOuterCommand = [], obOuterStage = [],
     obActualToolchain = [], obStageEvidence = [], obFailureEvidenceGap = [], obDirect = False,
     obCoresident = [], obDependsOn = [], obDependsOnNone = False\<rparr>"

theorem canonicalize_observation_witness:
  "obErrorFingerprint (CanonicalizeObservationFailure (\<lambda>s. s) example_batch) =
     obDigest (\<lambda>s. s) (CanonicalizeObservationFailure (\<lambda>s. s) example_batch) \<and>
   obExitCode (CanonicalizeObservationFailure (\<lambda>s. s) example_batch) = Some (- 1)"
proof -
  have digits: "dec_digits 4294967295 = ''4294967295''"
    by (simp add: dec_digits.simps) code_simp
  have ex: "digested example_batch" "obErrorFingerprint example_batch = obDigest (\<lambda>s. s) example_batch"
    "obExitCode example_batch = Some 4294967295"
    by (simp_all add: example_batch_def digested_def obDigest_def obTermination_def
        FailureFingerprint_def FingerprintCoordinate_def itoa_def digits)
  have "CanonicalExitCode 4294967295 = Some (- 1)" by (simp add: CanonicalExitCode_spec)
  then have "obExitCode (CanonicalizeObservationFailure (\<lambda>s. s) example_batch) = Some (- 1)"
    using ex(2,3) by (simp add: CanonicalizeObservationFailure_def Let_def)
  with ex show ?thesis
    using canonicalize_observation [of _ "\<lambda>s. s" example_batch] by blast
qed

end
