(* ===== verification/Confidence.thy ===== *)
theory Confidence
  imports Domain
begin

text \<open>
  \<open>src/internal/compatibility/confidence.go\<close> and the version order of \<open>aggregate.go\<close>: the confidence
  of a cell computed from weighted evidence in floating point, and the order in which the regression
  rule looks for the version before the current one.
\<close>

section \<open>Confidence (confidence.go)\<close>

text \<open>\<open>OtherClass\<close> is any string that is none of the five constants.\<close>

datatype EvidenceClass = ClassUsageObservation | ClassAdoptionEvidence | ClassSampleVerification
  | ClassRuntimeInstrumentation | ClassExecutionFootprint | OtherClass string

fun ClassWeight :: "EvidenceClass \<Rightarrow> rat" where
  "ClassWeight ClassUsageObservation = 1"
| "ClassWeight ClassAdoptionEvidence = 3"
| "ClassWeight ClassSampleVerification = 10"
| "ClassWeight ClassRuntimeInstrumentation = 10"
| "ClassWeight ClassExecutionFootprint = 0"
| "ClassWeight (OtherClass _) = 1"

record Sample =
  sClass :: EvidenceClass
  sResult :: Result
  sCount :: int

record Verdict =
  vConfidence :: string
  vPassRate :: rat
  vWeightedTotal :: rat
  vElevatedFailure :: bool

fun Compute_step :: "Sample \<Rightarrow> rat \<times> rat \<Rightarrow> rat \<times> rat" where
  "Compute_step s (wPass, wFail) =
     (let w = f_mul (ClassWeight (sClass s)) (f_of_int (sCount s)) in
      if sResult s = ResultPass then (f_add wPass w, wFail) else (wPass, f_add wFail w))"

definition Compute :: "Sample list \<Rightarrow> int \<Rightarrow> Verdict" where
  "Compute samples independence =
     (let (wPass, wFail) = fold Compute_step samples (0, 0);
          total = f_add wPass wFail;
          passRate = (if 0 < total then f_div wPass total else 0);
          failRate = f_sub 1 passRate
      in \<lparr>vConfidence =
            (if fl (9 / 10) \<le> passRate \<and> 3 \<le> independence \<and> 10 \<le> total then ''HIGH''
             else if fl (75 / 100) \<le> passRate \<and> 2 \<le> independence \<and> 0 < total then ''MEDIUM''
             else ''LOW''),
          vPassRate = passRate, vWeightedTotal = total,
          vElevatedFailure = (5 \<le> total \<and> fl (25 / 100) \<le> failRate)\<rparr>)"

section \<open>The version order of the regression rule (aggregate.go)\<close>

definition drop_v :: "string \<Rightarrow> string" where
  "drop_v v = (if v \<noteq> [] \<and> (hd v = CHR ''v'' \<or> hd v = CHR ''V'') then tl v else v)"

text \<open>
  The loop over the bytes carries \<open>segs, cur, has\<close>; bytes other than digits and dots are skipped,
  and the accumulated value wraps like a 64-bit integer.
\<close>

fun versionSegs_loop :: "int list \<Rightarrow> int \<Rightarrow> bool \<Rightarrow> string \<Rightarrow> int list" where
  "versionSegs_loop segs cur has [] = (if has then segs @ [cur] else segs)"
| "versionSegs_loop segs cur has (c # cs) =
     (if c = CHR ''.'' then versionSegs_loop (if has then segs @ [cur] else segs) 0 False cs
      else if is_digit c then versionSegs_loop segs (wrap64 (cur * 10 + digit_val c)) True cs
      else versionSegs_loop segs cur has cs)"

definition versionSegs :: "string \<Rightarrow> int list" where
  "versionSegs v = versionSegs_loop [] 0 False (before_any (drop_v v) ''-+'')"

definition versionLess :: "string \<Rightarrow> string \<Rightarrow> bool" where
  "versionLess a b =
     (let c = padlex cmp3 0 (versionSegs a) (versionSegs b) in
      if c \<noteq> 0 then c < 0 else a < b)"

definition sortedVersions :: "string list \<Rightarrow> string list" where
  "sortedVersions versions = sort_by versionLess versions"

fun PreviousVersion_step :: "string \<Rightarrow> string \<Rightarrow> string \<times> bool \<Rightarrow> string \<times> bool" where
  "PreviousVersion_step current v (best, found) =
     (if v = current \<or> \<not> versionLess v current then (best, found)
      else if \<not> found \<or> versionLess best v then (v, True)
      else (best, found))"

definition PreviousVersion :: "string list \<Rightarrow> string \<Rightarrow> string option" where
  "PreviousVersion versions current =
     (case fold (PreviousVersion_step current) versions ([], False) of
        (best, found) \<Rightarrow> if found then Some best else None)"

section \<open>What a receipt establishes (aggregate.go)\<close>

fun resolved_loop :: "string option \<Rightarrow> string list \<Rightarrow> PURL list option" where
  "resolved_loop prev [] = Some []"
| "resolved_loop prev (raw # raws) = (case ParsePURL raw of
     Inl _ \<Rightarrow> None
   | Inr p \<Rightarrow>
       if PURL_String p \<noteq> raw \<or> \<not> ConcreteResolvedVersion (pVersion p) \<or>
          (case prev of None \<Rightarrow> False | Some q \<Rightarrow> raw \<le> q) then None
       else map_option (Cons p) (resolved_loop (Some raw) raws))"

definition resolvedPURLsFromReceipt :: "VerificationReceipt \<Rightarrow> PURL list" where
  "resolvedPURLsFromReceipt r =
     (if vrSchemaVersion r \<noteq> 2 \<or> get [] (vrStages r) ''resolve'' \<noteq> ''PASS'' \<or> vrResolvedPackages r = []
      then []
      else case resolved_loop None (vrResolvedPackages r) of None \<Rightarrow> [] | Some ps \<Rightarrow> ps)"

definition isObservationStage :: "string \<Rightarrow> bool" where
  "isObservationStage stage \<longleftrightarrow> stage \<in> {''USED'', ''PROJECT_TYPECHECK'', ''PROJECT_COMPILE'',
     ''PROJECT_RESOLVE'', ''PROJECT_TEST'', ''PROJECT_LOAD'', ''PROJECT_PROCESS'', ''PROCESS_START'',
     ''UNKNOWN''}"

definition env_dims :: "EnvironmentFingerprint \<Rightarrow> (string, string) gomap" where
  "env_dims e0 =
     (let e = Bucketed e0 in
      (if eOS e \<noteq> [] then [(''os'', eOS e)] else []) @
      (if eRuntime e \<noteq> [] then
         [(''runtime'', if eRuntimeVersion e \<noteq> [] then eRuntime e @ ''@'' @ eRuntimeVersion e
                        else eRuntime e)] else []) @
      (if eModuleSystem e \<noteq> [] then [(''moduleSystem'', eModuleSystem e)] else []) @
      (if eExecutionContext e \<noteq> [] then [(''executionContext'', eExecutionContext e)] else []) @
      (if eBrowserFamily e \<noteq> [] then [(''browserFamily'', eBrowserFamily e)] else []) @
      (if eEngine e \<noteq> [] then [(''engine'', eEngine e)] else []))"

text \<open>Deleting from a map while ranging over it keeps exactly the entries that pass the test.\<close>

definition envSummary :: "EnvironmentFingerprint list \<Rightarrow> (string, string) gomap option" where
  "envSummary envs = (case envs of
     [] \<Rightarrow> None
   | e # es \<Rightarrow>
       let common = fold (\<lambda>e' common. filter (\<lambda>(k, v). get [] (env_dims e') k = v) common) es
                      (env_dims e)
       in if common = [] then None else Some common)"

section \<open>Lemmas on the version order\<close>

interpretation seg_int: comparator "cmp3 :: int \<Rightarrow> int \<Rightarrow> int"
  using comparator_cmp3 [of "\<lambda>x :: int. x"] by simp

interpretation seg_list: comparator "padlex (cmp3 :: int \<Rightarrow> int \<Rightarrow> int) 0"
  by (rule seg_int.comparator_padlex)

definition version_cmp :: "string \<Rightarrow> string \<Rightarrow> int" where
  "version_cmp = lex2 (\<lambda>a b. padlex cmp3 0 (versionSegs a) (versionSegs b)) cmp3"

lemma versionLess_cmp: "versionLess a b \<longleftrightarrow> version_cmp a b < 0"
  by (auto simp: versionLess_def version_cmp_def lex2_def Let_def cmp3_def)

interpretation version_cmp: comparator version_cmp
  unfolding version_cmp_def
  by (rule comparator_lex2 [OF comparator_comp [OF seg_list.comparator_axioms, of versionSegs]
        comparator_cmp3 [of "\<lambda>x. x"]])

interpretation version_less: strict_total versionLess
proof unfold_locales
  fix x y z
  show "versionLess x y \<Longrightarrow> \<not> versionLess y x"
    by (simp only: versionLess_cmp version_cmp.asym not_False_eq_True)
  show "versionLess x z \<Longrightarrow> versionLess x y \<or> versionLess y z"
    by (simp only: versionLess_cmp version_cmp.neg_trans)
next
  fix x y :: string
  assume "x \<noteq> y"
  then show "versionLess x y \<or> versionLess y x"
    using seg_list.swap [of "versionSegs x" "versionSegs y"]
    by (auto simp: versionLess_def Let_def)
qed

lemma PreviousVersion_fold:
  "fold (PreviousVersion_step cur) vs (b, True) = (best, found) \<Longrightarrow>
   versionLess b cur \<Longrightarrow>
   found \<and> versionLess best cur \<and> (best = b \<or> best \<in> set vs) \<and> \<not> versionLess best b \<and>
   (\<forall>v\<in>set vs. versionLess v cur \<longrightarrow> \<not> versionLess best v)"
proof (induction vs arbitrary: b)
  case Nil
  then show ?case by (auto simp: version_less.irrefl)
next
  case (Cons v vs)
  show ?case
  proof (cases "versionLess v cur \<and> versionLess b v")
    case True
    then have "v \<noteq> cur" using version_less.irrefl by auto
    with True Cons.prems have "fold (PreviousVersion_step cur) vs (v, True) = (best, found)" by simp
    from Cons.IH [OF this] True show ?thesis
      using version_less.trans version_less.neg_trans by auto
  next
    case False
    with Cons.prems have "fold (PreviousVersion_step cur) vs (b, True) = (best, found)"
      by (auto split: if_splits)
    from Cons.IH [OF this Cons.prems(2)] False show ?thesis
      using version_less.neg_trans by auto
  qed
qed

lemma PreviousVersion_search:
  "fold (PreviousVersion_step cur) vs ([], False) = (best, found) \<Longrightarrow>
   if \<exists>v\<in>set vs. versionLess v cur
   then found \<and> best \<in> set vs \<and> versionLess best cur \<and>
     (\<forall>v\<in>set vs. versionLess v cur \<longrightarrow> \<not> versionLess best v)
   else \<not> found"
proof (induction vs)
  case Nil
  then show ?case by simp
next
  case (Cons v vs)
  show ?case
  proof (cases "versionLess v cur")
    case True
    then have "v \<noteq> cur" using version_less.irrefl by auto
    with True Cons.prems have "fold (PreviousVersion_step cur) vs (v, True) = (best, found)" by simp
    from PreviousVersion_fold [OF this True] True show ?thesis
      using version_less.irrefl by auto
  next
    case False
    with Cons.prems have "fold (PreviousVersion_step cur) vs ([], False) = (best, found)" by simp
    from Cons.IH [OF this] False show ?thesis by (auto split: if_splits)
  qed
qed

section \<open>Exactness of the weighted sums\<close>

fun weight :: "EvidenceClass \<Rightarrow> int" where
  "weight ClassUsageObservation = 1"
| "weight ClassAdoptionEvidence = 3"
| "weight ClassSampleVerification = 10"
| "weight ClassRuntimeInstrumentation = 10"
| "weight ClassExecutionFootprint = 0"
| "weight (OtherClass _) = 1"

lemma ClassWeight_weight: "ClassWeight c = of_int (weight c)"
  by (cases c) simp_all

lemma weight_nonneg: "0 \<le> weight c"
  by (cases c) simp_all

text \<open>The weighted tallies as integers.\<close>

definition tally :: "Result \<Rightarrow> Sample list \<Rightarrow> int" where
  "tally res ss = sum_list (map (\<lambda>s. weight (sClass s) * sCount s) (filter (\<lambda>s. sResult s = res) ss))"

lemma tally_Cons:
  "tally res (s # ss) = (if sResult s = res then weight (sClass s) * sCount s else 0) + tally res ss"
  by (simp add: tally_def)

lemma tally_nonneg: "list_all (\<lambda>s. 0 \<le> sCount s) ss \<Longrightarrow> 0 \<le> tally res ss"
  by (induction ss) (simp_all add: tally_Cons weight_nonneg, simp add: tally_def)

lemma weighted_exact:
  assumes "0 \<le> n" and "weight c * n \<le> 2 ^ 48"
  shows "f_mul (ClassWeight c) (f_of_int n) = of_int (weight c * n)"
proof (cases "weight c = 0")
  case True
  then show ?thesis by (simp add: ClassWeight_weight f_mul_def)
next
  case False
  then have "1 * n \<le> weight c * n"
    using assms(1) weight_nonneg [of c] by (intro mult_right_mono) simp_all
  with assms have "\<bar>n\<bar> < 2 ^ 53" "\<bar>weight c * n\<bar> < 2 ^ 53"
    using weight_nonneg [of c] by simp_all
  then have "f_of_int n = of_int n" "fl (of_int (weight c * n)) = of_int (weight c * n)"
    by (simp_all only: f_of_int_exact fl_of_int)
  then show ?thesis by (simp add: ClassWeight_weight f_mul_def)
qed

lemma f_add_exact: "\<bar>a + b\<bar> < 2 ^ 53 \<Longrightarrow> f_add (of_int a) (of_int b) = of_int (a + b)"
  using fl_of_int [of "a + b"] by (simp add: f_add_def)

lemma Compute_fold:
  assumes "list_all (\<lambda>s. 0 \<le> sCount s) ss" and "0 \<le> p" and "0 \<le> f"
    and "p + f + tally ResultPass ss + tally ResultFail ss \<le> 2 ^ 48"
  shows "fold Compute_step ss (of_int p, of_int f) =
     (of_int (p + tally ResultPass ss), of_int (f + tally ResultFail ss))"
  using assms
proof (induction ss arbitrary: p f)
  case Nil
  then show ?case by (simp add: tally_def)
next
  case (Cons s ss)
  define w where "w = weight (sClass s) * sCount s"
  have nn: "0 \<le> w" "0 \<le> tally ResultPass ss" "0 \<le> tally ResultFail ss"
    using Cons.prems(1) tally_nonneg [of ss] by (simp_all add: w_def weight_nonneg)
  have res: "sResult s = ResultPass \<or> sResult s = ResultFail" by (cases "sResult s") auto
  have sum: "p + f + w + tally ResultPass ss + tally ResultFail ss \<le> 2 ^ 48"
    using Cons.prems(4) res by (auto simp: tally_Cons w_def)
  with nn Cons.prems have "w \<le> 2 ^ 48" by simp
  then have m: "f_mul (ClassWeight (sClass s)) (f_of_int (sCount s)) = of_int w"
    using Cons.prems(1) unfolding w_def by (intro weighted_exact) simp_all
  from sum nn Cons.prems have "\<bar>p + w\<bar> < 2 ^ 53" "\<bar>f + w\<bar> < 2 ^ 53" by simp_all
  note add = f_add_exact [OF this(1)] f_add_exact [OF this(2)]
  from res show ?case
  proof
    assume r: "sResult s = ResultPass"
    have "fold Compute_step ss (of_int (p + w), of_int f) =
        (of_int (p + w + tally ResultPass ss), of_int (f + tally ResultFail ss))"
      using Cons.prems nn sum by (intro Cons.IH) simp_all
    with r m add show ?thesis by (simp add: tally_Cons Let_def w_def)
  next
    assume r: "sResult s = ResultFail"
    have "fold Compute_step ss (of_int p, of_int (f + w)) =
        (of_int (p + tally ResultPass ss), of_int (f + w + tally ResultFail ss))"
      using Cons.prems nn sum by (intro Cons.IH) simp_all
    with r m add show ?thesis by (simp add: tally_Cons Let_def w_def)
  qed
qed

text \<open>The elevated-failure test on the rounded failure rate is a test on the tallies.\<close>

lemma fail_rate_iff:
  assumes "0 \<le> p" and "p \<le> t" and "0 < t" and "t \<le> 2 ^ 48"
  shows "fl (25 / 100) \<le> f_sub 1 (fl (of_int p / of_int t)) \<longleftrightarrow> t \<le> 4 * (t - p)"
proof
  let ?q = "of_int p / of_int t :: rat" and ?r = "fl (of_int p / of_int t)"
  have t: "0 < (of_int t :: rat)" using assms by simp
  {
    assume "t \<le> 4 * (t - p)"
    then have "4 * p \<le> 3 * t" by simp
    then have "of_int (4 * p) \<le> (of_int (3 * t) :: rat)" by (simp only: of_int_le_iff)
    then have "?q \<le> 3 / 4" using t by (simp add: divide_le_eq)
    then have "?r \<le> fl (3 / 4)" by (rule fl_mono)
    also have "fl (3 / 4) = 3 / 4" by code_simp
    finally show "fl (25 / 100) \<le> f_sub 1 ?r" unfolding f_sub_def by (intro fl_mono) simp
  }
  assume le: "fl (25 / 100) \<le> f_sub 1 ?r"
  show "t \<le> 4 * (t - p)"
  proof (rule ccontr)
    assume "\<not> t \<le> 4 * (t - p)"
    then have "3 * t + 1 \<le> 4 * p" by simp
    then have "of_int (3 * t + 1) \<le> (of_int (4 * p) :: rat)" by (simp only: of_int_le_iff)
    then have "of_int (3 * t + 1) / (4 * of_int t) \<le> (of_int (4 * p) / (4 * of_int t) :: rat)"
      using t by (intro divide_right_mono) simp_all
    moreover have "of_int (3 * t + 1) / (4 * of_int t) = (3 / 4 + 1 / (4 * of_int t) :: rat)"
      using t by (simp add: add_divide_distrib)
    moreover have "of_int (4 * p) / (4 * of_int t) = ?q" by simp
    ultimately have "3 / 4 + 1 / (4 * of_int t) \<le> ?q" by (simp only:)
    moreover have "of_int t \<le> (of_int (2 ^ 48) :: rat)" using assms(4) by (simp only: of_int_le_iff)
    then have "1 / 2 ^ 50 \<le> (1 / (4 * of_int t) :: rat)" using t by (simp add: field_simps)
    moreover have q: "0 \<le> ?q" "?q \<le> 1" using assms by (simp_all add: divide_le_eq)
    have "\<bar>?r - ?q\<bar> \<le> 1 / 2 ^ 54" by (rule fl_unit_error [OF q])
    moreover have "(1 / 2 ^ 54 + 1 / 2 ^ 53 :: rat) < 1 / 2 ^ 50" by simp
    ultimately have lt: "1 - ?r + 1 / 2 ^ 53 < 25 / 100" by linarith
    have "?r \<le> 1" using q by (intro fl_le_1)
    then have "fl (1 - ?r) < fl (25 / 100)" using lt by (intro fl_strict) simp_all
    with le show False by (simp add: f_sub_def)
  qed
qed

section \<open>Properties\<close>

text \<open>C28: the confidence formula is a rule about counts.  For non-negative counts whose weighted
  total is at most \<open>2^48\<close>, the floating-point computation is exact where it matters: HIGH, MEDIUM and
  the elevated-failure mark are decided by integer comparisons of the weighted tallies, the pass
  rate lies between 0 and 1, and a cell is never both HIGH and elevated.\<close>

theorem compute_is_a_rule_on_counts:
  assumes "list_all (\<lambda>s. 0 \<le> sCount s) samples"
    and "p = tally ResultPass samples" and "t = p + tally ResultFail samples"
    and "t \<le> 2 ^ 48" and "v = Compute samples independence"
  shows "vWeightedTotal v = of_int t \<and> 0 \<le> vPassRate v \<and> vPassRate v \<le> 1 \<and>
     vConfidence v = (if 9 * t \<le> 10 * p \<and> 3 \<le> independence \<and> 10 \<le> t then ''HIGH''
        else if 3 * t \<le> 4 * p \<and> 2 \<le> independence \<and> 0 < t then ''MEDIUM'' else ''LOW'') \<and>
     (vElevatedFailure v \<longleftrightarrow> 5 \<le> t \<and> t \<le> 4 * (t - p)) \<and>
     \<not> (vConfidence v = ''HIGH'' \<and> vElevatedFailure v)"
proof -
  have nn: "0 \<le> p" "p \<le> t" using assms(1-3) tally_nonneg by simp_all
  have f: "fold Compute_step samples (0, 0) = (of_int p, of_int (t - p))"
    using Compute_fold [OF assms(1), of 0 0] assms(2-4) by simp
  have tot: "f_add (of_int p) (of_int (t - p)) = of_int t"
    using f_add_exact [of p "t - p"] nn assms(4) by simp
  define r where "r = (if 0 < t then f_div (of_int p) (of_int t) else 0)"
  have v: "v = \<lparr>vConfidence =
            (if fl (9 / 10) \<le> r \<and> 3 \<le> independence \<and> 10 \<le> t then ''HIGH''
             else if fl (75 / 100) \<le> r \<and> 2 \<le> independence \<and> 0 < t then ''MEDIUM''
             else ''LOW''),
          vPassRate = r, vWeightedTotal = of_int t,
          vElevatedFailure = (5 \<le> t \<and> fl (25 / 100) \<le> f_sub 1 r)\<rparr>"
    unfolding assms(5) Compute_def f Let_def prod.case tot r_def by simp
  have r01: "0 \<le> r \<and> r \<le> 1"
    using nn by (auto simp: r_def f_div_def fl_nonneg fl_le_1 divide_le_eq)
  have high: "0 < t \<Longrightarrow> fl (9 / 10) \<le> r \<longleftrightarrow> 9 * t \<le> 10 * p"
    and med: "0 < t \<Longrightarrow> fl (75 / 100) \<le> r \<longleftrightarrow> 3 * t \<le> 4 * p"
    using fl_ratio_ge_iff [of p t 9 10] fl_ratio_ge_iff [of p t 3 4] nn assms(4)
    by (simp_all add: r_def f_div_def mult.commute)
  have elev: "0 < t \<Longrightarrow> fl (25 / 100) \<le> f_sub 1 r \<longleftrightarrow> t \<le> 4 * (t - p)"
    using fail_rate_iff [OF nn _ assms(4)] by (simp add: r_def f_div_def)
  have c: "vConfidence v = (if 9 * t \<le> 10 * p \<and> 3 \<le> independence \<and> 10 \<le> t then ''HIGH''
        else if 3 * t \<le> 4 * p \<and> 2 \<le> independence \<and> 0 < t then ''MEDIUM'' else ''LOW'')"
    using high med by (cases "0 < t") (simp_all add: v)
  have e: "vElevatedFailure v \<longleftrightarrow> 5 \<le> t \<and> t \<le> 4 * (t - p)"
    using elev by (cases "0 < t") (simp_all add: v)
  from c e have "\<not> (vConfidence v = ''HIGH'' \<and> vElevatedFailure v)" by (auto split: if_splits)
  with c e r01 v show ?thesis by simp
qed

theorem compute_is_a_rule_on_counts_witness:
  "vConfidence (Compute [\<lparr>sClass = ClassSampleVerification, sResult = ResultPass, sCount = 9\<rparr>,
      \<lparr>sClass = ClassUsageObservation, sResult = ResultFail, sCount = 10\<rparr>] 3) = ''HIGH''"
  using compute_is_a_rule_on_counts [of "[\<lparr>sClass = ClassSampleVerification, sResult = ResultPass, sCount = 9\<rparr>,
      \<lparr>sClass = ClassUsageObservation, sResult = ResultFail, sCount = 10\<rparr>]" 90 100 _ 3, OF _ _ _ _ refl]
  by (simp add: tally_def)

text \<open>The version before the current one.  \<open>PreviousVersion\<close> finds a version exactly when one
  below the current exists, and then answers the greatest of them; the answer does not depend on
  the order in which the versions are listed.\<close>

theorem previous_version_is_the_greatest_below:
  "(PreviousVersion vs cur = None \<longleftrightarrow> filter (\<lambda>v. versionLess v cur) vs = []) \<and>
   (PreviousVersion vs cur = Some w \<longleftrightarrow>
      filter (\<lambda>v. versionLess v cur) vs \<noteq> [] \<and>
      w = last (sortedVersions (filter (\<lambda>v. versionLess v cur) vs)))"
proof -
  obtain best found where f: "fold (PreviousVersion_step cur) vs ([], False) = (best, found)" by fastforce
  let ?below = "filter (\<lambda>v. versionLess v cur) vs"
  have pv: "PreviousVersion vs cur = (if found then Some best else None)"
    by (simp add: PreviousVersion_def f)
  show ?thesis
  proof (cases "?below = []")
    case True
    then have "\<not> (\<exists>v\<in>set vs. versionLess v cur)" by (simp add: filter_empty_conv)
    with PreviousVersion_search [OF f] have "\<not> found" by simp
    with True pv show ?thesis by simp
  next
    case False
    then have "\<exists>v\<in>set vs. versionLess v cur" by (simp add: filter_empty_conv)
    with PreviousVersion_search [OF f] have b: "found" "best \<in> set ?below"
      "\<forall>v\<in>set ?below. \<not> versionLess best v" by auto
    define s where "s = sortedVersions ?below"
    have s: "set s = set ?below" "s \<noteq> []" "sorted_wrt (\<lambda>a b. \<not> versionLess b a) s"
      using False version_less.sorted_sort_by [of ?below]
      by (auto simp: s_def sortedVersions_def simp flip: set_empty)
    obtain i where i: "i < length s" "best = s ! i" using b(2) s(1) by (metis in_set_conv_nth)
    have "\<not> versionLess best (last s)" using b(3) s(1,2) last_in_set by blast
    moreover have "\<not> versionLess (last s) best"
    proof (cases "i = length s - 1")
      case True
      with i s(2) show ?thesis by (simp add: last_conv_nth version_less.irrefl)
    next
      case False
      with i have "i < length s - 1" by simp
      with s(2,3) i show ?thesis by (auto simp: sorted_wrt_iff_nth_less last_conv_nth)
    qed
    ultimately have "best = last s" using version_less.total by blast
    with b(1) False pv show ?thesis by (auto simp: s_def)
  qed
qed

text \<open>The two version orders of the program disagree on pre-releases.  The order of the
  regression rule puts every pre-release above its release, the order of \<open>CompareVersions\<close> below it;
  so the version "before" a release candidate is the release it precedes.\<close>

theorem regression_order_puts_prereleases_above:
  assumes "set ''-+'' \<inter> set v = {}" and "v \<noteq> []"
  shows "versionLess v (v @ ''-'' @ pre) \<and> PreviousVersion [v] (v @ ''-'' @ pre) = Some v"
proof -
  have "set ''-+'' \<inter> set (drop_v v) = {}"
    using assms(1) by (auto simp: drop_v_def dest: list.set_sel(2) [rotated])
  moreover have "drop_v (v @ ''-'' @ pre) = drop_v v @ ''-'' @ pre"
    using assms(2) by (simp add: drop_v_def)
  ultimately have "before_any (drop_v (v @ ''-'' @ pre)) ''-+'' = before_any (drop_v v) ''-+''"
    by (simp add: before_any_free before_any_stop)
  then have "versionSegs (v @ ''-'' @ pre) = versionSegs v" by (simp add: versionSegs_def)
  moreover have "v < v @ ''-'' @ pre" by (induction v) simp_all
  ultimately have "versionLess v (v @ ''-'' @ pre)" by (simp add: versionLess_def)
  then show ?thesis by (simp add: PreviousVersion_def)
qed

theorem regression_order_puts_prereleases_above_witness:
  "versionLess ''1.2.0'' ''1.2.0-rc1'' \<and> CompareVersions ''1.2.0-rc1'' ''1.2.0'' = -1"
proof
  show "versionLess ''1.2.0'' ''1.2.0-rc1''"
    using regression_order_puts_prereleases_above [of "''1.2.0''" "''rc1''"] by simp
  show "CompareVersions ''1.2.0-rc1'' ''1.2.0'' = -1" by code_simp
qed

end
