(* ===== verification/Receipts.thy ===== *)
theory Receipts
  imports Confidence
begin

text \<open>
  The receipt products of \<open>src/internal/compatibility\<close>: \<open>receipt_regression.go\<close> (measurements grouped
  by the conditions that make them comparable, and PASS to FAIL boundaries between adjacent measured
  releases), \<open>safe_upgrade.go\<close> (unbroken runs of measured passes) and \<open>regression_watch.go\<close> (verdicts
  that changed over time).  An instant is a natural number, the zero \<open>time.Time\<close> being 0.  The SHA-256
  content addresses of a case, a harness and an environment are the arguments \<open>caseHash\<close>,
  \<open>harnessHash\<close> and \<open>envHash\<close>; \<open>rfc3339\<close> renders an instant.
\<close>

section \<open>Data\<close>

type_synonym instant = nat

record SampleManifest =
  smSchemaVersion :: int
  smCase :: Case
  smPackages :: "string list"
  smSymbols :: "string list"
  smSubject :: string
  smEnvironment :: EnvironmentFingerprint
  smLicense :: string
  smBuildCommand :: "string list"
  smContractCommand :: "string list"
  smVerifierAdapter :: string

record ReceiptInfo =
  riPeerID :: string
  riCaseID :: string
  riEnv :: EnvironmentFingerprint
  riContractResult :: string
  riStages :: "(string, string) gomap"
  riStageFailures :: "(string, FailureEvidence) gomap"
  riResolvedPackages :: "PURL list"
  riVerifierAdapter :: string
  riSandboxCapability :: string
  riCreatedAt :: instant

text \<open>Of the stored sample row only the case id is read here.\<close>

record sampleData =
  sdRowCaseID :: string
  sdManifest :: SampleManifest
  sdPurls :: "PURL list"
  sdReceipts :: "ReceiptInfo list"

record receiptComparisonKey =
  rkEcosystem :: string
  rkName :: string
  rkCaseID :: string
  rkSymbol :: string
  rkContextLabel :: string
  rkEnvBucketHash :: string
  rkVerifierAdapter :: string
  rkSandboxCapability :: string
  rkCompanions :: string
  rkHarnessHash :: string

record receiptVersionVerdict =
  rvPurl :: string
  rvPass :: int
  rvFail :: int
  rvFirstPass :: instant
  rvLastPass :: instant
  rvFirstFail :: instant
  rvLastFail :: instant
  rvUndated :: bool

type_synonym byVersion = "(string, receiptVersionVerdict) gomap"
type_synonym receiptTarget = "string \<times> string"

definition new_verdict :: "string \<Rightarrow> receiptVersionVerdict" where
  "new_verdict purl = \<lparr>rvPurl = purl, rvPass = 0, rvFail = 0, rvFirstPass = 0, rvLastPass = 0,
     rvFirstFail = 0, rvLastFail = 0, rvUndated = False\<rparr>"

section \<open>Verdicts (receipt\_regression.go)\<close>

definition earliest :: "instant \<Rightarrow> instant \<Rightarrow> instant" where
  "earliest prior tm = (if prior = 0 \<or> tm < prior then tm else prior)"

definition latest :: "instant \<Rightarrow> instant \<Rightarrow> instant" where
  "latest prior tm = (if prior < tm then tm else prior)"

definition record_measurement ::
  "string \<Rightarrow> instant \<Rightarrow> receiptVersionVerdict \<Rightarrow> receiptVersionVerdict" where
  "record_measurement result tm v0 =
     (let v = (if tm = 0 then v0\<lparr>rvUndated := True\<rparr> else v0) in
      if result = ''PASS'' then
        v\<lparr>rvPass := rvPass v + 1, rvFirstPass := earliest (rvFirstPass v) tm,
          rvLastPass := latest (rvLastPass v) tm\<rparr>
      else
        v\<lparr>rvFail := rvFail v + 1, rvFirstFail := earliest (rvFirstFail v) tm,
          rvLastFail := latest (rvLastFail v) tm\<rparr>)"

definition unambiguous :: "receiptVersionVerdict \<Rightarrow> (string \<times> int) option" where
  "unambiguous v =
     (if 0 < rvPass v \<and> rvFail v = 0 then Some (''PASS'', rvPass v)
      else if 0 < rvFail v \<and> rvPass v = 0 then Some (''FAIL'', rvFail v)
      else None)"

definition sortedMeasuredVersions :: "byVersion \<Rightarrow> string list" where
  "sortedMeasuredVersions m = sort_by (\<lambda>a b. CompareVersions a b < 0) (map fst m)"

section \<open>Comparable measurements (receipt\_regression.go)\<close>

definition stableSampleCaseID :: "(Case \<Rightarrow> string) \<Rightarrow> sampleData \<Rightarrow> string" where
  "stableSampleCaseID caseHash sd =
     (if sdRowCaseID sd \<noteq> [] then sdRowCaseID sd
      else if caCaseID (smCase (sdManifest sd)) \<noteq> [] then caCaseID (smCase (sdManifest sd))
      else if caSchemaVersion (smCase (sdManifest sd)) \<noteq> 0 then caseHash (smCase (sdManifest sd))
      else [])"

definition receiptHarnessHash ::
  "(string list \<Rightarrow> string list \<Rightarrow> string \<Rightarrow> string) \<Rightarrow> sampleData \<Rightarrow> string" where
  "receiptHarnessHash harnessHash sd = harnessHash (smBuildCommand (sdManifest sd))
     (smContractCommand (sdManifest sd)) (smVerifierAdapter (sdManifest sd))"

definition regressionSymbols :: "sampleData \<Rightarrow> string list" where
  "regressionSymbols sd =
     (let out = rev (remdups (rev (filter (\<lambda>s. s \<noteq> []) (smSymbols (sdManifest sd))))) in
      if out = [] then [''''] else sort_by (<) out)"

definition receiptCompanions :: "PURL list \<Rightarrow> string \<times> string \<Rightarrow> string" where
  "receiptCompanions packages target =
     Join (sort_by (<) (map PURL_String
       (filter (\<lambda>p. \<not> (pEcosystem p = fst target \<and> pName p = snd target)) packages))) [CHR 0x00]"

definition companionPackages :: "string \<Rightarrow> string list" where
  "companionPackages key = (if key = [] then [] else Split key CHR 0x00)"

definition receipt_usable :: "string \<Rightarrow> ReceiptInfo \<Rightarrow> bool" where
  "receipt_usable caseID r \<longleftrightarrow>
     \<not> (riCaseID r = [] \<or> riCaseID r \<noteq> caseID \<or>
        get [] (riStages r) ''resolve'' \<noteq> ''PASS'' \<or>
        get [] (riStages r) ''compile'' \<noteq> ''PASS'' \<or>
        (get [] (riStages r) ''contract'' \<noteq> ''PASS'' \<and> get [] (riStages r) ''contract'' \<noteq> ''FAIL'') \<or>
        riResolvedPackages r = [] \<or> riVerifierAdapter r = [] \<or> riSandboxCapability r = [])"

definition bucket_usable :: "EnvironmentFingerprint \<Rightarrow> bool" where
  "bucket_usable b \<longleftrightarrow>
     \<not> (eSchemaVersion b = 0 \<or> eEcosystem b = [] \<or> eOS b = [] \<or> eArch b = [])"

definition identityCount :: "PURL list \<Rightarrow> PURL \<Rightarrow> nat" where
  "identityCount packages p =
     length (filter (\<lambda>q. pEcosystem q = pEcosystem p \<and> pName q = pName p) packages)"

type_synonym groups = "(receiptComparisonKey, byVersion) gomap"

text \<open>The innermost body: find or make the version's verdict in its group and record into it.\<close>

definition group_record ::
  "receiptComparisonKey \<Rightarrow> PURL \<Rightarrow> string \<Rightarrow> instant \<Rightarrow> groups \<Rightarrow> groups" where
  "group_record key p result tm g =
     (let versions = get [] g key;
          v = (case map_of versions (pVersion p) of
                 None \<Rightarrow> new_verdict (PURL_String p) | Some v \<Rightarrow> v)
      in AList.update key (AList.update (pVersion p) (record_measurement result tm v) versions) g)"

text \<open>The loop over one receipt's packages and the sample's symbols.\<close>

definition group_receipt ::
  "(EnvironmentFingerprint \<Rightarrow> string) \<Rightarrow> string \<Rightarrow> string \<Rightarrow> string list \<Rightarrow> ReceiptInfo \<Rightarrow> groups \<Rightarrow> groups" where
  "group_receipt envHash caseID harness symbols r g =
     (let bucket = Bucketed (Normalize (riEnv r)) in
      if \<not> receipt_usable caseID r \<or> \<not> bucket_usable bucket then g
      else fold (\<lambda>p g.
             if identityCount (riResolvedPackages r) p \<noteq> 1 then g
             else fold (\<lambda>symbol g.
               group_record \<lparr>rkEcosystem = pEcosystem p, rkName = pName p, rkCaseID = caseID,
                   rkSymbol = symbol, rkContextLabel = ContextLabel bucket,
                   rkEnvBucketHash = envHash bucket, rkVerifierAdapter = riVerifierAdapter r,
                   rkSandboxCapability = riSandboxCapability r,
                   rkCompanions = receiptCompanions (riResolvedPackages r) (pEcosystem p, pName p),
                   rkHarnessHash = harness\<rparr>
                 p (get [] (riStages r) ''contract'') (riCreatedAt r) g) symbols g)
             (riResolvedPackages r) g)"

definition receiptVersionGroups ::
  "(Case \<Rightarrow> string) \<Rightarrow> (string list \<Rightarrow> string list \<Rightarrow> string \<Rightarrow> string) \<Rightarrow>
   (EnvironmentFingerprint \<Rightarrow> string) \<Rightarrow> sampleData list \<Rightarrow> groups" where
  "receiptVersionGroups caseHash harnessHash envHash samples =
     fold (\<lambda>sd g.
       let caseID = stableSampleCaseID caseHash sd; harness = receiptHarnessHash harnessHash sd in
       if caseID = [] \<or> harness = [] then g
       else fold (group_receipt envHash caseID harness (regressionSymbols sd)) (sdReceipts sd) g)
     samples []"

section \<open>Boundaries (receipt\_regression.go)\<close>

record RegressionCandidate =
  rcPackage :: string
  rcPreviousPackage :: string
  rcCaseID :: string
  rcSymbol :: string
  rcVerifierAdapter :: string
  rcSandboxCapability :: string
  rcCompanionPackages :: "string list"
  rcHarnessHash :: string
  rcStage :: string
  rcContextLabel :: string
  rcEnvBucketHash :: string
  rcFailRate :: rat
  rcPreviousPassRate :: rat
  rcObservations :: int
  rcPreviousObservations :: int

definition verdict_at :: "byVersion \<Rightarrow> string \<Rightarrow> receiptVersionVerdict" where
  "verdict_at m version = get (new_verdict []) m version"

definition boundary_candidate ::
  "receiptComparisonKey \<Rightarrow> receiptVersionVerdict \<Rightarrow> receiptVersionVerdict \<Rightarrow>
   (receiptTarget \<times> RegressionCandidate) list" where
  "boundary_candidate key prev cur =
     (case (unambiguous prev, unambiguous cur) of
        (Some (prevResult, prevCount), Some (curResult, curCount)) \<Rightarrow>
          if prevResult \<noteq> ''PASS'' \<or> curResult \<noteq> ''FAIL'' then []
          else [((rvPurl cur, rkSymbol key),
            \<lparr>rcPackage = rvPurl cur, rcPreviousPackage = rvPurl prev, rcCaseID = rkCaseID key,
             rcSymbol = rkSymbol key, rcVerifierAdapter = rkVerifierAdapter key,
             rcSandboxCapability = rkSandboxCapability key,
             rcCompanionPackages = companionPackages (rkCompanions key),
             rcHarnessHash = rkHarnessHash key, rcStage = ''CONTRACT'',
             rcContextLabel = rkContextLabel key, rcEnvBucketHash = rkEnvBucketHash key,
             rcFailRate = 1, rcPreviousPassRate = 1, rcObservations = curCount,
             rcPreviousObservations = prevCount\<rparr>)]
      | _ \<Rightarrow> [])"

text \<open>The loop \<open>for i := 1; i < len(versions); i++\<close> over one group.\<close>

fun boundary_loop ::
  "receiptComparisonKey \<Rightarrow> byVersion \<Rightarrow> string list \<Rightarrow> (receiptTarget \<times> RegressionCandidate) list" where
  "boundary_loop key m (v # w # vs) =
     boundary_candidate key (verdict_at m v) (verdict_at m w) @ boundary_loop key m (w # vs)"
| "boundary_loop key m _ = []"

text \<open>\<open>out[target] = append(out[target], candidate)\<close>.\<close>

definition append_to :: "'k \<times> 'c \<Rightarrow> ('k, 'c list) gomap \<Rightarrow> ('k, 'c list) gomap" where
  "append_to tc out = AList.update (fst tc) (get [] out (fst tc) @ [snd tc]) out"

text \<open>
  The frame the three products share: each group's candidates are appended to the list of their
  target, then every list is sorted.
\<close>

definition collect ::
  "('c \<Rightarrow> 'c \<Rightarrow> bool) \<Rightarrow> (receiptComparisonKey \<Rightarrow> byVersion \<Rightarrow> ('k \<times> 'c) list) \<Rightarrow> groups \<Rightarrow>
   ('k, 'c list) gomap" where
  "collect lt emit groups =
     map (\<lambda>(target, cs). (target, sort_by lt cs))
       (fold (\<lambda>(key, m) out. fold append_to (emit key m) out) groups [])"

definition boundary_less :: "RegressionCandidate \<Rightarrow> RegressionCandidate \<Rightarrow> bool" where
  "boundary_less a b =
     (if rcPreviousPackage a \<noteq> rcPreviousPackage b then rcPreviousPackage a < rcPreviousPackage b
      else if rcCaseID a \<noteq> rcCaseID b then rcCaseID a < rcCaseID b
      else if rcEnvBucketHash a \<noteq> rcEnvBucketHash b then rcEnvBucketHash a < rcEnvBucketHash b
      else if rcVerifierAdapter a \<noteq> rcVerifierAdapter b then rcVerifierAdapter a < rcVerifierAdapter b
      else if rcSandboxCapability a \<noteq> rcSandboxCapability b
        then rcSandboxCapability a < rcSandboxCapability b
      else if rcHarnessHash a \<noteq> rcHarnessHash b then rcHarnessHash a < rcHarnessHash b
      else Join (rcCompanionPackages a) [CHR 0x00] < Join (rcCompanionPackages b) [CHR 0x00])"

definition regressionBoundaries :: "groups \<Rightarrow> (receiptTarget, RegressionCandidate list) gomap" where
  "regressionBoundaries groups =
     collect boundary_less (\<lambda>key m. boundary_loop key m (sortedMeasuredVersions m)) groups"

section \<open>Safe upgrades (safe\_upgrade.go)\<close>

record SafeUpgradeCandidate =
  suPackage :: string
  suTargetPackage :: string
  suCaseID :: string
  suSymbol :: string
  suCurrentResult :: string
  suStage :: string
  suVerifierAdapter :: string
  suSandboxCapability :: string
  suCompanionPackages :: "string list"
  suHarnessHash :: string
  suContextLabel :: string
  suEnvBucketHash :: string
  suMeasuredPath :: "string list"
  suBlockedByVersion :: string
  suCurrentObservations :: int
  suTargetObservations :: int

text \<open>The walk upwards: the versions above the current one up to the first that did not pass.\<close>

fun pass_run :: "byVersion \<Rightarrow> string list \<Rightarrow> string list" where
  "pass_run m [] = []"
| "pass_run m (v # vs) = (case unambiguous (verdict_at m v) of
     Some (result, _) \<Rightarrow> if result = ''PASS'' then v # pass_run m vs else []
   | None \<Rightarrow> [])"

definition blocked_by :: "byVersion \<Rightarrow> string list \<Rightarrow> string" where
  "blocked_by m rest = (case rest of
     [] \<Rightarrow> []
   | w # _ \<Rightarrow> (case unambiguous (verdict_at m w) of
       Some (result, _) \<Rightarrow> if result = ''FAIL'' then w else []
     | None \<Rightarrow> []))"

definition upgrade_candidate ::
  "receiptComparisonKey \<Rightarrow> byVersion \<Rightarrow> string \<Rightarrow> string list \<Rightarrow>
   (receiptTarget \<times> SafeUpgradeCandidate) list" where
  "upgrade_candidate key m version higher =
     (case unambiguous (verdict_at m version) of
        None \<Rightarrow> []
      | Some (currentResult, currentCount) \<Rightarrow>
          let run = pass_run m higher in
          if run = [] then []
          else
            let target = verdict_at m (last run);
                targetCount = (case unambiguous target of Some (_, c) \<Rightarrow> c | None \<Rightarrow> 0)
            in [((rvPurl (verdict_at m version), rkSymbol key),
              \<lparr>suPackage = rvPurl (verdict_at m version), suTargetPackage = rvPurl target,
               suCaseID = rkCaseID key, suSymbol = rkSymbol key, suCurrentResult = currentResult,
               suStage = ''CONTRACT'', suVerifierAdapter = rkVerifierAdapter key,
               suSandboxCapability = rkSandboxCapability key,
               suCompanionPackages = companionPackages (rkCompanions key),
               suHarnessHash = rkHarnessHash key, suContextLabel = rkContextLabel key,
               suEnvBucketHash = rkEnvBucketHash key, suMeasuredPath = run,
               suBlockedByVersion = blocked_by m (drop (length run) higher),
               suCurrentObservations = currentCount, suTargetObservations = targetCount\<rparr>)])"

fun upgrade_loop ::
  "receiptComparisonKey \<Rightarrow> byVersion \<Rightarrow> string list \<Rightarrow> (receiptTarget \<times> SafeUpgradeCandidate) list" where
  "upgrade_loop key m [] = []"
| "upgrade_loop key m (v # vs) = upgrade_candidate key m v vs @ upgrade_loop key m vs"

definition upgrade_less :: "SafeUpgradeCandidate \<Rightarrow> SafeUpgradeCandidate \<Rightarrow> bool" where
  "upgrade_less a b =
     (if suTargetPackage a \<noteq> suTargetPackage b then suTargetPackage a < suTargetPackage b
      else if suCaseID a \<noteq> suCaseID b then suCaseID a < suCaseID b
      else if suEnvBucketHash a \<noteq> suEnvBucketHash b then suEnvBucketHash a < suEnvBucketHash b
      else if suVerifierAdapter a \<noteq> suVerifierAdapter b then suVerifierAdapter a < suVerifierAdapter b
      else if suSandboxCapability a \<noteq> suSandboxCapability b
        then suSandboxCapability a < suSandboxCapability b
      else if suHarnessHash a \<noteq> suHarnessHash b then suHarnessHash a < suHarnessHash b
      else Join (suCompanionPackages a) [CHR 0x00] < Join (suCompanionPackages b) [CHR 0x00])"

definition safeUpgrades :: "groups \<Rightarrow> (receiptTarget, SafeUpgradeCandidate list) gomap" where
  "safeUpgrades groups =
     collect upgrade_less (\<lambda>key m. upgrade_loop key m (sortedMeasuredVersions m)) groups"

section \<open>Regression watch (regression\_watch.go)\<close>

record RegressionWatchCandidate =
  wcPackage :: string
  wcCaseID :: string
  wcSymbol :: string
  wcStage :: string
  wcKind :: string
  wcVerifierAdapter :: string
  wcSandboxCapability :: string
  wcCompanionPackages :: "string list"
  wcHarnessHash :: string
  wcContextLabel :: string
  wcEnvBucketHash :: string
  wcKnownResult :: string
  wcKnownObservations :: int
  wcKnownThrough :: string
  wcLatestResult :: string
  wcLatestObservations :: int
  wcLatestSince :: string
  wcNearestLowerPassPackage :: string

definition zero_watch :: RegressionWatchCandidate where
  "zero_watch = \<lparr>wcPackage = [], wcCaseID = [], wcSymbol = [], wcStage = [], wcKind = [],
     wcVerifierAdapter = [], wcSandboxCapability = [], wcCompanionPackages = [], wcHarnessHash = [],
     wcContextLabel = [], wcEnvBucketHash = [], wcKnownResult = [], wcKnownObservations = 0,
     wcKnownThrough = [], wcLatestResult = [], wcLatestObservations = 0, wcLatestSince = [],
     wcNearestLowerPassPackage = []\<rparr>"

definition watchCandidate ::
  "(instant \<Rightarrow> string) \<Rightarrow> receiptVersionVerdict \<Rightarrow> RegressionWatchCandidate option" where
  "watchCandidate rfc3339 v =
     (if rvPass v = 0 \<or> rvFail v = 0 \<or> rvUndated v then None
      else if rvLastPass v < rvFirstFail v then
        Some (zero_watch\<lparr>wcPackage := rvPurl v, wcKind := ''KNOWN_GOOD_NOW_FAILING'',
          wcKnownResult := ''PASS'', wcKnownObservations := rvPass v,
          wcKnownThrough := rfc3339 (rvLastPass v), wcLatestResult := ''FAIL'',
          wcLatestObservations := rvFail v, wcLatestSince := rfc3339 (rvFirstFail v)\<rparr>)
      else if rvLastFail v < rvFirstPass v then
        Some (zero_watch\<lparr>wcPackage := rvPurl v, wcKind := ''KNOWN_FAILURE_NOW_PASSING'',
          wcKnownResult := ''FAIL'', wcKnownObservations := rvFail v,
          wcKnownThrough := rfc3339 (rvLastFail v), wcLatestResult := ''PASS'',
          wcLatestObservations := rvPass v, wcLatestSince := rfc3339 (rvFirstPass v)\<rparr>)
      else None)"

text \<open>The nearest measured release below with an unambiguous pass; \<open>below\<close> runs downwards.\<close>

fun nearest_pass :: "byVersion \<Rightarrow> string list \<Rightarrow> string" where
  "nearest_pass m [] = []"
| "nearest_pass m (v # below) = (case unambiguous (verdict_at m v) of
     Some (result, _) \<Rightarrow> if result = ''PASS'' then rvPurl (verdict_at m v) else nearest_pass m below
   | None \<Rightarrow> nearest_pass m below)"

fun watch_loop ::
  "(instant \<Rightarrow> string) \<Rightarrow> receiptComparisonKey \<Rightarrow> byVersion \<Rightarrow> string list \<Rightarrow> string list \<Rightarrow>
   (receiptTarget \<times> RegressionWatchCandidate) list" where
  "watch_loop fmt key m below [] = []"
| "watch_loop fmt key m below (v # vs) =
     (case watchCandidate fmt (verdict_at m v) of
        None \<Rightarrow> []
      | Some c \<Rightarrow> [((rvPurl (verdict_at m v), rkSymbol key),
          c\<lparr>wcNearestLowerPassPackage := nearest_pass m below, wcCaseID := rkCaseID key,
            wcSymbol := rkSymbol key, wcStage := ''CONTRACT'',
            wcVerifierAdapter := rkVerifierAdapter key,
            wcSandboxCapability := rkSandboxCapability key,
            wcCompanionPackages := companionPackages (rkCompanions key),
            wcHarnessHash := rkHarnessHash key, wcContextLabel := rkContextLabel key,
            wcEnvBucketHash := rkEnvBucketHash key\<rparr>)]) @ watch_loop fmt key m (v # below) vs"

definition watch_less :: "RegressionWatchCandidate \<Rightarrow> RegressionWatchCandidate \<Rightarrow> bool" where
  "watch_less a b =
     (if wcCaseID a \<noteq> wcCaseID b then wcCaseID a < wcCaseID b
      else if wcEnvBucketHash a \<noteq> wcEnvBucketHash b then wcEnvBucketHash a < wcEnvBucketHash b
      else if wcVerifierAdapter a \<noteq> wcVerifierAdapter b then wcVerifierAdapter a < wcVerifierAdapter b
      else if wcSandboxCapability a \<noteq> wcSandboxCapability b
        then wcSandboxCapability a < wcSandboxCapability b
      else if wcHarnessHash a \<noteq> wcHarnessHash b then wcHarnessHash a < wcHarnessHash b
      else Join (wcCompanionPackages a) [CHR 0x00] < Join (wcCompanionPackages b) [CHR 0x00])"

definition regressionWatch ::
  "(instant \<Rightarrow> string) \<Rightarrow> groups \<Rightarrow> (receiptTarget, RegressionWatchCandidate list) gomap" where
  "regressionWatch fmt groups =
     collect watch_less (\<lambda>key m. watch_loop fmt key m [] (sortedMeasuredVersions m)) groups"

text \<open>The three products of a list of samples.\<close>

definition regressionsFromReceipts ::
  "(Case \<Rightarrow> string) \<Rightarrow> (string list \<Rightarrow> string list \<Rightarrow> string \<Rightarrow> string) \<Rightarrow>
   (EnvironmentFingerprint \<Rightarrow> string) \<Rightarrow> sampleData list \<Rightarrow> (receiptTarget, RegressionCandidate list) gomap" where
  "regressionsFromReceipts caseHash harnessHash envHash samples =
     regressionBoundaries (receiptVersionGroups caseHash harnessHash envHash samples)"

definition safeUpgradesFromReceipts ::
  "(Case \<Rightarrow> string) \<Rightarrow> (string list \<Rightarrow> string list \<Rightarrow> string \<Rightarrow> string) \<Rightarrow>
   (EnvironmentFingerprint \<Rightarrow> string) \<Rightarrow> sampleData list \<Rightarrow> (receiptTarget, SafeUpgradeCandidate list) gomap" where
  "safeUpgradesFromReceipts caseHash harnessHash envHash samples =
     safeUpgrades (receiptVersionGroups caseHash harnessHash envHash samples)"

definition regressionWatchFromReceipts ::
  "(instant \<Rightarrow> string) \<Rightarrow> (Case \<Rightarrow> string) \<Rightarrow> (string list \<Rightarrow> string list \<Rightarrow> string \<Rightarrow> string) \<Rightarrow>
   (EnvironmentFingerprint \<Rightarrow> string) \<Rightarrow> sampleData list \<Rightarrow> (receiptTarget, RegressionWatchCandidate list) gomap" where
  "regressionWatchFromReceipts fmt caseHash harnessHash envHash samples =
     regressionWatch fmt (receiptVersionGroups caseHash harnessHash envHash samples)"

section \<open>Lemmas\<close>

lemma get_append_to:
  "get [] (fold append_to ems out) t = get [] out t @ map snd (filter (\<lambda>e. fst e = t) ems)"
  by (induction ems arbitrary: out) (auto simp: append_to_def)

lemma get_collected:
  "get [] (fold (\<lambda>(key, m) out. fold append_to (emit key m) out) groups out) t =
     get [] out t @ map snd (filter (\<lambda>e. fst e = t) (concat (map (\<lambda>(key, m). emit key m) groups)))"
  by (induction groups arbitrary: out) (auto simp: get_append_to)

lemma get_sorted:
  "get [] (map (\<lambda>(t, cs). (t, sort_by lt cs)) m) t = sort_by lt (get [] m t)"
  by (induction m) (auto simp: get_def sort_by_def split: option.splits)

lemma collect_get:
  "get [] (collect lt emit groups) t =
     sort_by lt (map snd (filter (\<lambda>e. fst e = t) (concat (map (\<lambda>(key, m). emit key m) groups))))"
  by (simp add: collect_def get_sorted get_collected)

lemma collect_iff:
  "c \<in> set (get [] (collect lt emit groups) t) \<longleftrightarrow>
     (\<exists>(key, m)\<in>set groups. (t, c) \<in> set (emit key m))"
  by (force simp: collect_get)

lemma boundary_loop_iff:
  "e \<in> set (boundary_loop key m vs) \<longleftrightarrow>
     (\<exists>i. Suc i < length vs \<and>
        e \<in> set (boundary_candidate key (verdict_at m (vs ! i)) (verdict_at m (vs ! Suc i))))"
proof (induction key m vs rule: boundary_loop.induct)
  case (1 key m v w vs)
  show ?case (is "?l \<longleftrightarrow> (\<exists>i. ?P (v # w # vs) i)")
  proof
    assume ?l
    then consider "?P (v # w # vs) 0" | i where "?P (w # vs) i" by (auto simp: 1)
    then show "\<exists>i. ?P (v # w # vs) i"
    proof cases
      case 2
      then have "?P (v # w # vs) (Suc i)" by simp
      then show ?thesis by blast
    qed blast
  next
    assume "\<exists>i. ?P (v # w # vs) i"
    then obtain i where i: "?P (v # w # vs) i" by blast
    show ?l
    proof (cases i)
      case 0
      with i show ?thesis by simp
    next
      case (Suc j)
      with i have "?P (w # vs) j" by simp
      then show ?thesis by (auto simp: 1)
    qed
  qed
qed simp_all

lemma unambiguous_iff:
  "unambiguous v = Some (''PASS'', n) \<longleftrightarrow> 0 < rvPass v \<and> rvFail v = 0 \<and> n = rvPass v"
  "unambiguous v = Some (''FAIL'', n) \<longleftrightarrow> 0 < rvFail v \<and> rvPass v = 0 \<and> n = rvFail v"
  by (auto simp: unambiguous_def)

lemma sortedMeasured_sorted:
  "sorted_wrt (\<lambda>a b. CompareVersions a b \<le> 0) (sortedMeasuredVersions m)"
proof -
  have "\<not> CompareVersions b a < 0 \<longleftrightarrow> CompareVersions a b \<le> 0" for a b
    using version_order.swap [of a b] by auto
  then show ?thesis
    using version_order.sorted_sort_by [of "map fst m"] by (simp add: sortedMeasuredVersions_def)
qed

lemma set_sortedMeasured [simp]: "set (sortedMeasuredVersions m) = fst ` set m"
  by (simp add: sortedMeasuredVersions_def)

text \<open>No measured version lies strictly between two neighbours of the sorted list.\<close>

lemma sorted_adjacent:
  assumes "Suc i < length (sortedMeasuredVersions m)" and "x \<in> fst ` set m"
  shows "\<not> (CompareVersions (sortedMeasuredVersions m ! i) x < 0 \<and>
            CompareVersions x (sortedMeasuredVersions m ! Suc i) < 0)"
proof -
  define vs where "vs = sortedMeasuredVersions m"
  have le: "a \<le> b \<Longrightarrow> b < length vs \<Longrightarrow> CompareVersions (vs ! a) (vs ! b) \<le> 0" for a b
    using sortedMeasured_sorted [of m] unfolding vs_def [symmetric] sorted_wrt_iff_nth_less
    by (cases "a = b") simp_all
  from assms(2) obtain k where k: "k < length vs" "x = vs ! k"
    unfolding vs_def by (metis in_set_conv_nth set_sortedMeasured)
  show ?thesis
  proof (cases "k \<le> i")
    case True
    with le [of k i] assms(1) k have "CompareVersions x (vs ! i) \<le> 0" by (simp add: vs_def)
    then show ?thesis using version_order.swap [of x "vs ! i"] by (simp add: vs_def)
  next
    case False
    with le [of "Suc i" k] k have "CompareVersions (vs ! Suc i) x \<le> 0" by simp
    then show ?thesis using version_order.swap [of x "vs ! Suc i"] by (simp add: vs_def)
  qed
qed

lemma boundary_candidate_iff:
  "(t, c) \<in> set (boundary_candidate key prev cur) \<longleftrightarrow>
     0 < rvPass prev \<and> rvFail prev = 0 \<and> 0 < rvFail cur \<and> rvPass cur = 0 \<and>
     t = (rvPurl cur, rkSymbol key) \<and>
     c = \<lparr>rcPackage = rvPurl cur, rcPreviousPackage = rvPurl prev, rcCaseID = rkCaseID key,
          rcSymbol = rkSymbol key, rcVerifierAdapter = rkVerifierAdapter key,
          rcSandboxCapability = rkSandboxCapability key,
          rcCompanionPackages = companionPackages (rkCompanions key),
          rcHarnessHash = rkHarnessHash key, rcStage = ''CONTRACT'',
          rcContextLabel = rkContextLabel key, rcEnvBucketHash = rkEnvBucketHash key,
          rcFailRate = 1, rcPreviousPassRate = 1, rcObservations = rvFail cur,
          rcPreviousObservations = rvPass prev\<rparr>"
  by (auto simp: boundary_candidate_def unambiguous_def)

lemma pass_run_split:
  "\<exists>rest. vs = pass_run m vs @ rest \<and>
     (\<forall>w\<in>set (pass_run m vs). 0 < rvPass (verdict_at m w) \<and> rvFail (verdict_at m w) = 0) \<and>
     (rest = [] \<or> \<not> (0 < rvPass (verdict_at m (hd rest)) \<and> rvFail (verdict_at m (hd rest)) = 0))"
proof (induction vs)
  case Nil
  then show ?case by simp
next
  case (Cons v vs)
  show ?case
  proof (cases "0 < rvPass (verdict_at m v) \<and> rvFail (verdict_at m v) = 0")
    case True
    then have "pass_run m (v # vs) = v # pass_run m vs" by (simp add: unambiguous_def)
    with Cons True show ?thesis by auto
  next
    case False
    then have "pass_run m (v # vs) = []" by (simp add: unambiguous_def)
    with False show ?thesis by (intro exI [of _ "v # vs"]) simp
  qed
qed

lemma upgrade_loop_iff:
  "e \<in> set (upgrade_loop key m vs) \<longleftrightarrow>
     (\<exists>pre v post. vs = pre @ v # post \<and> e \<in> set (upgrade_candidate key m v post))"
proof (induction vs)
  case Nil
  then show ?case by simp
next
  case (Cons x xs)
  show ?case
  proof
    assume "e \<in> set (upgrade_loop key m (x # xs))"
    then consider "e \<in> set (upgrade_candidate key m x xs)" | "e \<in> set (upgrade_loop key m xs)" by auto
    then show "\<exists>pre v post. x # xs = pre @ v # post \<and> e \<in> set (upgrade_candidate key m v post)"
    proof cases
      case 2
      then obtain pre v post where "xs = pre @ v # post" "e \<in> set (upgrade_candidate key m v post)"
        using Cons by blast
      then show ?thesis by (intro exI [of _ "x # pre"]) auto
    qed blast
  next
    assume "\<exists>pre v post. x # xs = pre @ v # post \<and> e \<in> set (upgrade_candidate key m v post)"
    then show "e \<in> set (upgrade_loop key m (x # xs))"
      using Cons by (auto simp: Cons_eq_append_conv)
  qed
qed

section \<open>Properties of the products\<close>

text \<open>C23: a regression boundary is exactly a PASS to FAIL step between neighbouring measured
  releases.  Every reported candidate comes from one comparison group, the two releases are measured
  there, the earlier is not above the later, nothing measured lies strictly between them, all
  measurements of the earlier passed and all of the later failed; and every such step of every group
  is reported.\<close>

theorem boundaries_are_adjacent_pass_to_fail:
  "(c \<in> set (get [] (regressionBoundaries groups) t) \<longrightarrow>
     (\<exists>(key, m)\<in>set groups. \<exists>v\<in>fst ` set m. \<exists>w\<in>fst ` set m.
        CompareVersions v w \<le> 0 \<and>
        (\<forall>x\<in>fst ` set m. \<not> (CompareVersions v x < 0 \<and> CompareVersions x w < 0)) \<and>
        0 < rvPass (verdict_at m v) \<and> rvFail (verdict_at m v) = 0 \<and>
        0 < rvFail (verdict_at m w) \<and> rvPass (verdict_at m w) = 0 \<and>
        rcPackage c = rvPurl (verdict_at m w) \<and> rcPreviousPackage c = rvPurl (verdict_at m v) \<and>
        rcEnvBucketHash c = rkEnvBucketHash key \<and> rcHarnessHash c = rkHarnessHash key)) \<and>
   ((key, m) \<in> set groups \<and> Suc i < length (sortedMeasuredVersions m) \<and>
      unambiguous (verdict_at m (sortedMeasuredVersions m ! i)) = Some (''PASS'', a) \<and>
      unambiguous (verdict_at m (sortedMeasuredVersions m ! Suc i)) = Some (''FAIL'', b) \<longrightarrow>
    (\<exists>c\<in>set (get [] (regressionBoundaries groups)
        (rvPurl (verdict_at m (sortedMeasuredVersions m ! Suc i)), rkSymbol key)).
       rcObservations c = b \<and> rcPreviousObservations c = a))"
proof (intro conjI impI)
  assume "c \<in> set (get [] (regressionBoundaries groups) t)"
  then obtain key m where g: "(key, m) \<in> set groups"
    and "(t, c) \<in> set (boundary_loop key m (sortedMeasuredVersions m))"
    unfolding regressionBoundaries_def collect_iff by blast
  then obtain i where i: "Suc i < length (sortedMeasuredVersions m)"
    and bc: "(t, c) \<in> set (boundary_candidate key (verdict_at m (sortedMeasuredVersions m ! i))
        (verdict_at m (sortedMeasuredVersions m ! Suc i)))"
    unfolding boundary_loop_iff by blast
  let ?v = "sortedMeasuredVersions m ! i" and ?w = "sortedMeasuredVersions m ! Suc i"
  have "?v \<in> fst ` set m" "?w \<in> fst ` set m"
    using i nth_mem set_sortedMeasured Suc_lessD by metis+
  moreover have "CompareVersions ?v ?w \<le> 0"
    using i sortedMeasured_sorted [of m] by (simp add: sorted_wrt_iff_nth_less)
  moreover note sorted_adjacent [OF i]
  ultimately show "\<exists>(key, m)\<in>set groups. \<exists>v\<in>fst ` set m. \<exists>w\<in>fst ` set m.
        CompareVersions v w \<le> 0 \<and>
        (\<forall>x\<in>fst ` set m. \<not> (CompareVersions v x < 0 \<and> CompareVersions x w < 0)) \<and>
        0 < rvPass (verdict_at m v) \<and> rvFail (verdict_at m v) = 0 \<and>
        0 < rvFail (verdict_at m w) \<and> rvPass (verdict_at m w) = 0 \<and>
        rcPackage c = rvPurl (verdict_at m w) \<and> rcPreviousPackage c = rvPurl (verdict_at m v) \<and>
        rcEnvBucketHash c = rkEnvBucketHash key \<and> rcHarnessHash c = rkHarnessHash key"
    using bc unfolding boundary_candidate_iff
    by (intro bexI [OF _ g] case_prodI bexI [of _ ?v] bexI [of _ ?w]) simp_all
next
  assume h: "(key, m) \<in> set groups \<and> Suc i < length (sortedMeasuredVersions m) \<and>
      unambiguous (verdict_at m (sortedMeasuredVersions m ! i)) = Some (''PASS'', a) \<and>
      unambiguous (verdict_at m (sortedMeasuredVersions m ! Suc i)) = Some (''FAIL'', b)"
  let ?v = "verdict_at m (sortedMeasuredVersions m ! i)"
  let ?w = "verdict_at m (sortedMeasuredVersions m ! Suc i)"
  obtain c where c: "((rvPurl ?w, rkSymbol key), c) \<in> set (boundary_candidate key ?v ?w)"
    "rcObservations c = b" "rcPreviousObservations c = a"
    using h unfolding unambiguous_iff boundary_candidate_iff by simp
  then have "((rvPurl ?w, rkSymbol key), c) \<in> set (boundary_loop key m (sortedMeasuredVersions m))"
    unfolding boundary_loop_iff using h by blast
  with h c show "\<exists>c\<in>set (get [] (regressionBoundaries groups) (rvPurl ?w, rkSymbol key)).
      rcObservations c = b \<and> rcPreviousObservations c = a"
    unfolding regressionBoundaries_def by (intro bexI [of _ c]) (auto simp: collect_iff)
qed

text \<open>C19: a suggested upgrade rests on an unbroken run of passes.  The path is the stretch of
  measured releases directly above the current one, every release on it has passes only, its last
  one is the target, the run cannot be extended, and a reported blocker is the measured failure
  directly above the target.\<close>

theorem safe_upgrade_is_an_unbroken_run:
  assumes "c \<in> set (get [] (safeUpgrades groups) t)"
  shows "\<exists>(key, m)\<in>set groups. \<exists>pre v rest.
     sortedMeasuredVersions m = pre @ v # suMeasuredPath c @ rest \<and>
     suPackage c = rvPurl (verdict_at m v) \<and> suMeasuredPath c \<noteq> [] \<and>
     suTargetPackage c = rvPurl (verdict_at m (last (suMeasuredPath c))) \<and>
     list_all (\<lambda>w. 0 < rvPass (verdict_at m w) \<and> rvFail (verdict_at m w) = 0) (suMeasuredPath c) \<and>
     (rest = [] \<or> \<not> (0 < rvPass (verdict_at m (hd rest)) \<and> rvFail (verdict_at m (hd rest)) = 0)) \<and>
     (suBlockedByVersion c = [] \<or>
        (\<exists>r. rest = suBlockedByVersion c # r) \<and>
        0 < rvFail (verdict_at m (suBlockedByVersion c)) \<and>
        rvPass (verdict_at m (suBlockedByVersion c)) = 0)"
proof -
  from assms obtain key m where g: "(key, m) \<in> set groups"
    and "(t, c) \<in> set (upgrade_loop key m (sortedMeasuredVersions m))"
    unfolding safeUpgrades_def collect_iff by blast
  then obtain pre v post where s: "sortedMeasuredVersions m = pre @ v # post"
    and u: "(t, c) \<in> set (upgrade_candidate key m v post)"
    unfolding upgrade_loop_iff by blast
  obtain rest where r: "post = pass_run m post @ rest"
    "\<forall>w\<in>set (pass_run m post). 0 < rvPass (verdict_at m w) \<and> rvFail (verdict_at m w) = 0"
    "rest = [] \<or> \<not> (0 < rvPass (verdict_at m (hd rest)) \<and> rvFail (verdict_at m (hd rest)) = 0)"
    using pass_run_split [of post m] by blast
  then have drop: "drop (length (pass_run m post)) post = rest" by (metis append_eq_conv_conj)
  from u have c: "pass_run m post \<noteq> []" "suMeasuredPath c = pass_run m post"
    "suPackage c = rvPurl (verdict_at m v)"
    "suTargetPackage c = rvPurl (verdict_at m (last (pass_run m post)))"
    "suBlockedByVersion c = blocked_by m rest"
    by (auto simp: upgrade_candidate_def Let_def drop split: option.splits if_splits)
  have "blocked_by m rest = [] \<or> (\<exists>r. rest = blocked_by m rest # r) \<and>
      0 < rvFail (verdict_at m (blocked_by m rest)) \<and> rvPass (verdict_at m (blocked_by m rest)) = 0"
    by (cases rest) (auto simp: blocked_by_def unambiguous_def)
  with s r c show ?thesis
    by (intro bexI [OF _ g] case_prodI exI [of _ pre] exI [of _ v] exI [of _ rest])
      (simp_all add: list_all_iff)
qed

definition ex_key :: receiptComparisonKey where
  "ex_key = \<lparr>rkEcosystem = ''npm'', rkName = ''a'', rkCaseID = ''case'', rkSymbol = ''f'',
     rkContextLabel = ''node 22'', rkEnvBucketHash = ''e'', rkVerifierAdapter = ''npm'',
     rkSandboxCapability = ''CONTAINER_RUN'', rkCompanions = [], rkHarnessHash = ''h''\<rparr>"

definition ex_pass :: "string \<Rightarrow> receiptVersionVerdict" where
  "ex_pass p = record_measurement ''PASS'' 5 (new_verdict p)"

definition ex_fail :: "string \<Rightarrow> receiptVersionVerdict" where
  "ex_fail p = record_measurement ''FAIL'' 7 (new_verdict p)"

definition ex_versions :: byVersion where
  "ex_versions = [(''1.10.0'', ex_fail ''pkg:npm/a@1.10.0''), (''1.9.0'', ex_pass ''pkg:npm/a@1.9.0''),
     (''1.2.0'', ex_pass ''pkg:npm/a@1.2.0'')]"

theorem boundaries_are_adjacent_pass_to_fail_witness:
  "\<exists>c\<in>set (get [] (regressionBoundaries [(ex_key, ex_versions)]) (''pkg:npm/a@1.10.0'', ''f'')).
     rcObservations c = 1 \<and> rcPreviousObservations c = 1"
proof -
  have s: "sortedMeasuredVersions ex_versions = [''1.2.0'', ''1.9.0'', ''1.10.0'']" by code_simp
  have "unambiguous (verdict_at ex_versions ''1.9.0'') = Some (''PASS'', 1)"
    "unambiguous (verdict_at ex_versions ''1.10.0'') = Some (''FAIL'', 1)"
    "rvPurl (verdict_at ex_versions ''1.10.0'') = ''pkg:npm/a@1.10.0''" "rkSymbol ex_key = ''f''"
    by code_simp+
  then show ?thesis
    using boundaries_are_adjacent_pass_to_fail [of _ "[(ex_key, ex_versions)]" _ ex_key ex_versions 1 1 1]
    by (simp add: s)
qed

theorem safe_upgrade_is_an_unbroken_run_witness:
  "\<exists>c. c \<in> set (get [] (safeUpgrades [(ex_key, ex_versions)]) (''pkg:npm/a@1.2.0'', ''f'')) \<and>
       suBlockedByVersion c = ''1.10.0'' \<and> suMeasuredPath c \<noteq> []"
proof -
  define c where "c = hd (get [] (safeUpgrades [(ex_key, ex_versions)]) (''pkg:npm/a@1.2.0'', ''f''))"
  have "get [] (safeUpgrades [(ex_key, ex_versions)]) (''pkg:npm/a@1.2.0'', ''f'') \<noteq> []" by code_simp
  then have c: "c \<in> set (get [] (safeUpgrades [(ex_key, ex_versions)]) (''pkg:npm/a@1.2.0'', ''f''))"
    by (simp add: c_def)
  have "suBlockedByVersion c = ''1.10.0''" unfolding c_def by code_simp
  with c safe_upgrade_is_an_unbroken_run [OF c] show ?thesis by blast
qed

section \<open>Verdicts over time\<close>

definition verdict_of :: "string \<Rightarrow> (string \<times> instant) list \<Rightarrow> receiptVersionVerdict" where
  "verdict_of purl ms = fold (\<lambda>(result, tm) v. record_measurement result tm v) ms (new_verdict purl)"

definition times :: "bool \<Rightarrow> (string \<times> instant) list \<Rightarrow> instant list" where
  "times passed ms = map snd (filter (\<lambda>(result, tm). (result = ''PASS'') = passed) ms)"

text \<open>What a verdict knows of its measurements, when all of them are dated.\<close>

definition tracks :: "instant \<Rightarrow> instant \<Rightarrow> int \<Rightarrow> instant list \<Rightarrow> bool" where
  "tracks first_tm last_tm n ts \<longleftrightarrow> n = int (length ts) \<and>
     (if ts = [] then first_tm = 0 \<and> last_tm = 0 else first_tm = Min (set ts) \<and> last_tm = Max (set ts))"

lemma tracks_step:
  "tracks a b n ts \<Longrightarrow> 0 < tm \<Longrightarrow> \<forall>s\<in>set ts. 0 < s \<Longrightarrow>
   tracks (earliest a tm) (latest b tm) (n + 1) (ts @ [tm])"
proof (cases "ts = []")
  case True
  assume "tracks a b n ts" "0 < tm"
  with True show ?thesis by (simp add: tracks_def earliest_def latest_def)
next
  case False
  assume t: "tracks a b n ts" "0 < tm" "\<forall>s\<in>set ts. 0 < s"
  then have ab: "a = Min (set ts)" "b = Max (set ts)" "n = int (length ts)"
    using False by (simp_all add: tracks_def)
  moreover have "0 < Min (set ts)" using t(3) False by simp
  ultimately have "earliest a tm = min tm (Min (set ts))" "latest b tm = max tm (Max (set ts))"
    unfolding earliest_def latest_def min_def max_def by auto
  with ab(3) False show ?thesis by (simp add: tracks_def)
qed

definition tracks_verdict :: "receiptVersionVerdict \<Rightarrow> (string \<times> instant) list \<Rightarrow> bool" where
  "tracks_verdict v ms \<longleftrightarrow>
     tracks (rvFirstPass v) (rvLastPass v) (rvPass v) (times True ms) \<and>
     tracks (rvFirstFail v) (rvLastFail v) (rvFail v) (times False ms) \<and> \<not> rvUndated v"

lemma verdict_of_snoc:
  "verdict_of purl (ms @ [(r, tm)]) = record_measurement r tm (verdict_of purl ms)"
  by (simp add: verdict_of_def)

lemma verdict_of_tracks:
  "list_all (\<lambda>(r, tm). 0 < tm) ms \<Longrightarrow> tracks_verdict (verdict_of purl ms) ms"
proof (induction ms rule: rev_induct)
  case Nil
  then show ?case
    by (simp add: tracks_verdict_def tracks_def times_def verdict_of_def new_verdict_def)
next
  case (snoc e ms)
  obtain r tm where e: "e = (r, tm)" by fastforce
  with snoc.prems have tm: "0 < tm" and ms: "list_all (\<lambda>(r, tm). 0 < tm) ms" by simp_all
  then have pos: "\<forall>s\<in>set (times passed ms). 0 < s" for passed by (auto simp: times_def list_all_iff)
  note IH = snoc.IH [OF ms, unfolded tracks_verdict_def]
  show ?case
  proof (cases "r = ''PASS''")
    case True
    then have "times True (ms @ [e]) = times True ms @ [tm]" "times False (ms @ [e]) = times False ms"
      by (simp_all add: times_def e)
    with True IH tm tracks_step [OF _ tm pos [of True]] show ?thesis
      by (simp add: e verdict_of_snoc tracks_verdict_def record_measurement_def Let_def)
  next
    case False
    then have "times True (ms @ [e]) = times True ms" "times False (ms @ [e]) = times False ms @ [tm]"
      by (simp_all add: times_def e)
    with False IH tm tracks_step [OF _ tm pos [of False]] show ?thesis
      by (simp add: e verdict_of_snoc tracks_verdict_def record_measurement_def Let_def)
  qed
qed

lemma undated_sticky: "rvUndated v \<Longrightarrow> rvUndated (record_measurement r tm v)"
  by (simp add: record_measurement_def Let_def)

lemma verdict_undated: "(r, 0) \<in> set ms \<Longrightarrow> rvUndated (verdict_of purl ms)"
proof (induction ms rule: rev_induct)
  case (snoc e ms)
  then show ?case
    by (cases e) (auto simp: verdict_of_snoc undated_sticky, simp add: record_measurement_def Let_def)
qed simp

text \<open>A watch candidate is a clean change in time.  For the measurements of one release, a
  candidate of kind "known good now failing" is reported exactly when both outcomes occur, every
  measurement is dated, and every pass lies strictly before every failure; with the outcomes
  exchanged it is "known failure now passing"; otherwise nothing is reported.\<close>

theorem watch_reports_clean_changes:
  "(map_option wcKind (watchCandidate fmt (verdict_of purl ms)) = Some ''KNOWN_GOOD_NOW_FAILING'' \<longleftrightarrow>
      list_all (\<lambda>(r, tm). 0 < tm) ms \<and> times True ms \<noteq> [] \<and> times False ms \<noteq> [] \<and>
      list_all (\<lambda>p. list_all (\<lambda>f. p < f) (times False ms)) (times True ms)) \<and>
   (map_option wcKind (watchCandidate fmt (verdict_of purl ms)) = Some ''KNOWN_FAILURE_NOW_PASSING'' \<longleftrightarrow>
      list_all (\<lambda>(r, tm). 0 < tm) ms \<and> times True ms \<noteq> [] \<and> times False ms \<noteq> [] \<and>
      list_all (\<lambda>f. list_all (\<lambda>p. f < p) (times True ms)) (times False ms))"
proof (cases "list_all (\<lambda>(r, tm). 0 < tm) ms")
  case False
  then obtain r where "(r, 0) \<in> set ms" by (auto simp: list_all_iff)
  from verdict_undated [OF this] False show ?thesis by (simp add: watchCandidate_def)
next
  case True
  define v where "v = verdict_of purl ms"
  have t: "tracks_verdict v ms" unfolding v_def by (rule verdict_of_tracks [OF True])
  show ?thesis
  proof (cases "times True ms = [] \<or> times False ms = []")
    case True
    with t have "watchCandidate fmt v = None"
      by (auto simp: tracks_verdict_def tracks_def watchCandidate_def)
    with True show ?thesis by (auto simp: v_def)
  next
    case ne: False
    with t have v: "rvFirstPass v = Min (set (times True ms))" "rvLastPass v = Max (set (times True ms))"
      "rvFirstFail v = Min (set (times False ms))" "rvLastFail v = Max (set (times False ms))"
      "rvPass v \<noteq> 0" "rvFail v \<noteq> 0" "\<not> rvUndated v"
      by (simp_all add: tracks_verdict_def tracks_def)
    have before: "rvLastPass v < rvFirstFail v \<longleftrightarrow>
        list_all (\<lambda>p. list_all (\<lambda>f. p < f) (times False ms)) (times True ms)"
      and after: "rvLastFail v < rvFirstPass v \<longleftrightarrow>
        list_all (\<lambda>f. list_all (\<lambda>p. f < p) (times True ms)) (times False ms)"
      using ne by (simp_all add: v list_all_iff) blast+
    have "rvFirstPass v \<le> rvLastPass v" "rvFirstFail v \<le> rvLastFail v"
      using ne by (simp_all add: v)
    then have excl: "\<not> (rvLastPass v < rvFirstFail v \<and> rvLastFail v < rvFirstPass v)" by auto
    have "map_option wcKind (watchCandidate fmt v) =
        (if rvLastPass v < rvFirstFail v then Some ''KNOWN_GOOD_NOW_FAILING''
         else if rvLastFail v < rvFirstPass v then Some ''KNOWN_FAILURE_NOW_PASSING'' else None)"
      using v(5-7) by (simp add: watchCandidate_def)
    with True ne excl show ?thesis
      unfolding v_def [symmetric] before [symmetric] after [symmetric] by auto
  qed
qed

text \<open>Boundaries depend on the iteration order of a map.  Two releases that differ in build
  metadata only compare equal, so the sort keeps them in the order the map yields them: the same
  measurements report a boundary in one order and none in the other.\<close>

theorem boundary_depends_on_map_order:
  "\<exists>m m'. wf_map m \<and> mset m = mset m' \<and>
     regressionBoundaries [(ex_key, m)] = [] \<and> regressionBoundaries [(ex_key, m')] \<noteq> []"
proof -
  let ?a = "(''1.0.0+a'', ex_pass ''pkg:npm/a@1.0.0+a'')"
  let ?b = "(''1.0.0+b'', ex_fail ''pkg:npm/a@1.0.0+b'')"
  have "wf_map [?b, ?a]" by (simp add: wf_map_def)
  moreover have "mset [?b, ?a] = mset [?a, ?b]" by simp
  moreover have "regressionBoundaries [(ex_key, [?b, ?a])] = []" by code_simp
  moreover have "regressionBoundaries [(ex_key, [?a, ?b])] \<noteq> []" by code_simp
  ultimately show ?thesis by blast
qed

section \<open>The groups against a flat list of measurements\<close>

type_synonym measurement = "receiptComparisonKey \<times> PURL \<times> string \<times> instant"

text \<open>The reference: every comparable measurement, in the order the loops meet them.\<close>

definition receipt_measurements ::
  "(EnvironmentFingerprint \<Rightarrow> string) \<Rightarrow> string \<Rightarrow> string \<Rightarrow> string list \<Rightarrow> ReceiptInfo \<Rightarrow> measurement list" where
  "receipt_measurements envHash caseID harness symbols r =
     (let bucket = Bucketed (Normalize (riEnv r)) in
      if \<not> receipt_usable caseID r \<or> \<not> bucket_usable bucket then []
      else [(\<lparr>rkEcosystem = pEcosystem p, rkName = pName p, rkCaseID = caseID,
                rkSymbol = symbol, rkContextLabel = ContextLabel bucket,
                rkEnvBucketHash = envHash bucket, rkVerifierAdapter = riVerifierAdapter r,
                rkSandboxCapability = riSandboxCapability r,
                rkCompanions = receiptCompanions (riResolvedPackages r) (pEcosystem p, pName p),
                rkHarnessHash = harness\<rparr>, p, get [] (riStages r) ''contract'', riCreatedAt r).
            p \<leftarrow> riResolvedPackages r, identityCount (riResolvedPackages r) p = 1, symbol \<leftarrow> symbols])"

definition measurements ::
  "(Case \<Rightarrow> string) \<Rightarrow> (string list \<Rightarrow> string list \<Rightarrow> string \<Rightarrow> string) \<Rightarrow>
   (EnvironmentFingerprint \<Rightarrow> string) \<Rightarrow> sampleData list \<Rightarrow> measurement list" where
  "measurements caseHash harnessHash envHash samples =
     concat (map (\<lambda>sd.
       let caseID = stableSampleCaseID caseHash sd; harness = receiptHarnessHash harnessHash sd in
       if caseID = [] \<or> harness = [] then []
       else concat (map (receipt_measurements envHash caseID harness (regressionSymbols sd))
              (sdReceipts sd))) samples)"

definition group_one :: "measurement \<Rightarrow> groups \<Rightarrow> groups" where
  "group_one x = (case x of (key, p, result, tm) \<Rightarrow> group_record key p result tm)"

lemma fold_nested: "fold (\<lambda>x. fold f (h x)) xs g = fold f (concat (map h xs)) g"
  by (induction xs arbitrary: g) simp_all

lemma group_receipt_flat:
  "group_receipt envHash caseID harness symbols r g =
     fold group_one (receipt_measurements envHash caseID harness symbols r) g"
proof -
  have inner: "fold (\<lambda>symbol g. group_record (k symbol) p res tm g) symbols g =
      fold group_one (map (\<lambda>symbol. (k symbol, p, res, tm)) symbols) g" for k p res tm g
    by (simp add: fold_map comp_def group_one_def)
  have outer: "fold (\<lambda>p g. if identityCount ps p \<noteq> 1 then g else fold group_one (h p) g) qs g =
      fold group_one (concat (map (\<lambda>p. if identityCount ps p = 1 then h p else []) qs)) g" for h ps qs g
    by (induction qs arbitrary: g) simp_all
  show ?thesis
    unfolding group_receipt_def receipt_measurements_def Let_def inner outer by simp
qed

lemma receiptVersionGroups_flat:
  "receiptVersionGroups caseHash harnessHash envHash samples =
     fold group_one (measurements caseHash harnessHash envHash samples) []"
proof -
  have sd: "fold (group_receipt envHash caseID harness symbols) rs g =
      fold group_one (concat (map (receipt_measurements envHash caseID harness symbols) rs)) g"
    for caseID harness symbols rs g
    by (induction rs arbitrary: g) (simp_all add: group_receipt_flat)
  have "fold (\<lambda>sd g.
       let caseID = stableSampleCaseID caseHash sd; harness = receiptHarnessHash harnessHash sd in
       if caseID = [] \<or> harness = [] then g
       else fold (group_receipt envHash caseID harness (regressionSymbols sd)) (sdReceipts sd) g) samples g
     = fold group_one (measurements caseHash harnessHash envHash samples) g" for g
    unfolding measurements_def by (induction samples arbitrary: g) (simp_all add: Let_def sd)
  then show ?thesis by (simp add: receiptVersionGroups_def)
qed

lemma map_of_group_record:
  "map_of (get [] (group_record key p r tm g) k) v =
     (if k = key \<and> v = pVersion p
      then Some (record_measurement r tm (case map_of (get [] g key) (pVersion p) of
             None \<Rightarrow> new_verdict (PURL_String p) | Some v \<Rightarrow> v))
      else map_of (get [] g k) v)"
  by (simp add: group_record_def Let_def update_conv')

definition of_coordinate :: "receiptComparisonKey \<Rightarrow> string \<Rightarrow> measurement list \<Rightarrow> measurement list" where
  "of_coordinate k v ms = filter (\<lambda>(key, p, r, tm). key = k \<and> pVersion p = v) ms"


end
