(* ===== verification/Retry.thy ===== *)
theory Retry
  imports Prelude
begin

text \<open>
  The bounded retry policy: \<open>src/internal/retrypolicy/retry.go\<close> (the series state machine and its
  delays) and \<open>src/cmd/csx-server/background_retry.go\<close> (its use by the background caches).  Instants
  and durations are integers in nanoseconds, the zero time being 0; sums of the values used here stay
  far inside 64 bits.  \<open>rnd n\<close> is the draw \<open>rand.Int64N(n)\<close>.
\<close>

section \<open>The series (retry.go)\<close>

definition MaxRetries :: int where
  "MaxRetries = 5"

datatype State = Ready | Waiting | FailedDeferred

record Series =
  seRetries :: int
  seState :: State

definition zero_series :: Series where
  "zero_series = \<lparr>seRetries = 0, seState = Ready\<rparr>"

definition SeriesFailure :: "Series \<Rightarrow> Series \<times> int \<times> State" where
  "SeriesFailure s =
     (if seState s = FailedDeferred then (s, 0, FailedDeferred)
      else if MaxRetries \<le> seRetries s then (s\<lparr>seState := FailedDeferred\<rparr>, 0, FailedDeferred)
      else (s\<lparr>seRetries := seRetries s + 1, seState := Waiting\<rparr>, seRetries s + 1, Waiting))"

definition SeriesReset :: "Series \<Rightarrow> Series" where
  "SeriesReset s = s\<lparr>seRetries := 0, seState := Ready\<rparr>"

definition second :: int where
  "second = 1000000000"

text \<open>\<open>draw = None\<close> is the nil function: the jitter is then drawn by \<open>rnd\<close>.\<close>

definition Delay :: "(int \<Rightarrow> int) \<Rightarrow> int \<Rightarrow> (int \<Rightarrow> int) option \<Rightarrow> int option" where
  "Delay rnd retry draw =
     (if retry < 1 \<or> MaxRetries < retry then None
      else
        let base = second * 2 ^ nat (retry - 1);
            maxJitter = base div 4;
            jitter = (case draw of
               None \<Rightarrow> rnd (maxJitter + 1)
             | Some d \<Rightarrow>
                 let j = d maxJitter; j' = (if j < 0 then 0 else j)
                 in if maxJitter < j' then maxJitter else j')
        in Some (base + jitter))"

section \<open>Background caches (background\_retry.go)\<close>

text \<open>The cache's series and the instant before which it does not retry.\<close>

type_synonym cache = "Series \<times> int"

definition backgroundRetryReady :: "cache \<Rightarrow> int \<Rightarrow> cache \<times> bool" where
  "backgroundRetryReady c now =
     (if now < snd c then (c, False)
      else if seState (fst c) = FailedDeferred then ((SeriesReset (fst c), 0), True)
      else (c, True))"

definition backgroundRetryFailed ::
  "(int \<Rightarrow> int) \<Rightarrow> cache \<Rightarrow> int \<Rightarrow> int \<Rightarrow> cache \<times> State" where
  "backgroundRetryFailed rnd c now deferFor =
     (case SeriesFailure (fst c) of (s, retry, state) \<Rightarrow>
        if state = Waiting then
          ((s, now + (case Delay rnd retry None of Some d \<Rightarrow> d | None \<Rightarrow> 0)), state)
        else
          ((s, now + (if deferFor \<le> 0 then 5 * 60 * second else deferFor)), state))"

definition backgroundRetrySucceeded :: "cache \<Rightarrow> cache" where
  "backgroundRetrySucceeded c = (SeriesReset (fst c), 0)"

section \<open>The cache as a state machine\<close>

text \<open>
  One step of a cache under its mutex: a request that finds it not ready, or one that is ready and
  whose attempt succeeds or fails.  The label is the outcome of the attempt, if there was one.
\<close>

datatype attempt = Skipped | Succeeded | Failed State

inductive cache_step ::
  "(int \<Rightarrow> int) \<Rightarrow> int \<Rightarrow> cache \<times> int \<Rightarrow> attempt \<Rightarrow> cache \<times> int \<Rightarrow> bool" for rnd deferFor where
  skip: "now \<le> now' \<Longrightarrow> backgroundRetryReady c now' = (c', False) \<Longrightarrow>
         cache_step rnd deferFor (c, now) Skipped (c', now')"
| success: "now \<le> now' \<Longrightarrow> backgroundRetryReady c now' = (c', True) \<Longrightarrow>
         cache_step rnd deferFor (c, now) Succeeded (backgroundRetrySucceeded c', now')"
| failure: "now \<le> now' \<Longrightarrow> backgroundRetryReady c now' = (c', True) \<Longrightarrow>
         backgroundRetryFailed rnd c' now' deferFor = (c'', st) \<Longrightarrow>
         cache_step rnd deferFor (c, now) (Failed st) (c'', now')"

inductive_cases cache_stepE: "cache_step rnd deferFor (c, now) l (c', now')"

inductive reachable :: "(int \<Rightarrow> int) \<Rightarrow> int \<Rightarrow> cache \<times> int \<Rightarrow> bool" for rnd deferFor where
  start: "0 \<le> now \<Longrightarrow> reachable rnd deferFor ((zero_series, 0), now)"
| step: "reachable rnd deferFor x \<Longrightarrow> cache_step rnd deferFor x l y \<Longrightarrow> reachable rnd deferFor y"

section \<open>Lemmas\<close>

definition good_series :: "Series \<Rightarrow> bool" where
  "good_series s \<longleftrightarrow> 0 \<le> seRetries s \<and> seRetries s \<le> MaxRetries \<and>
     (seState s = Ready \<longleftrightarrow> seRetries s = 0)"

lemma good_zero [simp]: "good_series zero_series"
  by (simp add: good_series_def zero_series_def MaxRetries_def)

lemma good_reset [simp]: "good_series (SeriesReset s)"
  by (simp add: good_series_def SeriesReset_def MaxRetries_def)

lemma good_failure: "good_series s \<Longrightarrow> good_series (fst (SeriesFailure s))"
  by (auto simp: good_series_def SeriesFailure_def MaxRetries_def)

lemma power_retry: "1 \<le> r \<Longrightarrow> r \<le> 5 \<Longrightarrow> (2 :: int) ^ nat (r - 1) \<in> {1, 2, 4, 8, 16}"
proof -
  assume "1 \<le> r" "r \<le> 5"
  then have "r = 1 \<or> r = 2 \<or> r = 3 \<or> r = 4 \<or> r = (5 :: int)" by linarith
  then show ?thesis by auto
qed

lemma Delay_bounds:
  assumes "Delay rnd r draw = Some d" and "\<And>n. 0 < n \<Longrightarrow> 0 \<le> rnd n \<and> rnd n < n"
  shows "second * 2 ^ nat (r - 1) \<le> d \<and> 4 * d \<le> 5 * (second * 2 ^ nat (r - 1))"
proof -
  from assms(1) have r: "1 \<le> r" "r \<le> 5" by (auto simp: Delay_def MaxRetries_def split: if_splits)
  define base where "base = second * 2 ^ nat (r - 1)"
  have base: "0 < base" by (simp add: base_def second_def)
  then have q: "0 \<le> base div 4" "4 * (base div 4) \<le> base" by simp_all
  have "0 \<le> rnd (base div 4 + 1) \<and> rnd (base div 4 + 1) \<le> base div 4"
    using assms(2) [of "base div 4 + 1"] q by simp
  with assms(1) q obtain j where "d = base + j" "0 \<le> j" "j \<le> base div 4"
    by (cases draw) (auto simp: Delay_def Let_def base_def [symmetric] split: if_splits)
  with q show ?thesis unfolding base_def [symmetric] by linarith
qed

lemma reachable_good: "reachable rnd deferFor x \<Longrightarrow> good_series (fst (fst x))"
proof (induction rule: reachable.induct)
  case (start now)
  then show ?case by simp
next
  case (step x l y)
  from step(2,3) show ?case
  proof cases
    case (failure now now' c c' c'' st)
    then have "good_series (fst c')"
      using step(3) by (auto simp: backgroundRetryReady_def split: if_splits)
    with failure good_failure [of "fst c'"] show ?thesis
      by (auto simp: backgroundRetryFailed_def split: prod.splits if_splits)
  qed (auto simp: backgroundRetryReady_def backgroundRetrySucceeded_def split: if_splits)
qed

text \<open>\<open>n\<close> failures in a row of one series, with the answers given.\<close>

primrec fail_times :: "nat \<Rightarrow> Series \<Rightarrow> Series \<times> (int \<times> State) list" where
  "fail_times 0 s = (s, [])"
| "fail_times (Suc n) s = (case SeriesFailure s of (s', ans) \<Rightarrow>
     (case fail_times n s' of (s'', answers) \<Rightarrow> (s'', ans # answers)))"

lemma fail_deferred:
  "seState s = FailedDeferred \<Longrightarrow> fail_times n s = (s, replicate n (0, FailedDeferred))"
  by (induction n) (simp_all add: SeriesFailure_def)

lemma fail_times_Suc:
  "snd (fail_times (Suc n) s) = snd (SeriesFailure s) # snd (fail_times n (fst (SeriesFailure s)))"
  by (simp split: prod.splits)

text \<open>The answer to the failure after \<open>i\<close> earlier ones.\<close>

definition answer :: "nat \<Rightarrow> int \<times> State" where
  "answer i = (if i < 5 then (int i + 1, Waiting) else (0, FailedDeferred))"

lemma fail_times_answers:
  "seRetries t = int k \<Longrightarrow> seState t \<noteq> FailedDeferred \<Longrightarrow> k \<le> 5 \<Longrightarrow>
   snd (fail_times n t) = map answer [k..<k + n]"
proof (induction n arbitrary: t k)
  case 0
  then show ?case by simp
next
  case (Suc n)
  have upt: "[k..<k + Suc n] = k # [Suc k..<Suc k + n]" by (simp add: upt_rec)
  show ?case
  proof (cases "k < 5")
    case True
    let ?t = "t\<lparr>seRetries := seRetries t + 1, seState := Waiting\<rparr>"
    have "SeriesFailure t = (?t, int k + 1, Waiting)"
      using Suc.prems True by (simp add: SeriesFailure_def MaxRetries_def)
    moreover have "snd (fail_times n ?t) = map answer [Suc k..<Suc k + n]"
      using Suc.prems True by (intro Suc.IH) simp_all
    ultimately show ?thesis
      unfolding fail_times_Suc upt using True by (simp add: answer_def)
  next
    case False
    with Suc.prems have k: "k = 5" by simp
    let ?t = "t\<lparr>seState := FailedDeferred\<rparr>"
    have "SeriesFailure t = (?t, 0, FailedDeferred)"
      using Suc.prems k by (simp add: SeriesFailure_def MaxRetries_def)
    moreover have "map answer [Suc k..<Suc k + n] = replicate n (0, FailedDeferred)"
      using k by (intro nth_equalityI) (simp_all add: answer_def)
    ultimately show ?thesis
      unfolding fail_times_Suc upt using k
      by (simp add: fail_deferred) (simp add: answer_def)
  qed
qed

section \<open>Properties\<close>

text \<open>A series grants five retries and no more.  Any number of failures after a reset are
  answered by the retries 1 to 5 and then by \<open>FailedDeferred\<close> for ever; and every delay lies between
  its base of 1, 2, 4, 8 or 16 seconds and a quarter more, while any other retry number is refused.\<close>

theorem five_retries_then_deferred:
  assumes "\<forall>n>0. 0 \<le> rnd n \<and> rnd n < n"
  shows "snd (fail_times n (SeriesReset s)) =
           map (\<lambda>i. if i < 5 then (int i + 1, Waiting) else (0, FailedDeferred)) [0..<n] \<and>
         (Delay rnd r draw = None \<longleftrightarrow> r < 1 \<or> 5 < r) \<and>
         (\<forall>d. Delay rnd r draw = Some d \<longrightarrow>
            second * 2 ^ nat (r - 1) \<le> d \<and> 4 * d \<le> 5 * (second * 2 ^ nat (r - 1)) \<and> d \<le> 20 * second)"
proof (intro conjI allI impI)
  show "snd (fail_times n (SeriesReset s)) =
      map (\<lambda>i. if i < 5 then (int i + 1, Waiting) else (0, FailedDeferred)) [0..<n]"
    using fail_times_answers [of "SeriesReset s" 0 n] by (simp add: SeriesReset_def answer_def)
  show "Delay rnd r draw = None \<longleftrightarrow> r < 1 \<or> 5 < r"
    by (auto simp: Delay_def MaxRetries_def Let_def)
next
  fix d assume d: "Delay rnd r draw = Some d"
  then have r: "1 \<le> r" "r \<le> 5" by (auto simp: Delay_def MaxRetries_def split: if_splits)
  have b: "second * 2 ^ nat (r - 1) \<le> d \<and> 4 * d \<le> 5 * (second * 2 ^ nat (r - 1))"
    using assms by (intro Delay_bounds [OF d]) blast
  then show "second * 2 ^ nat (r - 1) \<le> d" "4 * d \<le> 5 * (second * 2 ^ nat (r - 1))" by blast+
  with power_retry [OF r] show "d \<le> 20 * second" by (auto simp: second_def)
qed

theorem five_retries_then_deferred_witness:
  "snd (fail_times 7 zero_series) = [(1, Waiting), (2, Waiting), (3, Waiting), (4, Waiting),
     (5, Waiting), (0, FailedDeferred), (0, FailedDeferred)]"
proof -
  have z: "SeriesReset zero_series = zero_series" by (simp add: SeriesReset_def zero_series_def)
  have "\<forall>n>0. 0 \<le> (0 :: int) \<and> 0 < (n :: int)" by simp
  from five_retries_then_deferred [OF this, of 7 zero_series 1 None] show ?thesis
    by (simp add: z upt_rec)
qed

text \<open>In every reachable state of a background cache an attempt is made only once its time has
  come, the series never counts beyond five, and after a failed attempt the next one is at least a
  second and at most 20 seconds away while retries remain, and a whole deferral away afterwards.\<close>

theorem cache_attempts_are_spaced:
  assumes "reachable rnd deferFor (c, now)" and "cache_step rnd deferFor (c, now) (Failed st) (c', now')"
    and "\<forall>n>0. 0 \<le> rnd n \<and> rnd n < n" and "0 < deferFor"
  shows "snd c \<le> now' \<and> 0 \<le> seRetries (fst c') \<and> seRetries (fst c') \<le> MaxRetries \<and>
         (st = Waiting \<and> second \<le> snd c' - now' \<and> snd c' - now' \<le> 20 * second \<or>
          st = FailedDeferred \<and> snd c' = now' + deferFor)"
proof -
  from assms(2) obtain c1 where r: "backgroundRetryReady c now' = (c1, True)"
    and f: "backgroundRetryFailed rnd c1 now' deferFor = (c', st)"
    by (auto elim: cache_stepE)
  have "reachable rnd deferFor (c', now')" using assms(1,2) by (rule reachable.step)
  from reachable_good [OF this] have g': "good_series (fst c')" by simp
  have g1: "good_series (fst c1)"
    using reachable_good [OF assms(1)] r by (auto simp: backgroundRetryReady_def split: if_splits)
  have early: "snd c \<le> now'" using r by (auto simp: backgroundRetryReady_def split: if_splits)
  obtain s retry st' where sf: "SeriesFailure (fst c1) = (s, retry, st')" by (metis prod_cases3)
  show ?thesis
  proof (cases "st' = Waiting")
    case True
    with sf g1 have rt: "1 \<le> retry" "retry \<le> 5"
      by (auto simp: SeriesFailure_def good_series_def MaxRetries_def split: if_splits)
    then obtain d where d: "Delay rnd retry None = Some d"
      by (cases "Delay rnd retry None") (auto simp: Delay_def MaxRetries_def Let_def)
    have "second * 2 ^ nat (retry - 1) \<le> d" "4 * d \<le> 5 * (second * 2 ^ nat (retry - 1))"
      using Delay_bounds [OF d] assms(3) by blast+
    with power_retry [OF rt] have "second \<le> d" "d \<le> 20 * second" by (auto simp: second_def)
    with True sf f d early g' show ?thesis
      by (auto simp: backgroundRetryFailed_def good_series_def)
  next
    case False
    with sf have "st' = FailedDeferred" by (auto simp: SeriesFailure_def split: if_splits)
    with sf f early g' assms(4) show ?thesis
      by (auto simp: backgroundRetryFailed_def good_series_def)
  qed
qed

theorem cache_attempts_are_spaced_witness:
  "\<exists>c'. cache_step (\<lambda>n. 0) second ((zero_series, 0), 0) (Failed Waiting) (c', 5) \<and>
        second \<le> snd c' - 5"
proof -
  obtain c' st where f: "backgroundRetryFailed (\<lambda>n. 0) (zero_series, 0) 5 second = (c', st)"
    by fastforce
  then have st: "st = Waiting"
    by (auto simp: backgroundRetryFailed_def SeriesFailure_def zero_series_def MaxRetries_def)
  have s: "cache_step (\<lambda>n. 0) second ((zero_series, 0), 0) (Failed Waiting) (c', 5)"
    using f st by (intro cache_step.failure [where c' = "(zero_series, 0)"])
      (simp_all add: backgroundRetryReady_def zero_series_def)
  have "reachable (\<lambda>n. 0) second ((zero_series, 0), 0)" by (rule reachable.start) simp
  from cache_attempts_are_spaced [OF this s] have "second \<le> snd c' - 5" by (simp add: second_def)
  with s show ?thesis by blast
qed

end
