(* ===== verification/Governor.thy ===== *)
theory Governor
  imports Float64 "HOL-Library.Word"
begin

text \<open>
  The resource governor, \<open>src/cmd/csx-server/governor.go\<close>, with the host reading of
  \<open>src/internal/hostpressure/steal.go\<close>: what is shed when the database pool refuses interactive reads
  or the hypervisor withholds CPU, and how it is put back.  The cumulative counters are 64-bit words,
  the rates rounded rationals.  The pool, the host sampler and the Builder's pause lease are
  interfaces of the code: their answers are inputs of a tick, an error being its message.
\<close>

section \<open>Pool counters (serverstore/pool.go)\<close>

type_synonym u64 = "64 word"

record ClassPoolStats =
  cpClass :: string
  cpLimit :: int
  cpInUse :: int
  cpAttempts :: u64
  cpFirst :: u64
  cpRetries :: u64
  cpFollowups :: u64
  cpAcquired :: u64
  cpWaited :: u64
  cpWaitTotal :: int
  cpWaitMax :: int
  cpBusy :: u64
  cpSuppressed :: u64
  cpCanceled :: u64
  cpFailed :: u64
  cpTimeouts :: u64

record PoolStats =
  psEnabled :: bool
  psMaxConns :: int
  psOpen :: int
  psInUse :: int
  psIdle :: int
  psClasses :: "ClassPoolStats list"

definition zero_class :: ClassPoolStats where
  "zero_class = \<lparr>cpClass = [], cpLimit = 0, cpInUse = 0, cpAttempts = 0, cpFirst = 0, cpRetries = 0,
     cpFollowups = 0, cpAcquired = 0, cpWaited = 0, cpWaitTotal = 0, cpWaitMax = 0, cpBusy = 0,
     cpSuppressed = 0, cpCanceled = 0, cpFailed = 0, cpTimeouts = 0\<rparr>"

definition zero_pool :: PoolStats where
  "zero_pool = \<lparr>psEnabled = False, psMaxConns = 0, psOpen = 0, psInUse = 0, psIdle = 0, psClasses = []\<rparr>"

section \<open>Host steal (steal.go)\<close>

record procStatSample =
  pssStealTicks :: u64
  pssTotalTicks :: u64

definition stealPercent :: "procStatSample \<Rightarrow> procStatSample \<Rightarrow> rat" where
  "stealPercent prev cur =
     (if pssTotalTicks cur \<le> pssTotalTicks prev \<or> pssStealTicks cur < pssStealTicks prev then 0
      else
        let deltaSteal = pssStealTicks cur - pssStealTicks prev;
            deltaTotal = pssTotalTicks cur - pssTotalTicks prev
        in f_mul (f_div (f_of_int (uint deltaSteal)) (f_of_int (uint deltaTotal))) 100)"

record Reading =
  rdStealPercent :: rat
  rdLoadAvg1 :: rat

definition zero_reading :: Reading where
  "zero_reading = \<lparr>rdStealPercent = 0, rdLoadAvg1 = 0\<rparr>"

section \<open>The policy (governor.go)\<close>

record governorThresholds =
  gtInteractiveRefusalRate :: rat
  gtHostStealPercent :: rat

definition defaultGovernorThresholds :: governorThresholds where
  "defaultGovernorThresholds = \<lparr>gtInteractiveRefusalRate = fl (10 / 100), gtHostStealPercent = 20\<rparr>"

datatype reason = reasonNone | reasonInteractivePoolPressure | reasonHostCPUSteal

record governorDecision =
  gdPauseBuilder :: bool
  gdPauseFarmIngest :: bool
  gdReason :: reason

definition zero_decision :: governorDecision where
  "zero_decision = \<lparr>gdPauseBuilder = False, gdPauseFarmIngest = False, gdReason = reasonNone\<rparr>"

definition class_refuses :: "rat \<Rightarrow> ClassPoolStats \<Rightarrow> bool" where
  "class_refuses rate c \<longleftrightarrow>
     \<not> (cpClass c \<noteq> ''interactive'' \<or> cpAttempts c = 0) \<and>
     rate \<le> f_div (f_of_int (uint (cpBusy c))) (f_of_int (uint (cpAttempts c)))"

definition decide :: "PoolStats \<Rightarrow> Reading \<Rightarrow> governorThresholds \<Rightarrow> governorDecision" where
  "decide stats host th =
     (if list_ex (class_refuses (gtInteractiveRefusalRate th)) (psClasses stats) then
        \<lparr>gdPauseBuilder = True, gdPauseFarmIngest = True, gdReason = reasonInteractivePoolPressure\<rparr>
      else if gtHostStealPercent th \<le> rdStealPercent host then
        \<lparr>gdPauseBuilder = True, gdPauseFarmIngest = False, gdReason = reasonHostCPUSteal\<rparr>
      else zero_decision)"

definition monotoneDelta :: "u64 \<Rightarrow> u64 \<Rightarrow> u64" where
  "monotoneDelta prev cur = (if cur < prev then 0 else cur - prev)"

text \<open>The map \<open>before\<close>: the last entry of a class wins, a class without entry reads as zero.\<close>

definition before_class :: "ClassPoolStats list \<Rightarrow> string \<Rightarrow> ClassPoolStats" where
  "before_class cs name = (case find (\<lambda>c. cpClass c = name) (rev cs) of
     None \<Rightarrow> zero_class | Some c \<Rightarrow> c)"

definition class_window :: "ClassPoolStats \<Rightarrow> ClassPoolStats \<Rightarrow> ClassPoolStats" where
  "class_window p c = c\<lparr>
     cpAttempts := monotoneDelta (cpAttempts p) (cpAttempts c),
     cpBusy := monotoneDelta (cpBusy p) (cpBusy c),
     cpAcquired := monotoneDelta (cpAcquired p) (cpAcquired c),
     cpWaited := monotoneDelta (cpWaited p) (cpWaited c),
     cpSuppressed := monotoneDelta (cpSuppressed p) (cpSuppressed c),
     cpCanceled := monotoneDelta (cpCanceled p) (cpCanceled c),
     cpFailed := monotoneDelta (cpFailed p) (cpFailed c),
     cpTimeouts := monotoneDelta (cpTimeouts p) (cpTimeouts c)\<rparr>"

definition poolStatsWindow :: "PoolStats \<Rightarrow> PoolStats \<Rightarrow> PoolStats" where
  "poolStatsWindow prev cur = cur\<lparr>psClasses :=
     map (\<lambda>c. class_window (before_class (psClasses prev) (cpClass c)) c) (psClasses cur)\<rparr>"

definition interactiveWindow :: "PoolStats \<Rightarrow> ClassPoolStats" where
  "interactiveWindow stats = (case find (\<lambda>c. cpClass c = ''interactive'') (psClasses stats) of
     None \<Rightarrow> zero_class | Some c \<Rightarrow> c)"

section \<open>The loop (governor.go)\<close>

datatype logline =
    LogNoHost string
  | LogControl string string
  | LogPaused reason bool "int option" u64 u64
  | LogResumed reason int

record governor =
  gFarmConns :: int
  gThresholds :: governorThresholds
  gPrev :: PoolStats
  gHavePrev :: bool
  gState :: governorDecision
  gNeedResume :: bool
  gHostErrLogged :: string
  gCtrlErrLogged :: string

text \<open>\<open>newGovernor\<close> reads the ceiling to restore from the pool itself.\<close>

definition newGovernor :: "int \<Rightarrow> governor" where
  "newGovernor farmConns = \<lparr>gFarmConns = farmConns, gThresholds = defaultGovernorThresholds,
     gPrev = zero_pool, gHavePrev = False, gState = zero_decision, gNeedResume = True,
     gHostErrLogged = [], gCtrlErrLogged = []\<rparr>"

text \<open>
  The world of a tick: the pool's ceiling for Farm ingest and the pause flag of the Builder's lease.
  A control call that fails may or may not have reached the database: \<open>Fails msg landed\<close>.
\<close>

record world =
  wFarm :: int
  wPaused :: bool

datatype control = Succeeds | Fails string bool

fun control_error :: "control \<Rightarrow> string option" where
  "control_error Succeeds = None"
| "control_error (Fails msg landed) = Some msg"

fun control_landed :: "control \<Rightarrow> bool" where
  "control_landed Succeeds = True"
| "control_landed (Fails msg landed) = landed"

definition sampleHost :: "(string + Reading) option \<Rightarrow> governor \<Rightarrow> governor \<times> Reading \<times> logline list" where
  "sampleHost host g = (case host of
     None \<Rightarrow> (g, zero_reading, [])
   | Some (Inl msg) \<Rightarrow>
       if msg \<noteq> gHostErrLogged g then (g\<lparr>gHostErrLogged := msg\<rparr>, zero_reading, [LogNoHost msg])
       else (g, zero_reading, [])
   | Some (Inr r) \<Rightarrow> (g\<lparr>gHostErrLogged := []\<rparr>, r, []))"

definition logPauseError :: "string \<Rightarrow> string \<Rightarrow> governor \<Rightarrow> governor \<times> logline list" where
  "logPauseError action err g =
     (let msg = action @ '': '' @ err in
      if msg = gCtrlErrLogged g then (g, [])
      else (g\<lparr>gCtrlErrLogged := msg\<rparr>, [LogControl action err]))"

definition set_farm :: "governor \<Rightarrow> governorDecision \<Rightarrow> world \<Rightarrow> world" where
  "set_farm g d w = w\<lparr>wFarm := (if gdPauseFarmIngest d then 0 else gFarmConns g)\<rparr>"

text \<open>The Builder lever: re-asserted on every paused tick, released while a resume is owed.\<close>

definition builder_lever ::
  "control \<Rightarrow> governorDecision \<Rightarrow> governor \<Rightarrow> world \<Rightarrow> governor \<times> world \<times> logline list" where
  "builder_lever ctl d g w =
     (if gdPauseBuilder d then
        let w' = (if control_landed ctl then w\<lparr>wPaused := True\<rparr> else w);
            (g1, logs) = (case control_error ctl of
               Some err \<Rightarrow> logPauseError ''pause'' err g
             | None \<Rightarrow> (g\<lparr>gCtrlErrLogged := []\<rparr>, []))
        in (g1\<lparr>gNeedResume := True\<rparr>, w', logs)
      else if gNeedResume g then
        let w' = (if control_landed ctl then w\<lparr>wPaused := False\<rparr> else w) in
        case control_error ctl of
          Some err \<Rightarrow> (case logPauseError ''resume'' err g of (g1, logs) \<Rightarrow> (g1, w', logs))
        | None \<Rightarrow> (g\<lparr>gCtrlErrLogged := [], gNeedResume := False\<rparr>, w', [])
      else (g, w, []))"

definition transition_log :: "governor \<Rightarrow> governorDecision \<Rightarrow> PoolStats \<Rightarrow> governor \<times> logline list" where
  "transition_log g d window =
     (if d = gState g then (g, [])
      else
        let prev = gState g; g' = g\<lparr>gState := d\<rparr> in
        if gdReason d \<noteq> reasonNone then
          let i = interactiveWindow window in
          (g', [LogPaused (gdReason d) (gdPauseBuilder d)
                  (if gdPauseFarmIngest d then None else Some (gFarmConns g)) (cpBusy i) (cpAttempts i)])
        else (g', [LogResumed (gdReason prev) (gFarmConns g)]))"

definition apply_decision ::
  "control \<Rightarrow> governorDecision \<Rightarrow> PoolStats \<Rightarrow> governor \<Rightarrow> world \<Rightarrow> governor \<times> world \<times> logline list" where
  "apply_decision ctl d window g w =
     (let w1 = set_farm g d w;
          (g1, w2, logs1) = builder_lever ctl d g w1;
          (g2, logs2) = transition_log g1 d window
      in (g2, w2, logs1 @ logs2))"

definition tick ::
  "PoolStats \<Rightarrow> (string + Reading) option \<Rightarrow> control \<Rightarrow> governor \<Rightarrow> world \<Rightarrow>
   governor \<times> world \<times> governorDecision \<times> logline list" where
  "tick cur host ctl g w =
     (let window = (if gHavePrev g then poolStatsWindow (gPrev g) cur else zero_pool);
          g1 = g\<lparr>gPrev := cur, gHavePrev := True\<rparr>;
          (g2, reading, logs1) = sampleHost host g1;
          d = decide window reading (gThresholds g2);
          (g3, w', logs2) = apply_decision ctl d window g2 w
      in (g3, w', d, logs1 @ logs2))"

section \<open>Reachable states\<close>

text \<open>
  The process starts with the pool's own ceiling in force and with a pause flag that a predecessor
  may have left set; then any pool counters, host readings and control outcomes may follow.
\<close>

inductive gov_reach :: "int \<Rightarrow> governor \<times> world \<Rightarrow> bool" for n where
  boot: "gov_reach n (newGovernor n, \<lparr>wFarm = n, wPaused = left_paused\<rparr>)"
| ticks: "gov_reach n (g, w) \<Longrightarrow> tick cur host ctl g w = (g', w', d, logs) \<Longrightarrow> gov_reach n (g', w')"

definition gov_inv :: "int \<Rightarrow> governor \<times> world \<Rightarrow> bool" where
  "gov_inv n gw = (case gw of (g, w) \<Rightarrow>
     gFarmConns g = n \<and> gThresholds g = defaultGovernorThresholds \<and>
     (wPaused w \<longrightarrow> gNeedResume g) \<and>
     wFarm w = (if gdPauseFarmIngest (gState g) then 0 else n))"

lemma sampleHost_keeps:
  assumes "sampleHost host g = (g', r, logs)"
  shows "gFarmConns g' = gFarmConns g \<and> gThresholds g' = gThresholds g \<and> gState g' = gState g \<and>
         gNeedResume g' = gNeedResume g"
  using assms by (auto simp: sampleHost_def split: option.splits sum.splits if_splits)

lemma logPauseError_keeps:
  assumes "logPauseError a e g = (g', logs)"
  shows "gFarmConns g' = gFarmConns g \<and> gThresholds g' = gThresholds g \<and> gState g' = gState g \<and>
         gNeedResume g' = gNeedResume g"
  using assms by (auto simp: logPauseError_def Let_def split: if_splits)

lemma builder_lever_spec:
  assumes "builder_lever ctl d g w = (g', w', logs)"
  shows "gFarmConns g' = gFarmConns g \<and> gThresholds g' = gThresholds g \<and> gState g' = gState g \<and>
         wFarm w' = wFarm w \<and>
         gNeedResume g' = (gdPauseBuilder d \<or> gNeedResume g \<and> ctl \<noteq> Succeeds) \<and>
         (wPaused w' \<longrightarrow> gdPauseBuilder d \<or> wPaused w \<and> \<not> (gNeedResume g \<and> ctl = Succeeds))"
proof (cases ctl)
  case Succeeds
  with assms show ?thesis by (auto simp: builder_lever_def Let_def split: if_splits)
next
  case (Fails msg landed)
  obtain g1 l1 where p: "logPauseError ''pause'' msg g = (g1, l1)" by fastforce
  obtain g2 l2 where r: "logPauseError ''resume'' msg g = (g2, l2)" by fastforce
  from Fails assms logPauseError_keeps [OF p] logPauseError_keeps [OF r] show ?thesis
    by (auto simp: builder_lever_def Let_def p r split: if_splits)
qed

lemma transition_log_spec:
  assumes "transition_log g d window = (g', logs)"
  shows "gFarmConns g' = gFarmConns g \<and> gThresholds g' = gThresholds g \<and> gState g' = d \<and>
         gNeedResume g' = gNeedResume g"
  using assms by (auto simp: transition_log_def Let_def split: if_splits)

text \<open>What one tick does, whatever the counters, readings and outcomes are.\<close>

lemma tick_spec:
  assumes "tick cur host ctl g w = (g', w', d, logs)"
  shows "gFarmConns g' = gFarmConns g \<and> gThresholds g' = gThresholds g \<and> gState g' = d \<and>
         gPrev g' = cur \<and> gHavePrev g' \<and>
         wFarm w' = (if gdPauseFarmIngest d then 0 else gFarmConns g) \<and>
         gNeedResume g' = (gdPauseBuilder d \<or> gNeedResume g \<and> ctl \<noteq> Succeeds) \<and>
         (wPaused w' \<longrightarrow> gdPauseBuilder d \<or> wPaused w \<and> \<not> (gNeedResume g \<and> ctl = Succeeds))"
proof -
  define window where "window = (if gHavePrev g then poolStatsWindow (gPrev g) cur else zero_pool)"
  define g1 where "g1 = g\<lparr>gPrev := cur, gHavePrev := True\<rparr>"
  obtain g2 reading l1 where s: "sampleHost host g1 = (g2, reading, l1)" by (metis prod_cases3)
  define dd where "dd = decide window reading (gThresholds g2)"
  obtain g3 w2 l2 where b: "builder_lever ctl dd g2 (set_farm g2 dd w) = (g3, w2, l2)"
    by (metis prod_cases3)
  obtain g4 l3 where t: "transition_log g3 dd window = (g4, l3)" by fastforce
  have eq: "g' = g4" "w' = w2" "d = dd"
    using assms unfolding tick_def Let_def window_def [symmetric] g1_def [symmetric] s prod.case
      dd_def [symmetric] apply_decision_def b t by simp_all
  have p2: "gPrev g2 = cur \<and> gHavePrev g2"
    using s by (auto simp: sampleHost_def g1_def split: option.splits sum.splits if_splits)
  have p3: "gPrev g3 = gPrev g2 \<and> gHavePrev g3 = gHavePrev g2"
    using b by (auto simp: builder_lever_def logPauseError_def Let_def split: if_splits option.splits prod.splits)
  have p4: "gPrev g4 = gPrev g3 \<and> gHavePrev g4 = gHavePrev g3"
    using t by (auto simp: transition_log_def Let_def split: if_splits)
  show ?thesis
    using sampleHost_keeps [OF s] builder_lever_spec [OF b] transition_log_spec [OF t] p2 p3 p4
    unfolding eq by (auto simp: set_farm_def g1_def)
qed

lemma gov_reach_inv: "gov_reach n gw \<Longrightarrow> gov_inv n gw"
proof (induction rule: gov_reach.induct)
  case (boot left_paused)
  then show ?case by (simp add: gov_inv_def newGovernor_def zero_decision_def)
next
  case (ticks g w cur host ctl g' w' d logs)
  from ticks(3) tick_spec [OF ticks(2)] show ?case by (auto simp: gov_inv_def)
qed

section \<open>Counters and rates\<close>

lemma uint_pos_iff: "x \<noteq> 0 \<longleftrightarrow> 0 < uint x" for x :: u64
  using uint_0_iff [of x] uint_ge_0 [of x] by (cases "x = 0") (simp, linarith)

lemma uint_monotoneDelta: "uint (monotoneDelta p c) = max 0 (uint c - uint p)"
proof (cases "c < p")
  case True
  then show ?thesis by (simp add: monotoneDelta_def word_less_def)
next
  case False
  then have "p \<le> c" by simp
  then have "uint (c - p) = uint c - uint p" by (simp add: uint_minus_simple_alt [THEN iffD1])
  with False show ?thesis by (simp add: monotoneDelta_def word_less_def)
qed

text \<open>The interface of a refusal rule: a share of busy answers that reaches a fraction.\<close>

lemma class_refuses_iff:
  assumes "uint (cpBusy c) \<le> uint (cpAttempts c)" and "uint (cpAttempts c) \<le> 2 ^ 48"
  shows "class_refuses (fl (10 / 100)) c \<longleftrightarrow>
     cpClass c = ''interactive'' \<and> cpAttempts c \<noteq> 0 \<and> uint (cpAttempts c) \<le> 10 * uint (cpBusy c)"
proof (cases "cpAttempts c = 0")
  case True
  then show ?thesis by (simp add: class_refuses_def)
next
  case False
  then have pos: "0 < uint (cpAttempts c)" by (simp only: uint_pos_iff)
  have small: "\<bar>uint (cpBusy c)\<bar> < 2 ^ 53" "\<bar>uint (cpAttempts c)\<bar> < 2 ^ 53"
    using assms uint_ge_0 [of "cpBusy c"] uint_ge_0 [of "cpAttempts c"] by simp_all
  then have "f_div (f_of_int (uint (cpBusy c))) (f_of_int (uint (cpAttempts c))) =
      fl (of_int (uint (cpBusy c)) / of_int (uint (cpAttempts c)))"
    by (simp only: f_of_int_exact f_div_def)
  moreover have "fl (10 / 100) = fl (of_int 1 / of_int 10)" by simp
  moreover have "fl (of_int 1 / of_int 10) \<le> fl (of_int (uint (cpBusy c)) / of_int (uint (cpAttempts c))) \<longleftrightarrow>
      1 * uint (cpAttempts c) \<le> uint (cpBusy c) * 10"
    using assms pos uint_ge_0 [of "cpBusy c"] by (intro fl_ratio_ge_iff) simp_all
  ultimately show ?thesis using False by (simp only: class_refuses_def) auto
qed

lemma stealPercent_range:
  assumes "uint (pssStealTicks cur - pssStealTicks prev) \<le> uint (pssTotalTicks cur - pssTotalTicks prev)"
  shows "0 \<le> stealPercent prev cur \<and> stealPercent prev cur \<le> 100"
proof (cases "pssTotalTicks cur \<le> pssTotalTicks prev \<or> pssStealTicks cur < pssStealTicks prev")
  case True
  then show ?thesis by (simp add: stealPercent_def)
next
  case False
  define s t where "s = f_of_int (uint (pssStealTicks cur - pssStealTicks prev))"
    and "t = f_of_int (uint (pssTotalTicks cur - pssTotalTicks prev))"
  have "0 \<le> a \<Longrightarrow> 0 \<le> f_of_int a" "a \<le> b \<Longrightarrow> f_of_int a \<le> f_of_int b" for a b
    by (simp_all add: f_of_int_def fl_nonneg fl_mono)
  then have st: "0 \<le> s" "s \<le> t"
    unfolding s_def t_def using assms uint_ge_0 by blast+
  then have "s / t \<le> 1" by (cases "t = 0") (simp_all add: divide_le_eq)
  then have q: "0 \<le> f_div s t" "f_div s t \<le> 1"
    using st by (simp_all add: f_div_def fl_nonneg fl_le_1)
  have "fl (f_div s t * 100) \<le> fl (of_int 100)" using q by (intro fl_mono) simp
  also have "\<dots> = of_int 100" by (rule fl_of_int) simp
  finally have "f_mul (f_div s t) 100 \<le> 100" by (simp add: f_mul_def)
  moreover have "0 \<le> f_mul (f_div s t) 100" using q by (simp add: f_mul_def fl_nonneg)
  moreover have "stealPercent prev cur = f_mul (f_div s t) 100"
    using False by (simp add: stealPercent_def Let_def s_def t_def)
  ultimately show ?thesis by simp
qed

section \<open>Properties\<close>

text \<open>C20: the governor never forgets a pause.  In every reachable state a Builder that is still
  paused has a resume owed to it, and the Farm ceiling is 0 while the decision in force sheds Farm
  and the pool's own ceiling otherwise, whatever calls failed or landed unseen.\<close>

theorem governor_owes_every_resume:
  assumes "gov_reach n (g, w)"
  shows "(wPaused w \<longrightarrow> gNeedResume g) \<and> wFarm w = (if gdPauseFarmIngest (gState g) then 0 else n)"
  using gov_reach_inv [OF assms] by (simp add: gov_inv_def)

theorem governor_owes_every_resume_witness:
  "gNeedResume (newGovernor 4)"
  using governor_owes_every_resume [OF gov_reach.boot, of 4 True] by simp

text \<open>Background work resumes without an operator.  From any reachable state, a tick whose
  decision pauses nothing and whose resume call succeeds (or was not owed) leaves the Builder running,
  the ceiling restored and nothing owed; and it stays so through any number of further such decisions,
  even if control calls fail meanwhile.\<close>

primrec clean_run :: "(PoolStats \<times> (string + Reading) option \<times> control) list \<Rightarrow> governor \<times> world \<Rightarrow> (governor \<times> world) option" where
  "clean_run [] gw = Some gw"
| "clean_run (x # xs) gw = (case x of (cur, host, ctl) \<Rightarrow>
     (case tick cur host ctl (fst gw) (snd gw) of (g', w', d, logs) \<Rightarrow>
        if d = zero_decision then clean_run xs (g', w') else None))"

lemma clean_run_running:
  "\<not> wPaused w \<Longrightarrow> \<not> gNeedResume g \<Longrightarrow> gFarmConns g = n \<Longrightarrow> wFarm w = n \<Longrightarrow>
   clean_run xs (g, w) = Some (g', w') \<Longrightarrow> \<not> wPaused w' \<and> \<not> gNeedResume g' \<and> wFarm w' = n"
proof (induction xs arbitrary: g w)
  case Nil
  then show ?case by simp
next
  case (Cons x xs)
  obtain cur host ctl where x: "x = (cur, host, ctl)" by (metis prod_cases3)
  obtain g1 w1 d logs where t: "tick cur host ctl g w = (g1, w1, d, logs)" by (metis prod_cases4)
  from Cons.prems(5) x t have d: "d = zero_decision" and run: "clean_run xs (g1, w1) = Some (g', w')"
    by (auto split: if_splits)
  from tick_spec [OF t] Cons.prems d have "\<not> wPaused w1" "\<not> gNeedResume g1" "gFarmConns g1 = n" "wFarm w1 = n"
    by (auto simp: zero_decision_def)
  from Cons.IH [OF this run] show ?case .
qed

theorem governor_resumes_by_itself:
  assumes "gov_reach n (g, w)"
    and "tick cur host Succeeds g w = (g1, w1, zero_decision, logs)"
    and "clean_run xs (g1, w1) = Some (g2, w2)"
  shows "\<not> wPaused w2 \<and> \<not> gNeedResume g2 \<and> wFarm w2 = n"
proof -
  have inv: "gFarmConns g = n" "wPaused w \<longrightarrow> gNeedResume g"
    using gov_reach_inv [OF assms(1)] by (simp_all add: gov_inv_def)
  with tick_spec [OF assms(2)] have "\<not> wPaused w1" "\<not> gNeedResume g1" "gFarmConns g1 = n" "wFarm w1 = n"
    by (auto simp: zero_decision_def)
  from clean_run_running [OF this assms(3)] show ?thesis .
qed

theorem governor_resumes_by_itself_witness:
  "\<exists>g1 w1 logs. tick zero_pool None Succeeds (newGovernor 4) \<lparr>wFarm = 4, wPaused = True\<rparr> =
      (g1, w1, zero_decision, logs) \<and> \<not> wPaused w1 \<and> wFarm w1 = 4"
proof -
  have "fst (snd (snd (tick zero_pool None Succeeds (newGovernor 4) \<lparr>wFarm = 4, wPaused = True\<rparr>))) =
      zero_decision"
    by (simp add: tick_def newGovernor_def sampleHost_def decide_def zero_pool_def zero_reading_def
        defaultGovernorThresholds_def Let_def split: prod.splits)
  then obtain g1 w1 logs where t: "tick zero_pool None Succeeds (newGovernor 4)
      \<lparr>wFarm = 4, wPaused = True\<rparr> = (g1, w1, zero_decision, logs)"
    by (metis prod_cases4 fst_conv snd_conv)
  from governor_resumes_by_itself [OF gov_reach.boot t, of "[]"] t show ?thesis by simp
qed

text \<open>What is shed is a matter of the last interval's counts.  For a window of cumulative 64-bit
  counters, Farm ingest is shed exactly when some interactive class refused at least a tenth of its
  attempts during the window, where a counter that moved backwards counts as zero and never wraps.\<close>

theorem farm_is_shed_on_a_tenth_refused:
  assumes "list_all (\<lambda>c. let p = before_class (psClasses prev) (cpClass c) in
       max 0 (uint (cpBusy c) - uint (cpBusy p)) \<le> max 0 (uint (cpAttempts c) - uint (cpAttempts p)) \<and>
       uint (cpAttempts c) \<le> 2 ^ 48) (psClasses cur)"
  shows "gdPauseFarmIngest (decide (poolStatsWindow prev cur) host defaultGovernorThresholds) \<longleftrightarrow>
     list_ex (\<lambda>c. let p = before_class (psClasses prev) (cpClass c);
         attempts = max 0 (uint (cpAttempts c) - uint (cpAttempts p));
         busy = max 0 (uint (cpBusy c) - uint (cpBusy p))
       in cpClass c = ''interactive'' \<and> 0 < attempts \<and> attempts \<le> 10 * busy) (psClasses cur)"
proof -
  have one: "class_refuses (fl (10 / 100)) (class_window p c) \<longleftrightarrow>
      cpClass c = ''interactive'' \<and> 0 < max 0 (uint (cpAttempts c) - uint (cpAttempts p)) \<and>
      max 0 (uint (cpAttempts c) - uint (cpAttempts p)) \<le> 10 * max 0 (uint (cpBusy c) - uint (cpBusy p))"
    if "max 0 (uint (cpBusy c) - uint (cpBusy p)) \<le> max 0 (uint (cpAttempts c) - uint (cpAttempts p))"
      "uint (cpAttempts c) \<le> 2 ^ 48" for p c
  proof -
    let ?w = "class_window p c"
    have u: "uint (cpBusy ?w) = max 0 (uint (cpBusy c) - uint (cpBusy p))"
      "uint (cpAttempts ?w) = max 0 (uint (cpAttempts c) - uint (cpAttempts p))" "cpClass ?w = cpClass c"
      by (simp_all add: class_window_def uint_monotoneDelta)
    have "cpAttempts ?w \<noteq> 0 \<longleftrightarrow> 0 < uint (cpAttempts ?w)"
      by (rule uint_pos_iff)
    moreover have "uint (cpAttempts ?w) \<le> 2 ^ 48"
      unfolding u using that(2) uint_ge_0 [of "cpAttempts p"] uint_ge_0 [of "cpAttempts c"] by linarith
    ultimately show ?thesis using class_refuses_iff [of ?w] that(1) by (simp add: u)
  qed
  have "gdPauseFarmIngest (decide (poolStatsWindow prev cur) host defaultGovernorThresholds) \<longleftrightarrow>
      list_ex (class_refuses (fl (10 / 100))) (psClasses (poolStatsWindow prev cur))"
    by (simp add: decide_def defaultGovernorThresholds_def zero_decision_def)
  also have "\<dots> \<longleftrightarrow> list_ex (\<lambda>c. class_refuses (fl (10 / 100))
      (class_window (before_class (psClasses prev) (cpClass c)) c)) (psClasses cur)"
    by (simp add: poolStatsWindow_def list_ex_iff)
  also have "\<dots> \<longleftrightarrow> list_ex (\<lambda>c. let p = before_class (psClasses prev) (cpClass c);
         attempts = max 0 (uint (cpAttempts c) - uint (cpAttempts p));
         busy = max 0 (uint (cpBusy c) - uint (cpBusy p))
       in cpClass c = ''interactive'' \<and> 0 < attempts \<and> attempts \<le> 10 * busy) (psClasses cur)"
    using assms one unfolding list_ex_iff list_all_iff Let_def by (intro bex_cong) blast+
  finally show ?thesis .
qed

theorem farm_is_shed_on_a_tenth_refused_witness:
  "gdPauseFarmIngest (decide (poolStatsWindow
     (zero_pool\<lparr>psClasses := [zero_class\<lparr>cpClass := ''interactive'', cpAttempts := 100, cpBusy := 50\<rparr>]\<rparr>)
     (zero_pool\<lparr>psClasses := [zero_class\<lparr>cpClass := ''interactive'', cpAttempts := 110, cpBusy := 51\<rparr>]\<rparr>))
     zero_reading defaultGovernorThresholds)"
  using farm_is_shed_on_a_tenth_refused [of
     "zero_pool\<lparr>psClasses := [zero_class\<lparr>cpClass := ''interactive'', cpAttempts := 100, cpBusy := 50\<rparr>]\<rparr>"
     "zero_pool\<lparr>psClasses := [zero_class\<lparr>cpClass := ''interactive'', cpAttempts := 110, cpBusy := 51\<rparr>]\<rparr>"
     zero_reading]
  by (simp add: zero_pool_def zero_class_def before_class_def)

end
