(* ===== verification/DemandClassify.thy ===== *)
theory DemandClassify
  imports Prelude
begin

text \<open>
  The classification of one request for the demand telemetry:
  \<open>src/internal/apidemand/classify.go\<close>.  The two anchored regular expressions are read off as
  deterministic matchers: every repeated character class is followed by a byte outside the class, so
  the match of a class is the longest run of it.  Loops over runes are loops over bytes, because every
  byte of a rune outside ASCII is rejected like the rune.  A request is the record of the header and
  cookie values the code reads; SHA-256 in hexadecimal is the argument \<open>sha\<close>.
\<close>

section \<open>The client token\<close>

definition token_char :: "char \<Rightarrow> bool" where
  "token_char r \<longleftrightarrow> is_digit r \<or> is_lower r \<or> is_upper r \<or> r \<in> {CHR ''.'', CHR ''-'', CHR ''+''}"

definition alpha_char :: "char \<Rightarrow> bool" where
  "alpha_char r \<longleftrightarrow> is_lower r \<or> is_upper r"

text \<open>The loop of \<open>sanitizeToken\<close> and \<open>sanitizeAlpha\<close>: \<open>b\<close> is the builder.\<close>

fun sanitize_loop :: "(char \<Rightarrow> bool) \<Rightarrow> nat \<Rightarrow> string \<Rightarrow> string \<Rightarrow> string" where
  "sanitize_loop ok limit b [] = b"
| "sanitize_loop ok limit b (r # raw) =
     (if limit \<le> length b then b
      else sanitize_loop ok limit (if ok r then b @ [r] else b) raw)"

definition sanitizeToken :: "string \<Rightarrow> nat \<Rightarrow> string" where
  "sanitizeToken raw limit = sanitize_loop token_char limit [] raw"

definition sanitizeAlpha :: "string \<Rightarrow> nat \<Rightarrow> string" where
  "sanitizeAlpha raw limit = sanitize_loop alpha_char limit [] raw"

definition UserAgentPrefix :: string where
  "UserAgentPrefix = ''csx/''"

definition UserAgent :: "string \<Rightarrow> string \<Rightarrow> string \<Rightarrow> string" where
  "UserAgent version surface protocol =
     (let version1 = sanitizeToken version 64;
          version2 = (if version1 = [] then ''unknown'' else version1);
          surface1 = ToLower (sanitizeAlpha surface 16);
          surface2 = (if surface1 = [] then ''csx'' else surface1);
          out = UserAgentPrefix @ version2 @ '' ('' @ surface2;
          protocol1 = sanitizeToken protocol 32;
          out1 = (if protocol1 \<noteq> [] then out @ ''; protocol='' @ protocol1 else out)
      in out1 @ '')'')"

definition eat :: "string \<Rightarrow> string \<Rightarrow> string option" where
  "eat p s = (if HasPrefix s p then Some (drop (length p) s) else None)"

text \<open>A class repeated 1 to \<open>n\<close> times and the rest of the text.\<close>

definition match_run :: "(char \<Rightarrow> bool) \<Rightarrow> nat \<Rightarrow> string \<Rightarrow> (string \<times> string) option" where
  "match_run p n s = (let a = takeWhile p s in
     if 1 \<le> length a \<and> length a \<le> n then Some (a, dropWhile p s) else None)"

definition protocol_char :: "char \<Rightarrow> bool" where
  "protocol_char r \<longleftrightarrow> is_digit r \<or> is_lower r \<or> is_upper r \<or> r \<in> {CHR ''.'', CHR ''-''}"

definition protocol_group :: "string \<Rightarrow> string option" where
  "protocol_group s = (case eat ''; protocol='' s of
     None \<Rightarrow> if HasPrefix s '')'' then Some [] else None
   | Some s1 \<Rightarrow> (case match_run protocol_char 32 s1 of
       None \<Rightarrow> None
     | Some (p, s2) \<Rightarrow> if HasPrefix s2 '')'' then Some p else None))"

definition userAgentPattern :: "string \<Rightarrow> (string \<times> string \<times> string) option" where
  "userAgentPattern s =
     Option.bind (eat ''csx/'' s) (\<lambda>s1.
     Option.bind (match_run token_char 64 s1) (\<lambda>(version, s2).
     Option.bind (eat '' ('' s2) (\<lambda>s3.
     Option.bind (match_run is_lower 16 s3) (\<lambda>(surface, s4).
     Option.bind (protocol_group s4) (\<lambda>protocol.
       Some (version, surface, protocol))))))"

record Client =
  clKind :: string
  clVersion :: string
  clProtocol :: string

definition ParseUserAgent :: "string \<Rightarrow> Client" where
  "ParseUserAgent ua0 =
     (let ua = TrimSpace ua0 in
      if ua = [] then \<lparr>clKind = ''none'', clVersion = [], clProtocol = []\<rparr>
      else case userAgentPattern ua of
        None \<Rightarrow> \<lparr>clKind = ''other'', clVersion = [], clProtocol = []\<rparr>
      | Some (version, surface, protocol) \<Rightarrow>
          \<lparr>clKind = (if surface \<in> {''cli'', ''mcp'', ''daemon''} then surface else ''csx''),
           clVersion = version, clProtocol = protocol\<rparr>)"

section \<open>Releases\<close>

record Release =
  rlMajor :: int
  rlMinor :: int
  rlPatch :: int

text \<open>The optional last group of \<open>versionPattern\<close> and the end of the text.\<close>

definition release_suffix :: "string \<Rightarrow> bool" where
  "release_suffix s = (case s of [] \<Rightarrow> True
     | c # rest \<Rightarrow> c \<in> {CHR ''.'', CHR ''-'', CHR ''+''} \<and> list_all token_char rest \<and> length rest \<le> 40)"

definition versionPattern :: "string \<Rightarrow> (string \<times> string \<times> string) option" where
  "versionPattern s =
     Option.bind (match_run is_digit 6 (TrimPrefix s ''v'')) (\<lambda>(major, s1).
     Option.bind (eat ''.'' s1) (\<lambda>s2.
     Option.bind (match_run is_digit 6 s2) (\<lambda>(minor, s3).
     Option.bind (eat ''.'' s3) (\<lambda>s4.
     Option.bind (match_run is_digit 6 s4) (\<lambda>(patch, s5).
       if release_suffix s5 then Some (major, minor, patch) else None)))))"

definition ParseRelease :: "string \<Rightarrow> Release option" where
  "ParseRelease version = (case versionPattern (TrimSpace version) of
     None \<Rightarrow> None
   | Some (a, b, c) \<Rightarrow> (case (Atoi a, Atoi b, Atoi c) of
       ((major, ok1), (minor, ok2), (patch, ok3)) \<Rightarrow>
         if \<not> ok1 \<or> \<not> ok2 \<or> \<not> ok3 then None
         else Some \<lparr>rlMajor = major, rlMinor = minor, rlPatch = patch\<rparr>))"

definition ReleaseLess :: "Release \<Rightarrow> Release \<Rightarrow> bool" where
  "ReleaseLess r o' =
     (if rlMajor r \<noteq> rlMajor o' then rlMajor r < rlMajor o'
      else if rlMinor r \<noteq> rlMinor o' then rlMinor r < rlMinor o'
      else rlPatch r < rlPatch o')"

section \<open>Country, outcome, caller, route\<close>

definition Country :: "string \<Rightarrow> string" where
  "Country raw0 = (let raw = ToUpper (TrimSpace raw0) in
     if \<not> (length raw = 2 \<and> list_all is_upper raw) then [] else raw)"

definition Outcome :: "int \<Rightarrow> string" where
  "Outcome status =
     (if status = 0 \<or> (200 \<le> status \<and> status < 400) then ''success''
      else if 400 \<le> status \<and> status < 500 then ''rejected''
      else ''failure'')"

record Request =
  rqAuthorization :: string
  rqAnonymousHeader :: string
  rqAnonymousCookie :: "string option"
  rqUserAgent :: string
  rqCountry :: string

record Identity =
  idAuth :: string
  idCallerHash :: string

text \<open>\<open>strings.Trim(s, cutset)\<close>.\<close>

definition Trim :: "string \<Rightarrow> string \<Rightarrow> string" where
  "Trim s cutset =
     rev (dropWhile (\<lambda>c. c \<in> set cutset) (rev (dropWhile (\<lambda>c. c \<in> set cutset) s)))"

definition validAnonymousID :: "string \<Rightarrow> bool" where
  "validAnonymousID i \<longleftrightarrow> length i = 64 \<and> Trim i ''0123456789abcdef'' = []"

definition anonymous_id :: "Request \<Rightarrow> string" where
  "anonymous_id r =
     (if validAnonymousID (rqAnonymousHeader r) then rqAnonymousHeader r
      else case rqAnonymousCookie r of
        Some v \<Rightarrow> if validAnonymousID v then v else []
      | None \<Rightarrow> [])"

definition Identify :: "(string \<Rightarrow> string) \<Rightarrow> Request \<Rightarrow> Identity" where
  "Identify sha r =
     (if rqAuthorization r \<noteq> [] then
        \<lparr>idAuth = ''authenticated'', idCallerHash = sha (''csx-demand-caller-v1|'' @ rqAuthorization r)\<rparr>
      else let i = anonymous_id r in
        if i = [] then \<lparr>idAuth = ''unidentified'', idCallerHash = []\<rparr>
        else \<lparr>idAuth = ''anonymous'', idCallerHash = sha (''csx-anonymous-v1|'' @ i)\<rparr>)"

definition route_char :: "char \<Rightarrow> bool" where
  "route_char r \<longleftrightarrow> \<not> ((r \<le> CHR '' '' \<and> r \<noteq> CHR '' '') \<or> CHR ''~'' < r)"

definition ValidRoute :: "string \<Rightarrow> bool" where
  "ValidRoute route =
     (if length route = 0 \<or> 96 < length route then False
      else case Cut route CHR '' '' of
        None \<Rightarrow> False
      | Some (method, path) \<Rightarrow>
          if method = [] \<or> \<not> HasPrefix path ''/'' then False
          else list_all route_char route)"

section \<open>Facts\<close>

lemma sanitize_loop_eq:
  "length b \<le> limit \<Longrightarrow> sanitize_loop ok limit b raw = b @ take (limit - length b) (filter ok raw)"
proof (induction raw arbitrary: b)
  case (Cons r raw)
  show ?case
  proof (cases "limit \<le> length b")
    case False
    then have "limit - length b = Suc (limit - Suc (length b))" by simp
    with False Cons.IH [of "b @ [r]"] Cons.IH [of b] Cons.prems show ?thesis by simp
  qed (use Cons.prems in simp)
qed simp

lemma sanitizeToken_eq: "sanitizeToken raw n = take n (filter token_char raw)"
  by (simp add: sanitizeToken_def sanitize_loop_eq)

lemma sanitizeAlpha_eq: "sanitizeAlpha raw n = take n (filter alpha_char raw)"
  by (simp add: sanitizeAlpha_def sanitize_loop_eq)

lemma match_run_append:
  assumes "list_all p a" "a \<noteq> []" "length a \<le> n" "s \<noteq> [] \<longrightarrow> \<not> p (hd s)"
  shows "match_run p n (a @ s) = Some (a, s)"
proof -
  have "takeWhile p (a @ s) = a" "dropWhile p (a @ s) = s"
    using assms by (cases s; simp add: list_all_iff takeWhile_append2 dropWhile_append2)+
  with assms show ?thesis by (cases a) (simp_all add: match_run_def)
qed

lemma eat_append [simp]: "eat p (p @ s) = Some s"
  by (simp add: eat_def)

lemma eat_Cons: "eat (p # ps) (c # s) = (if p = c then eat ps s else None)"
  by (simp add: eat_def HasPrefix_def)

lemma eat_mismatch: "p \<noteq> [] \<Longrightarrow> s \<noteq> [] \<Longrightarrow> hd p \<noteq> hd s \<Longrightarrow> eat p s = None"
  by (cases p; cases s) (auto simp: eat_Cons)

text \<open>Text that starts and ends with a printable ASCII byte has no space to trim.\<close>

definition visible :: "char \<Rightarrow> bool" where
  "visible c \<longleftrightarrow> CHR ''!'' \<le> c \<and> c \<le> CHR ''~''"

lemma space_seqs_invisible:
  "list_all (\<lambda>p. p \<noteq> [] \<and> \<not> visible (hd p)) space_seqs"
  "list_all (\<lambda>p. p \<noteq> [] \<and> \<not> visible (hd p)) (map rev space_seqs)"
  by code_simp+

lemma strip_visible:
  assumes "list_all (\<lambda>p. p \<noteq> [] \<and> \<not> visible (hd p)) seqs" "letter_free seqs" "visible (hd s)"
  shows "strip seqs s = s"
proof (rule strip_id, unfold space_len_0_iff [OF assms(2)], intro ballI notI)
  fix p assume p: "p \<in> set seqs" and "HasPrefix s p"
  then obtain r where "s = p @ r" by (auto simp: HasPrefix_iff)
  with p assms(1,3) show False by (cases p) (auto simp: list_all_iff)
qed

lemma TrimSpace_visible:
  assumes "s \<noteq> []" "visible (hd s)" "visible (last s)"
  shows "TrimSpace s = s"
  using assms
  by (simp add: TrimSpace_def strip_visible space_seqs_invisible letter_free_space_seqs hd_rev)

lemma userAgentPattern_token:
  assumes v: "list_all token_char v" "v \<noteq> []" "length v \<le> 64"
    and k: "list_all is_lower k" "k \<noteq> []" "length k \<le> 16"
    and r: "r \<noteq> []" "\<not> is_lower (hd r)"
  shows "userAgentPattern (''csx/'' @ v @ '' ('' @ k @ r) =
    map_option (\<lambda>p. (v, k, p)) (protocol_group r)"
proof -
  have "match_run token_char 64 (v @ '' ('' @ k @ r) = Some (v, '' ('' @ k @ r)"
    by (rule match_run_append [OF v])
      (simp add: token_char_def is_digit_def is_lower_def is_upper_def less_eq_char_def)
  moreover have "match_run is_lower 16 (k @ r) = Some (k, r)"
    by (rule match_run_append [OF k]) (use r in simp)
  ultimately show ?thesis
    by (simp add: userAgentPattern_def eat_append del: append.simps split: option.split)
      (simp add: option.map_comp map_option_case split: option.split)
qed

lemma protocol_group_close: "protocol_group '')'' = Some []"
  by (simp add: protocol_group_def eat_def HasPrefix_def)

lemma token_char_plus: "token_char c \<longleftrightarrow> protocol_char c \<or> c = CHR ''+''"
  by (auto simp: token_char_def protocol_char_def)

lemma close_not_in_class: "\<not> token_char CHR '')''" "\<not> is_lower CHR '')''" "\<not> is_lower CHR '';''"
  "\<not> protocol_char CHR ''+''" "\<not> protocol_char CHR '')''"
  by code_simp+

lemma protocol_group_token:
  assumes "list_all token_char p" "p \<noteq> []" "length p \<le> 32"
  shows "protocol_group (''; protocol='' @ p @ '')'') = (if CHR ''+'' \<in> set p then None else Some p)"
proof (cases "CHR ''+'' \<in> set p")
  case False
  with assms(1) have "list_all protocol_char p"
    by (auto simp: list_all_iff token_char_plus)
  then have "match_run protocol_char 32 (p @ '')'') = Some (p, '')'')"
    by (rule match_run_append) (use assms close_not_in_class in auto)
  with False show ?thesis by (simp add: protocol_group_def HasPrefix_def del: append.simps)
next
  case True
  then obtain a b where p: "p = a @ CHR ''+'' # b" and a: "CHR ''+'' \<notin> set a"
    by (meson split_list_first)
  with assms(1) have "\<forall>c\<in>set a. protocol_char c" by (auto simp: list_all_iff token_char_plus)
  then have "dropWhile protocol_char (p @ '')'') = CHR ''+'' # b @ '')''"
    using p close_not_in_class by (simp add: dropWhile_append2)
  then have "match_run protocol_char 32 (p @ '')'') = None \<or>
      (\<exists>q. match_run protocol_char 32 (p @ '')'') = Some (q, CHR ''+'' # b @ '')''))"
    by (simp add: match_run_def Let_def)
  with True show ?thesis
    by (auto simp: protocol_group_def HasPrefix_def eat_append simp del: append.simps)
qed

lemma sanitizeToken_class: "list_all token_char (sanitizeToken raw n)" "length (sanitizeToken raw n) \<le> n"
  by (auto simp: sanitizeToken_eq list_all_iff dest: in_set_takeD)

lemma sanitizeAlpha_class:
  "list_all is_lower (ToLower (sanitizeAlpha raw n))" "length (ToLower (sanitizeAlpha raw n)) \<le> n"
proof -
  have "is_lower (lower_byte c)" if "alpha_char c" for c
    using that lower_byte_letter [of c] by (auto simp: alpha_char_def lower_byte_def)
  then show "list_all is_lower (ToLower (sanitizeAlpha raw n))"
    by (auto simp: sanitizeAlpha_eq ToLower_def list_all_iff dest: in_set_takeD)
  show "length (ToLower (sanitizeAlpha raw n)) \<le> n"
    by (simp add: sanitizeAlpha_eq ToLower_def)
qed

lemma literal_tokens: "list_all token_char ''unknown''" "list_all is_lower ''csx''"
  "visible CHR ''c''" "visible CHR '')''"
  by code_simp+

text \<open>
  The server's parser reads back what a csx client sends.  For every version, surface and
  protocol the parsed client has the sanitized version (or \<open>unknown\<close>), the kind of the surface and
  the sanitized protocol, except when the protocol keeps a plus sign: the builder of the token lets it
  through, the pattern of the parser does not, and the client is counted as a foreign agent.
\<close>

theorem user_agent_roundtrip:
  "ParseUserAgent (UserAgent version surface protocol) =
     (let v = sanitizeToken version 64; k = ToLower (sanitizeAlpha surface 16);
          p = sanitizeToken protocol 32
      in if CHR ''+'' \<in> set p then \<lparr>clKind = ''other'', clVersion = [], clProtocol = []\<rparr>
         else \<lparr>clKind = (if k = ''cli'' \<or> k = ''mcp'' \<or> k = ''daemon'' then k else ''csx''),
               clVersion = (if v = [] then ''unknown'' else v), clProtocol = p\<rparr>)"
proof -
  define v where "v = (let v = sanitizeToken version 64 in if v = [] then ''unknown'' else v)"
  define k where "k = (let k = ToLower (sanitizeAlpha surface 16) in if k = [] then ''csx'' else k)"
  define p where "p = sanitizeToken protocol 32"
  define r where "r = (if p = [] then '')'' else ''; protocol='' @ p @ '')'')"
  have ua: "UserAgent version surface protocol = ''csx/'' @ v @ '' ('' @ k @ r"
    by (simp add: UserAgent_def Let_def v_def k_def p_def r_def UserAgentPrefix_def)
  have v: "list_all token_char v" "v \<noteq> []" "length v \<le> 64"
    using sanitizeToken_class [of version 64] literal_tokens by (auto simp: v_def Let_def)
  have k: "list_all is_lower k" "k \<noteq> []" "length k \<le> 16"
    using sanitizeAlpha_class [of surface 16] literal_tokens by (auto simp: k_def Let_def)
  have r: "r \<noteq> []" "\<not> is_lower (hd r)" and l: "last r = CHR '')''"
    using close_not_in_class by (simp_all add: r_def)
  have "TrimSpace (''csx/'' @ v @ '' ('' @ k @ r) = ''csx/'' @ v @ '' ('' @ k @ r"
    by (rule TrimSpace_visible) (use r l literal_tokens in simp_all)
  moreover have "protocol_group r = (if CHR ''+'' \<in> set p then None else Some p)"
    using protocol_group_token [of p] sanitizeToken_class [of protocol 32]
    by (simp add: r_def p_def protocol_group_close)
  ultimately show ?thesis
    using userAgentPattern_token [OF v k r]
    by (simp add: ParseUserAgent_def ua Let_def p_def [symmetric])
      (simp add: v_def k_def Let_def)
qed

text \<open>The order of releases is strict and total, so a client build is either stale or current.\<close>

interpretation release_order: strict_total ReleaseLess
proof unfold_locales
  fix x y :: Release
  assume "x \<noteq> y"
  then have "rlMajor x \<noteq> rlMajor y \<or> rlMinor x \<noteq> rlMinor y \<or> rlPatch x \<noteq> rlPatch y" by auto
  then show "ReleaseLess x y \<or> ReleaseLess y x" by (auto simp: ReleaseLess_def)
qed (auto simp: ReleaseLess_def split: if_splits)

end
