(* ===== verification/Demand.thy ===== *)
theory Demand
  imports DemandClassify
begin

text \<open>
  The demand telemetry: \<open>src/internal/apidemand/apidemand.go\<close> (histogram, hourly counts, batches),
  \<open>memstore.go\<close> (the in-memory store), \<open>collector.go\<close> (the bounded queue, the aggregating loop and
  its flushes) and the percentile of \<open>summary.go\<close>.

  Instants are integers in nanoseconds since the zero time, which is a multiple of an hour, so
  \<open>Truncate(time.Hour)\<close> rounds down to a multiple of an hour.  A UTC calendar day is its number: the
  four-digit-year layout \<open>2006-01-02\<close> gives distinct days distinct strings and orders them alike.
  Counters are \<open>int64\<close> and wrap; the collector's own counters are 64-bit words, as the atomics are.
\<close>

section \<open>Histogram and counts (apidemand.go)\<close>

definition LatencyBoundsMS :: "int list" where
  "LatencyBoundsMS = [10, 25, 50, 100, 250, 500, 1000, 2500, 5000]"

definition LatencyBuckets :: nat where
  "LatencyBuckets = length LatencyBoundsMS + 1"

fun bucket_loop :: "int \<Rightarrow> nat \<Rightarrow> int list \<Rightarrow> nat" where
  "bucket_loop latencyMS i [] = LatencyBuckets - 1"
| "bucket_loop latencyMS i (bound # bounds) =
     (if latencyMS \<le> bound then i else bucket_loop latencyMS (i + 1) bounds)"

definition LatencyBucket :: "int \<Rightarrow> nat" where
  "LatencyBucket latencyMS = bucket_loop latencyMS 0 LatencyBoundsMS"

record Observation =
  oAt :: int
  oRoute :: string
  oOutcome :: string
  oAuth :: string
  oCallerHash :: string
  oCountry :: string
  oClientKind :: string
  oClientVersion :: string
  oProtocol :: string
  oLatencyMS :: int

record HourlyKey =
  hkHour :: int
  hkRoute :: string
  hkOutcome :: string
  hkAuth :: string

record HourlyCounts =
  hcRequests :: int
  hcLatencySumMS :: int
  hcBuckets :: "int list"

definition zero_counts :: HourlyCounts where
  "zero_counts = \<lparr>hcRequests = 0, hcLatencySumMS = 0, hcBuckets = replicate LatencyBuckets 0\<rparr>"

definition add64 :: "int \<Rightarrow> int \<Rightarrow> int" where
  "add64 x y = wrap64 (x + y)"

definition HourlyCounts_Add :: "HourlyCounts \<Rightarrow> int \<Rightarrow> HourlyCounts" where
  "HourlyCounts_Add c latency =
     (let latencyMS = (if latency < 0 then 0 else latency); i = LatencyBucket latencyMS
      in c\<lparr>hcRequests := add64 (hcRequests c) 1,
           hcLatencySumMS := add64 (hcLatencySumMS c) latencyMS,
           hcBuckets := (hcBuckets c)[i := add64 (hcBuckets c ! i) 1]\<rparr>)"

definition HourlyCounts_Merge :: "HourlyCounts \<Rightarrow> HourlyCounts \<Rightarrow> HourlyCounts" where
  "HourlyCounts_Merge c o' =
     c\<lparr>hcRequests := add64 (hcRequests c) (hcRequests o'),
       hcLatencySumMS := add64 (hcLatencySumMS c) (hcLatencySumMS o'),
       hcBuckets := map2 add64 (hcBuckets c) (hcBuckets o')\<rparr>"

record ClientKey =
  ckDay :: int
  ckKind :: string
  ckVersion :: string
  ckProtocol :: string

record CountryKey =
  cyDay :: int
  cyCountry :: string

record CallerKey =
  clDay :: int
  clRoute :: string
  clCallerHash :: string

record Batch =
  bHourly :: "(HourlyKey, HourlyCounts) gomap"
  bClients :: "(ClientKey, int) gomap"
  bCountries :: "(CountryKey, int) gomap"
  bCallers :: "(CallerKey, int) gomap"

definition NewBatch :: Batch where
  "NewBatch = \<lparr>bHourly = [], bClients = [], bCountries = [], bCallers = []\<rparr>"

definition Batch_Empty :: "Batch \<Rightarrow> bool" where
  "Batch_Empty b \<longleftrightarrow> length (bHourly b) = 0 \<and> length (bClients b) = 0 \<and>
     length (bCountries b) = 0 \<and> length (bCallers b) = 0"

definition hour :: int where
  "hour = 3600000000000"

definition Truncate_hour :: "int \<Rightarrow> int" where
  "Truncate_hour t = t - t mod hour"

definition day_of :: "int \<Rightarrow> int" where
  "day_of t = t div (24 * hour)"

text \<open>\<open>m[k] += n\<close> on a map of counters.\<close>

definition bump :: "'k \<Rightarrow> int \<Rightarrow> ('k, int) gomap \<Rightarrow> ('k, int) gomap" where
  "bump k n m = AList.update k (add64 (get 0 m k) n) m"

definition hourly_key :: "Observation \<Rightarrow> HourlyKey" where
  "hourly_key o' = \<lparr>hkHour = Truncate_hour (oAt o'), hkRoute = oRoute o', hkOutcome = oOutcome o',
     hkAuth = oAuth o'\<rparr>"

definition Batch_Add :: "Batch \<Rightarrow> Observation \<Rightarrow> Batch" where
  "Batch_Add b o' =
     (let day = day_of (oAt o'); key = hourly_key o' in
      b\<lparr>bHourly := AList.update key
            (HourlyCounts_Add (get zero_counts (bHourly b) key) (oLatencyMS o')) (bHourly b),
        bClients := bump \<lparr>ckDay = day, ckKind = oClientKind o', ckVersion = oClientVersion o',
            ckProtocol = oProtocol o'\<rparr> 1 (bClients b),
        bCountries := bump \<lparr>cyDay = day, cyCountry = oCountry o'\<rparr> 1 (bCountries b),
        bCallers := (if oCallerHash o' \<noteq> []
            then bump \<lparr>clDay = day, clRoute = oRoute o', clCallerHash = oCallerHash o'\<rparr> 1 (bCallers b)
            else bCallers b)\<rparr>)"

section \<open>The in-memory store (memstore.go)\<close>

record MemoryStore =
  msHourly :: "(HourlyKey, HourlyCounts) gomap"
  msClients :: "(ClientKey, int) gomap"
  msCountries :: "(CountryKey, int) gomap"
  msCallers :: "(CallerKey, int) gomap"
  msFailWrites :: bool

definition empty_store :: MemoryStore where
  "empty_store = \<lparr>msHourly = [], msClients = [], msCountries = [], msCallers = [], msFailWrites = False\<rparr>"

definition upsert_hourly ::
  "HourlyKey \<times> HourlyCounts \<Rightarrow> (HourlyKey, HourlyCounts) gomap \<Rightarrow> (HourlyKey, HourlyCounts) gomap" where
  "upsert_hourly kc m =
     (if \<not> ValidRoute (hkRoute (fst kc)) then m
      else let key = (fst kc)\<lparr>hkHour := Truncate_hour (hkHour (fst kc))\<rparr>
        in AList.update key (HourlyCounts_Merge (get zero_counts m key) (snd kc)) m)"

definition upsert_caller :: "CallerKey \<times> int \<Rightarrow> (CallerKey, int) gomap \<Rightarrow> (CallerKey, int) gomap" where
  "upsert_caller kn m = (if \<not> ValidRoute (clRoute (fst kn)) then m else bump (fst kn) (snd kn) m)"

text \<open>The flag of the result is the error \<open>errStoreUnavailable\<close>.\<close>

definition UpsertDemand :: "MemoryStore \<Rightarrow> Batch \<Rightarrow> MemoryStore \<times> bool" where
  "UpsertDemand m batch =
     (if msFailWrites m then (m, True)
      else (m\<lparr>msHourly := fold upsert_hourly (bHourly batch) (msHourly m),
              msClients := fold (\<lambda>(k, n). bump k n) (bClients batch) (msClients m),
              msCountries := fold (\<lambda>(k, n). bump k n) (bCountries batch) (msCountries m),
              msCallers := fold upsert_caller (bCallers batch) (msCallers m)\<rparr>, False))"

definition PruneDemand :: "MemoryStore \<Rightarrow> int \<Rightarrow> MemoryStore \<times> bool" where
  "PruneDemand m before =
     (if msFailWrites m then (m, True)
      else let cutoffDay = day_of before in
        (m\<lparr>msHourly := filter (\<lambda>(k, _). \<not> hkHour k < before) (msHourly m),
           msClients := filter (\<lambda>(k, _). \<not> ckDay k < cutoffDay) (msClients m),
           msCountries := filter (\<lambda>(k, _). \<not> cyDay k < cutoffDay) (msCountries m),
           msCallers := filter (\<lambda>(k, _). \<not> clDay k < cutoffDay) (msCallers m)\<rparr>, False))"

section \<open>The percentile (summary.go)\<close>

fun p95_loop :: "int \<Rightarrow> int \<Rightarrow> nat \<Rightarrow> int list \<Rightarrow> int \<times> bool" where
  "p95_loop target cumulative i [] = (LatencyBoundsMS ! (length LatencyBoundsMS - 1), True)"
| "p95_loop target cumulative i (n # ns) =
     (let cumulative' = add64 cumulative n in
      if target \<le> cumulative' then
        (if i = LatencyBuckets - 1 then (LatencyBoundsMS ! (length LatencyBoundsMS - 1), True)
         else (LatencyBoundsMS ! i, False))
      else p95_loop target cumulative' (i + 1) ns)"

text \<open>Division truncates toward zero; the dividend of the code is never negative unless it wraps.\<close>

definition go_div :: "int \<Rightarrow> int \<Rightarrow> int" where
  "go_div a b = (if (a < 0) = (b < 0) then \<bar>a\<bar> div \<bar>b\<bar> else - (\<bar>a\<bar> div \<bar>b\<bar>))"

definition P95 :: "int list \<Rightarrow> int \<times> bool" where
  "P95 buckets =
     (let total = fold (\<lambda>n t. add64 t n) buckets 0 in
      if total = 0 then (0, False)
      else p95_loop (go_div (add64 (wrap64 (total * 95)) 99) 100) 0 0 buckets)"

end
