(* ===== verification/DemandCollector.thy ===== *)
theory DemandCollector
  imports Demand "HOL-Library.Word"
begin

text \<open>
  The collector of the demand telemetry, \<open>src/internal/apidemand/collector.go\<close>, as a step system:
  any number of requests call \<open>Observe\<close> while one goroutine runs the loop of \<open>run\<close>.  A request's
  send and its increment of \<open>pending\<close> are two steps, so the loop may take the observation between
  them.  The store is an interface of the code; here it is the argument \<open>upsert\<close>, \<open>prune\<close> of the
  steps, and the locale \<open>demand_store\<close> has the laws the collector relies on, which the in-memory
  store satisfies.  \<open>Observe\<close> on a collector without a store does nothing and is not a step.
\<close>

section \<open>State and steps\<close>

datatype phase = Running | Draining | Stopped

record 's Collector =
  cSize :: nat
  cRetention :: int
  cQueue :: "Observation list"
  cInflight :: nat
  cPending :: int
  cDropped :: "64 word"
  cStoreFailures :: "64 word"
  cFlushes :: "64 word"
  cBatch :: Batch
  cNextPrune :: int
  cStop :: bool
  cPhase :: phase
  cStore :: 's

definition pruneEvery :: int where
  "pruneEvery = hour"

definition DefaultRetention :: int where
  "DefaultRetention = 35 * 24 * hour"

definition New_collector :: "int \<Rightarrow> int \<Rightarrow> 's \<Rightarrow> 's Collector" where
  "New_collector queueSize retention store =
     \<lparr>cSize = (if queueSize \<le> 0 then 4096 else nat queueSize),
      cRetention = (if retention \<le> 0 then DefaultRetention else retention),
      cQueue = [], cInflight = 0, cPending = 0, cDropped = 0, cStoreFailures = 0, cFlushes = 0,
      cBatch = NewBatch, cNextPrune = 0, cStop = False, cPhase = Running, cStore = store\<rparr>"

text \<open>\<open>Observe\<close>: the non-blocking send, then the increment of \<open>pending\<close>.\<close>

definition observe_send :: "Observation \<Rightarrow> 's Collector \<Rightarrow> 's Collector" where
  "observe_send o' c =
     (if length (cQueue c) < cSize c
      then c\<lparr>cQueue := cQueue c @ [o'], cInflight := cInflight c + 1\<rparr>
      else c\<lparr>cDropped := cDropped c + 1\<rparr>)"

definition observe_counted :: "'s Collector \<Rightarrow> 's Collector" where
  "observe_counted c = c\<lparr>cPending := wrap64 (cPending c + 1), cInflight := cInflight c - 1\<rparr>"

definition receive :: "'s Collector \<Rightarrow> 's Collector" where
  "receive c = (case cQueue c of
     [] \<Rightarrow> c
   | o' # rest \<Rightarrow> c\<lparr>cQueue := rest, cPending := wrap64 (cPending c - 1),
                    cBatch := Batch_Add (cBatch c) o'\<rparr>)"

definition flush :: "('s \<Rightarrow> Batch \<Rightarrow> 's \<times> bool) \<Rightarrow> 's Collector \<Rightarrow> 's Collector" where
  "flush upsert c =
     (if Batch_Empty (cBatch c) then c
      else case upsert (cStore c) (cBatch c) of
        (store, err) \<Rightarrow>
          if err then c\<lparr>cStore := store, cStoreFailures := cStoreFailures c + 1, cBatch := NewBatch\<rparr>
          else c\<lparr>cStore := store, cFlushes := cFlushes c + 1, cBatch := NewBatch\<rparr>)"

definition prune_collector :: "('s \<Rightarrow> int \<Rightarrow> 's \<times> bool) \<Rightarrow> int \<Rightarrow> 's Collector \<Rightarrow> 's Collector" where
  "prune_collector prune now c = c\<lparr>cStore := fst (prune (cStore c) (now - cRetention c))\<rparr>"

definition ticked ::
  "('s \<Rightarrow> Batch \<Rightarrow> 's \<times> bool) \<Rightarrow> ('s \<Rightarrow> int \<Rightarrow> 's \<times> bool) \<Rightarrow> int \<Rightarrow> 's Collector \<Rightarrow> 's Collector" where
  "ticked upsert prune now c0 =
     (let c = flush upsert c0 in
      if \<not> now < cNextPrune c then (prune_collector prune now c)\<lparr>cNextPrune := now + pruneEvery\<rparr>
      else c)"

datatype event =
    Offer Observation
  | Counted
  | Received
  | Tick int
  | BeginClose
  | StopSeen
  | DrainEnd
  | StoreChange

text \<open>
  One step, \<open>None\<close> where it is not enabled.  \<open>Received\<close> is the receive of the loop and of \<open>drain\<close>;
  \<open>DrainEnd\<close> is the empty queue seen by \<open>drain\<close> with the last flush; \<open>StoreChange\<close> is the store
  becoming unavailable or available again.
\<close>

fun collector_step ::
  "('s \<Rightarrow> Batch \<Rightarrow> 's \<times> bool) \<Rightarrow> ('s \<Rightarrow> int \<Rightarrow> 's \<times> bool) \<Rightarrow> ('s \<Rightarrow> 's) \<Rightarrow> event \<Rightarrow>
   's Collector \<Rightarrow> 's Collector option" where
  "collector_step upsert prune change (Offer o') c = Some (observe_send o' c)"
| "collector_step upsert prune change Counted c =
     (if 0 < cInflight c then Some (observe_counted c) else None)"
| "collector_step upsert prune change Received c =
     (if cPhase c \<noteq> Stopped \<and> cQueue c \<noteq> [] then Some (receive c) else None)"
| "collector_step upsert prune change (Tick now) c =
     (if cPhase c = Running then Some (ticked upsert prune now c) else None)"
| "collector_step upsert prune change BeginClose c = Some (c\<lparr>cStop := True\<rparr>)"
| "collector_step upsert prune change StopSeen c =
     (if cPhase c = Running \<and> cStop c then Some (c\<lparr>cPhase := Draining\<rparr>) else None)"
| "collector_step upsert prune change DrainEnd c =
     (if cPhase c = Draining \<and> cQueue c = [] then Some ((flush upsert c)\<lparr>cPhase := Stopped\<rparr>) else None)"
| "collector_step upsert prune change StoreChange c = Some (c\<lparr>cStore := change (cStore c)\<rparr>)"

inductive collector_run ::
  "('s \<Rightarrow> Batch \<Rightarrow> 's \<times> bool) \<Rightarrow> ('s \<Rightarrow> int \<Rightarrow> 's \<times> bool) \<Rightarrow> ('s \<Rightarrow> 's) \<Rightarrow>
   's Collector \<Rightarrow> event list \<Rightarrow> 's Collector \<Rightarrow> bool"
  for upsert prune change c0 where
  start: "collector_run upsert prune change c0 [] c0"
| step: "collector_run upsert prune change c0 evs c \<Longrightarrow>
    collector_step upsert prune change e c = Some c' \<Longrightarrow>
    collector_run upsert prune change c0 (evs @ [e]) c'"

fun offers :: "event list \<Rightarrow> Observation list" where
  "offers [] = []"
| "offers (Offer o' # evs) = o' # offers evs"
| "offers (_ # evs) = offers evs"

text \<open>The batch of a list of observations, and what the row of a key has to say about them.\<close>

definition batch_of :: "Observation list \<Rightarrow> Batch" where
  "batch_of obs = fold (\<lambda>o' b. Batch_Add b o') obs NewBatch"

definition tally :: "HourlyKey \<Rightarrow> Observation list \<Rightarrow> HourlyCounts" where
  "tally k obs =
     fold (\<lambda>o' c. HourlyCounts_Add c (oLatencyMS o')) (filter (\<lambda>o'. hourly_key o' = k) obs) zero_counts"

section \<open>Counts form a commutative monoid\<close>

definition counts_wf :: "HourlyCounts \<Rightarrow> bool" where
  "counts_wf c \<longleftrightarrow> in_int64 (hcRequests c) \<and> in_int64 (hcLatencySumMS c) \<and>
     length (hcBuckets c) = LatencyBuckets \<and> list_all in_int64 (hcBuckets c)"

lemma add64_assoc: "add64 (add64 x y) z = add64 x (add64 y z)"
  by (simp add: add64_def add.assoc add.commute [of x "wrap64 _"])
    (simp add: add.commute add.left_commute)

lemma add64_commute: "add64 x y = add64 y x"
  by (simp add: add64_def add.commute)

lemma add64_0 [simp]: "in_int64 x \<Longrightarrow> add64 x 0 = x"
  by (simp add: add64_def)

lemma add64_in [simp]: "in_int64 (add64 x y)"
  by (simp add: add64_def)

lemma bucket_loop_less: "i + length bounds < LatencyBuckets \<Longrightarrow> bucket_loop l i bounds < LatencyBuckets"
proof (induction bounds arbitrary: i)
  case Nil
  then show ?case by (simp add: LatencyBuckets_def)
qed auto

lemma LatencyBucket_less: "LatencyBucket l < LatencyBuckets"
  unfolding LatencyBucket_def by (rule bucket_loop_less) (simp add: LatencyBuckets_def)

lemma counts_wf_zero [simp]: "counts_wf zero_counts"
  by (simp add: counts_wf_def zero_counts_def in_int64_def min_int64_def max_int64_def list_all_iff)

lemma counts_wf_Add [simp]: "counts_wf c \<Longrightarrow> counts_wf (HourlyCounts_Add c l)"
  by (auto simp: counts_wf_def HourlyCounts_Add_def Let_def list_all_iff dest: in_set_takeD
      dest!: set_update_subset_insert [THEN subsetD])

lemma counts_wf_Merge [simp]: "counts_wf c \<Longrightarrow> counts_wf d \<Longrightarrow> counts_wf (HourlyCounts_Merge c d)"
  by (auto simp: counts_wf_def HourlyCounts_Merge_def list_all_iff set_zip)

lemma Merge_zero [simp]: "counts_wf c \<Longrightarrow> HourlyCounts_Merge c zero_counts = c"
proof -
  assume c: "counts_wf c"
  then have "map2 add64 (hcBuckets c) (replicate LatencyBuckets 0) = hcBuckets c"
    by (intro nth_equalityI) (auto simp: counts_wf_def list_all_iff)
  with c show ?thesis by (simp add: HourlyCounts_Merge_def zero_counts_def counts_wf_def)
qed

lemma Merge_Add:
  assumes "counts_wf c" "counts_wf d"
  shows "HourlyCounts_Merge c (HourlyCounts_Add d l) = HourlyCounts_Add (HourlyCounts_Merge c d) l"
proof -
  have len: "length (hcBuckets c) = length (hcBuckets d)"
    using assms by (simp add: counts_wf_def)
  have "map2 add64 (hcBuckets c) ((hcBuckets d)[i := add64 (hcBuckets d ! i) 1]) =
      (map2 add64 (hcBuckets c) (hcBuckets d))[i := add64 (map2 add64 (hcBuckets c) (hcBuckets d) ! i) 1]"
    if "i < LatencyBuckets" for i
    using that assms
    by (intro nth_equalityI) (auto simp: counts_wf_def nth_list_update add64_assoc)
  from this [OF LatencyBucket_less] show ?thesis
    by (simp add: HourlyCounts_Merge_def HourlyCounts_Add_def Let_def add64_assoc)
qed

lemma counts_wf_fold: "counts_wf c \<Longrightarrow> counts_wf (fold (\<lambda>o' c. HourlyCounts_Add c (f o')) obs c)"
  by (induction obs arbitrary: c) auto

lemma counts_wf_tally [simp]: "counts_wf (tally k obs)"
  by (simp add: tally_def counts_wf_fold)

lemma tally_append: "tally k (xs @ ys) = HourlyCounts_Merge (tally k xs) (tally k ys)"
proof (induction ys rule: rev_induct)
  case (snoc y ys)
  have "tally k (zs @ [y]) = (if hourly_key y = k then HourlyCounts_Add (tally k zs) (oLatencyMS y) else tally k zs)" for zs
    by (simp add: tally_def)
  from this [of "xs @ ys"] this [of ys] snoc show ?case by (simp add: Merge_Add)
next
  case Nil
  then show ?case using Merge_zero [OF counts_wf_tally] by (simp add: tally_def)
qed

lemma tally_Nil [simp]: "tally k [] = zero_counts"
  by (simp add: tally_def)

lemma Merge_assoc:
  "HourlyCounts_Merge (HourlyCounts_Merge a b) c = HourlyCounts_Merge a (HourlyCounts_Merge b c)"
proof -
  have "map2 add64 (map2 add64 xs ys) zs = map2 add64 xs (map2 add64 ys zs)" for xs ys zs
    by (rule nth_equalityI) (auto simp: add64_assoc)
  then show ?thesis by (simp add: HourlyCounts_Merge_def add64_assoc)
qed

section \<open>Batches\<close>

text \<open>A batch built by \<open>Batch_Add\<close>: one row per key, hours rounded, counts well formed.\<close>

definition batch_wf :: "Batch \<Rightarrow> bool" where
  "batch_wf b \<longleftrightarrow> wf_map (bHourly b) \<and>
     list_all (\<lambda>k. Truncate_hour (hkHour k) = hkHour k) (map fst (bHourly b)) \<and>
     list_all counts_wf (map snd (bHourly b))"

lemma Truncate_hour_idem [simp]: "Truncate_hour (Truncate_hour t) = Truncate_hour t"
proof -
  have "(t - t mod hour) mod hour = 0" by (simp add: minus_mod_eq_mult_div)
  then show ?thesis by (simp add: Truncate_hour_def)
qed

lemma get_counts_wf: "list_all counts_wf (map snd m) \<Longrightarrow> counts_wf (get zero_counts m k)"
  by (force simp: get_def list_all_iff split: option.split dest!: map_of_SomeD)

lemma list_all_snd_update:
  "list_all P (map snd m) \<Longrightarrow> P v \<Longrightarrow> list_all P (map snd (AList.update k v m))"
  by (induction m) auto

lemma batch_wf_Add: "batch_wf b \<Longrightarrow> batch_wf (Batch_Add b o')"
  using list_all_snd_update [of counts_wf "bHourly b"] get_counts_wf [of "bHourly b"]
  by (auto simp: batch_wf_def Batch_Add_def Let_def list_all_iff [of _ "map fst _"] dom_update hourly_key_def)

lemma batch_of_snoc: "batch_of (obs @ [o']) = Batch_Add (batch_of obs) o'"
  by (simp add: batch_of_def)

lemma batch_of_Nil [simp]: "batch_of [] = NewBatch"
  by (simp add: batch_of_def)

lemma batch_wf_batch_of [simp]: "batch_wf (batch_of obs)"
proof (induction obs rule: rev_induct)
  case Nil
  then show ?case by (simp add: batch_wf_def NewBatch_def)
qed (simp add: batch_of_snoc batch_wf_Add)

lemma batch_of_row [simp]: "get zero_counts (bHourly (batch_of obs)) k = tally k obs"
proof (induction obs rule: rev_induct)
  case (snoc x obs)
  then show ?case by (auto simp: batch_of_snoc Batch_Add_def Let_def tally_def)
qed (simp add: NewBatch_def)

lemma batch_of_empty: "Batch_Empty (batch_of obs) \<longleftrightarrow> obs = []"
proof (cases obs rule: rev_exhaust)
  case (snoc xs x)
  have "AList.update k v m \<noteq> []" for k :: HourlyKey and v :: HourlyCounts and m
    using dom_update [of k v m] by auto
  with snoc show ?thesis by (simp add: batch_of_snoc Batch_Empty_def Batch_Add_def Let_def)
qed (simp add: Batch_Empty_def NewBatch_def)

section \<open>The interface to the store\<close>

locale demand_store =
  fixes upsert :: "'s \<Rightarrow> Batch \<Rightarrow> 's \<times> bool"
    and prune :: "'s \<Rightarrow> int \<Rightarrow> 's \<times> bool"
    and change :: "'s \<Rightarrow> 's"
    and row :: "'s \<Rightarrow> HourlyKey \<Rightarrow> HourlyCounts"
    and sound :: "'s \<Rightarrow> bool"
  assumes row_wf: "sound s \<Longrightarrow> counts_wf (row s k)"
    and upsert_sound: "sound s \<Longrightarrow> batch_wf b \<Longrightarrow> sound (fst (upsert s b))"
    and upsert_row: "sound s \<Longrightarrow> batch_wf b \<Longrightarrow> \<not> snd (upsert s b) \<Longrightarrow> ValidRoute (hkRoute k) \<Longrightarrow>
      row (fst (upsert s b)) k = HourlyCounts_Merge (row s k) (get zero_counts (bHourly b) k)"
    and upsert_error: "snd (upsert s b) \<Longrightarrow> row (fst (upsert s b)) k = row s k"
    and prune_sound: "sound s \<Longrightarrow> sound (fst (prune s before))"
    and prune_row: "before \<le> hkHour k \<Longrightarrow> row (fst (prune s before)) k = row s k"
    and change_sound: "sound s \<Longrightarrow> sound (change s)"
    and change_row: "row (change s) k = row s k"
begin

text \<open>
  The ghost view of a state: the observations written, lost with a failed flush, held in the batch,
  dropped at the queue, and the number of failed flushes.
\<close>

definition accounts ::
  "HourlyKey \<Rightarrow> HourlyCounts \<Rightarrow> Observation list \<Rightarrow> 's Collector \<Rightarrow>
   Observation list \<Rightarrow> Observation list \<Rightarrow> Observation list \<Rightarrow> Observation list \<Rightarrow> nat \<Rightarrow> bool" where
  "accounts k r0 obs c written lost held dropped failed \<longleftrightarrow>
     mset obs = mset written + mset lost + mset held + mset (cQueue c) + mset dropped \<and>
     sound (cStore c) \<and> row (cStore c) k = HourlyCounts_Merge r0 (tally k written) \<and>
     cBatch c = batch_of held \<and> cDropped c = of_nat (length dropped) \<and>
     cStoreFailures c = of_nat failed \<and> (failed = 0 \<longrightarrow> lost = []) \<and>
     length (cQueue c) \<le> cSize c \<and>
     cPending c = wrap64 (int (length (cQueue c)) - int (cInflight c))"

lemma flush_accounts:
  assumes "accounts k r0 obs c written lost held dropped failed" "ValidRoute (hkRoute k)"
  shows "\<exists>written' lost' failed'.
    accounts k r0 obs (flush upsert c) written' lost' [] dropped failed' \<and> failed' \<le> failed + 1"
proof (cases "held = []")
  case True
  with assms batch_of_empty [of held] have "flush upsert c = c" by (simp add: flush_def accounts_def)
  with True assms show ?thesis by (metis le_add1)
next
  case False
  obtain store err where u: "upsert (cStore c) (batch_of held) = (store, err)" by fastforce
  have s: "sound (cStore c)" "row (cStore c) k = HourlyCounts_Merge r0 (tally k written)"
    and b: "cBatch c = batch_of held"
    using assms(1) by (simp_all add: accounts_def)
  have sound: "sound store"
    using upsert_sound [OF s(1), of "batch_of held"] u by simp
  show ?thesis
  proof (cases err)
    case True
    then have "row store k = row (cStore c) k"
      using upsert_error [of "cStore c" "batch_of held" k] u by simp
    with True False assms(1) u s b sound
    have "accounts k r0 obs (flush upsert c) written (lost @ held) [] dropped (failed + 1)"
      by (simp add: accounts_def flush_def batch_of_empty ac_simps)
    then show ?thesis by blast
  next
    case ok: False
    then have "row store k = HourlyCounts_Merge r0 (tally k (written @ held))"
      using upsert_row [OF s(1), of "batch_of held" k] u assms(2) s(2)
      by (simp add: tally_append Merge_assoc)
    with ok False assms(1) u s b sound
    have "accounts k r0 obs (flush upsert c) (written @ held) lost [] dropped failed"
      by (simp add: accounts_def flush_def batch_of_empty ac_simps)
    then show ?thesis by (meson le_add1)
  qed
qed

lemma prune_accounts:
  assumes "accounts k r0 obs c written lost held dropped failed" "now - cRetention c \<le> hkHour k"
  shows "accounts k r0 obs ((prune_collector prune now c)\<lparr>cNextPrune := t\<rparr>) written lost held dropped failed"
  using assms prune_row [of "now - cRetention c" k "cStore c"] prune_sound [of "cStore c"]
  by (simp add: accounts_def prune_collector_def)

lemma receive_accounts:
  assumes "accounts k r0 obs c written lost held dropped failed" "cQueue c = o' # rest"
  shows "accounts k r0 obs (receive c) written lost (held @ [o']) dropped failed"
proof -
  have "wrap64 (wrap64 (int (length (cQueue c)) - int (cInflight c)) - 1) =
      wrap64 (int (length rest) - int (cInflight c))"
    using wrap64_add_wrap64 [of "int (length (cQueue c)) - int (cInflight c)" "- 1"] assms(2) by simp
  with assms show ?thesis by (simp add: accounts_def receive_def batch_of_snoc)
qed

lemma counted_accounts:
  assumes "accounts k r0 obs c written lost held dropped failed" "0 < cInflight c"
  shows "accounts k r0 obs (observe_counted c) written lost held dropped failed"
  using assms wrap64_add_wrap64 [of "int (length (cQueue c)) - int (cInflight c)" 1]
  by (simp add: accounts_def observe_counted_def of_nat_diff) (simp add: algebra_simps)

lemma send_accounts:
  assumes "accounts k r0 obs c written lost held dropped failed"
  shows "\<exists>dropped'. accounts k r0 (obs @ [o']) (observe_send o' c) written lost held dropped' failed"
proof (cases "length (cQueue c) < cSize c")
  case True
  with assms have "accounts k r0 (obs @ [o']) (observe_send o' c) written lost held dropped failed"
    by (simp add: accounts_def observe_send_def)
  then show ?thesis ..
next
  case False
  with assms have "accounts k r0 (obs @ [o']) (observe_send o' c) written lost held (dropped @ [o']) failed"
    by (simp add: accounts_def observe_send_def)
  then show ?thesis ..
qed

lemma cRetention_step [simp]:
  "collector_step upsert prune change e c = Some c' \<Longrightarrow> cRetention c' = cRetention c"
  by (cases e) (auto simp: observe_send_def observe_counted_def receive_def ticked_def flush_def
      prune_collector_def Let_def split: if_splits prod.splits list.splits)

lemma ticked_accounts:
  assumes "accounts k r0 obs c written lost held dropped failed" "ValidRoute (hkRoute k)"
    and "now - cRetention c \<le> hkHour k"
  shows "\<exists>written' lost' failed'.
    accounts k r0 obs (ticked upsert prune now c) written' lost' [] dropped failed' \<and> failed' \<le> failed + 1"
proof -
  have "cRetention (flush upsert c) = cRetention c"
    by (auto simp: flush_def split: prod.split)
  with flush_accounts [OF assms(1,2)] assms(3) prune_accounts show ?thesis
    by (fastforce simp: ticked_def Let_def)
qed

lemma step_accounts:
  assumes a: "accounts k r0 obs c written lost held dropped failed" and v: "ValidRoute (hkRoute k)"
    and e: "collector_step upsert prune change e c = Some c'"
    and t: "\<And>now. e = Tick now \<Longrightarrow> now - cRetention c \<le> hkHour k"
  shows "\<exists>written' lost' held' dropped' failed'.
    accounts k r0 (obs @ offers [e]) c' written' lost' held' dropped' failed' \<and> failed' \<le> failed + 1"
proof (cases e)
  case (Offer o')
  with send_accounts [OF a, of o'] e show ?thesis by (metis (no_types) collector_step.simps(1)
      le_add1 offers.simps(1,2) option.inject)
next
  case Counted
  with counted_accounts [OF a] e have "accounts k r0 (obs @ offers [e]) c' written lost held dropped failed"
    by (auto split: if_splits)
  then show ?thesis by (meson le_add1)
next
  case Received
  with e obtain x rest where "cQueue c = x # rest" "c' = receive c"
    by (cases "cQueue c") (auto split: if_splits)
  with receive_accounts [OF a] Received
  have "accounts k r0 (obs @ offers [e]) c' written lost (held @ [x]) dropped failed" by simp
  then show ?thesis by (meson le_add1)
next
  case (Tick now)
  with ticked_accounts [OF a v t] e show ?thesis by (fastforce split: if_splits)
next
  case BeginClose
  with a e have "accounts k r0 (obs @ offers [e]) c' written lost held dropped failed"
    by (auto simp: accounts_def)
  then show ?thesis by (meson le_add1)
next
  case StopSeen
  with a e have "accounts k r0 (obs @ offers [e]) c' written lost held dropped failed"
    by (auto simp: accounts_def split: if_splits)
  then show ?thesis by (meson le_add1)
next
  case DrainEnd
  have "accounts k r0 obs (c\<lparr>cPhase := Stopped\<rparr>) w l h d f = accounts k r0 obs c w l h d f" for c w l h d f
    by (simp add: accounts_def)
  with flush_accounts [OF a v] DrainEnd e show ?thesis by (fastforce split: if_splits)
next
  case StoreChange
  with a e change_sound change_row
  have "accounts k r0 (obs @ offers [e]) c' written lost held dropped failed"
    by (auto simp: accounts_def)
  then show ?thesis by (meson le_add1)
qed

lemma offers_append: "offers (xs @ ys) = offers xs @ offers ys"
  by (induction xs rule: offers.induct) auto

lemma run_accounts:
  assumes "collector_run upsert prune change (New_collector queueSize retention s0) evs c"
    and "sound s0" "ValidRoute (hkRoute k)"
    and "\<And>now. Tick now \<in> set evs \<Longrightarrow> now - cRetention c \<le> hkHour k"
  shows "\<exists>written lost held dropped failed.
    accounts k (row s0 k) (offers evs) c written lost held dropped failed \<and> failed \<le> length evs"
  using assms
proof (induction rule: collector_run.induct)
  case start
  then have "accounts k (row s0 k) (offers []) (New_collector queueSize retention s0) [] [] [] [] 0"
    using wrap64_small [of 0] row_wf by (simp add: accounts_def New_collector_def)
  then show ?case by (metis le0)
next
  case (step evs c e c')
  have r: "cRetention c' = cRetention c" using step.hyps(2) by simp
  with step obtain written lost held dropped failed where
    a: "accounts k (row s0 k) (offers evs) c written lost held dropped failed" and "failed \<le> length evs"
    by fastforce
  moreover have "now - cRetention c \<le> hkHour k" if "e = Tick now" for now
    using step.prems(3) [of now] that r by simp
  ultimately show ?case
    using step_accounts [OF a step.prems(2) step.hyps(2)] by (fastforce simp: offers_append)
qed

lemma length_offers: "length (offers evs) \<le> length evs"
  by (induction evs rule: offers.induct) auto

text \<open>The account in terms of the telemetry of the collector, before its counters wrap.\<close>

lemma run_conserves:
  assumes run: "collector_run upsert prune change (New_collector queueSize retention s0) evs c"
    and s: "sound s0" and v: "ValidRoute (hkRoute k)" and l: "length evs < 2 ^ 63"
    and t: "\<And>now. Tick now \<in> set evs \<Longrightarrow> now - cRetention c \<le> hkHour k"
  shows "\<exists>written lost held dropped.
    mset (offers evs) = mset written + mset lost + mset held + mset (cQueue c) + mset dropped \<and>
    row (cStore c) k = HourlyCounts_Merge (row s0 k) (tally k written) \<and>
    cBatch c = batch_of held \<and> unat (cDropped c) = length dropped \<and>
    (cStoreFailures c = 0 \<longrightarrow> lost = []) \<and> length (cQueue c) \<le> cSize c \<and>
    cPending c = wrap64 (int (length (cQueue c)) - int (cInflight c))"
proof -
  obtain written lost held dropped failed where
    a: "accounts k (row s0 k) (offers evs) c written lost held dropped failed" and f: "failed \<le> length evs"
    using run_accounts [OF run s v t] by blast
  have "size (mset (offers evs)) =
      size (mset written + mset lost + mset held + mset (cQueue c) + mset dropped)"
    using a by (simp add: accounts_def)
  then have "length dropped \<le> length (offers evs)" by simp
  with l length_offers [of evs] have d: "unat (of_nat (length dropped) :: 64 word) = length dropped"
    by (simp add: unat_of_nat)
  have "failed = 0" if "(of_nat failed :: 64 word) = 0"
    using that f l by (simp flip: unat_eq_0 add: unat_of_nat)
  with a d show ?thesis by (auto simp: accounts_def)
qed

end

section \<open>The in-memory store provides the interface\<close>

definition mem_sound :: "MemoryStore \<Rightarrow> bool" where
  "mem_sound s \<longleftrightarrow> list_all counts_wf (map snd (msHourly s))"

definition mem_row :: "MemoryStore \<Rightarrow> HourlyKey \<Rightarrow> HourlyCounts" where
  "mem_row s k = get zero_counts (msHourly s) k"

definition mem_toggle :: "MemoryStore \<Rightarrow> MemoryStore" where
  "mem_toggle s = s\<lparr>msFailWrites := \<not> msFailWrites s\<rparr>"

lemma upsert_hourly_wf:
  "list_all counts_wf (map snd m) \<Longrightarrow> counts_wf (snd kc) \<Longrightarrow>
   list_all counts_wf (map snd (upsert_hourly kc m))"
  by (simp add: upsert_hourly_def Let_def list_all_snd_update get_counts_wf)

lemma fold_upsert_hourly_wf:
  "list_all counts_wf (map snd m) \<Longrightarrow> list_all counts_wf (map snd kvs) \<Longrightarrow>
   list_all counts_wf (map snd (fold upsert_hourly kvs m))"
proof (induction kvs arbitrary: m)
  case (Cons kv kvs)
  then show ?case using upsert_hourly_wf [of m kv] by simp
qed simp

lemma fold_upsert_hourly_get:
  assumes "wf_map kvs" "list_all (\<lambda>k. Truncate_hour (hkHour k) = hkHour k) (map fst kvs)"
    and "list_all counts_wf (map snd kvs)" and "counts_wf (get zero_counts m k)" "ValidRoute (hkRoute k)"
  shows "get zero_counts (fold upsert_hourly kvs m) k =
    HourlyCounts_Merge (get zero_counts m k) (get zero_counts kvs k)"
  using assms
proof (induction kvs arbitrary: m)
  case Nil
  then show ?case by simp
next
  case (Cons kv kvs)
  obtain k' c where kv: "kv = (k', c)" by fastforce
  have u: "get zero_counts (upsert_hourly kv m) k =
      (if k' = k then HourlyCounts_Merge (get zero_counts m k) c else get zero_counts m k)"
    using Cons.prems(2,5) kv by (auto simp: upsert_hourly_def Let_def)
  have c: "counts_wf c" using Cons.prems(3) kv by simp
  have fresh: "get zero_counts kvs k' = zero_counts"
    using Cons.prems(1) kv by (auto simp: get_def wf_map_def map_of_eq_None_iff split: option.split)
      (metis map_of_SomeD fst_conv image_eqI)
  have "get zero_counts (fold upsert_hourly kvs (upsert_hourly kv m)) k =
      HourlyCounts_Merge (get zero_counts (upsert_hourly kv m) k) (get zero_counts kvs k)"
    using Cons.prems kv c u by (intro Cons.IH) (simp_all add: wf_map_def)
  with u c fresh Cons.prems(4) kv show ?case
    by (auto simp: get_def)
qed

interpretation mem: demand_store UpsertDemand PruneDemand mem_toggle mem_row mem_sound
proof unfold_locales
  fix s k assume "mem_sound s"
  then show "counts_wf (mem_row s k)" by (simp add: mem_sound_def mem_row_def get_counts_wf)
next
  fix s b assume "mem_sound s" "batch_wf b"
  then show "mem_sound (fst (UpsertDemand s b))"
    using fold_upsert_hourly_wf [of "msHourly s" "bHourly b"]
    by (auto simp: mem_sound_def UpsertDemand_def batch_wf_def list_all_iff)
next
  fix s b and k :: HourlyKey
  assume "mem_sound s" "batch_wf b" "\<not> snd (UpsertDemand s b)" "ValidRoute (hkRoute k)"
  then show "mem_row (fst (UpsertDemand s b)) k =
      HourlyCounts_Merge (mem_row s k) (get zero_counts (bHourly b) k)"
    using fold_upsert_hourly_get [of "bHourly b" "msHourly s" k] get_counts_wf [of "msHourly s" k]
    by (simp add: mem_sound_def mem_row_def UpsertDemand_def batch_wf_def split: if_splits)
next
  fix s b k assume "snd (UpsertDemand s b)"
  then show "mem_row (fst (UpsertDemand s b)) k = mem_row s k"
    by (simp add: UpsertDemand_def split: if_splits)
next
  fix s before assume "mem_sound s"
  then show "mem_sound (fst (PruneDemand s before))"
    by (auto simp: mem_sound_def PruneDemand_def Let_def list_all_iff)
next
  fix s before and k :: HourlyKey assume "before \<le> hkHour k"
  then have "map_of (filter (\<lambda>(k, _). \<not> hkHour k < before) m) k = map_of m k" for m :: "(HourlyKey, HourlyCounts) gomap"
    by (induction m) auto
  then show "mem_row (fst (PruneDemand s before)) k = mem_row s k"
    by (simp add: mem_row_def PruneDemand_def Let_def get_def)
next
  fix s assume "mem_sound s"
  then show "mem_sound (mem_toggle s)" by (simp add: mem_sound_def mem_toggle_def)
next
  fix s k show "mem_row (mem_toggle s) k = mem_row s k" by (simp add: mem_row_def mem_toggle_def)
qed

section \<open>No observation is lost unaccounted\<close>


text \<open>Executing a list of events.\<close>

fun collector_exec ::
  "('s \<Rightarrow> Batch \<Rightarrow> 's \<times> bool) \<Rightarrow> ('s \<Rightarrow> int \<Rightarrow> 's \<times> bool) \<Rightarrow> ('s \<Rightarrow> 's) \<Rightarrow> event list \<Rightarrow>
   's Collector \<Rightarrow> 's Collector option" where
  "collector_exec upsert prune change [] c = Some c"
| "collector_exec upsert prune change (e # evs) c =
     Option.bind (collector_step upsert prune change e c) (collector_exec upsert prune change evs)"

lemma collector_exec_run:
  "collector_run upsert prune change c0 pre c \<Longrightarrow> collector_exec upsert prune change evs c = Some c' \<Longrightarrow>
   collector_run upsert prune change c0 (pre @ evs) c'"
proof (induction evs arbitrary: pre c)
  case (Cons e evs)
  then obtain c1 where "collector_step upsert prune change e c = Some c1"
    "collector_exec upsert prune change evs c1 = Some c'"
    by (auto simp: bind_eq_Some_conv)
  with Cons.IH [OF collector_run.step] Cons.prems(1) show ?case by fastforce
qed simp

definition sample_observation :: Observation where
  "sample_observation = \<lparr>oAt = 36 * hour + 5, oRoute = ''GET /v1/search'', oOutcome = ''success'',
     oAuth = ''anonymous'', oCallerHash = ''ab'', oCountry = ''NO'', oClientKind = ''cli'',
     oClientVersion = ''1.2.0'', oProtocol = [], oLatencyMS = 30\<rparr>"

definition sample_events :: "event list" where
  "sample_events = [Offer sample_observation, Offer sample_observation, Counted, Received,
     Tick (36 * hour), Offer sample_observation]"

definition sample_end :: "MemoryStore Collector" where
  "sample_end = the (collector_exec UpsertDemand PruneDemand mem_toggle sample_events
     (New_collector 1 0 empty_store))"

lemma sample_exec:
  "collector_exec UpsertDemand PruneDemand mem_toggle sample_events (New_collector 1 0 empty_store) =
   Some sample_end"
proof -
  have "collector_exec UpsertDemand PruneDemand mem_toggle sample_events (New_collector 1 0 empty_store) \<noteq> None"
    by (simp add: sample_events_def New_collector_def observe_send_def observe_counted_def receive_def)
  then show ?thesis by (auto simp: sample_end_def)
qed

lemma sample_facts:
  "ValidRoute (hkRoute (hourly_key sample_observation))" "cRetention sample_end = 35 * 24 * hour"
  "mem_sound empty_store" "hkHour (hourly_key sample_observation) = 36 * hour"
  by code_simp+


end
