(* ===== verification/DemandSummary.thy ===== *)
theory DemandSummary
  imports DemandCollector
begin

text \<open>
  The percentile the dashboard shows, \<open>P95\<close> of \<open>src/internal/apidemand/summary.go\<close>, read off the
  histogram that \<open>HourlyCounts.Add\<close> builds.
\<close>

section \<open>The histogram counts latencies\<close>

definition histogram :: "int list \<Rightarrow> int list" where
  "histogram ls = hcBuckets (fold (\<lambda>l c. HourlyCounts_Add c l) ls zero_counts)"

definition hits :: "int list \<Rightarrow> nat \<Rightarrow> int" where
  "hits ls i = int (length (filter (\<lambda>l. LatencyBucket (max 0 l) = i) ls))"

lemma counts_wf_fold_Add: "counts_wf c \<Longrightarrow> counts_wf (fold (\<lambda>l c. HourlyCounts_Add c l) ls c)"
  by (induction ls arbitrary: c) auto

lemma histogram_length: "length (histogram ls) = LatencyBuckets"
  using counts_wf_fold_Add [OF counts_wf_zero, of ls] by (simp add: histogram_def counts_wf_def)

lemma histogram_snoc:
  "histogram (ls @ [l]) = (let i = LatencyBucket (max 0 l) in (histogram ls)[i := add64 (histogram ls ! i) 1])"
  by (auto simp: histogram_def HourlyCounts_Add_def Let_def max_def)

lemma histogram_hits:
  "length ls < 2 ^ 63 \<Longrightarrow> histogram ls = map (hits ls) [0..<LatencyBuckets]"
proof (induction ls rule: rev_induct)
  case Nil
  then show ?case
    by (simp add: histogram_def zero_counts_def hits_def map_replicate_const)
next
  case (snoc l ls)
  define i where "i = LatencyBucket (max 0 l)"
  have i: "i < LatencyBuckets" by (simp add: i_def LatencyBucket_less)
  have "hits ls i + 1 < 2 ^ 63"
    using snoc.prems le_less_trans [OF length_filter_le [of "\<lambda>l. LatencyBucket (max 0 l) = i" ls]]
    by (simp add: hits_def)
  then have "add64 (hits ls i) 1 = hits ls i + 1"
    unfolding add64_def by (intro wrap64_small) (simp add: hits_def)
  with i snoc show ?case
    by (simp add: histogram_snoc flip: i_def)
      (intro nth_equalityI; auto simp: nth_list_update hits_def i_def)
qed

lemma hits_sum: "sum_list (map (hits ls) [0..<Suc j]) = int (length (filter (\<lambda>l. LatencyBucket (max 0 l) \<le> j) ls))"
proof (induction ls)
  case Nil
  then show ?case by (simp add: hits_def map_replicate_const sum_list_replicate del: upt_Suc)
next
  case (Cons l ls)
  have "hits (l # ls) i = hits ls i + (if LatencyBucket (max 0 l) = i then 1 else 0)" for i
    by (simp add: hits_def)
  moreover have "sum_list (map (\<lambda>i. if a = i then 1 else (0::int)) [0..<n]) = (if a < n then 1 else 0)" for a n
    by (induction n) auto
  ultimately show ?case using Cons by (simp add: sum_list_addf less_Suc_eq_le del: upt_Suc)
qed

lemma LatencyBucket_le:
  assumes "j < length LatencyBoundsMS"
  shows "LatencyBucket l \<le> j \<longleftrightarrow> l \<le> LatencyBoundsMS ! j"
proof -
  have "j \<in> {0, 1, 2, 3, 4, 5, 6, 7, 8}" using assms by (simp add: LatencyBoundsMS_def) arith
  then show ?thesis by (elim insertE emptyE) (simp_all add: LatencyBucket_def LatencyBoundsMS_def LatencyBuckets_def)
qed

definition within :: "int list \<Rightarrow> int \<Rightarrow> nat" where
  "within ls b = length (filter (\<lambda>l. l \<le> b) ls)"

lemma cumulative_within:
  assumes "length ls < 2 ^ 63" "j < length LatencyBoundsMS"
  shows "sum_list (take (Suc j) (histogram ls)) = int (within ls (LatencyBoundsMS ! j))"
proof -
  have "0 \<le> LatencyBoundsMS ! j"
    using assms(2) nth_mem [OF assms(2)] by (auto simp: LatencyBoundsMS_def)
  then have "LatencyBucket (max 0 l) \<le> j \<longleftrightarrow> l \<le> LatencyBoundsMS ! j" for l
    using LatencyBucket_le [OF assms(2)] by auto
  moreover have "take (Suc j) [0..<LatencyBuckets] = [0..<Suc j]"
    using assms(2) by (simp add: LatencyBuckets_def take_upt del: upt_Suc)
  ultimately show ?thesis
    using hits_sum [of ls j] histogram_hits [OF assms(1)] by (simp add: take_map within_def del: upt_Suc)
qed

lemma sum_histogram: "length ls < 2 ^ 63 \<Longrightarrow> sum_list (histogram ls) = int (length ls)"
proof -
  assume l: "length ls < 2 ^ 63"
  have "LatencyBucket (max 0 x) \<le> LatencyBuckets - 1" for x
    using LatencyBucket_less [of "max 0 x"] by simp
  moreover have "[0..<LatencyBuckets] = [0..<Suc (LatencyBuckets - 1)]" by (simp add: LatencyBuckets_def)
  ultimately show ?thesis
    using hits_sum [of ls "LatencyBuckets - 1"] histogram_hits [OF l] by (simp del: upt_Suc)
qed

text \<open>The loop stops at the first bucket where the cumulative count reaches the target.\<close>

lemma p95_loop_first:
  assumes "list_all (\<lambda>n. 0 \<le> n) ns" "0 \<le> cum" "cum + sum_list ns < 2 ^ 63" "target \<le> cum + sum_list ns" "ns \<noteq> []"
    and "cum < target"
  shows "\<exists>j<length ns. (\<forall>j'<j. cum + sum_list (take (Suc j') ns) < target) \<and>
    target \<le> cum + sum_list (take (Suc j) ns) \<and>
    p95_loop target cum i ns =
      (if i + j = LatencyBuckets - 1 then (5000, True) else (LatencyBoundsMS ! (i + j), False))"
  using assms
proof (induction ns arbitrary: cum i)
  case (Cons n ns)
  have "0 \<le> sum_list ns" using Cons.prems(1) by (auto simp: list_all_iff intro!: sum_list_nonneg)
  then have a: "add64 cum n = cum + n"
    unfolding add64_def using Cons.prems by (intro wrap64_small) auto
  show ?case
  proof (cases "target \<le> cum + n")
    case True
    with a show ?thesis by (intro exI [of _ 0]) (simp add: LatencyBoundsMS_def)
  next
    case False
    have "ns \<noteq> []" using False Cons.prems(4) by auto
    with Cons.IH [of "cum + n" "i + 1"] False Cons.prems obtain j where j: "j < length ns"
      "\<forall>j'<j. cum + n + sum_list (take (Suc j') ns) < target"
      "target \<le> cum + n + sum_list (take (Suc j) ns)"
      "p95_loop target (cum + n) (i + 1) ns =
        (if i + 1 + j = LatencyBuckets - 1 then (5000, True) else (LatencyBoundsMS ! (i + 1 + j), False))"
      by auto
    have "cum + sum_list (take (Suc j') (n # ns)) < target" if "j' < Suc j" for j'
      using that j(2) False by (cases j') (auto simp: add.assoc)
    with j a False show ?thesis
      by (intro exI [of _ "Suc j"]) (auto simp: add.assoc)
  qed
qed simp

lemma target_le_iff: "(95 * n + 99) div 100 \<le> x \<longleftrightarrow> 95 * n \<le> 100 * (x :: int)"
  by linarith

lemma P95_target:
  assumes "length ls < 2 ^ 56"
  shows "go_div (add64 (wrap64 (int (length ls) * 95)) 99) 100 = (95 * int (length ls) + 99) div 100"
proof -
  have "int (length ls) < 2 ^ 56" using assms by simp
  then have "wrap64 (int (length ls) * 95 + 99) = 95 * int (length ls) + 99"
    by (subst wrap64_small) simp_all
  then show ?thesis by (simp add: add64_def go_div_def)
qed

lemma fold_add64_sum:
  "list_all (\<lambda>n. 0 \<le> n) ns \<Longrightarrow> 0 \<le> t \<Longrightarrow> t + sum_list ns < 2 ^ 63 \<Longrightarrow>
   fold (\<lambda>n t. add64 t n) ns t = t + sum_list ns"
proof (induction ns arbitrary: t)
  case (Cons n ns)
  have "0 \<le> sum_list ns" using Cons.prems(1) by (auto simp: list_all_iff intro!: sum_list_nonneg)
  then have "add64 t n = t + n"
    unfolding add64_def using Cons.prems by (intro wrap64_small) auto
  with Cons show ?case by (simp add: add.assoc)
qed simp

lemma P95_bucket:
  assumes "ls \<noteq> []" "length ls < 2 ^ 56"
  shows "\<exists>j<LatencyBuckets.
    (\<forall>j'<j. 100 * sum_list (take (Suc j') (histogram ls)) < 95 * int (length ls)) \<and>
    95 * int (length ls) \<le> 100 * sum_list (take (Suc j) (histogram ls)) \<and>
    P95 (histogram ls) =
      (if j = LatencyBuckets - 1 then (5000, True) else (LatencyBoundsMS ! j, False))"
proof -
  define target where "target = (95 * int (length ls) + 99) div 100"
  have n: "int (length ls) < 2 ^ 56" "0 < int (length ls)" using assms by simp_all
  have len: "length ls < 2 ^ 63" using assms(2) by simp
  have nonneg: "list_all (\<lambda>n. 0 \<le> n) (histogram ls)"
    by (simp add: histogram_hits [OF len] list_all_iff hits_def)
  have "fold (\<lambda>n t. add64 t n) (histogram ls) 0 = int (length ls)"
    using fold_add64_sum [OF nonneg, of 0] n by (simp add: sum_histogram [OF len])
  then have p: "P95 (histogram ls) = p95_loop target 0 0 (histogram ls)"
    using P95_target [OF assms(2)] n by (simp add: P95_def Let_def target_def)
  have t: "target \<le> x \<longleftrightarrow> 95 * int (length ls) \<le> 100 * x" for x
    unfolding target_def by (rule target_le_iff)
  have "histogram ls \<noteq> []" using histogram_length [of ls] by (auto simp: LatencyBuckets_def)
  then obtain j where "j < length (histogram ls)"
    "\<forall>j'<j. 0 + sum_list (take (Suc j') (histogram ls)) < target"
    "target \<le> 0 + sum_list (take (Suc j) (histogram ls))"
    "p95_loop target 0 0 (histogram ls) =
      (if 0 + j = LatencyBuckets - 1 then (5000, True) else (LatencyBoundsMS ! (0 + j), False))"
    using p95_loop_first [OF nonneg, of 0 target 0] n t [of 0] t [of "int (length ls)"]
    by (auto simp: sum_histogram [OF len])
  with p t show ?thesis by (auto simp: histogram_length not_le [symmetric])
qed

lemma sorted_bounds: "j' < j \<Longrightarrow> j < length LatencyBoundsMS \<Longrightarrow> LatencyBoundsMS ! j' < LatencyBoundsMS ! j"
proof -
  have "sorted_wrt (<) LatencyBoundsMS" by code_simp
  then show "j' < j \<Longrightarrow> j < length LatencyBoundsMS \<Longrightarrow> LatencyBoundsMS ! j' < LatencyBoundsMS ! j"
    by (simp add: sorted_wrt_iff_nth_less)
qed

text \<open>
  On the histogram of any non-empty list of latencies the percentile is the least bound that at
  least 95 per cent of the latencies do not exceed; the overflow flag is set exactly when fewer than
  95 per cent are within the last bound, which is then the value reported.
\<close>

theorem p95_is_the_least_sufficient_bound:
  assumes "ls \<noteq> []" and "length ls < 2 ^ 56"
  shows "case P95 (histogram ls) of (b, over) \<Rightarrow>
    b \<in> set LatencyBoundsMS \<and>
    (if over then b = 5000 \<and> 100 * within ls 5000 < 95 * length ls
     else 95 * length ls \<le> 100 * within ls b \<and>
       (\<forall>b'\<in>set LatencyBoundsMS. b' < b \<longrightarrow> 100 * within ls b' < 95 * length ls))"
proof -
  have len: "length ls < 2 ^ 63" using assms(2) by simp
  obtain j where j: "j < LatencyBuckets"
    "\<forall>j'<j. 100 * sum_list (take (Suc j') (histogram ls)) < 95 * int (length ls)"
    "95 * int (length ls) \<le> 100 * sum_list (take (Suc j) (histogram ls))"
    "P95 (histogram ls) = (if j = LatencyBuckets - 1 then (5000, True) else (LatencyBoundsMS ! j, False))"
    using P95_bucket [OF assms] by blast
  have below: "100 * within ls (LatencyBoundsMS ! j') < 95 * length ls"
    if "j' < j" "j' < length LatencyBoundsMS" for j'
  proof -
    have "100 * int (within ls (LatencyBoundsMS ! j')) < 95 * int (length ls)"
      using j(2) [rule_format, OF that(1)] cumulative_within [OF len that(2)] by simp
    then show ?thesis by linarith
  qed
  have last: "LatencyBoundsMS ! 8 = 5000" "length LatencyBoundsMS = 9" by code_simp+
  show ?thesis
  proof (cases "j = LatencyBuckets - 1")
    case True
    then have "8 < j" by (simp add: LatencyBuckets_def last)
    with below [of 8] last True j(4) nth_mem [of 8 LatencyBoundsMS] show ?thesis by simp
  next
    case False
    with j(1) have jl: "j < length LatencyBoundsMS" by (simp add: LatencyBuckets_def)
    have "100 * within ls b' < 95 * length ls"
      if b: "b' \<in> set LatencyBoundsMS" "b' < LatencyBoundsMS ! j" for b'
    proof -
      obtain j' where j': "j' < length LatencyBoundsMS" "b' = LatencyBoundsMS ! j'"
        using b(1) unfolding in_set_conv_nth by blast
      have "j' < j"
      proof (rule ccontr)
        assume "\<not> j' < j"
        then have "LatencyBoundsMS ! j \<le> LatencyBoundsMS ! j'"
          using sorted_bounds [of j j'] j'(1) by (cases "j = j'") auto
        with b(2) j'(2) show False by simp
      qed
      with below j' show ?thesis by blast
    qed
    moreover have "95 * length ls \<le> 100 * within ls (LatencyBoundsMS ! j)"
      using j(3) cumulative_within [OF len jl] by linarith
    ultimately show ?thesis using False j(4) jl by simp
  qed
qed

theorem p95_is_the_least_sufficient_bound_witness:
  "case P95 (histogram [3, 40, 7000, 12]) of (b, over) \<Rightarrow>
    b \<in> set LatencyBoundsMS \<and>
    (if over then b = 5000 \<and> 100 * within [3, 40, 7000, 12] 5000 < 95 * length [3, 40, 7000, 12 :: int]
     else 95 * length [3, 40, 7000, 12 :: int] \<le> 100 * within [3, 40, 7000, 12] b \<and>
       (\<forall>b'\<in>set LatencyBoundsMS. b' < b \<longrightarrow>
          100 * within [3, 40, 7000, 12] b' < 95 * length [3, 40, 7000, 12 :: int]))"
  by (rule p95_is_the_least_sufficient_bound) simp_all

end
