(* ===== verification/Lease.thy ===== *)
theory Lease
  imports Prelude
begin

text \<open>
  The lease that keeps one compatibility Builder at work: \<open>src/internal/serverstore/lease.go\<close> (the
  PostgreSQL statements), the in-memory store of \<open>fake.go\<close>, and the leader loop of
  \<open>src/internal/compatibility/leader.go\<close>.

  A table of leases is a map from names to rows; each SQL statement acts on one row atomically, at
  the instant \<open>now\<close> of the database.  Instants and durations are integers in nanoseconds.  A call to
  the database may be applied and answered, applied with the answer lost, or not applied; the last two
  give the caller an error.  Fences are integers: a lease is not taken over \<open>2^63\<close> times.
\<close>

section \<open>Lease states and errors (lease.go)\<close>

record BuilderLeaseState =
  blName :: string
  blOwner :: string
  blFence :: int
  blAcquiredAt :: int
  blExpiresAt :: int

definition Expired :: "BuilderLeaseState \<Rightarrow> int \<Rightarrow> bool" where
  "Expired s now \<longleftrightarrow> \<not> now < blExpiresAt s"

datatype lease_error = ErrLeaseHeld | ErrLeaseLost | ErrTTL | ErrUnavailable

definition pauseHolder :: string where
  "pauseHolder = ''csx-server-governor''"

section \<open>The PostgreSQL store (lease.go)\<close>

text \<open>A row of \<open>builder_lease\<close>: the lease and the column \<open>paused_until\<close>.\<close>

type_synonym pg_leases = "(string, BuilderLeaseState \<times> int option) gomap"

definition PG_AcquireBuilderLease ::
  "int \<Rightarrow> string \<Rightarrow> string \<Rightarrow> int \<Rightarrow> pg_leases \<Rightarrow> pg_leases \<times> (lease_error + BuilderLeaseState)" where
  "PG_AcquireBuilderLease now name owner ttl t =
     (if ttl \<le> 0 then (t, Inl ErrTTL)
      else case map_of t name of
        None \<Rightarrow>
          let st = \<lparr>blName = name, blOwner = owner, blFence = 1, blAcquiredAt = now,
                    blExpiresAt = now + ttl\<rparr>
          in (AList.update name (st, None) t, Inr st)
      | Some (cur, paused) \<Rightarrow>
          if blExpiresAt cur < now \<or> blOwner cur = owner then
            let st = cur\<lparr>blOwner := owner, blFence := blFence cur + 1, blAcquiredAt := now,
                         blExpiresAt := now + ttl\<rparr>
            in (AList.update name (st, paused) t, Inr st)
          else (t, Inl ErrLeaseHeld))"

definition PG_RenewBuilderLease ::
  "int \<Rightarrow> string \<Rightarrow> string \<Rightarrow> int \<Rightarrow> int \<Rightarrow> pg_leases \<Rightarrow> pg_leases \<times> (lease_error + BuilderLeaseState)" where
  "PG_RenewBuilderLease now name owner fence ttl t =
     (if ttl \<le> 0 then (t, Inl ErrTTL)
      else case map_of t name of
        None \<Rightarrow> (t, Inl ErrLeaseLost)
      | Some (cur, paused) \<Rightarrow>
          if blOwner cur = owner \<and> blFence cur = fence then
            let st = cur\<lparr>blExpiresAt := now + ttl\<rparr> in (AList.update name (st, paused) t, Inr st)
          else (t, Inl ErrLeaseLost))"

definition PG_ReleaseBuilderLease ::
  "string \<Rightarrow> string \<Rightarrow> int \<Rightarrow> pg_leases \<Rightarrow> pg_leases \<times> (lease_error + unit)" where
  "PG_ReleaseBuilderLease name owner fence t =
     (case map_of t name of
        None \<Rightarrow> (t, Inl ErrLeaseLost)
      | Some (cur, _) \<Rightarrow>
          if blOwner cur = owner \<and> blFence cur = fence then (AList.delete name t, Inr ())
          else (t, Inl ErrLeaseLost))"

definition PG_PauseBuilderLease :: "int \<Rightarrow> string \<Rightarrow> int \<Rightarrow> pg_leases \<Rightarrow> pg_leases \<times> (lease_error + unit)" where
  "PG_PauseBuilderLease now name ttl t =
     (if ttl \<le> 0 then (t, Inl ErrTTL)
      else case map_of t name of
        None \<Rightarrow> (AList.update name (\<lparr>blName = name, blOwner = pauseHolder, blFence = 0,
                   blAcquiredAt = now, blExpiresAt = now\<rparr>, Some (now + ttl)) t, Inr ())
      | Some (cur, _) \<Rightarrow> (AList.update name (cur, Some (now + ttl)) t, Inr ()))"

definition PG_ResumeBuilderLease :: "string \<Rightarrow> pg_leases \<Rightarrow> pg_leases \<times> (lease_error + unit)" where
  "PG_ResumeBuilderLease name t =
     (case map_of t name of
        Some (cur, Some _) \<Rightarrow> (AList.update name (cur, None) t, Inr ())
      | _ \<Rightarrow> (t, Inr ()))"

definition PG_BuilderLeasePaused :: "int \<Rightarrow> string \<Rightarrow> pg_leases \<Rightarrow> bool" where
  "PG_BuilderLeasePaused now name t =
     (case map_of t name of Some (_, Some until) \<Rightarrow> now < until | _ \<Rightarrow> False)"

definition PG_GetBuilderLease :: "string \<Rightarrow> pg_leases \<Rightarrow> BuilderLeaseState option" where
  "PG_GetBuilderLease name t = map_option fst (map_of t name)"

section \<open>The in-memory store (fake.go)\<close>

record fake_leases =
  flLeases :: "(string, BuilderLeaseState) gomap"
  flPauses :: "(string, int) gomap"

definition Fake_AcquireBuilderLease ::
  "int \<Rightarrow> string \<Rightarrow> string \<Rightarrow> int \<Rightarrow> fake_leases \<Rightarrow> fake_leases \<times> (lease_error + BuilderLeaseState)" where
  "Fake_AcquireBuilderLease now name owner ttl f =
     (if ttl \<le> 0 then (f, Inl ErrTTL)
      else
        let cur = map_of (flLeases f) name;
            st = \<lambda>fence. \<lparr>blName = name, blOwner = owner, blFence = fence, blAcquiredAt = now,
                          blExpiresAt = now + ttl\<rparr>
        in case cur of
          None \<Rightarrow> (f\<lparr>flLeases := AList.update name (st 1) (flLeases f)\<rparr>, Inr (st 1))
        | Some c \<Rightarrow>
            if \<not> Expired c now \<and> blOwner c \<noteq> owner then (f, Inl ErrLeaseHeld)
            else (f\<lparr>flLeases := AList.update name (st (blFence c + 1)) (flLeases f)\<rparr>,
                  Inr (st (blFence c + 1))))"

definition Fake_RenewBuilderLease ::
  "int \<Rightarrow> string \<Rightarrow> string \<Rightarrow> int \<Rightarrow> int \<Rightarrow> fake_leases \<Rightarrow> fake_leases \<times> (lease_error + BuilderLeaseState)" where
  "Fake_RenewBuilderLease now name owner fence ttl f =
     (if ttl \<le> 0 then (f, Inl ErrTTL)
      else case map_of (flLeases f) name of
        None \<Rightarrow> (f, Inl ErrLeaseLost)
      | Some cur \<Rightarrow>
          if blOwner cur \<noteq> owner \<or> blFence cur \<noteq> fence then (f, Inl ErrLeaseLost)
          else let st = cur\<lparr>blExpiresAt := now + ttl\<rparr>
            in (f\<lparr>flLeases := AList.update name st (flLeases f)\<rparr>, Inr st))"

definition Fake_ReleaseBuilderLease ::
  "string \<Rightarrow> string \<Rightarrow> int \<Rightarrow> fake_leases \<Rightarrow> fake_leases \<times> (lease_error + unit)" where
  "Fake_ReleaseBuilderLease name owner fence f =
     (case map_of (flLeases f) name of
        None \<Rightarrow> (f, Inl ErrLeaseLost)
      | Some cur \<Rightarrow>
          if blOwner cur \<noteq> owner \<or> blFence cur \<noteq> fence then (f, Inl ErrLeaseLost)
          else (f\<lparr>flLeases := AList.delete name (flLeases f), flPauses := AList.delete name (flPauses f)\<rparr>,
                Inr ()))"

definition Fake_PauseBuilderLease :: "int \<Rightarrow> string \<Rightarrow> int \<Rightarrow> fake_leases \<Rightarrow> fake_leases \<times> (lease_error + unit)" where
  "Fake_PauseBuilderLease now name ttl f =
     (if ttl \<le> 0 then (f, Inl ErrTTL)
      else (f\<lparr>flPauses := AList.update name (now + ttl) (flPauses f)\<rparr>, Inr ()))"

definition Fake_ResumeBuilderLease :: "string \<Rightarrow> fake_leases \<Rightarrow> fake_leases \<times> (lease_error + unit)" where
  "Fake_ResumeBuilderLease name f = (f\<lparr>flPauses := AList.delete name (flPauses f)\<rparr>, Inr ())"

definition Fake_BuilderLeasePaused :: "int \<Rightarrow> string \<Rightarrow> fake_leases \<Rightarrow> bool" where
  "Fake_BuilderLeasePaused now name f =
     (case map_of (flPauses f) name of Some until \<Rightarrow> now < until | None \<Rightarrow> False)"

definition Fake_GetBuilderLease :: "string \<Rightarrow> fake_leases \<Rightarrow> BuilderLeaseState option" where
  "Fake_GetBuilderLease name f = map_of (flLeases f) name"

section \<open>The store as the leader and the governor see it\<close>

text \<open>The lease methods of the interface \<open>serverstore.Store\<close>.\<close>

record 's lease_api =
  apiAcquire :: "int \<Rightarrow> string \<Rightarrow> string \<Rightarrow> int \<Rightarrow> 's \<Rightarrow> 's \<times> (lease_error + BuilderLeaseState)"
  apiRenew :: "int \<Rightarrow> string \<Rightarrow> string \<Rightarrow> int \<Rightarrow> int \<Rightarrow> 's \<Rightarrow> 's \<times> (lease_error + BuilderLeaseState)"
  apiRelease :: "string \<Rightarrow> string \<Rightarrow> int \<Rightarrow> 's \<Rightarrow> 's \<times> (lease_error + unit)"
  apiPause :: "int \<Rightarrow> string \<Rightarrow> int \<Rightarrow> 's \<Rightarrow> 's \<times> (lease_error + unit)"
  apiResume :: "string \<Rightarrow> 's \<Rightarrow> 's \<times> (lease_error + unit)"
  apiPaused :: "int \<Rightarrow> string \<Rightarrow> 's \<Rightarrow> bool"

definition pg_api :: "pg_leases lease_api" where
  "pg_api = \<lparr>apiAcquire = PG_AcquireBuilderLease, apiRenew = PG_RenewBuilderLease,
     apiRelease = PG_ReleaseBuilderLease, apiPause = PG_PauseBuilderLease,
     apiResume = PG_ResumeBuilderLease, apiPaused = PG_BuilderLeasePaused\<rparr>"

definition fake_api :: "fake_leases lease_api" where
  "fake_api = \<lparr>apiAcquire = Fake_AcquireBuilderLease, apiRenew = Fake_RenewBuilderLease,
     apiRelease = Fake_ReleaseBuilderLease, apiPause = Fake_PauseBuilderLease,
     apiResume = Fake_ResumeBuilderLease, apiPaused = Fake_BuilderLeasePaused\<rparr>"

datatype delivery = Answered | Unanswered | Undelivered

definition call :: "delivery \<Rightarrow> ('s \<Rightarrow> 's \<times> (lease_error + 'a)) \<Rightarrow> 's \<Rightarrow> 's \<times> (lease_error + 'a)" where
  "call d f s = (case d of
     Answered \<Rightarrow> f s
   | Unanswered \<Rightarrow> (fst (f s), Inl ErrUnavailable)
   | Undelivered \<Rightarrow> (s, Inl ErrUnavailable))"

datatype lease_op =
    OpAcquire string string int
  | OpRenew string string int int
  | OpRelease string string int
  | OpPause string int
  | OpResume string
  | OpPaused string

datatype lease_result =
    RLease "lease_error + BuilderLeaseState"
  | RDone "lease_error + unit"
  | RPaused bool

fun apply_op :: "'s lease_api \<Rightarrow> int \<Rightarrow> lease_op \<Rightarrow> 's \<Rightarrow> 's \<times> lease_result" where
  "apply_op api now (OpAcquire name owner ttl) s = map_prod id RLease (apiAcquire api now name owner ttl s)"
| "apply_op api now (OpRenew name owner fence ttl) s =
     map_prod id RLease (apiRenew api now name owner fence ttl s)"
| "apply_op api now (OpRelease name owner fence) s = map_prod id RDone (apiRelease api name owner fence s)"
| "apply_op api now (OpPause name ttl) s = map_prod id RDone (apiPause api now name ttl s)"
| "apply_op api now (OpResume name) s = map_prod id RDone (apiResume api name s)"
| "apply_op api now (OpPaused name) s = (s, RPaused (apiPaused api now name s))"

fun run_ops :: "'s lease_api \<Rightarrow> (int \<times> lease_op) list \<Rightarrow> 's \<Rightarrow> 's \<times> lease_result list" where
  "run_ops api [] s = (s, [])"
| "run_ops api ((now, op) # ops) s =
     (case apply_op api now op s of (s1, r) \<Rightarrow> (case run_ops api ops s1 of (s2, rs) \<Rightarrow> (s2, r # rs)))"

section \<open>The two stores give the same answers\<close>

text \<open>
  The statements differ in one place: at the very instant a lease expires the Fake lets another owner
  in and PostgreSQL does not.  A run without such a tie, in which renewals and releases carry a fence
  that was handed out (they start at 1), is answered alike by both.
\<close>

fun tie_free :: "int \<Rightarrow> lease_op \<Rightarrow> pg_leases \<Rightarrow> bool" where
  "tie_free now (OpAcquire name owner ttl) t = (case map_of t name of
     Some (st, _) \<Rightarrow> blExpiresAt st \<noteq> now \<or> blOwner st = owner | None \<Rightarrow> True)"
| "tie_free now (OpRenew name owner fence ttl) t = (0 < fence)"
| "tie_free now (OpRelease name owner fence) t = (0 < fence)"
| "tie_free now _ t = True"

fun tie_free_run :: "(int \<times> lease_op) list \<Rightarrow> pg_leases \<Rightarrow> bool" where
  "tie_free_run [] t = True"
| "tie_free_run ((now, op) # ops) t = (tie_free now op t \<and> tie_free_run ops (fst (apply_op pg_api now op t)))"

text \<open>
  The relation of the states: the Fake has no row for the placeholder that a pause inserts (fence 0,
  already expired), and keeps the pauses in a map of their own.
\<close>

definition row_ok :: "int \<Rightarrow> string \<Rightarrow> BuilderLeaseState \<Rightarrow> bool" where
  "row_ok now n st \<longleftrightarrow> blName st = n \<and> (0 < blFence st \<or> (blFence st = 0 \<and> blExpiresAt st \<le> now))"

definition row_rel ::
  "int \<Rightarrow> string \<Rightarrow> BuilderLeaseState option \<Rightarrow> int option \<Rightarrow>
   (BuilderLeaseState \<times> int option) option \<Rightarrow> bool" where
  "row_rel now n lease pause r \<longleftrightarrow> (case r of
       None \<Rightarrow> lease = None \<and> pause = None
     | Some (st, p) \<Rightarrow> row_ok now n st \<and> pause = p \<and>
         lease = (if blFence st = 0 then None else Some st))"

definition lease_rel :: "int \<Rightarrow> fake_leases \<Rightarrow> pg_leases \<Rightarrow> bool" where
  "lease_rel now f t \<longleftrightarrow>
     (\<forall>n. row_rel now n (map_of (flLeases f) n) (map_of (flPauses f) n) (map_of t n))"

lemma lease_relE:
  assumes "lease_rel now f t"
  obtains "map_of t n = None" "map_of (flLeases f) n = None" "map_of (flPauses f) n = None"
  | st p where "map_of t n = Some (st, p)" "row_ok now n st" "map_of (flPauses f) n = p"
      "map_of (flLeases f) n = (if blFence st = 0 then None else Some st)"
  using assms [unfolded lease_rel_def, rule_format, of n]
  by (cases "map_of t n") (auto simp: row_rel_def split: if_splits)

lemma lease_rel_update:
  assumes "lease_rel now f t"
    and "\<And>m. m \<noteq> n \<Longrightarrow> map_of t' m = map_of t m"
    and "\<And>m. m \<noteq> n \<Longrightarrow> map_of (flLeases f') m = map_of (flLeases f) m"
    and "\<And>m. m \<noteq> n \<Longrightarrow> map_of (flPauses f') m = map_of (flPauses f) m"
    and "row_rel now n (map_of (flLeases f') n) (map_of (flPauses f') n) (map_of t' n)"
  shows "lease_rel now f' t'"
  unfolding lease_rel_def
proof
  fix m
  show "row_rel now m (map_of (flLeases f') m) (map_of (flPauses f') m) (map_of t' m)"
    using assms by (cases "m = n") (simp_all add: lease_rel_def)
qed

lemma lease_rel_mono: "lease_rel now f t \<Longrightarrow> now \<le> now' \<Longrightarrow> lease_rel now' f t"
  unfolding lease_rel_def row_rel_def row_ok_def by (fastforce split: option.splits)

lemmas lease_defs = PG_AcquireBuilderLease_def PG_RenewBuilderLease_def PG_ReleaseBuilderLease_def
  PG_PauseBuilderLease_def PG_ResumeBuilderLease_def PG_BuilderLeasePaused_def
  Fake_AcquireBuilderLease_def Fake_RenewBuilderLease_def Fake_ReleaseBuilderLease_def
  Fake_PauseBuilderLease_def Fake_ResumeBuilderLease_def Fake_BuilderLeasePaused_def

lemma acquire_refines:
  assumes r: "lease_rel now f t" and tie: "tie_free now (OpAcquire name owner ttl) t"
  shows "lease_rel now (fst (Fake_AcquireBuilderLease now name owner ttl f))
      (fst (PG_AcquireBuilderLease now name owner ttl t)) \<and>
    snd (Fake_AcquireBuilderLease now name owner ttl f) = snd (PG_AcquireBuilderLease now name owner ttl t)"
proof (cases "ttl \<le> 0")
  case True
  with r show ?thesis by (simp add: lease_defs)
next
  case False
  from r show ?thesis
  proof (cases rule: lease_relE [where n = name])
    case 1
    with r False show ?thesis
      by (auto simp: lease_defs Let_def update_conv' row_ok_def row_rel_def intro!: lease_rel_update [OF r, of name])
  next
    case (2 st p)
    with r False tie show ?thesis
      by (auto simp: lease_defs Let_def update_conv' row_ok_def row_rel_def Expired_def
          intro!: lease_rel_update [OF r, of name])
  qed
qed

lemma renew_refines:
  assumes r: "lease_rel now f t" and "0 < fence"
  shows "lease_rel now (fst (Fake_RenewBuilderLease now name owner fence ttl f))
      (fst (PG_RenewBuilderLease now name owner fence ttl t)) \<and>
    snd (Fake_RenewBuilderLease now name owner fence ttl f) = snd (PG_RenewBuilderLease now name owner fence ttl t)"
  using r
proof (cases rule: lease_relE [where n = name])
  case 1
  with r show ?thesis by (simp add: lease_defs)
next
  case (2 st p)
  with assms show ?thesis
    by (auto simp: lease_defs Let_def update_conv' row_ok_def row_rel_def intro!: lease_rel_update [OF r, of name])
qed

lemma release_refines:
  assumes r: "lease_rel now f t" and "0 < fence"
  shows "lease_rel now (fst (Fake_ReleaseBuilderLease name owner fence f))
      (fst (PG_ReleaseBuilderLease name owner fence t)) \<and>
    snd (Fake_ReleaseBuilderLease name owner fence f) = snd (PG_ReleaseBuilderLease name owner fence t)"
  using r
proof (cases rule: lease_relE [where n = name])
  case 1
  with r show ?thesis by (simp add: lease_defs)
next
  case (2 st p)
  with assms show ?thesis
    by (auto simp: lease_defs delete_conv' row_rel_def intro!: lease_rel_update [OF r, of name])
qed

lemma pause_refines:
  assumes r: "lease_rel now f t"
  shows "lease_rel now (fst (Fake_PauseBuilderLease now name ttl f))
      (fst (PG_PauseBuilderLease now name ttl t)) \<and>
    snd (Fake_PauseBuilderLease now name ttl f) = snd (PG_PauseBuilderLease now name ttl t)"
  using r
proof (cases rule: lease_relE [where n = name])
  case 1
  with r show ?thesis
    by (auto simp: lease_defs update_conv' row_ok_def row_rel_def intro!: lease_rel_update [OF r, of name])
next
  case (2 st p)
  with r show ?thesis
    by (auto simp: lease_defs update_conv' row_ok_def row_rel_def intro!: lease_rel_update [OF r, of name])
qed

lemma resume_refines:
  assumes r: "lease_rel now f t"
  shows "lease_rel now (fst (Fake_ResumeBuilderLease name f)) (fst (PG_ResumeBuilderLease name t)) \<and>
    snd (Fake_ResumeBuilderLease name f) = snd (PG_ResumeBuilderLease name t)"
  using r
proof (cases rule: lease_relE [where n = name])
  case 1
  with r show ?thesis
    by (auto simp: lease_defs delete_conv' row_rel_def intro!: lease_rel_update [OF r, of name])
next
  case (2 st p)
  with r show ?thesis
    by (auto simp: lease_defs update_conv' delete_conv' row_rel_def split: option.split
        intro!: lease_rel_update [OF r, of name])
qed

lemma paused_refines:
  "lease_rel now f t \<Longrightarrow> Fake_BuilderLeasePaused now' name f = PG_BuilderLeasePaused now' name t"
  by (erule lease_relE [where n = name]) (auto simp: lease_defs split: option.split)

lemma apply_op_refines:
  assumes "lease_rel now f t" "tie_free now op t"
  shows "lease_rel now (fst (apply_op fake_api now op f)) (fst (apply_op pg_api now op t)) \<and>
    snd (apply_op fake_api now op f) = snd (apply_op pg_api now op t)"
  using assms acquire_refines renew_refines release_refines pause_refines resume_refines paused_refines
  by (cases op) (simp_all add: fake_api_def pg_api_def del: tie_free.simps(1))

lemma run_ops_refines:
  "lease_rel now0 f t \<Longrightarrow> sorted (now0 # map fst ops) \<Longrightarrow> tie_free_run ops t \<Longrightarrow>
   snd (run_ops fake_api ops f) = snd (run_ops pg_api ops t)"
proof (induction ops arbitrary: now0 f t)
  case (Cons nop ops)
  obtain now op where nop: "nop = (now, op)" by fastforce
  have "lease_rel now f t"
    using lease_rel_mono [OF Cons.prems(1)] Cons.prems(2) nop by simp
  with apply_op_refines [of now f t op] Cons.prems(3) nop
  have "lease_rel now (fst (apply_op fake_api now op f)) (fst (apply_op pg_api now op t))"
    "snd (apply_op fake_api now op f) = snd (apply_op pg_api now op t)" by simp_all
  with Cons.IH [of now "fst (apply_op fake_api now op f)" "fst (apply_op pg_api now op t)"] Cons.prems nop
  show ?case by (simp add: case_prod_beta)
qed simp

definition fake_empty :: fake_leases where
  "fake_empty = \<lparr>flLeases = [], flPauses = []\<rparr>"

lemma lease_rel_empty: "lease_rel now fake_empty []"
  by (simp add: lease_rel_def row_rel_def fake_empty_def)


definition sample_ops :: "(int \<times> lease_op) list" where
  "sample_ops = [(1, OpPause ''b'' 60), (2, OpAcquire ''b'' ''p1'' 45), (5, OpAcquire ''b'' ''p2'' 45),
     (20, OpRenew ''b'' ''p1'' 1 45), (30, OpPaused ''b''), (70, OpAcquire ''b'' ''p2'' 45),
     (71, OpRenew ''b'' ''p1'' 1 45), (80, OpRelease ''b'' ''p2'' 2), (81, OpPaused ''b'')]"


text \<open>The tie itself: at the instant of expiry the Fake hands the lease over, PostgreSQL refuses.\<close>

lemma lease_stores_differ_at_expiry:
  "let ops = [(0, OpAcquire ''b'' ''p1'' 45), (45, OpAcquire ''b'' ''p2'' 45)] in
   map (\<lambda>r. r = RLease (Inl ErrLeaseHeld)) (snd (run_ops fake_api ops fake_empty)) = [False, False] \<and>
   map (\<lambda>r. r = RLease (Inl ErrLeaseHeld)) (snd (run_ops pg_api ops [])) = [False, True]"
  by code_simp

text \<open>
  A release deletes the row, and with it the count of the fences: the owner that takes the lease
  again gets fence 1 again, and a renewal with the fence of before the release is accepted.
\<close>

lemma fence_restarts_after_release:
  "map (\<lambda>r. case r of RLease (Inr st) \<Rightarrow> blFence st | _ \<Rightarrow> 0)
     (snd (run_ops pg_api [(0, OpAcquire ''b'' ''p1'' 45), (1, OpRelease ''b'' ''p1'' 1),
        (2, OpAcquire ''b'' ''p1'' 45), (3, OpRenew ''b'' ''p1'' 1 45)] [])) = [1, 0, 1, 1]"
  by code_simp

end
