(* ===== verification/Leader.thy ===== *)
theory Leader
  imports Lease
begin

text \<open>
  Leader election over the lease: \<open>src/internal/compatibility/leader.go\<close>.  A cluster is any number of
  Builder processes, named by their distinct owners, the clock, and the store.  A process contends,
  leads with the lease it was given, or has been told to stop and still has to release; \<open>Run\<close>,
  \<open>holdAndRun\<close> and \<open>renewLoop\<close> are its steps.  The clock of the database is the clock of the cluster.
\<close>

section \<open>Configuration\<close>

record LeaseConfig =
  lcName :: string
  lcTTL :: int
  lcRenewEvery :: int
  lcRetryEvery :: int
  lcPauseTTL :: int

definition second_ns :: int where
  "second_ns = 1000000000"

definition DefaultLeaseName :: string where
  "DefaultLeaseName = ''compatibility-builder''"

definition normalize_config :: "LeaseConfig \<Rightarrow> LeaseConfig" where
  "normalize_config c =
     \<lparr>lcName = (if lcName c = [] then DefaultLeaseName else lcName c),
      lcTTL = (if lcTTL c \<le> 0 then 45 * second_ns else lcTTL c),
      lcRenewEvery = (if lcRenewEvery c \<le> 0 then 15 * second_ns else lcRenewEvery c),
      lcRetryEvery = (if lcRetryEvery c \<le> 0 then 10 * second_ns else lcRetryEvery c),
      lcPauseTTL = (if lcPauseTTL c \<le> 0 then 60 * second_ns else lcPauseTTL c)\<rparr>"

section \<open>The election\<close>

datatype leader = Contending | Leading BuilderLeaseState | Yielding BuilderLeaseState

record 's cluster =
  cuNow :: int
  cuStore :: 's
  cuLeader :: "string \<Rightarrow> leader"

text \<open>One turn of the loop of \<open>Run\<close>: an acquisition, and the state it leaves the process in.\<close>

definition acquire_step ::
  "'s lease_api \<Rightarrow> LeaseConfig \<Rightarrow> string \<Rightarrow> delivery \<Rightarrow> 's cluster \<Rightarrow> 's cluster" where
  "acquire_step api cfg owner d c =
     (case call d (apiAcquire api (cuNow c) (lcName cfg) owner (lcTTL cfg)) (cuStore c) of
        (s, Inl _) \<Rightarrow> c\<lparr>cuStore := s\<rparr>
      | (s, Inr st) \<Rightarrow> c\<lparr>cuStore := s, cuLeader := (cuLeader c)(owner := Leading st)\<rparr>)"

text \<open>One turn of \<open>renewLoop\<close>: a refusal cancels the work, and the process yields.\<close>

definition renew_step ::
  "'s lease_api \<Rightarrow> LeaseConfig \<Rightarrow> string \<Rightarrow> BuilderLeaseState \<Rightarrow> delivery \<Rightarrow> 's cluster \<Rightarrow> 's cluster" where
  "renew_step api cfg owner st d c =
     (case call d (apiRenew api (cuNow c) (lcName cfg) owner (blFence st) (lcTTL cfg)) (cuStore c) of
        (s, Inl _) \<Rightarrow> c\<lparr>cuStore := s, cuLeader := (cuLeader c)(owner := Yielding st)\<rparr>
      | (s, Inr renewed) \<Rightarrow> c\<lparr>cuStore := s, cuLeader := (cuLeader c)(owner := Leading renewed)\<rparr>)"

text \<open>The end of \<open>holdAndRun\<close>: the best-effort release, after the work has returned.\<close>

definition release_step ::
  "'s lease_api \<Rightarrow> LeaseConfig \<Rightarrow> string \<Rightarrow> BuilderLeaseState \<Rightarrow> delivery \<Rightarrow> 's cluster \<Rightarrow> 's cluster" where
  "release_step api cfg owner st d c =
     c\<lparr>cuStore := fst (call d (apiRelease api (lcName cfg) owner (blFence st)) (cuStore c)),
       cuLeader := (cuLeader c)(owner := Contending)\<rparr>"

datatype lease_event =
    Acquire string delivery
  | Renew string delivery
  | Finish string
  | Release string delivery
  | Crash string
  | Pause delivery
  | Resume delivery
  | Advance int

fun cluster_step :: "'s lease_api \<Rightarrow> LeaseConfig \<Rightarrow> lease_event \<Rightarrow> 's cluster \<Rightarrow> 's cluster option" where
  "cluster_step api cfg (Acquire owner d) c =
     (if cuLeader c owner = Contending then Some (acquire_step api cfg owner d c) else None)"
| "cluster_step api cfg (Renew owner d) c = (case cuLeader c owner of
     Leading st \<Rightarrow> Some (renew_step api cfg owner st d c) | _ \<Rightarrow> None)"
| "cluster_step api cfg (Finish owner) c = (case cuLeader c owner of
     Leading st \<Rightarrow> Some (c\<lparr>cuLeader := (cuLeader c)(owner := Yielding st)\<rparr>) | _ \<Rightarrow> None)"
| "cluster_step api cfg (Release owner d) c = (case cuLeader c owner of
     Yielding st \<Rightarrow> Some (release_step api cfg owner st d c) | _ \<Rightarrow> None)"
| "cluster_step api cfg (Crash owner) c = Some (c\<lparr>cuLeader := (cuLeader c)(owner := Contending)\<rparr>)"
| "cluster_step api cfg (Pause d) c =
     Some (c\<lparr>cuStore := fst (call d (apiPause api (cuNow c) (lcName cfg) (lcPauseTTL cfg)) (cuStore c))\<rparr>)"
| "cluster_step api cfg (Resume d) c =
     Some (c\<lparr>cuStore := fst (call d (apiResume api (lcName cfg)) (cuStore c))\<rparr>)"
| "cluster_step api cfg (Advance dt) c =
     (if 0 \<le> dt then Some (c\<lparr>cuNow := cuNow c + dt\<rparr>) else None)"

definition new_cluster :: "'s \<Rightarrow> 's cluster" where
  "new_cluster s = \<lparr>cuNow = 0, cuStore = s, cuLeader = (\<lambda>_. Contending)\<rparr>"

inductive cluster_reach :: "'s lease_api \<Rightarrow> LeaseConfig \<Rightarrow> 's cluster \<Rightarrow> 's cluster \<Rightarrow> bool"
  for api cfg c0 where
  start: "cluster_reach api cfg c0 c0"
| step: "cluster_reach api cfg c0 c \<Longrightarrow> cluster_step api cfg e c = Some c' \<Longrightarrow>
    cluster_reach api cfg c0 c'"

text \<open>The lease under which a process may be working, also while it winds down.\<close>

fun lease_of :: "leader \<Rightarrow> BuilderLeaseState option" where
  "lease_of Contending = None"
| "lease_of (Leading st) = Some st"
| "lease_of (Yielding st) = Some st"

section \<open>The contract of the store, and what the election makes of it\<close>

locale lease_service =
  fixes api :: "'s lease_api" and current :: "'s \<Rightarrow> string \<Rightarrow> BuilderLeaseState option"
  assumes acquire_ok: "apiAcquire api now n p ttl s = (s', Inr st) \<Longrightarrow>
      current s' n = Some st \<and> blOwner st = p \<and> blExpiresAt st = now + ttl \<and>
      (\<forall>cur. current s n = Some cur \<longrightarrow> Expired cur now \<or> blOwner cur = p)"
    and acquire_error: "apiAcquire api now n p ttl s = (s', Inl e) \<Longrightarrow> current s' = current s"
    and renew_ok: "apiRenew api now n p fence ttl s = (s', Inr st) \<Longrightarrow>
      \<exists>cur. current s n = Some cur \<and> blOwner cur = p \<and> blFence cur = fence \<and>
        st = cur\<lparr>blExpiresAt := now + ttl\<rparr> \<and> current s' n = Some st"
    and renew_error: "apiRenew api now n p fence ttl s = (s', Inl e) \<Longrightarrow> current s' = current s"
    and release_ok: "apiRelease api n p fence s = (s', Inr u) \<Longrightarrow>
      \<exists>cur. current s n = Some cur \<and> blOwner cur = p \<and> blFence cur = fence"
    and release_error: "apiRelease api n p fence s = (s', Inl e) \<Longrightarrow> current s' = current s"
    and pause_keeps: "current s n = Some cur \<Longrightarrow> current (fst (apiPause api now m ttl s)) n = Some cur"
    and resume_keeps: "current s n = Some cur \<Longrightarrow> current (fst (apiResume api m s)) n = Some cur"
begin

text \<open>
  The invariant: a process whose own copy of the lease has not expired is the owner on record, with
  the same fence, and the record expires no earlier than the copy.
\<close>

definition backed :: "LeaseConfig \<Rightarrow> int \<Rightarrow> 's \<Rightarrow> string \<Rightarrow> BuilderLeaseState \<Rightarrow> bool" where
  "backed cfg now s p st \<longleftrightarrow> (now < blExpiresAt st \<longrightarrow>
     (\<exists>cur. current s (lcName cfg) = Some cur \<and> blOwner cur = p \<and> blFence cur = blFence st \<and>
        blExpiresAt st \<le> blExpiresAt cur))"

definition cluster_inv :: "LeaseConfig \<Rightarrow> 's cluster \<Rightarrow> bool" where
  "cluster_inv cfg c \<longleftrightarrow>
     (\<forall>p st. lease_of (cuLeader c p) = Some st \<longrightarrow>
        backed cfg (cuNow c) (cuStore c) p st \<and> blExpiresAt st \<le> cuNow c + lcTTL cfg)"

lemma cluster_invD: "cluster_inv cfg c \<Longrightarrow> lease_of (cuLeader c p) = Some st \<Longrightarrow>
    backed cfg (cuNow c) (cuStore c) p st \<and> blExpiresAt st \<le> cuNow c + lcTTL cfg"
  by (simp add: cluster_inv_def)

text \<open>An applied acquisition or renewal keeps every other process's copy backed.\<close>

lemma acquire_backed:
  assumes "apiAcquire api now (lcName cfg) p ttl s = (s', r)" "backed cfg now s q st" "q \<noteq> p"
  shows "backed cfg now s' q st"
proof (cases r)
  case (Inl e)
  with assms acquire_error show ?thesis by (fastforce simp: backed_def)
next
  case (Inr st')
  with assms acquire_ok [of now "lcName cfg" p ttl s s' st'] have
    "\<forall>cur. current s (lcName cfg) = Some cur \<longrightarrow> Expired cur now \<or> blOwner cur = p" by simp
  with assms(2,3) show ?thesis by (fastforce simp: backed_def Expired_def)
qed

lemma renew_backed:
  assumes "apiRenew api now (lcName cfg) p fence ttl s = (s', r)" "backed cfg now s q st" "q \<noteq> p"
  shows "backed cfg now s' q st"
proof (cases r)
  case (Inl e)
  with assms renew_error show ?thesis by (fastforce simp: backed_def)
next
  case (Inr st')
  with assms renew_ok [of now "lcName cfg" p fence ttl s s' st'] show ?thesis
    by (fastforce simp: backed_def)
qed

lemma release_backed:
  assumes "apiRelease api (lcName cfg) p fence s = (s', r)" "backed cfg now s q st" "q \<noteq> p"
  shows "backed cfg now s' q st"
proof (cases r)
  case (Inl e)
  with assms release_error show ?thesis by (fastforce simp: backed_def)
next
  case (Inr u)
  with assms release_ok [of "lcName cfg" p fence s s' u] show ?thesis
    by (fastforce simp: backed_def)
qed

text \<open>
  A call changes the store to what the operation leaves or not at all, and succeeds only with the
  operation's own answer.
\<close>

lemma call_cases:
  assumes "call d f s = (s', r)"
  obtains (applied) r' where "f s = (s', r')" "r = r' \<or> r = Inl ErrUnavailable"
  | (lost) "s' = s" "r = Inl ErrUnavailable"
  using assms by (cases d) (cases "f s"; auto simp: call_def)+

lemma call_Inr: "call d f s = (s', Inr x) \<Longrightarrow> f s = (s', Inr x)"
  by (cases d) (auto simp: call_def)

lemma inv_acquire:
  assumes inv: "cluster_inv cfg c" and ttl: "0 < lcTTL cfg" and p: "cuLeader c p = Contending"
  shows "cluster_inv cfg (acquire_step api cfg p d c)"
proof -
  obtain s' r where call: "call d (apiAcquire api (cuNow c) (lcName cfg) p (lcTTL cfg)) (cuStore c) = (s', r)"
    by fastforce
  have others: "backed cfg (cuNow c) s' q st \<and> blExpiresAt st \<le> cuNow c + lcTTL cfg"
    if "lease_of (cuLeader c q) = Some st" for q st
  proof -
    have "q \<noteq> p" using that p by auto
    with that inv call show ?thesis
      by (auto simp: cluster_inv_def intro: acquire_backed elim!: call_cases)
  qed
  show ?thesis
  proof (cases r)
    case (Inl e)
    with call others show ?thesis by (simp add: acquire_step_def cluster_inv_def)
  next
    case (Inr st)
    with acquire_ok [OF call_Inr [OF call [unfolded Inr]]]
    have "backed cfg (cuNow c) s' p st \<and> blExpiresAt st \<le> cuNow c + lcTTL cfg"
      by (simp add: backed_def)
    with call others Inr show ?thesis by (auto simp: acquire_step_def cluster_inv_def)
  qed
qed

lemma renew_own_backed:
  assumes "apiRenew api now (lcName cfg) p (blFence st) (lcTTL cfg) s = (s', r)"
    "backed cfg now s p st" "blExpiresAt st \<le> now + lcTTL cfg"
  shows "backed cfg now s' p st"
proof (cases r)
  case (Inl e)
  with assms renew_error show ?thesis by (fastforce simp: backed_def)
next
  case (Inr st')
  with assms renew_ok [of now "lcName cfg" p "blFence st" "lcTTL cfg" s s' st'] show ?thesis
    by (fastforce simp: backed_def)
qed

lemma inv_renew:
  assumes inv: "cluster_inv cfg c" and p: "cuLeader c p = Leading st0"
  shows "cluster_inv cfg (renew_step api cfg p st0 d c)"
proof -
  obtain s' r where
    call: "call d (apiRenew api (cuNow c) (lcName cfg) p (blFence st0) (lcTTL cfg)) (cuStore c) = (s', r)"
    by fastforce
  have keep: "backed cfg (cuNow c) s' q st \<and> blExpiresAt st \<le> cuNow c + lcTTL cfg"
    if l: "lease_of (cuLeader c q) = Some st" for q st
  proof (cases "q = p")
    case True
    with l p have "st = st0" by simp
    moreover have "backed cfg (cuNow c) (cuStore c) p st0 \<and> blExpiresAt st0 \<le> cuNow c + lcTTL cfg"
      using cluster_invD [OF inv, of p st0] p by simp
    ultimately show ?thesis
      using call True by (auto intro: renew_own_backed elim!: call_cases)
  next
    case False
    with l inv call show ?thesis
      by (auto simp: cluster_inv_def intro: renew_backed elim!: call_cases)
  qed
  show ?thesis
  proof (cases r)
    case (Inl e)
    with call keep keep [of p st0] p show ?thesis by (auto simp: renew_step_def cluster_inv_def)
  next
    case (Inr st)
    with renew_ok [OF call_Inr [OF call [unfolded Inr]]]
    have "backed cfg (cuNow c) s' p st \<and> blExpiresAt st \<le> cuNow c + lcTTL cfg"
      by (auto simp: backed_def)
    with call keep Inr show ?thesis by (auto simp: renew_step_def cluster_inv_def)
  qed
qed

lemma inv_release:
  assumes inv: "cluster_inv cfg c"
  shows "cluster_inv cfg (release_step api cfg p st0 d c)"
proof -
  obtain s' r where call: "call d (apiRelease api (lcName cfg) p (blFence st0)) (cuStore c) = (s', r)"
    by fastforce
  have "backed cfg (cuNow c) s' q st \<and> blExpiresAt st \<le> cuNow c + lcTTL cfg"
    if "lease_of (cuLeader c q) = Some st" "q \<noteq> p" for q st
    using that inv call by (auto simp: cluster_inv_def intro: release_backed elim!: call_cases)
  with call show ?thesis by (auto simp: release_step_def cluster_inv_def)
qed

lemma inv_store:
  assumes "cluster_inv cfg c" and "\<And>cur. current (cuStore c) (lcName cfg) = Some cur \<Longrightarrow>
      current s' (lcName cfg) = Some cur"
  shows "cluster_inv cfg (c\<lparr>cuStore := s'\<rparr>)"
  using assms by (fastforce simp: cluster_inv_def backed_def)

lemma call_keeps:
  assumes "\<And>cur. current s n = Some cur \<Longrightarrow> current (fst (f s)) n = Some cur" "current s n = Some cur"
  shows "current (fst (call d f s)) n = Some cur"
  using assms by (cases d) (auto simp: call_def)

lemma inv_step:
  assumes inv: "cluster_inv cfg c" and "0 < lcTTL cfg" and step: "cluster_step api cfg e c = Some c'"
  shows "cluster_inv cfg c'"
proof (cases e)
  case (Acquire p d)
  with assms show ?thesis by (auto intro: inv_acquire split: if_splits)
next
  case (Renew p d)
  with assms show ?thesis by (auto intro: inv_renew split: leader.splits)
next
  case (Finish p)
  with step obtain st where st: "cuLeader c p = Leading st" "c' = c\<lparr>cuLeader := (cuLeader c)(p := Yielding st)\<rparr>"
    by (auto split: leader.splits)
  have "lease_of (cuLeader c' q) = lease_of (cuLeader c q)" for q using st by simp
  with inv st show ?thesis by (simp add: cluster_inv_def)
next
  case (Release p d)
  with assms show ?thesis by (auto intro: inv_release split: leader.splits)
next
  case (Crash p)
  with inv step show ?thesis by (auto simp: cluster_inv_def split: if_splits)
next
  case (Pause d)
  with step show ?thesis by (auto intro!: inv_store [OF inv] call_keeps pause_keeps)
next
  case (Resume d)
  with step show ?thesis by (auto intro!: inv_store [OF inv] call_keeps resume_keeps)
next
  case (Advance dt)
  with inv step show ?thesis by (fastforce simp: cluster_inv_def backed_def split: if_splits)
qed

lemma inv_reach:
  "cluster_reach api cfg (new_cluster s0) c \<Longrightarrow> 0 < lcTTL cfg \<Longrightarrow> cluster_inv cfg c"
proof (induction rule: cluster_reach.induct)
  case start
  then show ?case by (simp add: cluster_inv_def new_cluster_def)
next
  case (step c e c')
  then show ?case using inv_step by blast
qed

lemma one_leader:
  assumes "cluster_reach api cfg (new_cluster s0) c" "0 < lcTTL cfg"
    and "lease_of (cuLeader c p) = Some st" "\<not> Expired st (cuNow c)"
    and "lease_of (cuLeader c q) = Some st'" "\<not> Expired st' (cuNow c)"
  shows "p = q"
  using cluster_invD [OF inv_reach [OF assms(1,2)] assms(3)] assms(4)
    cluster_invD [OF inv_reach [OF assms(1,2)] assms(5)] assms(6)
  by (auto simp: backed_def Expired_def)

end

section \<open>Recovery from a crashed owner\<close>

text \<open>What the store promises besides: an expired or missing lease can be taken, and no record
  outlives the last grant.\<close>

locale lease_recovery = lease_service api current
  for api :: "'s lease_api" and current :: "'s \<Rightarrow> string \<Rightarrow> BuilderLeaseState option" +
  assumes acquire_free: "0 < ttl \<Longrightarrow> (\<And>cur. current s n = Some cur \<Longrightarrow> blExpiresAt cur < now) \<Longrightarrow>
      \<exists>s' st. apiAcquire api now n p ttl s = (s', Inr st)"
    and release_frees: "current (fst (apiRelease api n p fence s)) n \<in> {None, current s n}"
    and pause_current: "current (fst (apiPause api now n ttl s)) n = current s n \<or>
      (\<exists>cur. current (fst (apiPause api now n ttl s)) n = Some cur \<and> blExpiresAt cur = now)"
    and resume_current: "current (fst (apiResume api n s)) n = current s n"
begin

definition bounded :: "LeaseConfig \<Rightarrow> int \<Rightarrow> 's \<Rightarrow> bool" where
  "bounded cfg now s \<longleftrightarrow> (\<forall>cur. current s (lcName cfg) = Some cur \<longrightarrow> blExpiresAt cur \<le> now + lcTTL cfg)"

lemma bounded_call:
  "bounded cfg now s \<Longrightarrow> bounded cfg now (fst (f s)) \<Longrightarrow> bounded cfg now (fst (call d f s))"
  by (cases d) (simp_all add: call_def)

lemma bounded_acquire:
  assumes "bounded cfg now s"
  shows "bounded cfg now (fst (apiAcquire api now (lcName cfg) p (lcTTL cfg) s))"
proof -
  obtain s' r where a: "apiAcquire api now (lcName cfg) p (lcTTL cfg) s = (s', r)" by fastforce
  with assms acquire_ok [of now "lcName cfg" p "lcTTL cfg" s s'] acquire_error [of now "lcName cfg" p "lcTTL cfg" s s']
  show ?thesis by (cases r) (auto simp: bounded_def)
qed

lemma bounded_renew:
  assumes "bounded cfg now s"
  shows "bounded cfg now (fst (apiRenew api now (lcName cfg) p fence (lcTTL cfg) s))"
proof -
  obtain s' r where a: "apiRenew api now (lcName cfg) p fence (lcTTL cfg) s = (s', r)" by fastforce
  with assms renew_ok [of now "lcName cfg" p fence "lcTTL cfg" s s'] renew_error [of now "lcName cfg" p fence "lcTTL cfg" s s']
  show ?thesis by (cases r) (fastforce simp: bounded_def)+
qed

lemma bounded_release: "bounded cfg now s \<Longrightarrow> bounded cfg now (fst (apiRelease api (lcName cfg) p fence s))"
  using release_frees [of "lcName cfg" p fence s] by (auto simp: bounded_def)

lemma bounded_pause:
  "0 < lcTTL cfg \<Longrightarrow> bounded cfg now s \<Longrightarrow> bounded cfg now (fst (apiPause api now (lcName cfg) ttl s))"
  using pause_current [of now "lcName cfg" ttl s] by (auto simp: bounded_def)

lemma bounded_resume: "bounded cfg now s \<Longrightarrow> bounded cfg now (fst (apiResume api (lcName cfg) s))"
  by (simp add: bounded_def resume_current)

lemma acquire_step_store: "cuNow (acquire_step api cfg p d c) = cuNow c \<and>
    cuStore (acquire_step api cfg p d c) =
      fst (call d (apiAcquire api (cuNow c) (lcName cfg) p (lcTTL cfg)) (cuStore c))"
  by (auto simp: acquire_step_def split: prod.split sum.split)

lemma renew_step_store: "cuNow (renew_step api cfg p st d c) = cuNow c \<and>
    cuStore (renew_step api cfg p st d c) =
      fst (call d (apiRenew api (cuNow c) (lcName cfg) p (blFence st) (lcTTL cfg)) (cuStore c))"
  by (auto simp: renew_step_def split: prod.split sum.split)

lemma release_step_store: "cuNow (release_step api cfg p st d c) = cuNow c \<and>
    cuStore (release_step api cfg p st d c) =
      fst (call d (apiRelease api (lcName cfg) p (blFence st)) (cuStore c))"
  by (simp add: release_step_def)

lemma bounded_step:
  assumes "bounded cfg (cuNow c) (cuStore c)" "0 < lcTTL cfg" "cluster_step api cfg e c = Some c'"
  shows "bounded cfg (cuNow c') (cuStore c')"
  using assms
  by (cases e)
    (auto simp: acquire_step_store renew_step_store release_step_store split: if_splits leader.splits
      intro!: bounded_call bounded_acquire bounded_renew bounded_release bounded_pause bounded_resume,
      auto simp: bounded_def)

lemma bounded_reach:
  "cluster_reach api cfg (new_cluster s0) c \<Longrightarrow> current s0 (lcName cfg) = None \<Longrightarrow> 0 < lcTTL cfg \<Longrightarrow>
   bounded cfg (cuNow c) (cuStore c)"
proof (induction rule: cluster_reach.induct)
  case start
  then show ?case by (simp add: bounded_def new_cluster_def)
next
  case (step c e c')
  then show ?case using bounded_step by blast
qed

lemma reclaimed:
  assumes "cluster_reach api cfg (new_cluster s0) c" "current s0 (lcName cfg) = None" "0 < lcTTL cfg"
    and "cuLeader c q = Contending" "lcTTL cfg < dt"
  shows "\<exists>c1 c2 st. cluster_step api cfg (Advance dt) c = Some c1 \<and>
    cluster_step api cfg (Acquire q Answered) c1 = Some c2 \<and> cuLeader c2 q = Leading st \<and>
    blOwner st = q \<and> \<not> Expired st (cuNow c2)"
proof -
  have "blExpiresAt cur < cuNow c + dt" if "current (cuStore c) (lcName cfg) = Some cur" for cur
    using bounded_reach [OF assms(1-3)] that assms(5) by (force simp: bounded_def)
  then obtain s' st where a: "apiAcquire api (cuNow c + dt) (lcName cfg) q (lcTTL cfg) (cuStore c) = (s', Inr st)"
    using acquire_free [OF assms(3)] by blast
  from acquire_ok [OF this] assms(3,4,5) a show ?thesis
    by (simp add: acquire_step_def call_def Expired_def)
qed

end

section \<open>Both stores honour the contract\<close>

interpretation pg_lease: lease_recovery pg_api "\<lambda>s n. PG_GetBuilderLease n s"
  by unfold_locales
    (auto simp: pg_api_def PG_GetBuilderLease_def lease_defs Expired_def Let_def update_conv' delete_conv'
      split: if_splits option.splits)

interpretation fake_lease: lease_recovery fake_api "\<lambda>s n. Fake_GetBuilderLease n s"
  by unfold_locales
    (auto simp: fake_api_def Fake_GetBuilderLease_def lease_defs Expired_def Let_def update_conv' delete_conv'
      split: if_splits option.splits)

lemma normalize_config_ttl: "0 < lcTTL (normalize_config cfg)"
  by (simp add: normalize_config_def second_ns_def)

text \<open>
  C1: at most one Builder works under an unexpired lease.  In every state that processes sharing the
  PostgreSQL lease can reach, whatever calls are lost, delayed past their answer, refused or repeated
  by restarts, crashes, pauses and clock steps, two processes whose own copies of the lease have not
  expired are the same process, and the table names it as the owner with the fence it holds.
\<close>

theorem one_builder_leads:
  assumes "cluster_reach pg_api (normalize_config cfg) (new_cluster t0) c"
    and "lease_of (cuLeader c p) = Some st" and "\<not> Expired st (cuNow c)"
    and "lease_of (cuLeader c q) = Some st'" and "\<not> Expired st' (cuNow c)"
  shows "p = q \<and> (\<exists>cur. PG_GetBuilderLease (lcName (normalize_config cfg)) (cuStore c) = Some cur \<and>
    blOwner cur = p \<and> blFence cur = blFence st)"
proof -
  note inv = pg_lease.cluster_invD [OF pg_lease.inv_reach [OF assms(1) normalize_config_ttl] assms(2)]
  with assms(3) have "\<exists>cur. PG_GetBuilderLease (lcName (normalize_config cfg)) (cuStore c) = Some cur \<and>
      blOwner cur = p \<and> blFence cur = blFence st"
    by (auto simp: pg_lease.backed_def Expired_def)
  with pg_lease.one_leader [OF assms(1) normalize_config_ttl assms(2-)] show ?thesis by blast
qed


section \<open>A concrete election\<close>

fun cluster_exec :: "'s lease_api \<Rightarrow> LeaseConfig \<Rightarrow> lease_event list \<Rightarrow> 's cluster \<Rightarrow> 's cluster option" where
  "cluster_exec api cfg [] c = Some c"
| "cluster_exec api cfg (e # es) c = Option.bind (cluster_step api cfg e c) (cluster_exec api cfg es)"

lemma cluster_exec_reach:
  "cluster_reach api cfg c0 c \<Longrightarrow> cluster_exec api cfg es c = Some c' \<Longrightarrow> cluster_reach api cfg c0 c'"
proof (induction es arbitrary: c)
  case (Cons e es)
  then obtain c1 where "cluster_step api cfg e c = Some c1" "cluster_exec api cfg es c1 = Some c'"
    by (auto simp: bind_eq_Some_conv)
  with Cons cluster_reach.step show ?case by metis
qed simp

definition sample_config :: LeaseConfig where
  "sample_config = \<lparr>lcName = [], lcTTL = 0, lcRenewEvery = 0, lcRetryEvery = 0, lcPauseTTL = 0\<rparr>"

definition sample_election :: "lease_event list" where
  "sample_election = [Pause Answered, Advance 1, Acquire ''a:1'' Answered, Acquire ''b:2'' Answered,
     Advance (10 * second_ns), Renew ''a:1'' Answered]"

definition sample_cluster :: "pg_leases cluster" where
  "sample_cluster = the (cluster_exec pg_api (normalize_config sample_config) sample_election (new_cluster []))"

definition sample_lease :: BuilderLeaseState where
  "sample_lease = \<lparr>blName = DefaultLeaseName, blOwner = ''a:1'', blFence = 1, blAcquiredAt = 1,
     blExpiresAt = 55 * second_ns + 1\<rparr>"

lemma sample_cluster_facts:
  "cluster_exec pg_api (normalize_config sample_config) sample_election (new_cluster []) \<noteq> None"
  "cuLeader sample_cluster ''a:1'' = Leading sample_lease"
  "\<not> Expired sample_lease (cuNow sample_cluster)"
  "cuLeader sample_cluster ''b:2'' = Contending"
  "lcTTL (normalize_config sample_config) < 46 * second_ns"
  by code_simp+

lemma sample_cluster_reach:
  "cluster_reach pg_api (normalize_config sample_config) (new_cluster []) sample_cluster"
  using cluster_exec_reach [OF cluster_reach.start] sample_cluster_facts(1)
  by (auto simp: sample_cluster_def)

theorem one_builder_leads_witness:
  "''a:1'' = ''a:1'' \<and> (\<exists>cur. PG_GetBuilderLease (lcName (normalize_config sample_config))
      (cuStore sample_cluster) = Some cur \<and> blOwner cur = ''a:1'' \<and> blFence cur = blFence sample_lease)"
  by (rule one_builder_leads [OF sample_cluster_reach, where st' = sample_lease])
    (simp_all add: sample_cluster_facts)


section \<open>The pause gate\<close>

record pause_gate =
  pgWasPaused :: bool
  pgLastErr :: string

datatype gate_log = CannotRead string | BuilderPaused | BuilderResumed

text \<open>The closure of \<open>PauseGate\<close> on one reading of the flag: an unreadable flag means not paused.\<close>

definition PauseGate :: "string + bool \<Rightarrow> pause_gate \<Rightarrow> pause_gate \<times> bool \<times> gate_log list" where
  "PauseGate reading g = (case reading of
     Inl msg \<Rightarrow> if msg \<noteq> pgLastErr g then (g\<lparr>pgLastErr := msg\<rparr>, False, [CannotRead msg]) else (g, False, [])
   | Inr paused \<Rightarrow>
       let g1 = g\<lparr>pgLastErr := []\<rparr> in
       if paused \<noteq> pgWasPaused g1
       then (g1\<lparr>pgWasPaused := paused\<rparr>, paused, [if paused then BuilderPaused else BuilderResumed])
       else (g1, paused, []))"

fun gate_run :: "(string + bool) list \<Rightarrow> pause_gate \<Rightarrow> pause_gate \<times> gate_log list" where
  "gate_run [] g = (g, [])"
| "gate_run (r # rs) g = (case PauseGate r g of (g1, _, l) \<Rightarrow>
     (case gate_run rs g1 of (g2, ls) \<Rightarrow> (g2, l @ ls)))"

definition transition_logs :: "gate_log list \<Rightarrow> gate_log list" where
  "transition_logs ls = filter (\<lambda>l. l = BuilderPaused \<or> l = BuilderResumed) ls"

fun alternates :: "bool \<Rightarrow> gate_log list \<Rightarrow> bool" where
  "alternates paused [] = True"
| "alternates paused (l # ls) = (l = (if paused then BuilderResumed else BuilderPaused) \<and> alternates (\<not> paused) ls)"

text \<open>The lines of the gate alternate: one per transition, however long a pause lasts.\<close>

lemma gate_step:
  assumes "PauseGate r g = (g1, b, l)"
  shows "(transition_logs l = [] \<and> pgWasPaused g1 = pgWasPaused g) \<or>
    (transition_logs l = [if pgWasPaused g then BuilderResumed else BuilderPaused] \<and>
     pgWasPaused g1 = (\<not> pgWasPaused g))"
  using assms by (cases r) (auto simp: PauseGate_def Let_def transition_logs_def split: if_splits)

lemma gate_logs_alternate:
  "alternates (pgWasPaused g) (transition_logs (snd (gate_run rs g)))"
proof (induction rs arbitrary: g)
  case Nil
  then show ?case by (simp add: transition_logs_def)
next
  case (Cons r rs)
  obtain g1 b l where p: "PauseGate r g = (g1, b, l)" by (cases "PauseGate r g")
  have "transition_logs (snd (gate_run (r # rs) g)) =
      transition_logs l @ transition_logs (snd (gate_run rs g1))"
    using p by (simp add: case_prod_beta transition_logs_def)
  with gate_step [OF p] Cons.IH [of g1] show ?case by auto
qed

end
