(* ===== verification/Regression.thy ===== *)
theory Regression
  imports Receipts
begin

text \<open>
  The observation rule for regressions, \<open>src/internal/compatibility/regression.go\<close>, over the
  aggregation helpers of \<open>aggregate.go\<close>.  Decoding an environment from its JSON and hashing a bucketed
  environment are the arguments \<open>decode\<close> and \<open>envHash\<close>.  Tallies are \<open>int64\<close> and wrap.
\<close>

section \<open>Evidence rows and buckets (store.go, aggregate.go)\<close>

record EvidenceRow =
  erPURL :: string
  erSymbol :: string
  erSymbolConfidence :: string
  erEnvHash :: string
  erEnvJSON :: string
  erStage :: string
  erResult :: string
  erErrorFingerprint :: string
  erErrorCode :: string
  erTerminationKind :: string
  erExitCode :: "int option"
  erSignal :: string
  erTimeoutMillis :: int
  erErrorSummary :: string
  erEvidenceQuality :: string
  erOuterCommand :: string
  erOuterCommands :: "string list"
  erOuterStage :: string
  erActualToolchain :: string
  erStageEvidence :: string
  erFailureEvidenceGap :: string
  erObservationCount :: int
  erUniquePeerBuckets :: int
  erUniqueProjectBuckets :: int
  erDirect :: bool
  erFirstSeen :: instant
  erLastSeen :: instant

definition parseEnv ::
  "(string \<Rightarrow> EnvironmentFingerprint option) \<Rightarrow> string \<Rightarrow> EnvironmentFingerprint option" where
  "parseEnv decode envJSON = map_option Normalize (decode envJSON)"

record bucketKey =
  bkContextLabel :: string
  bkEnvHash :: string

definition bucketOf ::
  "(EnvironmentFingerprint \<Rightarrow> string) \<Rightarrow> EnvironmentFingerprint \<Rightarrow> bucketKey \<times> EnvironmentFingerprint" where
  "bucketOf envHash env = (let b = Bucketed (Normalize env) in
     (\<lparr>bkContextLabel = ContextLabel b, bkEnvHash = envHash b\<rparr>, b))"

record stageBucketKey = bucketKey +
  sbStage :: string

record StageCount =
  scPass :: int
  scFail :: int
  scFailComplete :: int
  scFailPartial :: int
  scFailMissing :: int
  scFailLegacyIncomplete :: int
  scFailAttributed :: int

definition zero_stage :: StageCount where
  "zero_stage = \<lparr>scPass = 0, scFail = 0, scFailComplete = 0, scFailPartial = 0, scFailMissing = 0,
     scFailLegacyIncomplete = 0, scFailAttributed = 0\<rparr>"

section \<open>The rule (regression.go)\<close>

type_synonym stage_counts = "(stageBucketKey, StageCount) gomap"

text \<open>The key a row is counted under; \<open>None\<close> where the loop skips the row.\<close>

definition row_key ::
  "(string \<Rightarrow> EnvironmentFingerprint option) \<Rightarrow> (EnvironmentFingerprint \<Rightarrow> string) \<Rightarrow> EvidenceRow \<Rightarrow>
   stageBucketKey option" where
  "row_key decode envHash row =
     (if \<not> isObservationStage (erStage row) then None
      else case parseEnv decode (erEnvJSON row) of
        None \<Rightarrow> None
      | Some env \<Rightarrow>
          let bk = fst (bucketOf envHash env)
          in Some \<lparr>bkContextLabel = bkContextLabel bk, bkEnvHash = bkEnvHash bk, sbStage = erStage row\<rparr>)"

definition count_row :: "EvidenceRow \<Rightarrow> StageCount \<Rightarrow> StageCount" where
  "count_row row sc =
     (if erResult row = ''PASS'' then sc\<lparr>scPass := wrap64 (scPass sc + erObservationCount row)\<rparr>
      else sc\<lparr>scFail := wrap64 (scFail sc + erObservationCount row)\<rparr>)"

definition bucketPassFail ::
  "(string \<Rightarrow> EnvironmentFingerprint option) \<Rightarrow> (EnvironmentFingerprint \<Rightarrow> string) \<Rightarrow> EvidenceRow list \<Rightarrow>
   stage_counts" where
  "bucketPassFail decode envHash rows =
     fold (\<lambda>row out. case row_key decode envHash row of
         None \<Rightarrow> out
       | Some k \<Rightarrow> AList.update k (count_row row (get zero_stage out k)) out) rows []"

definition key_less :: "stageBucketKey \<Rightarrow> stageBucketKey \<Rightarrow> bool" where
  "key_less a b =
     (if bkContextLabel a \<noteq> bkContextLabel b then bkContextLabel a < bkContextLabel b
      else if bkEnvHash a \<noteq> bkEnvHash b then bkEnvHash a < bkEnvHash b
      else sbStage a < sbStage b)"

definition regressionMinFailRate :: rat where
  "regressionMinFailRate = fl (1 / 4)"

definition regressionMinPrevPassRate :: rat where
  "regressionMinPrevPassRate = fl (9 / 10)"

definition regressionMinObservations :: int where
  "regressionMinObservations = 5"

definition bucket_candidate ::
  "string \<Rightarrow> string \<Rightarrow> string \<Rightarrow> stageBucketKey \<Rightarrow> StageCount \<Rightarrow> StageCount \<Rightarrow> RegressionCandidate list" where
  "bucket_candidate curPURL prevPURL symbol k c p =
     (let cTotal = wrap64 (scPass c + scFail c); pTotal = wrap64 (scPass p + scFail p) in
      if cTotal < regressionMinObservations \<or> pTotal < regressionMinObservations then []
      else
        let failRate = f_div (f_of_int (scFail c)) (f_of_int cTotal);
            prevPass = f_div (f_of_int (scPass p)) (f_of_int pTotal)
        in if regressionMinFailRate \<le> failRate \<and> regressionMinPrevPassRate \<le> prevPass then
             [\<lparr>rcPackage = curPURL, rcPreviousPackage = prevPURL, rcCaseID = [], rcSymbol = symbol,
               rcVerifierAdapter = [], rcSandboxCapability = [], rcCompanionPackages = [],
               rcHarnessHash = [], rcStage = sbStage k, rcContextLabel = bkContextLabel k,
               rcEnvBucketHash = bkEnvHash k, rcFailRate = failRate, rcPreviousPassRate = prevPass,
               rcObservations = cTotal, rcPreviousObservations = pTotal\<rparr>]
           else [])"

definition DetectRegressions ::
  "(string \<Rightarrow> EnvironmentFingerprint option) \<Rightarrow> (EnvironmentFingerprint \<Rightarrow> string) \<Rightarrow>
   string \<Rightarrow> string \<Rightarrow> string \<Rightarrow> EvidenceRow list \<Rightarrow> EvidenceRow list \<Rightarrow> RegressionCandidate list" where
  "DetectRegressions decode envHash curPURL prevPURL symbol cur prev =
     (let curStats = bucketPassFail decode envHash cur;
          prevStats = bucketPassFail decode envHash prev;
          keys = sort_by key_less (map fst curStats)
      in concat (map (\<lambda>k. case map_of prevStats k of
           None \<Rightarrow> []
         | Some p \<Rightarrow> bucket_candidate curPURL prevPURL symbol k (get zero_stage curStats k) p) keys))"

section \<open>The tallies\<close>

text \<open>
  A row belongs to a key when it is an observation of the key's own stage, in an environment whose
  normalized and bucketed form has the key's context label and hash.  The observations of one outcome
  under one key are summed over those rows.
\<close>

definition belongs_to ::
  "(string \<Rightarrow> EnvironmentFingerprint option) \<Rightarrow> (EnvironmentFingerprint \<Rightarrow> string) \<Rightarrow> stageBucketKey \<Rightarrow>
   EvidenceRow \<Rightarrow> bool" where
  "belongs_to decode envHash k r \<longleftrightarrow> isObservationStage (erStage r) \<and> erStage r = sbStage k \<and>
     (case decode (erEnvJSON r) of
        None \<Rightarrow> False
      | Some env \<Rightarrow> ContextLabel (Bucketed (Normalize env)) = bkContextLabel k \<and>
                   envHash (Bucketed (Normalize env)) = bkEnvHash k)"

definition observed ::
  "(string \<Rightarrow> EnvironmentFingerprint option) \<Rightarrow> (EnvironmentFingerprint \<Rightarrow> string) \<Rightarrow> bool \<Rightarrow>
   stageBucketKey \<Rightarrow> EvidenceRow list \<Rightarrow> int" where
  "observed decode envHash passed k rows =
     sum_list (map erObservationCount
       (filter (\<lambda>r. belongs_to decode envHash k r \<and> (erResult r = ''PASS'') = passed) rows))"

definition sane_counts :: "EvidenceRow list \<Rightarrow> bool" where
  "sane_counts rows \<longleftrightarrow> list_all (\<lambda>r. 0 \<le> erObservationCount r) rows \<and>
     sum_list (map erObservationCount rows) \<le> 2 ^ 48"

lemma row_key_iff: "row_key decode envHash r = Some k \<longleftrightarrow> belongs_to decode envHash k r"
  by (cases k)
    (auto simp: row_key_def belongs_to_def parseEnv_def bucketOf_def Let_def Normalize_idem split: option.split)

lemma bucketPassFail_snoc:
  "bucketPassFail decode envHash (rows @ [r]) =
     (case row_key decode envHash r of
        None \<Rightarrow> bucketPassFail decode envHash rows
      | Some k \<Rightarrow> AList.update k (count_row r (get zero_stage (bucketPassFail decode envHash rows) k))
                   (bucketPassFail decode envHash rows))"
  by (simp add: bucketPassFail_def split: option.split)

lemma observed_snoc:
  "observed decode envHash passed k (rows @ [r]) = observed decode envHash passed k rows +
     (if row_key decode envHash r = Some k \<and> (erResult r = ''PASS'') = passed
      then erObservationCount r else 0)"
  by (simp add: observed_def row_key_iff)

lemma bucketPassFail_tally:
  "scPass (get zero_stage (bucketPassFail decode envHash rows) k) =
     wrap64 (observed decode envHash True k rows) \<and>
   scFail (get zero_stage (bucketPassFail decode envHash rows) k) =
     wrap64 (observed decode envHash False k rows)"
proof (induction rows rule: rev_induct)
  case Nil
  have "wrap64 0 = 0" by (rule wrap64_small) simp
  then show ?case by (simp add: bucketPassFail_def observed_def zero_stage_def)
next
  case (snoc r rows)
  then show ?case
    by (cases "row_key decode envHash r")
      (auto simp: bucketPassFail_snoc observed_snoc count_row_def)
qed

lemma bucketPassFail_keys:
  "map_of (bucketPassFail decode envHash rows) k = None \<longleftrightarrow>
     (\<forall>r\<in>set rows. row_key decode envHash r \<noteq> Some k)"
proof (induction rows rule: rev_induct)
  case (snoc r rows)
  then show ?case
    by (cases "row_key decode envHash r") (auto simp: bucketPassFail_snoc update_conv' split: if_splits)
qed (simp add: bucketPassFail_def)

lemma wf_bucketPassFail: "wf_map (bucketPassFail decode envHash rows)"
  by (induction rows rule: rev_induct)
    (auto simp: bucketPassFail_snoc bucketPassFail_def [of _ _ "[]"] split: option.split)

lemma tally_observed_bounds:
  assumes "sane_counts rows"
  shows "0 \<le> observed decode envHash passed k rows"
    and "observed decode envHash True k rows + observed decode envHash False k rows \<le> 2 ^ 48"
proof -
  have nn: "0 \<le> erObservationCount r" if "r \<in> set rows" for r
    using assms that by (auto simp: sane_counts_def list_all_iff)
  then show "0 \<le> observed decode envHash passed k rows"
    by (auto simp: observed_def intro!: sum_list_nonneg)
  have "observed decode envHash True k rows + observed decode envHash False k rows
      \<le> sum_list (map erObservationCount rows)"
    using nn by (induction rows) (force simp: observed_def)+
  with assms show "observed decode envHash True k rows + observed decode envHash False k rows \<le> 2 ^ 48"
    by (simp add: sane_counts_def)
qed

text \<open>What one bucket yields, as a rule on counts.\<close>

definition rule_holds :: "int \<Rightarrow> int \<Rightarrow> int \<Rightarrow> int \<Rightarrow> bool" where
  "rule_holds curPass curFail prevPass prevFail \<longleftrightarrow>
     5 \<le> curPass + curFail \<and> 5 \<le> prevPass + prevFail \<and>
     curPass + curFail \<le> 4 * curFail \<and> 9 * (prevPass + prevFail) \<le> 10 * prevPass"

definition candidate ::
  "string \<Rightarrow> string \<Rightarrow> string \<Rightarrow> stageBucketKey \<Rightarrow> int \<Rightarrow> int \<Rightarrow> int \<Rightarrow> int \<Rightarrow> RegressionCandidate" where
  "candidate curPURL prevPURL symbol k curPass curFail prevPass prevFail =
     \<lparr>rcPackage = curPURL, rcPreviousPackage = prevPURL, rcCaseID = [], rcSymbol = symbol,
      rcVerifierAdapter = [], rcSandboxCapability = [], rcCompanionPackages = [],
      rcHarnessHash = [], rcStage = sbStage k, rcContextLabel = bkContextLabel k,
      rcEnvBucketHash = bkEnvHash k, rcFailRate = fl (of_int curFail / of_int (curPass + curFail)),
      rcPreviousPassRate = fl (of_int prevPass / of_int (prevPass + prevFail)),
      rcObservations = curPass + curFail, rcPreviousObservations = prevPass + prevFail\<rparr>"

lemma bucket_candidate_rule:
  assumes "0 \<le> scPass c" "0 \<le> scFail c" "scPass c + scFail c \<le> 2 ^ 48"
    and "0 \<le> scPass p" "0 \<le> scFail p" "scPass p + scFail p \<le> 2 ^ 48"
  shows "bucket_candidate cu pr sy k c p =
    (if rule_holds (scPass c) (scFail c) (scPass p) (scFail p)
     then [candidate cu pr sy k (scPass c) (scFail c) (scPass p) (scFail p)] else [])"
proof -
  have w: "wrap64 (scPass c + scFail c) = scPass c + scFail c" "wrap64 (scPass p + scFail p) = scPass p + scFail p"
    using assms by (intro wrap64_small; simp)+
  have f: "f_of_int n = of_int n" if "0 \<le> n" "n \<le> 2 ^ 48" for n
    using that by (intro f_of_int_exact) simp
  have rates: "f_div (f_of_int (scFail c)) (f_of_int (scPass c + scFail c)) =
      fl (of_int (scFail c) / of_int (scPass c + scFail c))"
    "f_div (f_of_int (scPass p)) (f_of_int (scPass p + scFail p)) =
      fl (of_int (scPass p) / of_int (scPass p + scFail p))"
    using assms by (simp_all add: f [of "scPass c + scFail c"] f [of "scPass p + scFail p"]
        f [of "scFail c"] f [of "scPass p"] f_div_def del: of_int_add)
  show ?thesis
  proof (cases "5 \<le> scPass c + scFail c \<and> 5 \<le> scPass p + scFail p")
    case True
    have "regressionMinFailRate \<le> fl (of_int (scFail c) / of_int (scPass c + scFail c)) \<longleftrightarrow>
        1 * (scPass c + scFail c) \<le> scFail c * 4"
      using fl_ratio_ge_iff [of "scFail c" "scPass c + scFail c" 1 4] assms True
      by (simp add: regressionMinFailRate_def)
    moreover have "regressionMinPrevPassRate \<le> fl (of_int (scPass p) / of_int (scPass p + scFail p)) \<longleftrightarrow>
        9 * (scPass p + scFail p) \<le> scPass p * 10"
      using fl_ratio_ge_iff [of "scPass p" "scPass p + scFail p" 9 10] assms True
      by (simp add: regressionMinPrevPassRate_def)
    ultimately show ?thesis
      using True by (auto simp: bucket_candidate_def Let_def w rates rule_holds_def candidate_def
          regressionMinObservations_def mult.commute)
  qed (auto simp: bucket_candidate_def Let_def w rule_holds_def regressionMinObservations_def)
qed

interpretation key_order: strict_total key_less
proof unfold_locales
  fix x y :: stageBucketKey
  assume "x \<noteq> y"
  then have "bkContextLabel x \<noteq> bkContextLabel y \<or> bkEnvHash x \<noteq> bkEnvHash y \<or> sbStage x \<noteq> sbStage y"
    by auto
  then show "key_less x y \<or> key_less y x" by (auto simp: key_less_def)
qed (auto simp: key_less_def split: if_splits)

lemma stats_tally:
  assumes "sane_counts rows"
  shows "scPass (get zero_stage (bucketPassFail decode envHash rows) k) = observed decode envHash True k rows"
    and "scFail (get zero_stage (bucketPassFail decode envHash rows) k) = observed decode envHash False k rows"
proof -
  have "wrap64 (observed decode envHash b k rows) = observed decode envHash b k rows" for b
    using tally_observed_bounds(1) [OF assms, of decode envHash True k] tally_observed_bounds(1) [OF assms, of decode envHash False k]
      tally_observed_bounds(2) [OF assms, of decode envHash k]
    by (intro wrap64_small) (cases b; simp)
  with bucketPassFail_tally [of decode envHash rows k]
  show "scPass (get zero_stage (bucketPassFail decode envHash rows) k) = observed decode envHash True k rows"
    "scFail (get zero_stage (bucketPassFail decode envHash rows) k) = observed decode envHash False k rows"
    by simp_all
qed

lemma unobserved:
  "map_of (bucketPassFail decode envHash rows) k = None \<Longrightarrow> observed decode envHash b k rows = 0"
  by (auto simp: bucketPassFail_keys observed_def row_key_iff filter_empty_conv)

text \<open>
  C26: the regression rule on counts.  A candidate is reported exactly for the bucket and stage in
  which both versions have at least five observations, at least a quarter of the later version's
  failed and at least nine tenths of the earlier version's passed, however the rows are split; it
  carries those rates and totals, and observations of another bucket or stage never enter it.
\<close>

theorem regression_rule_on_counts:
  assumes "sane_counts cur" and "sane_counts prev"
  shows "rc \<in> set (DetectRegressions decode envHash curPURL prevPURL symbol cur prev) \<longleftrightarrow>
    (\<exists>k. rule_holds (observed decode envHash True k cur) (observed decode envHash False k cur)
           (observed decode envHash True k prev) (observed decode envHash False k prev) \<and>
         rc = candidate curPURL prevPURL symbol k
           (observed decode envHash True k cur) (observed decode envHash False k cur)
           (observed decode envHash True k prev) (observed decode envHash False k prev))"
    (is "_ \<longleftrightarrow> (\<exists>k. ?rule k \<and> rc = ?cand k)")
proof -
  let ?cs = "bucketPassFail decode envHash cur" and ?ps = "bucketPassFail decode envHash prev"
  have yield: "(case map_of ?ps k of None \<Rightarrow> []
      | Some p \<Rightarrow> bucket_candidate curPURL prevPURL symbol k (get zero_stage ?cs k) p) =
      (if ?rule k then [?cand k] else [])" for k
  proof (cases "map_of ?ps k")
    case None
    with unobserved [OF None] show ?thesis by (simp add: rule_holds_def)
  next
    case (Some p)
    then have "get zero_stage ?ps k = p" by (simp add: get_def)
    with Some bucket_candidate_rule [of "get zero_stage ?cs k" p curPURL prevPURL symbol k]
      stats_tally [OF assms(1), of decode envHash k] stats_tally [OF assms(2), of decode envHash k]
      tally_observed_bounds [OF assms(1), of decode envHash] tally_observed_bounds [OF assms(2), of decode envHash]
    show ?thesis by simp
  qed
  have seen: "k \<in> fst ` set ?cs" if "?rule k" for k
  proof (rule ccontr)
    assume "k \<notin> fst ` set ?cs"
    then have "map_of ?cs k = None" by (simp add: map_of_eq_None_iff)
    from unobserved [OF this] that show False by (simp add: rule_holds_def)
  qed
  have "rc \<in> set (DetectRegressions decode envHash curPURL prevPURL symbol cur prev) \<longleftrightarrow>
      (\<exists>k\<in>fst ` set ?cs. rc \<in> set (if ?rule k then [?cand k] else []))"
    by (auto simp: DetectRegressions_def Let_def yield split: if_splits)
  with seen show ?thesis by auto
qed

definition sample_row :: "string \<Rightarrow> int \<Rightarrow> EvidenceRow" where
  "sample_row result n = \<lparr>erPURL = [], erSymbol = ''f'', erSymbolConfidence = [], erEnvHash = [],
     erEnvJSON = ''{}'', erStage = ''PROJECT_COMPILE'', erResult = result, erErrorFingerprint = [],
     erErrorCode = [], erTerminationKind = [], erExitCode = None, erSignal = [], erTimeoutMillis = 0,
     erErrorSummary = [], erEvidenceQuality = [], erOuterCommand = [], erOuterCommands = [],
     erOuterStage = [], erActualToolchain = [], erStageEvidence = [], erFailureEvidenceGap = [],
     erObservationCount = n, erUniquePeerBuckets = 1, erUniqueProjectBuckets = 1, erDirect = True,
     erFirstSeen = 0, erLastSeen = 0\<rparr>"

definition sample_key :: stageBucketKey where
  "sample_key = the (row_key (\<lambda>_. Some zero_env) (\<lambda>_. ''h'') (sample_row ''PASS'' 1))"

lemma sample_observed:
  "observed (\<lambda>_. Some zero_env) (\<lambda>_. ''h'') True sample_key [sample_row ''FAIL'' 2, sample_row ''PASS'' 6] = 6"
  "observed (\<lambda>_. Some zero_env) (\<lambda>_. ''h'') False sample_key [sample_row ''FAIL'' 2, sample_row ''PASS'' 6] = 2"
  "observed (\<lambda>_. Some zero_env) (\<lambda>_. ''h'') True sample_key [sample_row ''PASS'' 5] = 5"
  "observed (\<lambda>_. Some zero_env) (\<lambda>_. ''h'') False sample_key [sample_row ''PASS'' 5] = 0"
  "rule_holds 6 2 5 0"
  by code_simp+

theorem regression_rule_on_counts_witness:
  "candidate ''v2'' ''v1'' ''f'' sample_key 6 2 5 0 \<in>
     set (DetectRegressions (\<lambda>_. Some zero_env) (\<lambda>_. ''h'') ''v2'' ''v1'' ''f''
       [sample_row ''FAIL'' 2, sample_row ''PASS'' 6] [sample_row ''PASS'' 5])"
proof -
  have "sane_counts [sample_row ''FAIL'' 2, sample_row ''PASS'' 6]" "sane_counts [sample_row ''PASS'' 5]"
    by (simp_all add: sane_counts_def sample_row_def)
  from regression_rule_on_counts [OF this] sample_observed show ?thesis by metis
qed

end
