(* ===== verification/Clusters.thy ===== *)
theory Clusters
  imports Regression
begin

text \<open>
  Failure clusters: \<open>src/internal/compatibility/clusters.go\<close>.  The evidence of a package, a map from
  versions to rows, is a list in the order the code ranges over it.  The columns that the code stores
  as JSON text hold the encoded value here; \<open>rfc3339\<close> renders an instant and the zero time is 0.
\<close>

section \<open>Hypotheses\<close>

definition isESMCode :: "string \<Rightarrow> bool" where
  "isESMCode code \<longleftrightarrow> ToUpper (TrimSpace code) \<in> {''ERR_REQUIRE_ESM'', ''ERR_UNSUPPORTED_DIR_IMPORT''}"

definition concentratedEngine ::
  "EnvironmentFingerprint list \<Rightarrow> EnvironmentFingerprint list \<Rightarrow> string option" where
  "concentratedEngine failEnvs passEnvs = (case failEnvs of
     [] \<Rightarrow> None
   | e # es \<Rightarrow>
       let engine = eEngine e in
       if engine = [] then None
       else if list_ex (\<lambda>e'. eEngine e' \<noteq> engine) es then None
       else if list_ex (\<lambda>e'. eEngine e' \<noteq> [] \<and> eEngine e' \<noteq> engine) passEnvs then Some engine
       else None)"

definition Hypotheses ::
  "string \<Rightarrow> EnvironmentFingerprint list \<Rightarrow> EnvironmentFingerprint list \<Rightarrow> FailureHypothesis list" where
  "Hypotheses errorCode failEnvs passEnvs =
     (if isESMCode errorCode then
        [\<lparr>fhDomain = ''CONFIGURATION'', fhConfidence = fl (72 / 100)\<rparr>,
         \<lparr>fhDomain = ''RUNTIME'', fhConfidence = fl (21 / 100)\<rparr>,
         \<lparr>fhDomain = ''LIBRARY_REGRESSION'', fhConfidence = fl (7 / 100)\<rparr>]
      else case concentratedEngine failEnvs passEnvs of
        Some engine \<Rightarrow>
          (if engine \<noteq> [] then
             [\<lparr>fhDomain = ''ENGINE'', fhConfidence = fl (6 / 10)\<rparr>,
              \<lparr>fhDomain = ''BROWSER'', fhConfidence = fl (25 / 100)\<rparr>,
              \<lparr>fhDomain = ''LIBRARY_REGRESSION'', fhConfidence = fl (15 / 100)\<rparr>]
           else [\<lparr>fhDomain = ''UNKNOWN'', fhConfidence = 1\<rparr>])
      | None \<Rightarrow> [\<lparr>fhDomain = ''UNKNOWN'', fhConfidence = 1\<rparr>])"

section \<open>Grouping\<close>

record ckey =
  ckSymbol :: string
  ckStage :: string
  ckFp :: string

record fvariant =
  fvEnv :: EnvironmentFingerprint
  fvCount :: int
  fvFirst :: instant
  fvLast :: instant

record fcluster =
  fcCount :: int
  fcCode :: string
  fcTermination :: string
  fcExitCode :: "int option"
  fcSignal :: string
  fcTimeout :: int
  fcSummary :: string
  fcQuality :: string
  fcToolchain :: string
  fcStageProof :: string
  fcGap :: string
  fcOuter :: "(string, bool) gomap"
  fcBreakdown :: "(string, int) gomap"
  fcFailEnvs :: "EnvironmentFingerprint list"
  fcVariants :: "(string, fvariant) gomap"
  fcVersions :: "(string, bool) gomap"
  fcFirst :: instant
  fcLast :: instant

definition empty_cluster :: fcluster where
  "empty_cluster = \<lparr>fcCount = 0, fcCode = [], fcTermination = [], fcExitCode = None, fcSignal = [],
     fcTimeout = 0, fcSummary = [], fcQuality = [], fcToolchain = [], fcStageProof = [], fcGap = [],
     fcOuter = [], fcBreakdown = [], fcFailEnvs = [], fcVariants = [], fcVersions = [], fcFirst = 0,
     fcLast = 0\<rparr>"

definition evidenceQuality :: "EvidenceRow \<Rightarrow> string" where
  "evidenceQuality row =
     (if erResult row \<noteq> ''FAIL'' then []
      else if erEvidenceQuality row \<noteq> [] then erEvidenceQuality row
      else ''legacy-evidence-incomplete'')"

definition cluster_fingerprint :: "EvidenceRow \<Rightarrow> string" where
  "cluster_fingerprint row =
     (if evidenceQuality row \<in> {''missing'', ''legacy-evidence-incomplete''} then []
      else erErrorFingerprint row)"

definition cluster_key :: "EvidenceRow \<Rightarrow> ckey" where
  "cluster_key row = \<lparr>ckSymbol = erSymbol row, ckStage = erStage row, ckFp = cluster_fingerprint row\<rparr>"

text \<open>\<open>first.IsZero() || (!seen.IsZero() && seen.Before(first))\<close>, and the later of two instants.\<close>

definition first_seen :: "instant \<Rightarrow> instant \<Rightarrow> instant" where
  "first_seen first seen = (if first = 0 \<or> (seen \<noteq> 0 \<and> seen < first) then seen else first)"

definition last_seen :: "instant \<Rightarrow> instant \<Rightarrow> instant" where
  "last_seen old seen = (if old < seen then seen else old)"

definition merge_quality :: "string \<Rightarrow> string \<Rightarrow> string" where
  "merge_quality old q =
     (if old = [] \<or> q = ''legacy-evidence-incomplete'' \<or>
         (q = ''missing'' \<and> old \<noteq> ''legacy-evidence-incomplete'') then q else old)"

definition outer_commands :: "EvidenceRow \<Rightarrow> (string, bool) gomap \<Rightarrow> (string, bool) gomap" where
  "outer_commands row outer =
     (let outer1 = fold (\<lambda>command m. if command \<noteq> [] then AList.update command True m else m)
                     (erOuterCommands row) outer
      in if erOuterCommands row = [] \<and> erOuterCommand row \<noteq> []
         then AList.update (erOuterCommand row) True outer1 else outer1)"

definition add_variant ::
  "EvidenceRow \<Rightarrow> EnvironmentFingerprint \<Rightarrow> (string, fvariant) gomap \<Rightarrow> (string, fvariant) gomap" where
  "add_variant row env m =
     (let v = (case map_of m (erEnvHash row) of
                 None \<Rightarrow> \<lparr>fvEnv = env, fvCount = 0, fvFirst = erFirstSeen row, fvLast = erLastSeen row\<rparr>
               | Some v \<Rightarrow> v)
      in AList.update (erEnvHash row)
           (v\<lparr>fvCount := wrap64 (fvCount v + erObservationCount row),
              fvFirst := first_seen (fvFirst v) (erFirstSeen row),
              fvLast := last_seen (fvLast v) (erLastSeen row)\<rparr>) m)"

text \<open>What one failing row does to its cluster.\<close>

definition absorb :: "string \<Rightarrow> EvidenceRow \<Rightarrow> EnvironmentFingerprint \<Rightarrow> fcluster \<Rightarrow> fcluster" where
  "absorb version row env c =
     (let q = evidenceQuality row; n = erObservationCount row;
          t = (fcTermination c = []); tc = (fcToolchain c = [])
      in c\<lparr>fcCount := wrap64 (fcCount c + n),
           fcBreakdown := AList.update q (wrap64 (get 0 (fcBreakdown c) q + n)) (fcBreakdown c),
           fcQuality := merge_quality (fcQuality c) q,
           fcCode := (if fcCode c = [] then erErrorCode row else fcCode c),
           fcTermination := (if t then erTerminationKind row else fcTermination c),
           fcExitCode := (if t then erExitCode row else fcExitCode c),
           fcSignal := (if t then erSignal row else fcSignal c),
           fcTimeout := (if t then erTimeoutMillis row else fcTimeout c),
           fcSummary := (if fcSummary c = [] then erErrorSummary row else fcSummary c),
           fcToolchain := (if tc then erActualToolchain row else fcToolchain c),
           fcStageProof := (if tc then erStageEvidence row else fcStageProof c),
           fcGap := (if tc then erFailureEvidenceGap row else fcGap c),
           fcOuter := outer_commands row (fcOuter c),
           fcFailEnvs := fcFailEnvs c @ [env],
           fcVariants := add_variant row env (fcVariants c),
           fcFirst := first_seen (fcFirst c) (erFirstSeen row),
           fcLast := last_seen (fcLast c) (erLastSeen row),
           fcVersions := AList.update version True (fcVersions c)\<rparr>)"

type_synonym clusters = "(ckey, fcluster) gomap"
type_synonym pass_envs = "(string \<times> string, EnvironmentFingerprint list) gomap"

definition cluster_row ::
  "(string \<Rightarrow> EnvironmentFingerprint option) \<Rightarrow> string \<times> EvidenceRow \<Rightarrow>
   clusters \<times> pass_envs \<Rightarrow> clusters \<times> pass_envs" where
  "cluster_row decode vr st =
     (let row = snd vr in
      case parseEnv decode (erEnvJSON row) of
        None \<Rightarrow> st
      | Some env \<Rightarrow>
          if erResult row = ''PASS'' then
            let pk = (erSymbol row, erStage row)
            in (fst st, AList.update pk (get [] (snd st) pk @ [env]) (snd st))
          else
            let k = cluster_key row
            in (AList.update k (absorb (fst vr) row env (get empty_cluster (fst st) k)) (fst st), snd st))"

text \<open>The two nested loops, as one over the pairs in the loops' order.\<close>

definition versioned_rows :: "(string, EvidenceRow list) gomap \<Rightarrow> (string \<times> EvidenceRow) list" where
  "versioned_rows evidenceByVersion = concat (map (\<lambda>(v, rows). map (Pair v) rows) evidenceByVersion)"

definition gather ::
  "(string \<Rightarrow> EnvironmentFingerprint option) \<Rightarrow> (string, EvidenceRow list) gomap \<Rightarrow> clusters \<times> pass_envs" where
  "gather decode evidenceByVersion = fold (cluster_row decode) (versioned_rows evidenceByVersion) ([], [])"

section \<open>Rows\<close>

text \<open>The triples of \<open>regressed\<close>: candidates whose coordinate does not parse are skipped.\<close>

definition regressed :: "RegressionCandidate list \<Rightarrow> (string \<times> string \<times> string) list" where
  "regressed regressions = concat (map (\<lambda>r. case ParsePURL (rcPackage r) of
     Inl _ \<Rightarrow> [] | Inr p \<Rightarrow> [(rcSymbol r, rcStage r, pVersion p)]) regressions)"

definition isRegressed ::
  "(string \<times> string \<times> string) list \<Rightarrow> string \<Rightarrow> string \<Rightarrow> (string, bool) gomap \<Rightarrow> bool" where
  "isRegressed regs symbol stage versions =
     list_ex (\<lambda>v. (symbol, stage, v) \<in> set regs) (map fst versions)"

record FailureEnvironmentVariant =
  feEnvironment :: EnvironmentFingerprint
  feSummary :: "(string, string) gomap option"
  feCount :: int
  feFirstSeen :: string
  feLastSeen :: string

record ClusterRow =
  crEcosystem :: string
  crPackageName :: string
  crSymbol :: string
  crStage :: string
  crErrorFingerprint :: string
  crErrorCode :: string
  crTerminationKind :: string
  crExitCode :: "int option"
  crSignal :: string
  crTimeoutMillis :: int
  crErrorSummary :: string
  crEvidenceQuality :: string
  crOuterCommands :: "string list"
  crActualToolchain :: string
  crStageEvidence :: string
  crFailureEvidenceGap :: string
  crObservationCount :: int
  crEnvSummary :: "(string, string) gomap option"
  crEnvVariants :: "FailureEnvironmentVariant list"
  crEvidenceBreakdown :: "(string, int) gomap"
  crHypotheses :: "FailureHypothesis list"
  crRegressionCandidate :: bool
  crDiagnosticCandidate :: bool
  crVersions :: "string list"
  crFirstSeen :: instant
  crLastSeen :: instant

definition ckey_less :: "ckey \<Rightarrow> ckey \<Rightarrow> bool" where
  "ckey_less a b =
     (if ckSymbol a \<noteq> ckSymbol b then ckSymbol a < ckSymbol b
      else if ckStage a \<noteq> ckStage b then ckStage a < ckStage b
      else ckFp a < ckFp b)"

definition variant_item :: "(instant \<Rightarrow> string) \<Rightarrow> fvariant \<Rightarrow> FailureEnvironmentVariant" where
  "variant_item rfc3339 v =
     \<lparr>feEnvironment = fvEnv v, feSummary = envSummary [fvEnv v], feCount = fvCount v,
      feFirstSeen = (if fvFirst v = 0 then [] else rfc3339 (fvFirst v)),
      feLastSeen = (if fvLast v = 0 then [] else rfc3339 (fvLast v))\<rparr>"

definition variant_less ::
  "(EnvironmentFingerprint \<Rightarrow> string) \<Rightarrow> FailureEnvironmentVariant \<Rightarrow> FailureEnvironmentVariant \<Rightarrow> bool" where
  "variant_less envHash a b =
     (if feCount a \<noteq> feCount b then feCount b < feCount a
      else envHash (feEnvironment a) < envHash (feEnvironment b))"

definition modernEvidence :: "fcluster \<Rightarrow> bool" where
  "modernEvidence c \<longleftrightarrow> fcQuality c = ''complete'' \<or> fcQuality c = ''partial''"

definition ClusterRow_of ::
  "(instant \<Rightarrow> string) \<Rightarrow> (EnvironmentFingerprint \<Rightarrow> string) \<Rightarrow> string \<Rightarrow> string \<Rightarrow>
   (string \<times> string \<times> string) list \<Rightarrow> pass_envs \<Rightarrow> instant \<Rightarrow> ckey \<Rightarrow> fcluster \<Rightarrow> ClusterRow" where
  "ClusterRow_of rfc3339 envHash ecosystem packageName regs passEnvs now k c =
     \<lparr>crEcosystem = ecosystem, crPackageName = packageName, crSymbol = ckSymbol k, crStage = ckStage k,
      crErrorFingerprint = ckFp k, crErrorCode = fcCode c, crTerminationKind = fcTermination c,
      crExitCode = fcExitCode c, crSignal = fcSignal c, crTimeoutMillis = fcTimeout c,
      crErrorSummary = fcSummary c, crEvidenceQuality = fcQuality c,
      crOuterCommands = sort_by (<) (map fst (fcOuter c)), crActualToolchain = fcToolchain c,
      crStageEvidence = fcStageProof c, crFailureEvidenceGap = fcGap c, crObservationCount = fcCount c,
      crEnvSummary = envSummary (fcFailEnvs c),
      crEnvVariants = sort_by (variant_less envHash) (map (variant_item rfc3339 \<circ> snd) (fcVariants c)),
      crEvidenceBreakdown = fcBreakdown c,
      crHypotheses = (if ckFp k \<noteq> [] \<and> modernEvidence c
         then Hypotheses (fcCode c) (fcFailEnvs c) (get [] passEnvs (ckSymbol k, ckStage k)) else []),
      crRegressionCandidate = isRegressed regs (ckSymbol k) (ckStage k) (fcVersions c),
      crDiagnosticCandidate = (fcGap c \<noteq> [] \<or> (\<not> modernEvidence c \<and> 2 \<le> fcCount c)),
      crVersions = sortedVersions (map fst (fcVersions c)),
      crFirstSeen = (if fcFirst c = 0 then now else fcFirst c),
      crLastSeen = (if fcLast c = 0 then now else fcLast c)\<rparr>"

definition BuildClusters ::
  "(string \<Rightarrow> EnvironmentFingerprint option) \<Rightarrow> (instant \<Rightarrow> string) \<Rightarrow> (EnvironmentFingerprint \<Rightarrow> string) \<Rightarrow>
   string \<Rightarrow> string \<Rightarrow> (string, EvidenceRow list) gomap \<Rightarrow> RegressionCandidate list \<Rightarrow> instant \<Rightarrow>
   ClusterRow list" where
  "BuildClusters decode rfc3339 envHash ecosystem packageName evidenceByVersion regressions now =
     (case gather decode evidenceByVersion of (clusters, passEnvs) \<Rightarrow>
        map (\<lambda>k. ClusterRow_of rfc3339 envHash ecosystem packageName (regressed regressions) passEnvs now k
                   (get empty_cluster clusters k))
          (sort_by ckey_less (map fst clusters)))"

section \<open>What the clusters account for\<close>

definition failing :: "(string \<Rightarrow> EnvironmentFingerprint option) \<Rightarrow> EvidenceRow \<Rightarrow> bool" where
  "failing decode row \<longleftrightarrow> parseEnv decode (erEnvJSON row) \<noteq> None \<and> erResult row \<noteq> ''PASS''"

text \<open>
  A failing row belongs to an identity when symbol and stage agree and the fingerprint is the row's
  own, or the empty one where the evidence is missing or of the historical, incomplete kind.
\<close>

definition has_identity :: "ckey \<Rightarrow> EvidenceRow \<Rightarrow> bool" where
  "has_identity k row \<longleftrightarrow> erSymbol row = ckSymbol k \<and> erStage row = ckStage k \<and>
     ckFp k = (if erResult row = ''FAIL'' \<and>
                  (erEvidenceQuality row = [] \<or> erEvidenceQuality row = ''missing'' \<or>
                   erEvidenceQuality row = ''legacy-evidence-incomplete'')
               then [] else erErrorFingerprint row)"

definition members ::
  "(string \<Rightarrow> EnvironmentFingerprint option) \<Rightarrow> ckey \<Rightarrow> (string \<times> EvidenceRow) list \<Rightarrow>
   (string \<times> EvidenceRow) list" where
  "members decode k vrs = filter (\<lambda>vr. failing decode (snd vr) \<and> has_identity k (snd vr)) vrs"

lemma cluster_key_iff: "cluster_key row = k \<longleftrightarrow> has_identity k row"
  by (cases k) (auto simp: cluster_key_def cluster_fingerprint_def evidenceQuality_def has_identity_def)

lemma members_snoc:
  "members decode k (vrs @ [vr]) = members decode k vrs @
     (if failing decode (snd vr) \<and> cluster_key (snd vr) = k then [vr] else [])"
  by (simp add: members_def cluster_key_iff)

definition tracked :: "(string \<Rightarrow> EnvironmentFingerprint option) \<Rightarrow> (string \<times> EvidenceRow) list \<Rightarrow> clusters \<Rightarrow> bool" where
  "tracked decode vrs cl \<longleftrightarrow> wf_map cl \<and> (\<forall>k.
     (k \<in> fst ` set cl \<longleftrightarrow> members decode k vrs \<noteq> []) \<and>
     fcCount (get empty_cluster cl k) = wrap64 (\<Sum>vr\<leftarrow>members decode k vrs. erObservationCount (snd vr)) \<and>
     fst ` set (fcVersions (get empty_cluster cl k)) = fst ` set (members decode k vrs))"

lemma absorb_simps:
  "fcCount (absorb v row env c) = wrap64 (fcCount c + erObservationCount row)"
  "fst ` set (fcVersions (absorb v row env c)) = insert v (fst ` set (fcVersions c))"
  by (simp_all add: absorb_def Let_def)

lemma tracked_step:
  assumes "tracked decode vrs (fst st)"
  shows "tracked decode (vrs @ [vr]) (fst (cluster_row decode vr st))"
proof (cases "failing decode (snd vr)")
  case False
  then have "fst (cluster_row decode vr st) = fst st"
    by (auto simp: failing_def cluster_row_def Let_def split: option.split)
  with False assms show ?thesis by (simp add: tracked_def members_snoc)
next
  case True
  then obtain env where e: "parseEnv decode (erEnvJSON (snd vr)) = Some env" "erResult (snd vr) \<noteq> ''PASS''"
    by (auto simp: failing_def)
  let ?k = "cluster_key (snd vr)"
  have upd: "fst (cluster_row decode vr st) =
      AList.update ?k (absorb (fst vr) (snd vr) env (get empty_cluster (fst st) ?k)) (fst st)"
    using e by (simp add: cluster_row_def Let_def)
  show ?thesis
    using assms True unfolding tracked_def upd by (auto simp: members_snoc absorb_simps)
qed

lemma tracked_fold: "tracked decode vrs (fst (fold (cluster_row decode) vrs ([], [])))"
proof (induction vrs rule: rev_induct)
  case Nil
  have "wrap64 0 = 0" by (rule wrap64_small) simp
  then show ?case by (simp add: tracked_def members_def empty_cluster_def)
next
  case (snoc vr vrs)
  from tracked_step [OF snoc, of vr] show ?case by simp
qed

interpretation ckey_order: strict_total ckey_less
proof unfold_locales
  fix x y :: ckey
  assume "x \<noteq> y"
  then have "ckSymbol x \<noteq> ckSymbol y \<or> ckStage x \<noteq> ckStage y \<or> ckFp x \<noteq> ckFp y" by auto
  then show "ckey_less x y \<or> ckey_less y x" by (auto simp: ckey_less_def)
qed (auto simp: ckey_less_def split: if_splits)

definition row_identity :: "ClusterRow \<Rightarrow> ckey" where
  "row_identity r = \<lparr>ckSymbol = crSymbol r, ckStage = crStage r, ckFp = crErrorFingerprint r\<rparr>"

lemma row_identity_of [simp]: "row_identity (ClusterRow_of rf eh ec pn regs pe now k c) = k"
  by (simp add: row_identity_def ClusterRow_of_def)

lemma regressed_iff:
  "(symbol, stage, v) \<in> set (regressed regressions) \<longleftrightarrow>
     (\<exists>r\<in>set regressions. \<exists>p. ParsePURL (rcPackage r) = Inr p \<and> rcSymbol r = symbol \<and>
        rcStage r = stage \<and> pVersion p = v)"
  unfolding regressed_def
proof (induction regressions)
  case (Cons r rs)
  then show ?case by (cases "ParsePURL (rcPackage r)") auto
qed simp

lemma isRegressed_iff:
  "isRegressed (regressed regressions) symbol stage versions \<longleftrightarrow>
     (\<exists>r\<in>set regressions. \<exists>p. ParsePURL (rcPackage r) = Inr p \<and> rcSymbol r = symbol \<and>
        rcStage r = stage \<and> pVersion p \<in> fst ` set versions)"
  unfolding isRegressed_def list_ex_iff regressed_iff set_map by blast

text \<open>What a cluster row has to say about the failing rows of its identity.\<close>

definition row_accounts ::
  "(string \<Rightarrow> EnvironmentFingerprint option) \<Rightarrow> (string \<times> EvidenceRow) list \<Rightarrow> RegressionCandidate list \<Rightarrow>
   ClusterRow \<Rightarrow> bool" where
  "row_accounts decode vrs regressions r \<longleftrightarrow>
     (let ms = members decode (row_identity r) vrs in
      crObservationCount r = wrap64 (\<Sum>vr\<leftarrow>ms. erObservationCount (snd vr)) \<and>
      (crRegressionCandidate r \<longleftrightarrow>
        (\<exists>g\<in>set regressions. \<exists>p. ParsePURL (rcPackage g) = Inr p \<and> rcSymbol g = crSymbol r \<and>
          rcStage g = crStage r \<and> pVersion p \<in> fst ` set ms)) \<and>
      (crHypotheses r \<noteq> [] \<longrightarrow>
        crErrorFingerprint r \<noteq> [] \<and> (crEvidenceQuality r = ''complete'' \<or> crEvidenceQuality r = ''partial'')))"

lemma row_accounts_of:
  assumes "tracked decode vrs cl"
  shows "row_accounts decode vrs regressions
    (ClusterRow_of rf eh ec pn (regressed regressions) pe now k (get empty_cluster cl k))"
proof -
  have "fcCount (get empty_cluster cl k) = wrap64 (\<Sum>vr\<leftarrow>members decode k vrs. erObservationCount (snd vr))"
    "fst ` set (fcVersions (get empty_cluster cl k)) = fst ` set (members decode k vrs)"
    using assms by (simp_all add: tracked_def)
  then show ?thesis
    unfolding row_accounts_def Let_def row_identity_of
    by (simp add: ClusterRow_of_def isRegressed_iff modernEvidence_def)
qed


end
