(* ===== verification/Merge.thy ===== *)
theory Merge
  imports Failure
begin

text \<open>
  The delta merge of observation batches, \<open>src/internal/serverstore/merge.go\<close>.  A client re-sends
  the running total of its epoch, so the aggregate row of a batch grows by what the reporting bucket
  adds to its own earlier report, never by the report itself, and the distinct buckets of a row are
  counted within one epoch.

  The locale \<open>delta_ledger\<close> is the contract every store of observations keeps: how one accepted batch
  changes a bucket's contribution, the row's total and its bucket sets, whatever the moment it arrives at.  Proved once from it: after any
  batches the totals and bucket counts are functions of the \<^emph>\<open>set\<close> of reports, so neither a re-sent nor
  a reordered upload changes them.  The reference implementation of this file is interpreted here, the
  two stores in the theories that model them.  \<open>envHash\<close> stands for \<open>EnvironmentFingerprint.Hash\<close>.
\<close>

section \<open>The reference implementation\<close>

record aggKey =
  akPURL :: string
  akSymbol :: string
  akEnvHash :: string
  akStage :: string
  akResult :: string
  akErrorFP :: string

definition aggKeyOf :: "(EnvironmentFingerprint \<Rightarrow> string) \<Rightarrow> ObservationBatch \<Rightarrow> aggKey" where
  "aggKeyOf envHash b =
     \<lparr>akPURL = (case ParsePURL (obPackage b) of Inl _ \<Rightarrow> obPackage b | Inr p \<Rightarrow> PURL_String p),
      akSymbol = obSymbol b, akEnvHash = envHash (Normalize (obEnvironment b)), akStage = obStage b,
      akResult = obResult b, akErrorFP = obErrorFingerprint b\<rparr>"

definition deltaContribution :: "int \<Rightarrow> int \<Rightarrow> int" where
  "deltaContribution prev incoming = (if incoming \<le> prev then 0 else wrap64 (incoming - prev))"

record contribKey =
  ckAgg :: aggKey
  ckEpoch :: string
  ckBucket :: string

type_synonym bucket_index = "(aggKey, (string, string set) gomap) gomap"

record mergeState =
  mContributions :: "(contribKey, int) gomap"
  mObservations :: "(aggKey, int) gomap"
  mPeerBuckets :: bucket_index
  mProjectBuckets :: bucket_index

definition newMergeState :: mergeState where
  "newMergeState = \<lparr>mContributions = [], mObservations = [], mPeerBuckets = [], mProjectBuckets = []\<rparr>"

definition addBucket :: "bucket_index \<Rightarrow> aggKey \<Rightarrow> string \<Rightarrow> string \<Rightarrow> bucket_index" where
  "addBucket m k epoch bucket =
     (let byEpoch = get [] m k
      in AList.update k (AList.update epoch (insert bucket (get {} byEpoch epoch)) byEpoch) m)"

definition merge_apply ::
  "(EnvironmentFingerprint \<Rightarrow> string) \<Rightarrow> mergeState \<Rightarrow> ObservationBatch \<Rightarrow> mergeState \<times> int" where
  "merge_apply envHash m b =
     (let k = aggKeyOf envHash b; incoming = obObservationCount b;
          ck = \<lparr>ckAgg = k, ckEpoch = obEpoch b, ckBucket = obAnonID b\<rparr>;
          previous = get 0 (mContributions m) ck;
          delta = deltaContribution previous incoming
      in (m\<lparr>mContributions := (if previous < incoming then AList.update ck incoming (mContributions m)
                              else mContributions m),
            mObservations := AList.update k (wrap64 (get 0 (mObservations m) k + delta)) (mObservations m),
            mPeerBuckets := addBucket (mPeerBuckets m) k (obEpoch b) (obAnonID b),
            mProjectBuckets := addBucket (mProjectBuckets m) k (obEpoch b) (obProjectBucket b)\<rparr>,
          delta))"

definition peakBuckets :: "bucket_index \<Rightarrow> aggKey \<Rightarrow> nat" where
  "peakBuckets m k =
     foldl (\<lambda>best (epoch, buckets). if best < card buckets then card buckets else best) 0 (get [] m k)"

section \<open>What a set of reports says\<close>

text \<open>
  The reference: \<open>reported\<close> is the greatest count one bucket named for one row in one epoch, \<open>reporters\<close>
  the buckets that named the row in an epoch, and the observations of a row are the sum of the greatest
  reports of every (epoch, peer bucket).  All of them read a set, not a sequence.
\<close>

definition about :: "(EnvironmentFingerprint \<Rightarrow> string) \<Rightarrow> ObservationBatch set \<Rightarrow> aggKey \<Rightarrow> ObservationBatch set" where
  "about envHash B k = {b \<in> B. aggKeyOf envHash b = k}"

definition reported ::
  "(EnvironmentFingerprint \<Rightarrow> string) \<Rightarrow> ObservationBatch set \<Rightarrow> aggKey \<Rightarrow> string \<Rightarrow> string \<Rightarrow> int" where
  "reported envHash B k epoch bucket =
     Max (insert 0 (obObservationCount ` {b \<in> about envHash B k. obEpoch b = epoch \<and> obAnonID b = bucket}))"

definition observed :: "(EnvironmentFingerprint \<Rightarrow> string) \<Rightarrow> ObservationBatch set \<Rightarrow> aggKey \<Rightarrow> int" where
  "observed envHash B k =
     (\<Sum>(epoch, bucket) \<in> (\<lambda>b. (obEpoch b, obAnonID b)) ` about envHash B k. reported envHash B k epoch bucket)"

definition reporters ::
  "(EnvironmentFingerprint \<Rightarrow> string) \<Rightarrow> (ObservationBatch \<Rightarrow> string) \<Rightarrow> ObservationBatch set \<Rightarrow> aggKey \<Rightarrow> string \<Rightarrow> string set" where
  "reporters envHash f B k epoch = f ` {b \<in> about envHash B k. obEpoch b = epoch}"

text \<open>\<open>n\<close> is the greatest value of \<open>f\<close>, 0 when there is none.\<close>

definition is_peak :: "nat \<Rightarrow> ('e \<Rightarrow> nat) \<Rightarrow> bool" where
  "is_peak n f \<longleftrightarrow> (\<forall>e. f e \<le> n) \<and> (n = 0 \<or> (\<exists>e. f e = n))"

lemma is_peak_unique: "is_peak n f \<Longrightarrow> is_peak m f \<Longrightarrow> n = m"
  by (force simp: is_peak_def intro: antisym)

text \<open>Reports the ingest accepts: a parseable coordinate and a count in 1..1,000,000.\<close>

definition countable_report :: "ObservationBatch \<Rightarrow> bool" where
  "countable_report b \<longleftrightarrow> (\<exists>p. ParsePURL (obPackage b) = Inr p) \<and>
     1 \<le> obObservationCount b \<and> obObservationCount b \<le> 1000000"

lemma about_insert [simp]:
  "about envHash (insert b B) k =
     (if aggKeyOf envHash b = k then insert b (about envHash B k) else about envHash B k)"
  by (auto simp: about_def)

lemma finite_about [simp]: "finite B \<Longrightarrow> finite (about envHash B k)"
  by (simp add: about_def)

lemma reported_nonneg: "finite B \<Longrightarrow> 0 \<le> reported envHash B k e a"
  by (simp add: reported_def)

lemma reported_insert:
  assumes "finite B"
  shows "reported envHash (insert b B) k e a =
     (if aggKeyOf envHash b = k \<and> obEpoch b = e \<and> obAnonID b = a
      then max (reported envHash B k e a) (obObservationCount b) else reported envHash B k e a)"
proof (cases "aggKeyOf envHash b = k \<and> obEpoch b = e \<and> obAnonID b = a")
  case True
  have "{x \<in> about envHash (insert b B) k. obEpoch x = e \<and> obAnonID x = a} =
      insert b {x \<in> about envHash B k. obEpoch x = e \<and> obAnonID x = a}"
    using True by auto
  then show ?thesis using True assms
    by (simp add: reported_def insert_commute [of 0] max.commute)
next
  case False
  then have "{x \<in> about envHash (insert b B) k. obEpoch x = e \<and> obAnonID x = a} =
      {x \<in> about envHash B k. obEpoch x = e \<and> obAnonID x = a}"
    by auto
  with False show ?thesis by (auto simp: reported_def)
qed

lemma reported_absent:
  "(e, a) \<notin> (\<lambda>b. (obEpoch b, obAnonID b)) ` about envHash B k \<Longrightarrow> reported envHash B k e a = 0"
proof -
  assume "(e, a) \<notin> (\<lambda>b. (obEpoch b, obAnonID b)) ` about envHash B k"
  then have "{b \<in> about envHash B k. obEpoch b = e \<and> obAnonID b = a} = {}" by auto
  then show ?thesis by (simp only: reported_def image_empty Max_singleton)
qed

lemma reporters_insert:
  "reporters envHash f (insert b B) k e =
     (if aggKeyOf envHash b = k \<and> obEpoch b = e then insert (f b) (reporters envHash f B k e)
      else reporters envHash f B k e)"
  by (auto simp: reporters_def)

lemma reporters_empty [simp]: "reporters envHash f {} k e = {}"
  by (simp add: reporters_def about_def)

lemma card_reporters: "finite B \<Longrightarrow> card (reporters envHash f B k e) \<le> card B"
  unfolding reporters_def about_def
  by (rule order_trans [OF card_image_le card_mono]) auto

text \<open>A report adds to the observations of its row exactly what it adds to its own slot.\<close>

lemma observed_insert:
  assumes fin: "finite B"
  shows "observed envHash (insert b B) k =
     observed envHash B k +
     (if aggKeyOf envHash b = k
      then max (reported envHash B k (obEpoch b) (obAnonID b)) (obObservationCount b) -
           reported envHash B k (obEpoch b) (obAnonID b) else 0)"
proof (cases "aggKeyOf envHash b = k")
  case False
  then show ?thesis by (simp add: observed_def reported_insert [OF fin])
next
  case True
  define S where "S = (\<lambda>b. (obEpoch b, obAnonID b)) ` about envHash B k"
  define s where "s = (obEpoch b, obAnonID b)"
  define r where "r = (\<lambda>(e, a). reported envHash B k e a)"
  define r' where "r' = (\<lambda>(e, a). reported envHash (insert b B) k e a)"
  have S: "finite S" using fin by (simp add: S_def)
  have same: "r' x = r x" if "x \<noteq> s" for x
    using that by (cases x) (auto simp: r_def r'_def s_def reported_insert [OF fin])
  have out: "r s = 0" if "s \<notin> S"
    using that reported_absent by (simp add: r_def s_def S_def split: prod.split)
  have "sum r (insert s S) = sum r S" using S out by (cases "s \<in> S") (auto simp: insert_absorb)
  moreover have "sum r' (insert s S) = r' s + sum r (insert s S - {s})"
    using S same by (subst sum.insert_remove) (auto intro!: sum.cong)
  moreover have "sum r (insert s S) = r s + sum r (insert s S - {s})"
    using S by (subst sum.insert_remove) auto
  moreover have "r' s = max (r s) (obObservationCount b)"
    using True by (simp add: r_def r'_def s_def reported_insert [OF fin])
  moreover have "observed envHash B k = sum r S" by (simp add: observed_def r_def S_def)
  moreover have "observed envHash (insert b B) k = sum r' (insert s S)"
    using True by (simp add: observed_def r'_def S_def s_def)
  ultimately show ?thesis using True by (simp add: r_def s_def)
qed

lemma observed_empty [simp]: "observed envHash {} k = 0"
  by (simp add: observed_def about_def)

lemma reported_empty [simp]: "reported envHash {} k e a = 0"
  by (simp add: reported_def about_def)

lemma observed_bounds:
  "finite B \<Longrightarrow> \<forall>b \<in> B. obObservationCount b \<le> 1000000 \<Longrightarrow>
     0 \<le> observed envHash B k \<and> observed envHash B k \<le> 1000000 * int (card B)"
proof (induction B rule: finite_induct)
  case (insert b B)
  then have "0 \<le> reported envHash B k (obEpoch b) (obAnonID b)" by (intro reported_nonneg)
  with insert show ?case by (auto simp: observed_insert)
qed simp

section \<open>The contract of an observation store\<close>

locale delta_ledger =
  fixes envHash :: "EnvironmentFingerprint \<Rightarrow> string"
    and inv :: "'s \<Rightarrow> bool"
    and empty :: 's
    and ingest :: "'s \<Rightarrow> 'moment \<times> ObservationBatch \<Rightarrow> 's"
    and contributed :: "'s \<Rightarrow> aggKey \<Rightarrow> string \<Rightarrow> string \<Rightarrow> int"
    and total :: "'s \<Rightarrow> aggKey \<Rightarrow> int"
    and peers :: "'s \<Rightarrow> aggKey \<Rightarrow> string \<Rightarrow> string set"
    and projects :: "'s \<Rightarrow> aggKey \<Rightarrow> string \<Rightarrow> string set"
    and peer_peak :: "'s \<Rightarrow> aggKey \<Rightarrow> nat"
    and project_peak :: "'s \<Rightarrow> aggKey \<Rightarrow> nat"
  assumes empty_inv: "inv empty"
    and empty_state: "contributed empty k e a = 0" "total empty k = 0" "peers empty k e = {}"
      "projects empty k e = {}"
    and ingest_step:
      "\<lbrakk>inv s; countable_report b; k0 = aggKeyOf envHash b;
        total s k0 + obObservationCount b < 2 ^ 63; 0 \<le> total s k0;
        0 \<le> contributed s k0 (obEpoch b) (obAnonID b);
        \<forall>k e. card (peers s k e) < 2 ^ 31 - 1; \<forall>k e. card (projects s k e) < 2 ^ 31 - 1\<rbrakk> \<Longrightarrow>
       inv (ingest s (c, b)) \<and>
       contributed (ingest s (c, b)) k e a =
         (if k = k0 \<and> e = obEpoch b \<and> a = obAnonID b then max (contributed s k e a) (obObservationCount b)
          else contributed s k e a) \<and>
       total (ingest s (c, b)) k = total s k +
         (if k = k0 then max (contributed s k (obEpoch b) (obAnonID b)) (obObservationCount b) -
            contributed s k (obEpoch b) (obAnonID b) else 0) \<and>
       peers (ingest s (c, b)) k e =
         (if k = k0 \<and> e = obEpoch b then insert (obAnonID b) (peers s k e) else peers s k e) \<and>
       projects (ingest s (c, b)) k e =
         (if k = k0 \<and> e = obEpoch b then insert (obProjectBucket b) (projects s k e) else projects s k e)"
    and peaks: "inv s \<Longrightarrow> is_peak (peer_peak s k) (\<lambda>e. card (peers s k e))"
      "inv s \<Longrightarrow> is_peak (project_peak s k) (\<lambda>e. card (projects s k e))"
begin

lemma ledger_reads_the_reports:
  assumes "\<forall>b \<in> snd ` set bs. countable_report b" and "length bs < 2 ^ 31"
  defines "s \<equiv> foldl ingest empty bs"
  shows "inv s \<and> (\<forall>k e a. contributed s k e a = reported envHash (snd ` set bs) k e a) \<and>
    (\<forall>k. total s k = observed envHash (snd ` set bs) k) \<and>
    (\<forall>k e. peers s k e = reporters envHash obAnonID (snd ` set bs) k e) \<and>
    (\<forall>k e. projects s k e = reporters envHash obProjectBucket (snd ` set bs) k e)"
  using assms(1,2) unfolding s_def
proof (induction bs rule: rev_induct)
  case Nil
  then show ?case by (simp add: empty_inv empty_state)
next
  case (snoc cb bs)
  obtain c b where cb: "cb = (c, b)" by (cases cb)
  let ?s = "foldl ingest empty bs" and ?B = "snd ` set bs"
  have IH: "inv ?s" "\<And>k e a. contributed ?s k e a = reported envHash ?B k e a"
    "\<And>k. total ?s k = observed envHash ?B k" "\<And>k e. peers ?s k e = reporters envHash obAnonID ?B k e"
    "\<And>k e. projects ?s k e = reporters envHash obProjectBucket ?B k e"
    using snoc by auto
  have b: "countable_report b" using snoc.prems cb by simp
  have few: "card ?B < 2 ^ 31 - 1" using snoc.prems(2) card_length [of "map snd bs"] by simp
  have obs: "0 \<le> observed envHash ?B k \<and> observed envHash ?B k \<le> 1000000 * int (card ?B)" for k
    using snoc.prems(1) by (intro observed_bounds) (auto simp: countable_report_def)
  have "observed envHash ?B k + obObservationCount b < 2 ^ 63" for k
    using obs [of k] few b by (simp add: countable_report_def)
  moreover have "card (reporters envHash f ?B k e) < 2 ^ 31 - 1" for f k e
    using card_reporters [of ?B envHash f k e] few by simp
  ultimately show ?case
    using ingest_step [OF IH(1) b refl, unfolded IH(2-5), where c = c] obs reported_nonneg [of ?B envHash]
    by (simp add: reported_insert observed_insert reporters_insert IH cb)
qed

lemma ledger_has_room:
  assumes bs: "\<forall>b \<in> snd ` set bs. countable_report b" "length bs < 2 ^ 31 - 1" and b: "countable_report b"
  defines "s \<equiv> foldl ingest empty bs"
  shows "total s k + obObservationCount b < 2 ^ 63" "0 \<le> total s k" "0 \<le> contributed s k e a"
    "\<forall>k e. card (peers s k e) < 2 ^ 31 - 1" "\<forall>k e. card (projects s k e) < 2 ^ 31 - 1"
proof -
  let ?B = "snd ` set bs"
  have few: "card ?B < 2 ^ 31 - 1" using bs(2) card_length [of "map snd bs"] by simp
  have reads: "contributed s k e a = reported envHash ?B k e a" "total s k = observed envHash ?B k"
    "peers s k e = reporters envHash obAnonID ?B k e" "projects s k e = reporters envHash obProjectBucket ?B k e" for k e a
    using ledger_reads_the_reports [OF bs(1)] bs(2) by (simp_all add: s_def)
  have obs: "0 \<le> observed envHash ?B k \<and> observed envHash ?B k \<le> 1000000 * int (card ?B)"
    using bs(1) by (intro observed_bounds) (auto simp: countable_report_def)
  then show "total s k + obObservationCount b < 2 ^ 63" "0 \<le> total s k"
    using few b by (simp_all add: reads countable_report_def)
  show "0 \<le> contributed s k e a" by (simp add: reads reported_nonneg)
  have "card (reporters envHash f ?B k e) < 2 ^ 31 - 1" for f k e
    using card_reporters [of ?B envHash f k e] few by simp
  then show "\<forall>k e. card (peers s k e) < 2 ^ 31 - 1" "\<forall>k e. card (projects s k e) < 2 ^ 31 - 1"
    by (simp_all add: reads)
qed

lemma peaks_of_the_reports:
  assumes "\<forall>b \<in> snd ` set bs. countable_report b" and "length bs < 2 ^ 31"
  defines "s \<equiv> foldl ingest empty bs"
  shows "is_peak (peer_peak s k) (\<lambda>e. card (reporters envHash obAnonID (snd ` set bs) k e))"
    and "is_peak (project_peak s k) (\<lambda>e. card (reporters envHash obProjectBucket (snd ` set bs) k e))"
  using ledger_reads_the_reports [OF assms(1,2)] peaks [of s k] by (simp_all add: s_def)

text \<open>Two uploads that say the same things, in any order and however often, leave the same figures.\<close>

lemma figures_depend_on_the_reports:
  assumes bs: "\<forall>b \<in> snd ` set bs. countable_report b" "length bs < 2 ^ 31"
    and bs': "length bs' < 2 ^ 31" and same: "snd ` set bs = snd ` set bs'"
  shows "total (foldl ingest empty bs) k = total (foldl ingest empty bs') k \<and>
    peer_peak (foldl ingest empty bs) k = peer_peak (foldl ingest empty bs') k \<and>
    project_peak (foldl ingest empty bs) k = project_peak (foldl ingest empty bs') k"
proof -
  have ok: "\<forall>b \<in> snd ` set bs'. countable_report b" using bs(1) same by simp
  show ?thesis
    using ledger_reads_the_reports [OF bs] ledger_reads_the_reports [OF ok bs'] same
      peaks_of_the_reports [OF bs, of k] peaks_of_the_reports [OF ok bs', of k]
    by (auto intro: is_peak_unique)
qed

end

section \<open>The reference implementation keeps the contract\<close>

definition contribution :: "mergeState \<Rightarrow> aggKey \<Rightarrow> string \<Rightarrow> string \<Rightarrow> int" where
  "contribution m k e a = get 0 (mContributions m) \<lparr>ckAgg = k, ckEpoch = e, ckBucket = a\<rparr>"

definition indexed :: "bucket_index \<Rightarrow> aggKey \<Rightarrow> string \<Rightarrow> string set" where
  "indexed m k e = get {} (get [] m k) e"

definition wf_index :: "bucket_index \<Rightarrow> bool" where
  "wf_index m \<longleftrightarrow> (\<forall>k. wf_map (get [] m k))"

lemma wf_index_Nil [simp]: "wf_index []"
  by (simp add: wf_index_def)

lemma wf_index_add [simp]: "wf_index m \<Longrightarrow> wf_index (addBucket m k e a)"
  by (simp add: wf_index_def addBucket_def Let_def)

lemma indexed_add [simp]:
  "indexed (addBucket m k0 e0 a) k e = (if k = k0 \<and> e = e0 then insert a (indexed m k e) else indexed m k e)"
  by (simp add: indexed_def addBucket_def Let_def)

lemma foldl_peak:
  "foldl (\<lambda>best (e, bs). if best < card bs then card bs else best) n m =
     max n (Max (insert 0 (card ` snd ` set (m :: (string, string set) gomap))))"
proof (induction m arbitrary: n)
  case (Cons x m)
  have "Max (insert 0 (insert c (card ` snd ` set m))) = max c (Max (insert 0 (card ` snd ` set m)))" for c
    by (subst insert_commute) simp
  then show ?case by (cases x) (auto simp: Cons.IH max_def simp del: Max_insert)
qed simp

lemma peakBuckets_is_peak:
  assumes "wf_index m" shows "is_peak (peakBuckets m k) (\<lambda>e. card (indexed m k e))"
proof -
  let ?m = "get [] m k"
  have wf: "wf_map ?m" using assms by (simp add: wf_index_def)
  have val: "card (get {} ?m e) = 0 \<or> card (get {} ?m e) \<in> card ` snd ` set ?m" for e
    by (auto simp: get_def split: option.split dest: map_of_SomeD intro!: image_eqI)
  have hit: "\<exists>e. card (get {} ?m e) = n" if "n \<in> card ` snd ` set ?m" for n
  proof -
    from that obtain e bs where "(e, bs) \<in> set ?m" "n = card bs" by auto
    moreover then have "map_of ?m e = Some bs" using wf by (simp add: wf_map_def)
    ultimately show ?thesis unfolding get_def [of "{}"] by (intro exI [of _ e]) simp
  qed
  have peak: "peakBuckets m k = Max (insert 0 (card ` snd ` set ?m))" by (simp add: peakBuckets_def foldl_peak del: Max_insert)
  have "peakBuckets m k \<in> insert 0 (card ` snd ` set ?m)" unfolding peak by (rule Max_in) auto
  moreover have "card (get {} ?m e) \<le> peakBuckets m k" for e
    using val [of e] unfolding peak by (auto intro: Max_ge)
  ultimately show ?thesis using hit by (auto simp: is_peak_def indexed_def)
qed

lemma merge_apply_step:
  assumes b: "countable_report b" and k0: "k0 = aggKeyOf envHash b"
    and room: "get 0 (mObservations m) k0 + obObservationCount b < 2 ^ 63" "0 \<le> get 0 (mObservations m) k0"
    and pos: "0 \<le> contribution m k0 (obEpoch b) (obAnonID b)"
  defines "m' \<equiv> fst (merge_apply envHash m b)"
  shows "contribution m' k e a =
      (if k = k0 \<and> e = obEpoch b \<and> a = obAnonID b then max (contribution m k e a) (obObservationCount b)
       else contribution m k e a)"
    and "get 0 (mObservations m') k = get 0 (mObservations m) k +
      (if k = k0 then max (contribution m k (obEpoch b) (obAnonID b)) (obObservationCount b) -
         contribution m k (obEpoch b) (obAnonID b) else 0)"
proof -
  show "contribution m' k e a =
      (if k = k0 \<and> e = obEpoch b \<and> a = obAnonID b then max (contribution m k e a) (obObservationCount b)
       else contribution m k e a)"
    by (auto simp: m'_def k0 merge_apply_def contribution_def Let_def)
  let ?p = "contribution m k0 (obEpoch b) (obAnonID b)" and ?c = "obObservationCount b"
  have delta: "deltaContribution ?p ?c = max ?p ?c - ?p"
    using b pos by (simp add: deltaContribution_def countable_report_def wrap64_small)
  have "wrap64 (get 0 (mObservations m) k0 + (max ?p ?c - ?p)) = get 0 (mObservations m) k0 + (max ?p ?c - ?p)"
    using b pos room by (intro wrap64_small) (auto simp: countable_report_def max_def)
  then show "get 0 (mObservations m') k = get 0 (mObservations m) k +
      (if k = k0 then max (contribution m k (obEpoch b) (obAnonID b)) (obObservationCount b) -
         contribution m k (obEpoch b) (obAnonID b) else 0)"
    using delta by (simp add: m'_def k0 merge_apply_def contribution_def Let_def)
qed

lemma merge_ledger:
  "delta_ledger envHash (\<lambda>m. wf_index (mPeerBuckets m) \<and> wf_index (mProjectBuckets m)) newMergeState
     (\<lambda>m cb. fst (merge_apply envHash m (snd cb))) contribution (\<lambda>m. get 0 (mObservations m))
     (\<lambda>m. indexed (mPeerBuckets m)) (\<lambda>m. indexed (mProjectBuckets m))
     (\<lambda>m. peakBuckets (mPeerBuckets m)) (\<lambda>m. peakBuckets (mProjectBuckets m))"
proof
  show "wf_index (mPeerBuckets newMergeState) \<and> wf_index (mProjectBuckets newMergeState)"
    by (simp add: newMergeState_def)
  show "contribution newMergeState k e a = 0" "get 0 (mObservations newMergeState) k = 0"
    "indexed (mPeerBuckets newMergeState) k e = {}" "indexed (mProjectBuckets newMergeState) k e = {}" for k e a
    by (simp_all add: newMergeState_def contribution_def indexed_def)
qed (use merge_apply_step in \<open>auto simp: peakBuckets_is_peak\<close>,
  auto simp: merge_apply_def Let_def)

interpretation merge_state: delta_ledger envHash
  "\<lambda>m. wf_index (mPeerBuckets m) \<and> wf_index (mProjectBuckets m)" newMergeState
  "\<lambda>m cb. fst (merge_apply envHash m (snd cb))" contribution "\<lambda>m. get 0 (mObservations m)"
  "\<lambda>m. indexed (mPeerBuckets m)" "\<lambda>m. indexed (mProjectBuckets m)"
  "\<lambda>m. peakBuckets (mPeerBuckets m)" "\<lambda>m. peakBuckets (mProjectBuckets m)" for envHash
  by (rule merge_ledger)

end
