(* ===== verification/Validate.thy ===== *)
theory Validate
  imports Failure Applicability Offers
begin

text \<open>
  The admission of an observation batch, \<open>src/internal/serverstore/validate.go\<close>: the wire contract a
  batch has to meet before it may touch storage.  An error value is an option (\<open>None\<close> is Go's nil), one
  constructor per message of the source; the checks are listed in the order the code makes them, and the
  first that objects is the answer.  \<open>sha\<close> stands for \<open>domain.SHA256Hex\<close> and \<open>summarize\<close> for
  \<open>sanitizer.CanonicalPublicErrorSummary\<close>, a chain of regular-expression rewritings of its own package.

  Shown: a calendar day passes exactly in its one spelling and days compare as their spellings do, which
  is what the retention of the ledger relies on; what an accepted batch cannot carry; that an accepted
  modern failure carries the digest of its own evidence; and two gaps of the checks, as lemmas.
\<close>

section \<open>Errors\<close>

datatype lineage_error = OuterCommandTooLong | BadOuterCommand | BadOuterStage string | BadActualToolchain
  | BadStageEvidence string | BadEvidenceGap string

datatype pass_error = PassCarriesError | PassNotCleanExit | PassExitNotZero | PassCarriesFailure

datatype fail_error = BadEvidenceQuality string | BadExitCode int | TerminationNotStructured string
  | ExitCodeNeedsExit | SignalNeedsSignal | SignalTooLong | TimeoutNeedsTimeout | SummaryTooLong
  | SummaryNotCanonical | MissingCarriesEvidence | CompleteIncomplete | PartialNotPartial | FingerprintMismatch

datatype edge_error = TooManyCoresident nat | CoresidentTooLong | CoresidentNotResolved string
  | TooManyDependsOn nat | DependsOnTooLong | DependsOnBadPurl purl_error | DependsOnCrosses string string
  | DependsOnNotResolved string | NoneWithDependsOn nat

datatype field_error = BadEpoch string | BucketEmpty string | BucketTooLong string | BucketNotPrintable string
  | ErrorCodeTooLong | ErrorCodeChar | BadEnvSchema int | EnvIncomplete

datatype batch_error = BadSchemaVersion int | LineageInV1 | Field field_error | BadPurl purl_error
  | EcosystemNotAllowed string | StageIsA3 string | NotObservationStage string | BadResult string
  | BadSymbolConfidence string | SymbolTooLong | BadObservationCount int | BadErrorFingerprint
  | Pass pass_error | Fail fail_error | Lineage lineage_error | Edge edge_error

primrec first_error :: "'e option list \<Rightarrow> 'e option" where
  "first_error [] = None"
| "first_error (e # es) = (case e of None \<Rightarrow> first_error es | Some x \<Rightarrow> Some x)"

definition refuse_if :: "bool \<Rightarrow> 'e \<Rightarrow> 'e option" where
  "refuse_if c e = (if c then Some e else None)"

lemma first_error_None [simp]: "first_error es = None \<longleftrightarrow> (\<forall>e \<in> set es. e = None)"
  by (induction es) (auto split: option.splits)

lemma refuse_if_None [simp]: "refuse_if c e = None \<longleftrightarrow> \<not> c"
  by (simp add: refuse_if_def)

declare first_error.simps [simp del]

section \<open>Calendar days\<close>

text \<open>\<open>time.Parse("2006-01-02", s)\<close>: four digits, two digits, two digits, and a day the month has.\<close>

definition isLeap :: "int \<Rightarrow> bool" where
  "isLeap y \<longleftrightarrow> y mod 4 = 0 \<and> (y mod 100 \<noteq> 0 \<or> y mod 400 = 0)"

definition daysIn :: "int \<Rightarrow> int \<Rightarrow> int" where
  "daysIn m y = (if m = 2 then (if isLeap y then 29 else 28) else if m \<in> {4, 6, 9, 11} then 30 else 31)"

definition ParseDay :: "string \<Rightarrow> (int \<times> int \<times> int) option" where
  "ParseDay s =
     (if length s = 10 \<and> list_all is_digit (take 4 s) \<and> s ! 4 = CHR ''-'' \<and>
         list_all is_digit (take 2 (drop 5 s)) \<and> s ! 7 = CHR ''-'' \<and> list_all is_digit (drop 8 s)
      then let y = dec_val (take 4 s); m = dec_val (take 2 (drop 5 s)); d = dec_val (drop 8 s)
           in if 1 \<le> m \<and> m \<le> 12 \<and> 1 \<le> d \<and> d \<le> daysIn m y then Some (y, m, d) else None
      else None)"

text \<open>\<open>Time.Format("2006-01-02")\<close> of a year of four digits.\<close>

definition digit_char :: "int \<Rightarrow> char" where
  "digit_char n = char_of (nat (48 + n mod 10))"

definition FormatDay :: "int \<times> int \<times> int \<Rightarrow> string" where
  "FormatDay day = (case day of (y, m, d) \<Rightarrow>
     map digit_char [y div 1000, y div 100, y div 10, y] @ ''-'' @ map digit_char [m div 10, m] @ ''-'' @
     map digit_char [d div 10, d])"

definition validEpoch :: "string \<Rightarrow> batch_error option" where
  "validEpoch epoch = (case ParseDay epoch of
     None \<Rightarrow> Some (Field (BadEpoch epoch))
   | Some t \<Rightarrow> if FormatDay t \<noteq> epoch then Some (Field (BadEpoch epoch)) else None)"

section \<open>Identifiers and codes\<close>

definition validBucket :: "string \<Rightarrow> string \<Rightarrow> batch_error option" where
  "validBucket field v =
     (if v = [] then Some (Field (BucketEmpty field))
      else if 64 < length v then Some (Field (BucketTooLong field))
      else if list_ex (\<lambda>r. r \<le> CHR '' '' \<or> CHR ''~'' < r) v then Some (Field (BucketNotPrintable field))
      else None)"

definition hex_char :: "char \<Rightarrow> bool" where
  "hex_char r \<longleftrightarrow> is_digit r \<or> CHR ''a'' \<le> r \<and> r \<le> CHR ''f''"

definition validSHA256ID :: "string \<Rightarrow> bool" where
  "validSHA256ID s \<longleftrightarrow> HasPrefix s ''sha256:'' \<and> length (drop 7 s) = 64 \<and> list_all hex_char (drop 7 s)"

definition code_char :: "char \<Rightarrow> bool" where
  "code_char r \<longleftrightarrow> is_upper r \<or> is_lower r \<or> is_digit r \<or> r \<in> set ''_-.:''"

definition validErrorCode :: "string \<Rightarrow> batch_error option" where
  "validErrorCode code =
     (if code = [] then None
      else if 64 < length code then Some (Field ErrorCodeTooLong)
      else if \<not> list_all code_char code then Some (Field ErrorCodeChar)
      else None)"

definition validEnv :: "EnvironmentFingerprint \<Rightarrow> batch_error option" where
  "validEnv e =
     (if eSchemaVersion e \<noteq> 1 then Some (Field (BadEnvSchema (eSchemaVersion e)))
      else if eEcosystem e = [] \<or> eOS e = [] \<or> eArch e = [] then Some (Field EnvIncomplete)
      else None)"

definition coordinate_char :: "char \<Rightarrow> bool" where
  "coordinate_char r \<longleftrightarrow> is_lower r \<or> is_digit r"

definition safeCoordinate :: "string \<Rightarrow> bool" where
  "safeCoordinate s = (case s of [] \<Rightarrow> True
     | r # rs \<Rightarrow> coordinate_char r \<and> list_all (\<lambda>r. coordinate_char r \<or> r \<in> set ''+._/-'') rs)"

section \<open>The outer command\<close>

definition IsRecognizedCLITool :: "string \<Rightarrow> bool" where
  "IsRecognizedCLITool name =
     (case map_of wantedTargetNames (CommandTool [name]) of
        None \<Rightarrow> False | Some coord \<Rightarrow> HasPrefix coord ''cli/'')"

text \<open>\<open>strings.Fields\<close>; the word read so far is kept in reverse.\<close>

function fields_from :: "string \<Rightarrow> string \<Rightarrow> string list" where
  "fields_from acc s =
     (if s = [] then (if acc = [] then [] else [rev acc])
      else if 0 < space_len space_seqs s then
        (if acc = [] then [] else [rev acc]) @ fields_from [] (drop (space_len space_seqs s) s)
      else fields_from (hd s # acc) (tl s))"
  by pat_completeness auto
termination by (relation "measure (\<lambda>(acc, s). length s)") auto

declare fields_from.simps [simp del]

definition Fields :: "string \<Rightarrow> string list" where
  "Fields s = fields_from [] s"

definition safe_tokens :: "string list" where
  "safe_tokens = [''<redacted-secret>'', ''<path>'', ''<url>'', ''<hash>'', ''<email>'', ''<user>'', ''<str>'',
     ''<token>'', ''<arg>'', ''<branch>'', ''<assignment>'']"

definition token_start :: "char \<Rightarrow> bool" where
  "token_start r \<longleftrightarrow> is_lower r \<or> is_upper r \<or> is_digit r \<or> r \<in> set ''-+._''"

function isSafeOuterCommandToken :: "string \<Rightarrow> bool" where
  "isSafeOuterCommandToken tok =
     (if tok = [] then False
      else if tok \<in> set safe_tokens then True
      else case Cut tok CHR ''='' of
        Some (k, v) \<Rightarrow>
          if k = [] then False
          else isSafeOuterCommandToken k \<and> isSafeOuterCommandToken v
      | None \<Rightarrow> token_start (hd tok) \<and> list_all (\<lambda>r. token_start r \<or> r = CHR '':'') (tl tok))"
  by pat_completeness auto
termination by (relation "measure length") (auto simp: Cut_Some)

declare isSafeOuterCommandToken.simps [simp del]

definition outer_tools :: "string list" where
  "outer_tools = [''go'', ''npm'', ''pnpm'', ''yarn'', ''cargo'', ''dotnet'', ''gradle'', ''gradlew'', ''pytest'',
     ''python'', ''python3'', ''node'', ''tsc'']"

definition outer_subcommands :: "string list" where
  "outer_subcommands = [''test'', ''build'', ''check'', ''run'', ''restore'', ''list'', ''mod'', ''get'', ''install'']"

definition validOuterCommand :: "string \<Rightarrow> bool" where
  "validOuterCommand command =
     (if command = [] then True
      else let parts = Fields command in
        if parts = [] then False
        else if command \<noteq> Join parts '' '' then False
        else if parts ! 0 \<notin> set outer_tools \<and> \<not> IsRecognizedCLITool (parts ! 0) then False
        else if length parts = 1 then True
        else if length parts \<le> 2 \<and> parts ! 0 \<in> set outer_tools \<and> parts ! 1 \<in> set outer_subcommands then True
        else if IsRecognizedCLITool (parts ! 0) then list_all isSafeOuterCommandToken (drop 1 parts)
        else False)"

section \<open>Failure evidence\<close>

definition observationStages :: "string list" where
  "observationStages = [''USED'', ''PROJECT_RESOLVE'', ''PROJECT_TYPECHECK'', ''PROJECT_COMPILE'', ''PROJECT_TEST'',
     ''PROJECT_LOAD'', ''PROJECT_PROCESS'', ''PROCESS_START'', ''UNKNOWN'']"

definition observationStagesV1 :: "string list" where
  "observationStagesV1 = [''USED'', ''PROJECT_TYPECHECK'', ''PROJECT_COMPILE'', ''PROJECT_TEST'', ''PROJECT_LOAD'',
     ''PROJECT_PROCESS'']"

definition normalizedEvidenceQuality :: "ObservationBatch \<Rightarrow> string" where
  "normalizedEvidenceQuality b =
     (if obResult b \<noteq> ''FAIL'' then []
      else if obEvidenceQuality b = [] then ''legacy-evidence-incomplete'' else obEvidenceQuality b)"

definition failureLineagePresent :: "ObservationBatch \<Rightarrow> bool" where
  "failureLineagePresent b \<longleftrightarrow> obOuterCommand b \<noteq> [] \<or> obOuterStage b \<noteq> [] \<or> obActualToolchain b \<noteq> [] \<or>
     obStageEvidence b \<noteq> [] \<or> obFailureEvidenceGap b \<noteq> []"

definition stageEvidences :: "string list" where
  "stageEvidences = [[], ''structured-termination'', ''resolve-diagnostic'', ''compiler-diagnostic'',
     ''test-runner-diagnostic'', ''build-aggregate'', ''unclassified-diagnostic'']"

definition evidenceGaps :: "string list" where
  "evidenceGaps = [[], ''diagnostic-missing'', ''stage-unknown'']"

definition ValidateFailureLineage :: "FailureEvidence \<Rightarrow> batch_error option" where
  "ValidateFailureLineage f = first_error [
     refuse_if (128 < length (feOuterCommand f)) (Lineage OuterCommandTooLong),
     refuse_if (\<not> validOuterCommand (feOuterCommand f)) (Lineage BadOuterCommand),
     refuse_if (feOuterStage f \<noteq> [] \<and> feOuterStage f \<notin> set observationStages) (Lineage (BadOuterStage (feOuterStage f))),
     refuse_if (64 < length (feActualToolchain f) \<or> \<not> safeCoordinate (feActualToolchain f)) (Lineage BadActualToolchain),
     refuse_if (feStageEvidence f \<notin> set stageEvidences) (Lineage (BadStageEvidence (feStageEvidence f))),
     refuse_if (feEvidenceGap f \<notin> set evidenceGaps) (Lineage (BadEvidenceGap (feEvidenceGap f)))]"

definition validFailureLineage :: "ObservationBatch \<Rightarrow> batch_error option" where
  "validFailureLineage b = ValidateFailureLineage
     \<lparr>feTerminationKind = [], feExitCode = None, feSignal = [], feTimeoutMillis = 0, feErrorSummary = [],
      feErrorCode = [], feFingerprint = [], feEvidenceQuality = [], feOuterCommand = obOuterCommand b,
      feOuterStage = obOuterStage b, feActualToolchain = obActualToolchain b,
      feStageEvidence = obStageEvidence b, feEvidenceGap = obFailureEvidenceGap b\<rparr>"

text \<open>A PASS of a command-line tool may say how it was run.\<close>

definition valid_cli_pass :: "ObservationBatch \<Rightarrow> batch_error option" where
  "valid_cli_pass b = first_error [
     refuse_if (obErrorFingerprint b \<noteq> [] \<or> obErrorCode b \<noteq> [] \<or> obErrorSummary b \<noteq> [] \<or>
       obFailureEvidenceGap b \<noteq> []) (Pass PassCarriesError),
     refuse_if (obTerminationKind b \<noteq> [] \<and>
       (obTerminationKind b \<noteq> ''exit'' \<or> obExitCode b \<noteq> Some 0 \<or> obSignal b \<noteq> [] \<or> obTimeoutMillis b \<noteq> 0))
       (Pass PassNotCleanExit),
     refuse_if (obTerminationKind b = [] \<and> obExitCode b \<noteq> None \<and> obExitCode b \<noteq> Some 0) (Pass PassExitNotZero),
     refuse_if (obOuterCommand b \<noteq> [] \<and> 128 < length (obOuterCommand b)) (Lineage OuterCommandTooLong),
     refuse_if (obOuterCommand b \<noteq> [] \<and> \<not> validOuterCommand (obOuterCommand b)) (Lineage BadOuterCommand),
     refuse_if (obOuterStage b \<noteq> [] \<and> obOuterStage b \<notin> set observationStages) (Lineage (BadOuterStage (obOuterStage b))),
     refuse_if (64 < length (obActualToolchain b) \<or> \<not> safeCoordinate (obActualToolchain b)) (Lineage BadActualToolchain)]"

definition valid_pass :: "ObservationBatch \<Rightarrow> batch_error option" where
  "valid_pass b = refuse_if (obTerminationKind b \<noteq> [] \<or> obExitCode b \<noteq> None \<or> obSignal b \<noteq> [] \<or>
     obTimeoutMillis b \<noteq> 0 \<or> obErrorSummary b \<noteq> [] \<or> obEvidenceQuality b \<noteq> [] \<or> obErrorFingerprint b \<noteq> [] \<or>
     obErrorCode b \<noteq> [] \<or> obOuterCommand b \<noteq> [] \<or> obOuterStage b \<noteq> [] \<or> obActualToolchain b \<noteq> [] \<or>
     obStageEvidence b \<noteq> [] \<or> obFailureEvidenceGap b \<noteq> []) (Pass PassCarriesFailure)"

definition out_of_exit_range :: "int option \<Rightarrow> batch_error option" where
  "out_of_exit_range code = (case code of
     None \<Rightarrow> None
   | Some c \<Rightarrow> refuse_if (CanonicalExitCode c = None) (Fail (BadExitCode c)))"

definition valid_fail ::
  "(string \<Rightarrow> string) \<Rightarrow> (string \<Rightarrow> string \<Rightarrow> string) \<Rightarrow> ObservationBatch \<Rightarrow> batch_error option" where
  "valid_fail sha summarize b =
     (let quality = obEvidenceQuality b; term = obTermination b
      in first_error [
        refuse_if (quality \<notin> {[], ''complete'', ''partial'', ''missing'', ''legacy-evidence-incomplete''})
          (Fail (BadEvidenceQuality quality)),
        out_of_exit_range (obExitCode b),
        refuse_if (obTerminationKind b \<noteq> [] \<and> \<not> Structured term) (Fail (TerminationNotStructured (obTerminationKind b))),
        refuse_if (obExitCode b \<noteq> None \<and> obTerminationKind b \<noteq> ''exit'') (Fail ExitCodeNeedsExit),
        refuse_if (obSignal b \<noteq> [] \<and> obTerminationKind b \<noteq> ''signal'') (Fail SignalNeedsSignal),
        refuse_if (32 < length (obSignal b)) (Fail SignalTooLong),
        refuse_if (obTimeoutMillis b < 0 \<or> 0 < obTimeoutMillis b \<and> obTerminationKind b \<noteq> ''timeout'')
          (Fail TimeoutNeedsTimeout),
        refuse_if (512 < length (obErrorSummary b)) (Fail SummaryTooLong),
        validFailureLineage b,
        refuse_if (obErrorSummary b \<noteq> [] \<and> summarize (obErrorSummary b) (obStage b) \<noteq> obErrorSummary b)
          (Fail SummaryNotCanonical),
        refuse_if (quality = ''missing'' \<and> (Structured term \<or> obErrorSummary b \<noteq> [] \<or>
          obErrorFingerprint b \<noteq> [] \<or> obErrorCode b \<noteq> [])) (Fail MissingCarriesEvidence),
        refuse_if (quality = ''complete'' \<and> (\<not> Structured term \<or> obErrorSummary b = [] \<or>
          obErrorFingerprint b = [])) (Fail CompleteIncomplete),
        refuse_if (quality = ''partial'' \<and> (Structured term = (obErrorSummary b \<noteq> []) \<or>
          obErrorFingerprint b = [])) (Fail PartialNotPartial),
        refuse_if ((quality = ''complete'' \<or> quality = ''partial'') \<and>
          obErrorFingerprint b \<noteq>
            (if obActualToolchain b \<noteq> [] then
               ClassifiedFailureFingerprint sha (obStage b) (obActualToolchain b) term (obErrorCode b) (obErrorSummary b)
             else FailureFingerprint sha (obStage b) term (obErrorCode b) (obErrorSummary b)))
          (Fail FingerprintMismatch)])"

definition validFailureEvidence ::
  "(string \<Rightarrow> string) \<Rightarrow> (string \<Rightarrow> string \<Rightarrow> string) \<Rightarrow> ObservationBatch \<Rightarrow> batch_error option" where
  "validFailureEvidence sha summarize b =
     (if obResult b = ''PASS'' then
        (if HasPrefix (obPackage b) ''pkg:generic/cli/'' then valid_cli_pass b else valid_pass b)
      else valid_fail sha summarize b)"

section \<open>Dependency facts\<close>

definition valid_coresident_version :: "string \<Rightarrow> batch_error option" where
  "valid_coresident_version v =
     (if 64 < length v then Some (Edge CoresidentTooLong)
      else if \<not> ConcreteResolvedVersion v then Some (Edge (CoresidentNotResolved v)) else None)"

definition validCoresident :: "string list \<Rightarrow> batch_error option" where
  "validCoresident versions =
     (if 32 < length versions then Some (Edge (TooManyCoresident (length versions)))
      else first_error (map valid_coresident_version versions))"

definition valid_edge :: "PURL \<Rightarrow> string \<Rightarrow> batch_error option" where
  "valid_edge parent raw =
     (if 512 < length raw then Some (Edge DependsOnTooLong)
      else case ParsePURL raw of
        Inl err \<Rightarrow> Some (Edge (DependsOnBadPurl err))
      | Inr child \<Rightarrow>
          if pEcosystem child \<noteq> pEcosystem parent
          then Some (Edge (DependsOnCrosses (pEcosystem child) (pEcosystem parent)))
          else if \<not> ConcreteResolvedVersion (pVersion child) then Some (Edge (DependsOnNotResolved (pVersion child)))
          else None)"

definition validDependsOn :: "PURL \<Rightarrow> string list \<Rightarrow> batch_error option" where
  "validDependsOn parent edges =
     (if 256 < length edges then Some (Edge (TooManyDependsOn (length edges)))
      else first_error (map (valid_edge parent) edges))"

section \<open>The whole batch\<close>

definition maxObservationCount :: int where
  "maxObservationCount = 1000000"

definition ValidateBatch ::
  "(string \<Rightarrow> string) \<Rightarrow> (string \<Rightarrow> string \<Rightarrow> string) \<Rightarrow> ObservationBatch \<Rightarrow> batch_error option" where
  "ValidateBatch sha summarize b = first_error [
     refuse_if (obSchemaVersion b \<noteq> 1 \<and> obSchemaVersion b \<noteq> 2) (BadSchemaVersion (obSchemaVersion b)),
     refuse_if (obSchemaVersion b = 1 \<and> failureLineagePresent b) LineageInV1,
     validEpoch (obEpoch b),
     validBucket ''anonId'' (obAnonID b),
     validBucket ''projectBucket'' (obProjectBucket b),
     (case ParsePURL (obPackage b) of
        Inl err \<Rightarrow> Some (BadPurl err)
      | Inr p \<Rightarrow> first_error [
          refuse_if (pEcosystem p \<notin> set AllowedEcosystems \<and> \<not> IsWantedTarget p) (EcosystemNotAllowed (pEcosystem p)),
          refuse_if (obStage b = ''SYMBOL_EXECUTED'' \<or> obStage b = ''SYMBOL_CALL'') (StageIsA3 (obStage b)),
          refuse_if (obStage b \<notin> set (if obSchemaVersion b = 1 then observationStagesV1 else observationStages))
            (NotObservationStage (obStage b)),
          refuse_if (obResult b \<noteq> ''PASS'' \<and> obResult b \<noteq> ''FAIL'') (BadResult (obResult b)),
          refuse_if (obSymbolConfidence b \<notin> {[], ''EXACT'', ''PROBABLE'', ''UNKNOWN''})
            (BadSymbolConfidence (obSymbolConfidence b)),
          refuse_if (512 < length (obSymbol b)) SymbolTooLong,
          refuse_if (obObservationCount b < 1 \<or> maxObservationCount < obObservationCount b)
            (BadObservationCount (obObservationCount b)),
          refuse_if (obErrorFingerprint b \<noteq> [] \<and> \<not> validSHA256ID (obErrorFingerprint b)) BadErrorFingerprint,
          validErrorCode (obErrorCode b),
          validFailureEvidence sha summarize b,
          validEnv (obEnvironment b),
          validCoresident (obCoresident b),
          refuse_if (obDependsOnNone b \<and> 0 < length (obDependsOn b)) (Edge (NoneWithDependsOn (length (obDependsOn b)))),
          validDependsOn p (obDependsOn b)])]"

section \<open>Days and their spelling\<close>

lemma digit_char_val [simp]: "is_digit c \<Longrightarrow> digit_char (digit_val c) = c"
proof -
  assume c: "is_digit c"
  have "digit_val c mod 10 = digit_val c" using digit_val_bounds [OF c] by simp
  then have "nat (48 + digit_val c mod 10) = nat (of_char c)" by (simp add: digit_val_def)
  also have "\<dots> = of_char c" by (metis nat_int of_nat_of_char)
  finally show ?thesis by (simp add: digit_char_def)
qed

lemma digit_less: "is_digit c \<Longrightarrow> is_digit d \<Longrightarrow> digit_val c < digit_val d \<longleftrightarrow> c < d"
  unfolding digit_val_def less_char_def by (metis diff_less_eq diff_add_cancel of_nat_less_iff of_nat_of_char)

lemma dec_val_foldl: "foldl (\<lambda>a c. 10 * a + digit_val c) n ds = n * 10 ^ length ds + dec_val ds"
proof (induction ds arbitrary: n)
  case (Cons c ds)
  show ?case using Cons.IH [of "10 * n + digit_val c"] Cons.IH [of "digit_val c"]
    by (simp add: dec_val_def algebra_simps)
qed (simp add: dec_val_def)

lemma dec_val_Cons: "dec_val (c # ds) = digit_val c * 10 ^ length ds + dec_val ds"
  using dec_val_foldl [of "digit_val c" ds] by (simp add: dec_val_def)

lemma dec_val_bounds: "list_all is_digit ds \<Longrightarrow> 0 \<le> dec_val ds \<and> dec_val ds < 10 ^ length ds"
proof (induction ds)
  case (Cons c ds)
  have "digit_val c * 10 ^ length ds \<le> 9 * 10 ^ length ds" "0 \<le> digit_val c * 10 ^ length ds"
    using digit_val_bounds [of c] Cons.prems by (auto intro!: mult_right_mono)
  moreover have "0 \<le> dec_val ds \<and> dec_val ds < 10 ^ length ds" using Cons by simp
  ultimately show ?case unfolding dec_val_Cons list.size(4) add_Suc_right add_0_right power_Suc by linarith
qed (simp add: dec_val_def)

lemma digits_less:
  "length s = length t \<Longrightarrow> list_all is_digit s \<Longrightarrow> list_all is_digit t \<Longrightarrow> s < t \<longleftrightarrow> dec_val s < dec_val t"
proof (induction s t rule: list_induct2)
  case (Cons c s d t)
  let ?p = "10 ^ length t :: int"
  have b: "0 \<le> dec_val s" "dec_val s < ?p" "0 \<le> dec_val t" "dec_val t < ?p"
    using dec_val_bounds [of s] dec_val_bounds [of t] Cons by auto
  have gap: "x * ?p + dec_val s < y * ?p + dec_val t" if "x < y" for x y
  proof -
    have "(x + 1) * ?p \<le> y * ?p" using that by (intro mult_right_mono) auto
    with b show ?thesis by (simp add: algebra_simps)
  qed
  have gap': "y * ?p + dec_val t < x * ?p + dec_val s" if "y < x" for x y
  proof -
    have "(y + 1) * ?p \<le> x * ?p" using that by (intro mult_right_mono) auto
    with b show ?thesis by (simp add: algebra_simps)
  qed
  have cd: "digit_val c < digit_val d \<longleftrightarrow> c < d" "digit_val d < digit_val c \<longleftrightarrow> d < c"
    using Cons.prems by (auto intro!: digit_less)
  consider "c < d" | "c = d" | "d < c" by (rule linorder_cases)
  then show ?case
  proof cases
    case 1
    with gap [of "digit_val c" "digit_val d"] cd show ?thesis by (simp add: dec_val_Cons Cons.hyps)
  next
    case 2
    with Cons show ?thesis by (simp add: dec_val_Cons)
  next
    case 3
    with gap' [of "digit_val d" "digit_val c"] cd show ?thesis by (auto simp: dec_val_Cons Cons.hyps)
  qed
qed (simp add: dec_val_def)

lemma append_less_append:
  "length a = length c \<Longrightarrow> a @ b < c @ d \<longleftrightarrow> a < c \<or> a = c \<and> b < (d :: string)"
  by (induction a c rule: list_induct2) auto


text \<open>A day text is its ten bytes.\<close>

definition day_bytes :: "string \<Rightarrow> bool" where
  "day_bytes s \<longleftrightarrow> length s = 10 \<and> list_all is_digit (take 4 s) \<and> s ! 4 = CHR ''-'' \<and>
     list_all is_digit (take 2 (drop 5 s)) \<and> s ! 7 = CHR ''-'' \<and> list_all is_digit (drop 8 s)"

lemma day_bytes_split:
  "day_bytes s \<longleftrightarrow> (\<exists>y m d. s = y @ ''-'' @ m @ ''-'' @ d \<and> length y = 4 \<and> length m = 2 \<and> length d = 2 \<and>
     list_all is_digit y \<and> list_all is_digit m \<and> list_all is_digit d)"
proof
  assume s: "day_bytes s"
  have "s = take 4 s @ drop 4 s" by simp
  also have "drop 4 s = s ! 4 # drop 5 s" using Cons_nth_drop_Suc [of 4 s] s by (simp add: day_bytes_def)
  also have "drop 5 s = take 2 (drop 5 s) @ drop 2 (drop 5 s)" by (simp only: append_take_drop_id)
  also have "drop 2 (drop 5 s) = s ! 7 # drop 8 s" using Cons_nth_drop_Suc [of 7 s] s by (simp add: day_bytes_def)
  finally show "\<exists>y m d. s = y @ ''-'' @ m @ ''-'' @ d \<and> length y = 4 \<and> length m = 2 \<and> length d = 2 \<and>
     list_all is_digit y \<and> list_all is_digit m \<and> list_all is_digit d"
    using s by (intro exI [of _ "take 4 s"] exI [of _ "take 2 (drop 5 s)"] exI [of _ "drop 8 s"])
      (simp add: day_bytes_def)
qed (auto simp: day_bytes_def nth_append)


lemma ParseDay_split:
  assumes "list_all is_digit y" "list_all is_digit m" "list_all is_digit d"
    "length y = 4" "length m = 2" "length d = 2"
  shows "ParseDay (y @ ''-'' @ m @ ''-'' @ d) =
     (if 1 \<le> dec_val m \<and> dec_val m \<le> 12 \<and> 1 \<le> dec_val d \<and> dec_val d \<le> daysIn (dec_val m) (dec_val y)
      then Some (dec_val y, dec_val m, dec_val d) else None)"
  using assms by (simp add: ParseDay_def nth_append Let_def)

lemma ParseDay_bytes: "ParseDay s = Some t \<Longrightarrow> day_bytes s"
  by (auto simp: ParseDay_def day_bytes_def Let_def split: if_splits)

lemma two_digits: "list_all is_digit m \<Longrightarrow> length m = 2 \<Longrightarrow> map digit_char [dec_val m div 10, dec_val m] = m"
proof -
  assume m: "list_all is_digit m" "length m = 2"
  then obtain a b where [simp]: "m = [a, b]" by (auto simp: numeral_eq_Suc length_Suc_conv)
  have "0 \<le> digit_val a" "digit_val a \<le> 9" "0 \<le> digit_val b" "digit_val b \<le> 9"
    using m digit_val_bounds by auto
  then have "(10 * digit_val a + digit_val b) div 10 = digit_val a" by linarith
  moreover have "digit_char (10 * digit_val a + digit_val b) = digit_char (digit_val b)"
    by (simp add: digit_char_def)
  ultimately show ?thesis using m by (simp add: dec_val_Cons dec_val_def)
qed

lemma four_digits:
  "list_all is_digit y \<Longrightarrow> length y = 4 \<Longrightarrow>
     map digit_char [dec_val y div 1000, dec_val y div 100, dec_val y div 10, dec_val y] = y"
proof -
  assume y: "list_all is_digit y" "length y = 4"
  then obtain a b where ab: "y = a @ b" "length a = 2" "length b = 2"
    by (metis append_take_drop_id length_take length_drop min.absorb4 numeral_less_iff semiring_norm(78,76)
        diff_numeral_simps(4) numeral_Bit0 add_diff_cancel_right' one_add_one)
  then have d: "list_all is_digit a" "list_all is_digit b" using y by auto
  have v: "dec_val y = dec_val a * 100 + dec_val b"
    using dec_val_foldl [of "dec_val a" b] ab by (simp add: dec_val_def)
  have b: "0 \<le> dec_val b" "dec_val b < 100" using dec_val_bounds [OF d(2)] ab by auto
  then have "dec_val y div 100 = dec_val a" "dec_val y div 1000 = dec_val a div 10" using v by linarith+
  moreover have "digit_char (dec_val y div 10) = digit_char (dec_val b div 10)"
    "digit_char (dec_val y) = digit_char (dec_val b)"
  proof -
    have "dec_val y div 10 = dec_val a * 10 + dec_val b div 10" using v by linarith
    then show "digit_char (dec_val y div 10) = digit_char (dec_val b div 10)" by (simp add: digit_char_def)
    show "digit_char (dec_val y) = digit_char (dec_val b)" by (simp add: digit_char_def v mod_add_eq [symmetric])
  qed
  ultimately show ?thesis using two_digits [OF d(1) ab(2)] two_digits [OF d(2) ab(3)] ab by simp
qed

lemma FormatDay_ParseDay: "ParseDay s = Some t \<Longrightarrow> FormatDay t = s"
proof -
  assume t: "ParseDay s = Some t"
  obtain y m d where s: "s = y @ ''-'' @ m @ ''-'' @ d" "length y = 4" "length m = 2" "length d = 2"
    "list_all is_digit y" "list_all is_digit m" "list_all is_digit d"
    using ParseDay_bytes [OF t] by (auto simp: day_bytes_split)
  then have "t = (dec_val y, dec_val m, dec_val d)"
    using t ParseDay_split [of y m d] by (simp split: if_splits)
  then show ?thesis
    using two_digits [OF s(6,3)] two_digits [OF s(7,4)] four_digits [OF s(5,2)] s(1) by (simp add: FormatDay_def)
qed


lemma digit_char_digit [simp]: "is_digit (digit_char n)" "digit_val (digit_char n) = n mod 10"
proof -
  have b: "of_char (digit_char n) = nat (48 + n mod 10)"
    by (simp add: digit_char_def nat_less_iff)
  moreover have "0 \<le> n mod 10" "n mod 10 \<le> 9" by simp_all
  ultimately show "is_digit (digit_char n)" unfolding is_digit_def less_eq_char_def by (simp add: nat_le_iff)
  have "(of_char (digit_char n) :: int) = int (of_char (digit_char n))" by (simp only: of_nat_of_char)
  then show "digit_val (digit_char n) = n mod 10" by (simp only: digit_val_def b)
qed

lemma dec_val_digits:
  "dec_val (map digit_char [a, b]) = a mod 10 * 10 + b mod 10"
  "dec_val (map digit_char [a, b, c, d]) = (a mod 10 * 10 + b mod 10) * 100 + (c mod 10 * 10 + d mod 10)"
  unfolding dec_val_def list.map foldl_Cons foldl_Nil digit_char_digit by simp_all

lemma ParseDay_FormatDay:
  assumes "0 \<le> y" "y \<le> 9999" "1 \<le> m" "m \<le> 12" "1 \<le> d" "d \<le> daysIn m y"
  shows "ParseDay (FormatDay (y, m, d)) = Some (y, m, d)"
proof -
  have "daysIn m y \<le> 31" by (auto simp: daysIn_def)
  then have d: "d \<le> 99" using assms by simp
  have small: "(n div 10) mod 10 * 10 + n mod 10 = n" if "0 \<le> n" "n \<le> 99" for n :: int
    using that by (simp add: mod_pos_pos_trivial)
  have "y div 1000 = (y div 100) div 10" using zdiv_zmult2_eq [of 10 y 100] by simp
  moreover have "0 \<le> y div 100" "y div 100 \<le> 99" using assms by linarith+
  ultimately have hi: "(y div 1000) mod 10 * 10 + (y div 100) mod 10 = y div 100" using small [of "y div 100"] by simp
  have lo: "(y div 10) mod 10 * 10 + y mod 10 = y mod 100" using zmod_zmult2_eq [of 10 y 10] by simp
  have "((y div 1000) mod 10 * 10 + (y div 100) mod 10) * 100 + ((y div 10) mod 10 * 10 + y mod 10) = y"
    unfolding hi lo by (rule div_mult_mod_eq)
  moreover have "(m div 10) mod 10 * 10 + m mod 10 = m" "(d div 10) mod 10 * 10 + d mod 10 = d"
    using assms d by (auto intro!: small)
  ultimately have vals: "dec_val (map digit_char [y div 1000, y div 100, y div 10, y]) = y"
    "dec_val (map digit_char [m div 10, m]) = m" "dec_val (map digit_char [d div 10, d]) = d"
    by (simp_all only: dec_val_digits)
  show ?thesis
    unfolding FormatDay_def prod.case
    by (subst ParseDay_split) (use assms in \<open>simp_all only: vals, simp_all\<close>)
qed

lemma FormatDay_less:
  assumes "ParseDay s = Some (y, m, d)" "ParseDay s' = Some (y', m', d')"
  shows "s < s' \<longleftrightarrow> y < y' \<or> y = y' \<and> (m < m' \<or> m = m' \<and> d < d')"
proof -
  have parts: "\<exists>a b c. s = a @ ''-'' @ b @ ''-'' @ c \<and> length a = 4 \<and> length b = 2 \<and> length c = 2 \<and>
      list_all is_digit a \<and> list_all is_digit b \<and> list_all is_digit c \<and> dec_val a = y \<and> dec_val b = m \<and>
      dec_val c = d" if p: "ParseDay s = Some (y, m, d)" for s y m d
  proof -
    obtain a b c where "s = a @ ''-'' @ b @ ''-'' @ c \<and> length a = 4 \<and> length b = 2 \<and> length c = 2 \<and>
      list_all is_digit a \<and> list_all is_digit b \<and> list_all is_digit c"
      using ParseDay_bytes [OF p] unfolding day_bytes_split by blast
    moreover with p have "dec_val a = y \<and> dec_val b = m \<and> dec_val c = d"
      using ParseDay_split [of a b c] by (simp split: if_splits)
    ultimately show ?thesis by blast
  qed
  obtain a b c where s: "s = a @ ''-'' @ b @ ''-'' @ c" "length a = 4" "length b = 2" "length c = 2"
      "list_all is_digit a" "list_all is_digit b" "list_all is_digit c" "dec_val a = y" "dec_val b = m"
      "dec_val c = d" using parts [OF assms(1)] by blast
  obtain a' b' c' where s': "s' = a' @ ''-'' @ b' @ ''-'' @ c'" "length a' = 4" "length b' = 2" "length c' = 2"
      "list_all is_digit a'" "list_all is_digit b'" "list_all is_digit c'" "dec_val a' = y'" "dec_val b' = m'"
      "dec_val c' = d'" using parts [OF assms(2)] by blast
  have num: "u < v \<longleftrightarrow> dec_val u < dec_val v" "u = v \<longleftrightarrow> dec_val u = dec_val v"
    if "length u = length v" "list_all is_digit u" "list_all is_digit v" for u v
    using that digits_less [of u v] digits_less [of v u] by (auto intro: linorder_cases [of u v])
  show ?thesis unfolding s(1) s'(1) using s s'
    by (simp add: append_less_append num)
qed

text \<open>An epoch is admitted exactly when it is the one spelling of a day of the calendar, and admitted
  epochs compare as strings the way their days compare, so deleting the ledger entries whose epoch text is
  below a cutoff deletes exactly the earlier days.\<close>

theorem epochs_are_calendar_days:
  "(validEpoch s = None \<longleftrightarrow>
     (\<exists>y m d. 0 \<le> y \<and> y \<le> 9999 \<and> 1 \<le> m \<and> m \<le> 12 \<and> 1 \<le> d \<and> d \<le> daysIn m y \<and> s = FormatDay (y, m, d))) \<and>
   (ParseDay s = Some (y, m, d) \<and> ParseDay s' = Some (y', m', d') \<longrightarrow>
      (s < s' \<longleftrightarrow> y < y' \<or> y = y' \<and> (m < m' \<or> m = m' \<and> d < d')))"
proof (intro conjI impI iffI)
  assume "validEpoch s = None"
  then obtain y m d where t: "ParseDay s = Some (y, m, d)" by (auto simp: validEpoch_def split: option.splits)
  have "0 \<le> y \<and> y \<le> 9999 \<and> 1 \<le> m \<and> m \<le> 12 \<and> 1 \<le> d \<and> d \<le> daysIn m y"
    using t dec_val_bounds [of "take 4 s"] by (auto simp: ParseDay_def Let_def split: if_splits)
  with FormatDay_ParseDay [OF t] show "\<exists>y m d. 0 \<le> y \<and> y \<le> 9999 \<and> 1 \<le> m \<and> m \<le> 12 \<and> 1 \<le> d \<and>
      d \<le> daysIn m y \<and> s = FormatDay (y, m, d)" by metis
qed (auto simp: validEpoch_def ParseDay_FormatDay FormatDay_less)

theorem epochs_are_calendar_days_witness:
  "validEpoch ''2028-02-29'' = None \<and> validEpoch ''2026-02-29'' \<noteq> None \<and>
   (''2026-09-30'' < ''2026-10-01'') = ((2026 :: int) < 2026 \<or> (2026 :: int) = 2026 \<and> ((9 :: int) < 10 \<or> (9 :: int) = 10 \<and> (30 :: int) < 1))"
proof -
  have "ParseDay ''2026-09-30'' = Some (2026, 9, 30)" "ParseDay ''2026-10-01'' = Some (2026, 10, 1)"
    "validEpoch ''2028-02-29'' = None" "validEpoch ''2026-02-29'' \<noteq> None"
    by code_simp+
  then show ?thesis using epochs_are_calendar_days [of "''2026-09-30''" 2026 9 30 "''2026-10-01''" 2026 10 1] by blast
qed

section \<open>What an accepted batch can carry\<close>

definition public_byte :: "char \<Rightarrow> bool" where
  "public_byte r \<longleftrightarrow> is_lower r \<or> is_upper r \<or> is_digit r \<or> r \<in> set ''-+._:=<>''"

lemma token_start_public: "token_start r \<or> r = CHR '':'' \<Longrightarrow> public_byte r"
  by (auto simp: token_start_def public_byte_def)

lemma vocabulary_public:
  "list_all (list_all public_byte) safe_tokens" "list_all (list_all public_byte) outer_subcommands"
  by code_simp+

lemma safe_token_public: "isSafeOuterCommandToken tok \<Longrightarrow> list_all public_byte tok"
proof (induction tok rule: isSafeOuterCommandToken.induct)
  case (1 tok)
  consider "tok \<in> set safe_tokens" | k v where "tok \<notin> set safe_tokens" "tok \<noteq> []" "Cut tok CHR ''='' = Some (k, v)"
    | "tok \<notin> set safe_tokens" "tok \<noteq> []" "Cut tok CHR ''='' = None"
    using 1(3) by (cases "Cut tok CHR ''=''") (auto simp: isSafeOuterCommandToken.simps [of tok] split: if_splits)
  then show ?case
  proof cases
    case 1
    then show ?thesis using vocabulary_public(1) by (simp add: list_all_iff)
  next
    case 2
    then have "k \<noteq> []" "isSafeOuterCommandToken k" "isSafeOuterCommandToken v"
      using 1(3) by (auto simp: isSafeOuterCommandToken.simps [of tok] split: if_splits)
    moreover from this 2 1(1,2) have "list_all public_byte k" "list_all public_byte v" by auto
    moreover have "tok = k @ CHR ''='' # v" using 2 by (simp add: Cut_Some)
    moreover have "public_byte CHR ''=''" by (simp add: public_byte_def)
    ultimately show ?thesis by simp
  next
    case 3
    then have "token_start (hd tok)" "list_all (\<lambda>r. token_start r \<or> r = CHR '':'') (tl tok)"
      using 1(3) by (auto simp: isSafeOuterCommandToken.simps [of tok])
    then show ?thesis using token_start_public 3(2) by (cases tok) (auto simp: list_all_iff)
  qed
qed

text \<open>What an accepted outer command says: a known tool, possibly under a path, and public words.\<close>

definition public_command :: "string \<Rightarrow> bool" where
  "public_command c \<longleftrightarrow> c = [] \<or> (\<exists>tool args. c = Join (tool # args) '' '' \<and>
     (tool \<in> set outer_tools \<or> IsRecognizedCLITool tool) \<and> list_all (list_all public_byte) args)"

lemma validOuterCommand_public: "validOuterCommand c \<Longrightarrow> public_command c"
proof -
  assume c: "validOuterCommand c"
  show ?thesis
  proof (cases "c = []")
    case False
    then obtain tool args where parts: "Fields c = tool # args" using c
      by (cases "Fields c") (auto simp: validOuterCommand_def)
    have "c = Join (tool # args) '' ''" "tool \<in> set outer_tools \<or> IsRecognizedCLITool tool"
      using c False by (auto simp: validOuterCommand_def parts Let_def split: if_splits)
    moreover have "list_all (list_all public_byte) args"
      using c False safe_token_public vocabulary_public(2)
      by (auto simp: validOuterCommand_def parts Let_def list_all_iff numeral_eq_Suc length_Suc_conv le_Suc_eq split: if_splits)
    ultimately show ?thesis by (auto simp: public_command_def)
  qed (simp add: public_command_def)
qed


lemma safeCoordinate_bytes:
  "safeCoordinate s \<Longrightarrow> list_all (\<lambda>r. is_lower r \<or> is_digit r \<or> r \<in> set ''+._/-'') s"
  by (cases s) (auto simp: safeCoordinate_def coordinate_char_def list_all_iff)

lemma validBucket_bytes:
  "validBucket field v = None \<Longrightarrow>
     v \<noteq> [] \<and> length v \<le> 64 \<and> list_all (\<lambda>r. CHR '' '' < r \<and> r \<le> CHR ''~'') v"
  by (auto simp: validBucket_def list_all_iff list_ex_iff split: if_splits)

lemma accepted:
  assumes "ValidateBatch sha summarize b = None"
  obtains p where "ParsePURL (obPackage b) = Inr p"
    "pEcosystem p \<in> set AllowedEcosystems \<or> IsWantedTarget p"
    "obStage b \<in> set observationStages" "obResult b \<in> {''PASS'', ''FAIL''}"
    "1 \<le> obObservationCount b" "obObservationCount b \<le> 1000000"
    "validEpoch (obEpoch b) = None" "validBucket ''anonId'' (obAnonID b) = None"
    "validBucket ''projectBucket'' (obProjectBucket b) = None" "length (obSymbol b) \<le> 512"
    "obErrorFingerprint b = [] \<or> validSHA256ID (obErrorFingerprint b)"
    "validErrorCode (obErrorCode b) = None" "validFailureEvidence sha summarize b = None"
    "validCoresident (obCoresident b) = None" "validDependsOn p (obDependsOn b) = None"
proof (cases "ParsePURL (obPackage b)")
  case (Inl err)
  then show ?thesis using assms by (simp add: ValidateBatch_def)
next
  case (Inr p)
  have v1: "set observationStagesV1 \<subseteq> set observationStages"
    by (simp add: observationStages_def observationStagesV1_def)
  show ?thesis
    by (rule that [OF Inr]) (use assms Inr v1 in \<open>auto simp: ValidateBatch_def maxObservationCount_def split: if_splits\<close>)
qed

lemma accepted_fail:
  assumes "ValidateBatch sha summarize b = None" "obResult b \<noteq> ''PASS''"
  shows "valid_fail sha summarize b = None"
  using accepted [OF assms(1)] assms(2) by (metis validFailureEvidence_def)

lemma accepted_pass:
  assumes "ValidateBatch sha summarize b = None" "obResult b = ''PASS''"
  shows "if HasPrefix (obPackage b) ''pkg:generic/cli/'' then valid_cli_pass b = None else valid_pass b = None"
  using accepted [OF assms(1)] assms(2) by (metis validFailureEvidence_def)

definition cli_pass :: "ObservationBatch \<Rightarrow> bool" where
  "cli_pass b \<longleftrightarrow> obResult b = ''PASS'' \<and> HasPrefix (obPackage b) ''pkg:generic/cli/''"

lemma accepted_lineage:
  assumes "ValidateBatch sha summarize b = None"
  shows "length (obOuterCommand b) \<le> 128 \<and> validOuterCommand (obOuterCommand b) \<and>
     length (obActualToolchain b) \<le> 64 \<and> safeCoordinate (obActualToolchain b) \<and>
     (\<not> cli_pass b \<longrightarrow> obStageEvidence b \<in> set stageEvidences \<and> obFailureEvidenceGap b \<in> set evidenceGaps \<and>
        length (obSignal b) \<le> 32)"
proof (cases "obResult b = ''PASS''")
  case True
  have "validOuterCommand []" "safeCoordinate []" "[] \<in> set stageEvidences" "[] \<in> set evidenceGaps"
    by (simp_all add: validOuterCommand_def safeCoordinate_def stageEvidences_def evidenceGaps_def)
  with accepted_pass [OF assms True] True show ?thesis
    by (auto simp: cli_pass_def valid_cli_pass_def valid_pass_def split: if_splits)
next
  case False
  with accepted_fail [OF assms False] show ?thesis
    by (simp add: valid_fail_def validFailureLineage_def ValidateFailureLineage_def Let_def)
qed

lemma accepted_summary:
  assumes "ValidateBatch sha summarize b = None"
  shows "obErrorSummary b = [] \<or> length (obErrorSummary b) \<le> 512 \<and>
     summarize (obErrorSummary b) (obStage b) = obErrorSummary b"
proof (cases "obResult b = ''PASS''")
  case True
  with accepted_pass [OF assms True] show ?thesis
    by (auto simp: valid_cli_pass_def valid_pass_def split: if_splits)
next
  case False
  with accepted_fail [OF assms False] show ?thesis by (auto simp: valid_fail_def Let_def)
qed



section \<open>Cluster identity\<close>

text \<open>The documented text whose digest names a modern failure.\<close>

definition digest_text :: "ObservationBatch \<Rightarrow> string" where
  "digest_text b =
     (let tail = FingerprintCoordinate (obTermination b) @ ''|'' @ obErrorCode b @ ''|'' @ obErrorSummary b
      in if obActualToolchain b = [] then ''v2|'' @ obStage b @ ''|'' @ tail
         else ''v3|'' @ obStage b @ ''|'' @ ToLower (TrimSpace (obActualToolchain b)) @ ''|'' @ tail)"

lemma accepted_modern:
  assumes "ValidateBatch sha summarize b = None" "obResult b = ''FAIL''" "obEvidenceQuality b \<in> {''complete'', ''partial''}"
  shows "obErrorFingerprint b = sha (digest_text b)"
    and "obEvidenceQuality b = ''complete'' \<longleftrightarrow> Structured (obTermination b) \<and> obErrorSummary b \<noteq> []"
    and "Structured (obTermination b) \<or> obErrorSummary b \<noteq> []"
  using accepted_fail [OF assms(1)] assms(2,3)
  by (auto simp: valid_fail_def Let_def digest_text_def FailureFingerprint_def ClassifiedFailureFingerprint_def
      split: if_splits)

text \<open>The cluster of a modern failure is not the client's choice: two accepted failures with complete or
  partial evidence share a fingerprint exactly when the documented text of their evidence is the same (with
  no collision of the digest on the two), and the quality they claim is the one their evidence has.\<close>

theorem accepted_failures_are_clustered_by_evidence:
  assumes "ValidateBatch sha summarize b = None" "ValidateBatch sha summarize b' = None"
    and "obResult b = ''FAIL''" "obResult b' = ''FAIL''"
    and "obEvidenceQuality b \<in> {''complete'', ''partial''}" "obEvidenceQuality b' \<in> {''complete'', ''partial''}"
    and "inj_on sha {digest_text b, digest_text b'}"
  shows "(obErrorFingerprint b = obErrorFingerprint b' \<longleftrightarrow> digest_text b = digest_text b') \<and>
    (obEvidenceQuality b = ''complete'' \<longleftrightarrow> Structured (obTermination b) \<and> obErrorSummary b \<noteq> []) \<and>
    (obEvidenceQuality b = ''partial'' \<longleftrightarrow> Structured (obTermination b) = (obErrorSummary b = []))"
proof (intro conjI)
  note m = accepted_modern [OF assms(1,3,5)]
  show "obErrorFingerprint b = obErrorFingerprint b' \<longleftrightarrow> digest_text b = digest_text b'"
    unfolding m(1) accepted_modern(1) [OF assms(2,4,6)] using inj_on_eq_iff [OF assms(7)] by simp
  show "obEvidenceQuality b = ''complete'' \<longleftrightarrow> Structured (obTermination b) \<and> obErrorSummary b \<noteq> []" by (rule m)
  show "obEvidenceQuality b = ''partial'' \<longleftrightarrow> Structured (obTermination b) = (obErrorSummary b = [])"
    using m(2,3) assms(5) by auto
qed

definition sample_env :: EnvironmentFingerprint where
  "sample_env = zero_env\<lparr>eSchemaVersion := 1, eEcosystem := ''npm'', eOS := ''linux'', eArch := ''amd64''\<rparr>"

definition sample_fail :: ObservationBatch where
  "sample_fail = example_batch\<lparr>obAnonID := ''a1'', obProjectBucket := ''p1'', obEnvironment := sample_env,
     obErrorFingerprint := ''sha256:'' @ replicate 64 CHR ''0'', obExitCode := Some 1, obErrorSummary := ''oom''\<rparr>"

definition zero_sha :: "string \<Rightarrow> string" where
  "zero_sha s = ''sha256:'' @ replicate 64 CHR ''0''"

lemma sample_fail_accepted: "ValidateBatch zero_sha (\<lambda>s _. s) sample_fail = None"
  by code_simp

lemma sample_fail_modern: "obResult sample_fail = ''FAIL''" "obEvidenceQuality sample_fail = ''complete''"
  by (simp_all add: sample_fail_def example_batch_def)


theorem accepted_failures_are_clustered_by_evidence_witness:
  "obEvidenceQuality sample_fail = ''complete'' \<and> Structured (obTermination sample_fail) \<and> obErrorSummary sample_fail \<noteq> []"
  using accepted_failures_are_clustered_by_evidence [OF sample_fail_accepted sample_fail_accepted]
  by (simp add: sample_fail_modern)

section \<open>Two gaps of the admission\<close>

definition cli_batch :: ObservationBatch where
  "cli_batch = sample_fail\<lparr>obPackage := ''pkg:generic/cli/git@2.50.0'', obResult := ''PASS'',
     obErrorFingerprint := [], obExitCode := None, obTerminationKind := [], obErrorSummary := [],
     obEvidenceQuality := []\<rparr>"

lemma cli_batch_accepted: "ValidateBatch zero_sha (\<lambda>s _. s) cli_batch = None"
  by code_simp

text \<open>A PASS of a command-line tool is accepted whatever its stage evidence, its evidence quality, its signal
  and its timeout say: none of the four is looked at.\<close>

lemma cli_pass_evidence_is_unchecked:
  "ValidateBatch zero_sha (\<lambda>s _. s)
     (cli_batch\<lparr>obStageEvidence := anything, obEvidenceQuality := whatever, obSignal := any, obTimeoutMillis := n\<rparr>) = None"
proof -
  have kind: "obSchemaVersion cli_batch = 2" "obTerminationKind cli_batch = []"
    by (simp_all add: cli_batch_def sample_fail_def example_batch_def)
  have "cli_pass cli_batch" by code_simp
  then show ?thesis using cli_batch_accepted kind
    by (cases "ParsePURL (obPackage cli_batch)")
      (simp_all add: ValidateBatch_def cli_pass_def validFailureEvidence_def valid_cli_pass_def validErrorCode_def)
qed

text \<open>The tool of an outer command is recognized by the last component of its path, and the whole first
  word is kept.\<close>

lemma outer_command_keeps_a_private_path:
  "ValidateBatch zero_sha (\<lambda>s _. s) (cli_batch\<lparr>obOuterCommand := ''/home/alice/acme-merger/git status''\<rparr>) = None"
  by code_simp

end
