(* ===== verification/Coresidence.thy ===== *)
theory Coresidence
  imports Failure
begin

text \<open>
  The dependency facts one observation witnesses: which two versions of a library one resolution held
  (\<open>src/internal/serverstore/coresidence.go\<close>) and which package pulled which
  (\<open>src/internal/serverstore/edges.go\<close>).  A pair is unordered and stored with the lower version first;
  the readers re-order rows written under an older rule and fold the two spellings of one pair.
\<close>

section \<open>Pairs of versions\<close>

record VersionCoresidence =
  vcLower :: string
  vcHigher :: string
  vcProjects :: int
  vcFailing :: int

definition orderVersionPair :: "string \<Rightarrow> string \<Rightarrow> string \<times> string" where
  "orderVersionPair a b =
     (let c = CompareVersions a b in if 0 < c \<or> c = 0 \<and> b < a then (b, a) else (a, b))"

definition pair_of :: "string \<times> string \<Rightarrow> VersionCoresidence" where
  "pair_of lohi = \<lparr>vcLower = fst lohi, vcHigher = snd lohi, vcProjects = 0, vcFailing = 0\<rparr>"

definition pair_less :: "VersionCoresidence \<Rightarrow> VersionCoresidence \<Rightarrow> bool" where
  "pair_less x y = (if vcLower x \<noteq> vcLower y then vcLower x < vcLower y else vcHigher x < vcHigher y)"

definition see_pair ::
  "string \<Rightarrow> (VersionCoresidence, bool) gomap \<Rightarrow> string \<Rightarrow> (VersionCoresidence, bool) gomap" where
  "see_pair version seen raw =
     (let other = TrimSpace raw
      in if other = [] \<or> other = version then seen
         else AList.update (pair_of (orderVersionPair version other)) True seen)"

definition coresidencePairs :: "ObservationBatch \<Rightarrow> VersionCoresidence list" where
  "coresidencePairs b = (case ParsePURL (obPackage b) of
     Inl _ \<Rightarrow> []
   | Inr p \<Rightarrow>
       if pVersion p = [] \<or> obSymbol b \<noteq> [] then []
       else sort_by pair_less (map fst (foldl (see_pair (pVersion p)) [] (obCoresident b))))"

definition batchNamesAnAttributedFailure :: "ObservationBatch \<Rightarrow> bool" where
  "batchNamesAnAttributedFailure b \<longleftrightarrow> obResult b = ''FAIL'' \<and>
     (obEvidenceQuality b = ''complete'' \<or> obEvidenceQuality b = ''partial'' \<or> TrimSpace (obErrorCode b) \<noteq> [])"

definition fold_pair ::
  "(string \<times> string, VersionCoresidence) gomap \<Rightarrow> VersionCoresidence \<Rightarrow>
     (string \<times> string, VersionCoresidence) gomap" where
  "fold_pair merged r =
     (let k = orderVersionPair (vcLower r) (vcHigher r); m = get (pair_of ([], [])) merged k
      in AList.update k \<lparr>vcLower = fst k, vcHigher = snd k, vcProjects = wrap64 (vcProjects m + vcProjects r),
           vcFailing = wrap64 (vcFailing m + vcFailing r)\<rparr> merged)"

definition display_less :: "VersionCoresidence \<Rightarrow> VersionCoresidence \<Rightarrow> bool" where
  "display_less x y =
     (if vcFailing x \<noteq> vcFailing y then vcFailing y < vcFailing x
      else if vcProjects x \<noteq> vcProjects y then vcProjects y < vcProjects x
      else if vcLower x \<noteq> vcLower y then vcLower x < vcLower y
      else vcHigher x < vcHigher y)"

definition canonicalCoresidencePairs :: "VersionCoresidence list \<Rightarrow> VersionCoresidence list" where
  "canonicalCoresidencePairs rows = sort_by display_less (map snd (foldl fold_pair [] rows))"

section \<open>Edges\<close>

record DependencyEdge =
  deParentName :: string
  deParentVersion :: string
  deChildName :: string
  deChildVersion :: string
  deProjects :: int
  deSameReceipt :: bool
  deOutcome :: string

fun edge_loop :: "PURL \<Rightarrow> string list \<Rightarrow> (PURL \<times> PURL) list" where
  "edge_loop parent [] = []"
| "edge_loop parent (raw # raws) = (case ParsePURL raw of
     Inl _ \<Rightarrow> edge_loop parent raws
   | Inr child \<Rightarrow>
       if pVersion child = [] then edge_loop parent raws
       else if pEcosystem child \<noteq> pEcosystem parent then edge_loop parent raws
       else (parent, child) # edge_loop parent raws)"

definition edgeClaims :: "ObservationBatch \<Rightarrow> (PURL \<times> PURL) list" where
  "edgeClaims b = (case ParsePURL (obPackage b) of
     Inl _ \<Rightarrow> []
   | Inr parent \<Rightarrow> if pVersion parent = [] \<or> obSymbol b \<noteq> [] then [] else edge_loop parent (obDependsOn b))"

definition dependants_less :: "DependencyEdge \<Rightarrow> DependencyEdge \<Rightarrow> bool" where
  "dependants_less x y =
     (if deChildVersion x \<noteq> deChildVersion y then deChildVersion x < deChildVersion y
      else if deProjects x \<noteq> deProjects y then deProjects y < deProjects x
      else if deParentName x \<noteq> deParentName y then deParentName x < deParentName y
      else deParentVersion x < deParentVersion y)"

definition sortDependencyEdges :: "DependencyEdge list \<Rightarrow> DependencyEdge list" where
  "sortDependencyEdges out = sort_by dependants_less out"

definition shipped_less :: "DependencyEdge \<Rightarrow> DependencyEdge \<Rightarrow> bool" where
  "shipped_less x y =
     (if deParentVersion x \<noteq> deParentVersion y then 0 < CompareVersions (deParentVersion x) (deParentVersion y)
      else if deProjects x \<noteq> deProjects y then deProjects y < deProjects x
      else if deChildName x \<noteq> deChildName y then deChildName x < deChildName y
      else deChildVersion x < deChildVersion y)"

definition sortShippedWith :: "DependencyEdge list \<Rightarrow> DependencyEdge list" where
  "sortShippedWith out = sort_by shipped_less out"

section \<open>The order of a pair\<close>

lemma orderVersionPair_commute: "orderVersionPair a b = orderVersionPair b a"
  using version_order.swap [of b a] version_order.swap [of a b]
  by (cases a b rule: linorder_cases) (auto simp: orderVersionPair_def Let_def)

lemma orderVersionPair_cases: "orderVersionPair a b = (a, b) \<or> orderVersionPair a b = (b, a)"
  by (auto simp: orderVersionPair_def Let_def)

lemma orderVersionPair_idem [simp]:
  "orderVersionPair (fst (orderVersionPair a b)) (snd (orderVersionPair a b)) = orderVersionPair a b"
  using orderVersionPair_cases [of a b] orderVersionPair_commute [of a b] by auto

lemma orderVersionPair_sorted: "CompareVersions (fst (orderVersionPair a b)) (snd (orderVersionPair a b)) \<le> 0"
  using version_order.swap [of a b] by (auto simp: orderVersionPair_def Let_def)

lemma inj_pair_of: "pair_of x = pair_of y \<longleftrightarrow> x = y"
  by (auto simp: pair_of_def prod_eq_iff)

section \<open>What a batch witnesses\<close>

lemma see_pairs:
  "wf_map m \<Longrightarrow> wf_map (foldl (see_pair v) m raws) \<and>
   fst ` set (foldl (see_pair v) m raws) =
     fst ` set m \<union> (\<lambda>raw. pair_of (orderVersionPair v (TrimSpace raw))) ` {raw \<in> set raws. TrimSpace raw \<notin> {[], v}}"
proof (induction raws arbitrary: m)
  case (Cons raw raws)
  have "wf_map (see_pair v m raw)" "fst ` set (see_pair v m raw) =
      fst ` set m \<union> (if TrimSpace raw \<in> {[], v} then {} else {pair_of (orderVersionPair v (TrimSpace raw))})"
    using Cons.prems by (auto simp: see_pair_def Let_def)
  with Cons.IH [of "see_pair v m raw"] show ?case by auto
qed simp

text \<open>A resolution's pairs are reported once each, lower version first by version precedence, and a pair
  is one fact whichever of its two packages reports it: for packages \<open>v\<close> and \<open>w\<close> of one library, the batch of
  \<open>v\<close> that lists \<open>w\<close> and the batch of \<open>w\<close> that lists \<open>v\<close> witness the same row.\<close>

theorem coresident_pair_is_one_fact:
  assumes "ParsePURL (obPackage b) = Inr p" "pVersion p = v" "ParsePURL (obPackage b') = Inr p'" "pVersion p' = w"
    and "v \<noteq> []" "w \<noteq> []" "v \<noteq> w" "obSymbol b = []" "obSymbol b' = []"
    and "w \<in> TrimSpace ` set (obCoresident b)" "v \<in> TrimSpace ` set (obCoresident b')"
  shows "\<exists>row. row \<in> set (coresidencePairs b) \<and> row \<in> set (coresidencePairs b') \<and>
      {vcLower row, vcHigher row} = {v, w} \<and> CompareVersions (vcLower row) (vcHigher row) \<le> 0 \<and>
      distinct (coresidencePairs b)"
proof -
  define row where "row = pair_of (orderVersionPair v w)"
  have pairs: "set (coresidencePairs b) = (\<lambda>raw. pair_of (orderVersionPair v (TrimSpace raw))) `
      {raw \<in> set (obCoresident b). TrimSpace raw \<notin> {[], v}}"
    "set (coresidencePairs b') = (\<lambda>raw. pair_of (orderVersionPair w (TrimSpace raw))) `
      {raw \<in> set (obCoresident b'). TrimSpace raw \<notin> {[], w}}"
    using assms see_pairs [where v = v and m = "[]" and raws = "obCoresident b"] see_pairs [where v = w and m = "[]" and raws = "obCoresident b'"]
    by (simp_all add: coresidencePairs_def)
  have "row \<in> set (coresidencePairs b)" using assms unfolding pairs row_def by fastforce
  moreover have "row \<in> set (coresidencePairs b')"
    using assms unfolding pairs row_def orderVersionPair_commute [of v w] by fastforce
  moreover have "{vcLower row, vcHigher row} = {v, w}"
    using orderVersionPair_cases [of v w] by (auto simp: row_def pair_of_def)
  moreover have "CompareVersions (vcLower row) (vcHigher row) \<le> 0"
    using version_order.swap [of v w] by (auto simp: row_def pair_of_def orderVersionPair_def Let_def)
  moreover have "distinct (coresidencePairs b)"
    using assms see_pairs [where v = v and m = "[]" and raws = "obCoresident b"] by (simp add: coresidencePairs_def wf_map_def)
  ultimately show ?thesis by blast
qed

section \<open>Healing at read time\<close>

definition canonical_of :: "VersionCoresidence \<Rightarrow> string \<times> string" where
  "canonical_of r = orderVersionPair (vcLower r) (vcHigher r)"

definition folded :: "(string \<times> string, VersionCoresidence) gomap \<Rightarrow> bool" where
  "folded m \<longleftrightarrow> wf_map m \<and> (\<forall>(k, r) \<in> set m. (vcLower r, vcHigher r) = k \<and> canonical_of r = k \<and>
     in_int64 (vcProjects r) \<and> in_int64 (vcFailing r))"

lemma set_update_subset: "set (AList.update k v m) \<subseteq> insert (k, v) (set m)"
  by (induction m) auto

lemma folded_step: "folded m \<Longrightarrow> folded (fold_pair m r)"
proof -
  assume m: "folded m"
  define row where "row = (let k = canonical_of r; old = get (pair_of ([], [])) m k in
    \<lparr>vcLower = fst k, vcHigher = snd k, vcProjects = wrap64 (vcProjects old + vcProjects r),
     vcFailing = wrap64 (vcFailing old + vcFailing r)\<rparr>)"
  have step: "fold_pair m r = AList.update (canonical_of r) row m"
    by (simp add: fold_pair_def row_def canonical_of_def Let_def)
  have "(vcLower row, vcHigher row) = canonical_of r" "in_int64 (vcProjects row)" "in_int64 (vcFailing row)"
    by (simp_all add: row_def Let_def)
  moreover have "canonical_of row = canonical_of r" by (simp add: row_def Let_def canonical_of_def)
  ultimately have row: "case (canonical_of r, row) of (k, r) \<Rightarrow> (vcLower r, vcHigher r) = k \<and> canonical_of r = k \<and>
      in_int64 (vcProjects r) \<and> in_int64 (vcFailing r)"
    by simp
  have "wf_map (AList.update (canonical_of r) row m)" using m by (simp add: folded_def)
  then show ?thesis
    using m row set_update_subset [of "canonical_of r" row m] unfolding step folded_def by blast
qed

lemma fold_pairs:
  "folded m \<Longrightarrow> folded (foldl fold_pair m rows) \<and>
   fst ` set (foldl fold_pair m rows) = fst ` set m \<union> canonical_of ` set rows"
proof (induction rows arbitrary: m)
  case (Cons r rows)
  have "fst ` set (fold_pair m r) = insert (canonical_of r) (fst ` set m)"
    by (simp add: fold_pair_def Let_def canonical_of_def)
  with Cons.IH [OF folded_step [OF Cons.prems]] show ?case by simp
qed simp

definition tally :: "(VersionCoresidence \<Rightarrow> int) \<Rightarrow> VersionCoresidence list \<Rightarrow> string \<times> string \<Rightarrow> int" where
  "tally f rows k = (\<Sum>r \<leftarrow> filter (\<lambda>r. canonical_of r = k) rows. f r)"

lemma fold_pairs_tally:
  assumes f: "f = vcProjects \<or> f = vcFailing"
  shows "wrap64 (f (get (pair_of ([], [])) (foldl fold_pair m rows) k)) =
     wrap64 (f (get (pair_of ([], [])) m k) + tally f rows k)"
proof (induction rows arbitrary: m)
  case Nil
  then show ?case by (simp add: tally_def)
next
  case (Cons r rows)
  have "f (get (pair_of ([], [])) (fold_pair m r) k) =
      (if canonical_of r = k then wrap64 (f (get (pair_of ([], [])) m k) + f r) else f (get (pair_of ([], [])) m k))"
    using f by (auto simp: fold_pair_def Let_def canonical_of_def)
  then show ?case using Cons.IH [of "fold_pair m r"]
    by (auto simp: tally_def wrap64_add_wrap64 [of "f (get (pair_of ([], [])) m k) + f r"] add.assoc)
qed

lemma pair_fields: "vcProjects (pair_of k) = 0" "vcFailing (pair_of k) = 0"
  by (simp_all add: pair_of_def)

text \<open>Reading heals the stored pairs: every unordered pair of versions is shown once, lower version first
  by precedence, with the project-days and the failing project-days of all rows that spell it, and no pair is
  lost or made up.\<close>

theorem stored_pairs_are_healed:
  "let out = canonicalCoresidencePairs rows; name = (\<lambda>r. (vcLower r, vcHigher r)) in
     distinct (map name out) \<and> name ` set out = (\<lambda>r. orderVersionPair (vcLower r) (vcHigher r)) ` set rows \<and>
     (\<forall>r \<in> set out. CompareVersions (vcLower r) (vcHigher r) \<le> 0 \<and>
        vcProjects r = wrap64 (\<Sum>x \<leftarrow> filter (\<lambda>x. orderVersionPair (vcLower x) (vcHigher x) = name r) rows. vcProjects x) \<and>
        vcFailing r = wrap64 (\<Sum>x \<leftarrow> filter (\<lambda>x. orderVersionPair (vcLower x) (vcHigher x) = name r) rows. vcFailing x))"
proof -
  let ?name = "\<lambda>r. (vcLower r, vcHigher r)"
  define m where "m = foldl fold_pair [] rows"
  have m: "folded m" "fst ` set m = canonical_of ` set rows"
    using fold_pairs [of "[]" rows] by (simp_all add: m_def folded_def)
  have out: "set (canonicalCoresidencePairs rows) = snd ` set m" by (simp add: canonicalCoresidencePairs_def m_def)
  have names: "map ?name (map snd m) = map fst m" using m(1) by (auto simp: folded_def)
  then have "image_mset ?name (image_mset snd (mset m)) = mset (map fst m)" by (metis mset_map)
  then have "mset (map ?name (canonicalCoresidencePairs rows)) = mset (map fst m)"
    by (simp add: canonicalCoresidencePairs_def m_def)
  moreover have "distinct (map fst m)" using m(1) by (simp only: folded_def wf_map_def)
  ultimately have "distinct (map ?name (canonicalCoresidencePairs rows))"
    by (rule iffD2 [OF mset_eq_imp_distinct_iff])
  moreover have "?name ` set (canonicalCoresidencePairs rows) = canonical_of ` set rows"
    using names m(2) out by (metis list.set_map)
  moreover have "CompareVersions (vcLower r) (vcHigher r) \<le> 0 \<and> vcProjects r = wrap64 (tally vcProjects rows (?name r)) \<and>
      vcFailing r = wrap64 (tally vcFailing rows (?name r))" if r: "r \<in> set (canonicalCoresidencePairs rows)" for r
  proof -
    obtain k where k: "(k, r) \<in> set m" using r out by auto
    then have kr: "?name r = k" "canonical_of r = k" "in_int64 (vcProjects r)" "in_int64 (vcFailing r)"
      using m(1) by (auto simp: folded_def)
    have "get (pair_of ([], [])) m k = r"
      using k m(1) by (simp add: get_def folded_def wf_map_def map_of_is_SomeI)
    then have "wrap64 (vcProjects r) = wrap64 (tally vcProjects rows k)"
      "wrap64 (vcFailing r) = wrap64 (tally vcFailing rows k)"
      using fold_pairs_tally [of _ "[]" rows k] by (simp_all add: m_def pair_fields)
    moreover have "CompareVersions (vcLower r) (vcHigher r) \<le> 0"
      using orderVersionPair_sorted [of "vcLower r" "vcHigher r"] kr(1,2) by (auto simp: canonical_of_def)
    ultimately show ?thesis unfolding kr(1) using kr(3,4) by simp
  qed
  ultimately show ?thesis unfolding Let_def tally_def canonical_of_def by blast
qed

definition lexicographic_rows :: "VersionCoresidence list" where
  "lexicographic_rows = [\<lparr>vcLower = ''10.0.0'', vcHigher = ''9.0.0'', vcProjects = 3, vcFailing = 1\<rparr>,
     \<lparr>vcLower = ''9.0.0'', vcHigher = ''10.0.0'', vcProjects = 2, vcFailing = 0\<rparr>]"

theorem stored_pairs_are_healed_witness:
  "canonicalCoresidencePairs lexicographic_rows =
     [\<lparr>vcLower = ''9.0.0'', vcHigher = ''10.0.0'', vcProjects = 5, vcFailing = 1\<rparr>] \<and>
   distinct (map (\<lambda>r. (vcLower r, vcHigher r)) (canonicalCoresidencePairs lexicographic_rows))"
proof
  show "canonicalCoresidencePairs lexicographic_rows =
     [\<lparr>vcLower = ''9.0.0'', vcHigher = ''10.0.0'', vcProjects = 5, vcFailing = 1\<rparr>]" by code_simp
  show "distinct (map (\<lambda>r. (vcLower r, vcHigher r)) (canonicalCoresidencePairs lexicographic_rows))"
    using stored_pairs_are_healed [of lexicographic_rows] unfolding Let_def by blast
qed

theorem coresident_pair_is_one_fact_witness:
  "\<exists>row. row \<in> set (coresidencePairs (example_batch\<lparr>obPackage := ''pkg:npm/ws@7.5.0'', obCoresident := [''8.19.0'']\<rparr>)) \<and>
     row \<in> set (coresidencePairs (example_batch\<lparr>obPackage := ''pkg:npm/ws@8.19.0'', obCoresident := [''7.5.0'']\<rparr>))"
proof -
  have "ParsePURL ''pkg:npm/ws@7.5.0'' = Inr \<lparr>pEcosystem = ''npm'', pName = ''ws'', pVersion = ''7.5.0''\<rparr>"
    "ParsePURL ''pkg:npm/ws@8.19.0'' = Inr \<lparr>pEcosystem = ''npm'', pName = ''ws'', pVersion = ''8.19.0''\<rparr>"
    "TrimSpace ''7.5.0'' = ''7.5.0''" "TrimSpace ''8.19.0'' = ''8.19.0''"
    by code_simp+
  moreover have sym: "obSymbol example_batch = []" by (simp add: example_batch_def)
  ultimately show ?thesis
    using coresident_pair_is_one_fact
      [of "example_batch\<lparr>obPackage := ''pkg:npm/ws@7.5.0'', obCoresident := [''8.19.0'']\<rparr>"
          "\<lparr>pEcosystem = ''npm'', pName = ''ws'', pVersion = ''7.5.0''\<rparr>" "''7.5.0''"
          "example_batch\<lparr>obPackage := ''pkg:npm/ws@8.19.0'', obCoresident := [''7.5.0'']\<rparr>"
          "\<lparr>pEcosystem = ''npm'', pName = ''ws'', pVersion = ''8.19.0''\<rparr>" "''8.19.0''"]
    by (auto simp: sym)
qed

end
