(* ===== verification/Ingest.thy ===== *)
theory Ingest
  imports Merge Validate Coresidence
begin

text \<open>
  The ingest of observation batches by the two stores: \<open>PG.IngestBatches\<close>/\<open>ingestOne\<close> of
  \<open>src/internal/serverstore/pg.go\<close>, one transaction of SQL statements on the evidence tables, and
  \<open>Fake.IngestBatches\<close>/\<open>ingestOneLocked\<close> of \<open>src/internal/serverstore/fake.go\<close>, the in-memory store the
  tests run on, each with its retention (\<open>PurgeDedupOlderThan\<close>).

  A table is an association list from its primary key to the remaining columns; an upsert changes one row.
  The surrogate \<open>evidence_agg.id\<close> is its row's unique key \<^typ>\<open>aggKey\<close>.  \<open>ORDER BY\<close> is bytewise, JSON
  columns hold the encoded value, \<open>now\<close> is the transaction's instant.  A column that overflows its SQL type
  is an error of the statement; every other failure of the database is part of the environment of a
  transaction, which then leaves the tables as they were.
\<close>

section \<open>PostgreSQL\<close>

record PackageRow =
  pkEcosystem :: string
  pkName :: string
  pkVersion :: string
  pkMajor :: string
  pkPublicness :: string
  pkCheckedAt :: "nat option"
  pkFirstSeen :: nat
  pkLastSeen :: nat

record evidence_agg =
  agSymbolConfidence :: string
  agEnvJSON :: EnvironmentFingerprint
  agErrorCode :: string
  agDirect :: bool
  agTerminationKind :: string
  agExitCode :: "int option"
  agSignal :: string
  agTimeoutMillis :: int
  agErrorSummary :: string
  agEvidenceQuality :: string
  agOuterCommands :: "string list"
  agOuterStage :: string
  agActualToolchain :: string
  agStageEvidence :: string
  agEvidenceGap :: string
  agObservationCount :: int
  agUniquePeerBuckets :: nat
  agUniqueProjectBuckets :: nat
  agFirstSeen :: nat
  agLastSeen :: nat

record dedupKey =
  dkKind :: string
  dkBucket :: string
  dkAgg :: aggKey
  dkEpoch :: string

record edgeKey =
  ekEcosystem :: string
  ekParentName :: string
  ekParentVersion :: string
  ekChildName :: string
  ekChildVersion :: string

record coresKey =
  coEcosystem :: string
  coName :: string
  coLo :: string
  coHi :: string

record evidence_db =
  dbPackages :: "(string, PackageRow) gomap"
  dbAgg :: "(aggKey, evidence_agg) gomap"
  dbDedup :: "(dedupKey, int) gomap"
  dbResolution :: "((string \<times> string \<times> string) \<times> string \<times> string, nat) gomap"
  dbEdge :: "(edgeKey \<times> string \<times> string, nat) gomap"
  dbCoresidence :: "(coresKey \<times> string \<times> string, bool \<times> nat) gomap"

definition empty_db :: evidence_db where
  "empty_db = \<lparr>dbPackages = [], dbAgg = [], dbDedup = [], dbResolution = [], dbEdge = [], dbCoresidence = []\<rparr>"

datatype ingest_error = IngestPurl purl_error | BigintOutOfRange | IntegerOutOfRange | Unavailable

definition upsert_package :: "nat \<Rightarrow> PURL \<Rightarrow> evidence_db \<Rightarrow> evidence_db" where
  "upsert_package now p db =
     (let purl = PURL_String p
      in db\<lparr>dbPackages := AList.update purl
           (case map_of (dbPackages db) purl of
              Some row \<Rightarrow> row\<lparr>pkLastSeen := now\<rparr>
            | None \<Rightarrow> \<lparr>pkEcosystem = pEcosystem p, pkName = pName p, pkVersion = pVersion p, pkMajor = Major p,
                pkPublicness = ''UNKNOWN'', pkCheckedAt = None, pkFirstSeen = now, pkLastSeen = now\<rparr>)
           (dbPackages db)\<rparr>)"

definition if_blank :: "string \<Rightarrow> string \<Rightarrow> string" where
  "if_blank old new = (if old = [] then new else old)"

definition outer_commands :: "ObservationBatch \<Rightarrow> string list" where
  "outer_commands b = (if obOuterCommand b \<noteq> [] then [obOuterCommand b] else [])"

definition symbol_confidence :: "ObservationBatch \<Rightarrow> string" where
  "symbol_confidence b = (if obSymbolConfidence b = [] then ''UNKNOWN'' else obSymbolConfidence b)"

definition inserted_agg :: "nat \<Rightarrow> ObservationBatch \<Rightarrow> evidence_agg" where
  "inserted_agg now b =
     \<lparr>agSymbolConfidence = symbol_confidence b, agEnvJSON = Normalize (obEnvironment b),
      agErrorCode = obErrorCode b, agDirect = obDirect b, agTerminationKind = obTerminationKind b,
      agExitCode = obExitCode b, agSignal = obSignal b, agTimeoutMillis = obTimeoutMillis b,
      agErrorSummary = obErrorSummary b, agEvidenceQuality = normalizedEvidenceQuality b,
      agOuterCommands = outer_commands b, agOuterStage = obOuterStage b,
      agActualToolchain = obActualToolchain b, agStageEvidence = obStageEvidence b,
      agEvidenceGap = obFailureEvidenceGap b, agObservationCount = 0, agUniquePeerBuckets = 0,
      agUniqueProjectBuckets = 0, agFirstSeen = now, agLastSeen = now\<rparr>"

definition updated_agg :: "nat \<Rightarrow> ObservationBatch \<Rightarrow> evidence_agg \<Rightarrow> evidence_agg" where
  "updated_agg now b r =
     r\<lparr>agLastSeen := now, agSymbolConfidence := symbol_confidence b,
       agErrorCode := if_blank (agErrorCode r) (obErrorCode b),
       agTerminationKind := if_blank (agTerminationKind r) (obTerminationKind b),
       agExitCode := (case agExitCode r of None \<Rightarrow> obExitCode b | Some c \<Rightarrow> Some c),
       agSignal := if_blank (agSignal r) (obSignal b),
       agTimeoutMillis := max (agTimeoutMillis r) (obTimeoutMillis b),
       agErrorSummary := if_blank (agErrorSummary r) (obErrorSummary b),
       agEvidenceQuality := (if agEvidenceQuality r \<in> {[], ''legacy-evidence-incomplete''}
         then normalizedEvidenceQuality b else agEvidenceQuality r),
       agOuterCommands := sorted_list_of_set (set (agOuterCommands r) \<union> set (outer_commands b)),
       agOuterStage := if_blank (agOuterStage r) (obOuterStage b),
       agActualToolchain := if_blank (agActualToolchain r) (obActualToolchain b),
       agStageEvidence := if_blank (agStageEvidence r) (obStageEvidence b),
       agEvidenceGap := if_blank (agEvidenceGap r) (obFailureEvidenceGap b),
       agDirect := (agDirect r \<or> obDirect b)\<rparr>"

definition upsert_agg :: "nat \<Rightarrow> aggKey \<Rightarrow> ObservationBatch \<Rightarrow> evidence_db \<Rightarrow> evidence_db" where
  "upsert_agg now k b db = db\<lparr>dbAgg := AList.update k
     (case map_of (dbAgg db) k of None \<Rightarrow> inserted_agg now b | Some r \<Rightarrow> updated_agg now b r) (dbAgg db)\<rparr>"

definition record_resolution :: "nat \<Rightarrow> ObservationBatch \<Rightarrow> evidence_db \<Rightarrow> evidence_db" where
  "record_resolution now b db =
     (if obProjectBucket b \<noteq> [] \<and> obDependsOnNone b \<and> obSymbol b = [] then
        (case ParsePURL (obPackage b) of
           Inl _ \<Rightarrow> db
         | Inr parent \<Rightarrow>
             if pVersion parent \<noteq> []
             then db\<lparr>dbResolution := AList.update
               ((pEcosystem parent, pName parent, pVersion parent), obProjectBucket b, obEpoch b) now (dbResolution db)\<rparr>
             else db)
      else db)"

definition edge_key :: "PURL \<times> PURL \<Rightarrow> edgeKey" where
  "edge_key pc = \<lparr>ekEcosystem = pEcosystem (fst pc), ekParentName = pName (fst pc), ekParentVersion = pVersion (fst pc),
     ekChildName = pName (snd pc), ekChildVersion = pVersion (snd pc)\<rparr>"

definition record_edges :: "nat \<Rightarrow> ObservationBatch \<Rightarrow> evidence_db \<Rightarrow> evidence_db" where
  "record_edges now b db =
     (if obProjectBucket b \<noteq> []
      then db\<lparr>dbEdge := foldl (\<lambda>t pc. AList.update (edge_key pc, obProjectBucket b, obEpoch b) now t)
             (dbEdge db) (edgeClaims b)\<rparr>
      else db)"

definition cores_key :: "PURL \<Rightarrow> VersionCoresidence \<Rightarrow> coresKey" where
  "cores_key p pair = \<lparr>coEcosystem = pEcosystem p, coName = pName p, coLo = vcLower pair, coHi = vcHigher pair\<rparr>"

definition upsert_pair ::
  "nat \<Rightarrow> bool \<Rightarrow> (coresKey \<times> string \<times> string, bool \<times> nat) gomap \<Rightarrow> coresKey \<times> string \<times> string \<Rightarrow>
     (coresKey \<times> string \<times> string, bool \<times> nat) gomap" where
  "upsert_pair now failed t key =
     AList.update key ((case map_of t key of None \<Rightarrow> failed | Some (failing, _) \<Rightarrow> failing \<or> failed), now) t"

definition record_coresidence :: "nat \<Rightarrow> PURL \<Rightarrow> ObservationBatch \<Rightarrow> evidence_db \<Rightarrow> evidence_db" where
  "record_coresidence now p b db =
     (if obProjectBucket b \<noteq> []
      then db\<lparr>dbCoresidence := foldl (\<lambda>t pair. upsert_pair now (batchNamesAnAttributedFailure b) t
               (cores_key p pair, obProjectBucket b, obEpoch b)) (dbCoresidence db) (coresidencePairs b)\<rparr>
      else db)"

text \<open>\<open>SELECT COALESCE(MAX(c), 0) FROM (SELECT COUNT(DISTINCT bucket) ... GROUP BY epoch)\<close>.\<close>

definition bucket_peak :: "(dedupKey, int) gomap \<Rightarrow> string \<Rightarrow> aggKey \<Rightarrow> nat" where
  "bucket_peak d kind k =
     (let rows = filter (\<lambda>dk. dkAgg dk = k \<and> dkKind dk = kind) (map fst d)
      in Max (insert 0 ((\<lambda>e. card (dkBucket ` set (filter (\<lambda>dk. dkEpoch dk = e) rows))) ` set (map dkEpoch rows))))"

definition dedup_key :: "string \<Rightarrow> string \<Rightarrow> aggKey \<Rightarrow> string \<Rightarrow> dedupKey" where
  "dedup_key kind bucket k epoch = \<lparr>dkKind = kind, dkBucket = bucket, dkAgg = k, dkEpoch = epoch\<rparr>"

definition upsert_dedup :: "int \<Rightarrow> dedupKey \<Rightarrow> (dedupKey, int) gomap \<Rightarrow> (dedupKey, int) gomap" where
  "upsert_dedup incoming dk d =
     AList.update dk (case map_of d dk of None \<Rightarrow> incoming | Some c \<Rightarrow> max c incoming) d"

definition merge_counts :: "nat \<Rightarrow> aggKey \<Rightarrow> ObservationBatch \<Rightarrow> evidence_db \<Rightarrow> ingest_error + evidence_db" where
  "merge_counts now k b db =
     (let incoming = obObservationCount b;
          prev = get 0 (dbDedup db) (dedup_key ''peer'' (obAnonID b) k (obEpoch b));
          delta = deltaContribution prev incoming;
          d = upsert_dedup incoming (dedup_key ''project'' (obProjectBucket b) k (obEpoch b))
                (upsert_dedup incoming (dedup_key ''peer'' (obAnonID b) k (obEpoch b)) (dbDedup db))
      in case map_of (dbAgg db) k of
           None \<Rightarrow> Inr (db\<lparr>dbDedup := d\<rparr>)
         | Some r \<Rightarrow>
             if \<not> in_int64 (agObservationCount r + delta) then Inl BigintOutOfRange
             else if 2 ^ 31 \<le> int (bucket_peak d ''peer'' k) \<or> 2 ^ 31 \<le> int (bucket_peak d ''project'' k) then Inl IntegerOutOfRange
             else Inr (db\<lparr>dbDedup := d, dbAgg := AList.update k
                    (r\<lparr>agObservationCount := agObservationCount r + delta,
                       agUniquePeerBuckets := bucket_peak d ''peer'' k,
                       agUniqueProjectBuckets := bucket_peak d ''project'' k, agLastSeen := now\<rparr>) (dbAgg db)\<rparr>))"

definition ingestOne ::
  "(EnvironmentFingerprint \<Rightarrow> string) \<Rightarrow> nat \<Rightarrow> evidence_db \<Rightarrow> ObservationBatch \<Rightarrow> ingest_error + evidence_db" where
  "ingestOne envHash now db b = (case ParsePURL (obPackage b) of
     Inl err \<Rightarrow> Inl (IngestPurl err)
   | Inr purl \<Rightarrow>
       (let k = \<lparr>akPURL = PURL_String purl, akSymbol = obSymbol b, akEnvHash = envHash (Normalize (obEnvironment b)),
                 akStage = obStage b, akResult = obResult b, akErrorFP = obErrorFingerprint b\<rparr>
        in merge_counts now k b (record_coresidence now purl b (record_edges now b (record_resolution now b
             (upsert_agg now k b (upsert_package now purl db)))))))"

text \<open>
  The request: the loop inside one transaction.  \<open>fails i\<close> says that a statement of batch \<open>i\<close> fails for a
  reason of the database, \<open>commit_fails\<close> that the commit does; then the tables stay as they were and the
  counts read so far are returned with the error.
\<close>

fun ingest_loop ::
  "(string \<Rightarrow> string) \<Rightarrow> (string \<Rightarrow> string \<Rightarrow> string) \<Rightarrow> (EnvironmentFingerprint \<Rightarrow> string) \<Rightarrow> nat \<Rightarrow> (nat \<Rightarrow> bool) \<Rightarrow>
     nat \<Rightarrow> evidence_db \<Rightarrow> ObservationBatch list \<Rightarrow> nat \<times> (nat \<times> batch_error) list \<times> (ingest_error + evidence_db)" where
  "ingest_loop sha summarize envHash now fails i db [] = (0, [], Inr db)"
| "ingest_loop sha summarize envHash now fails i db (b0 # bs) =
     (let b = CanonicalizeObservationFailure sha b0
      in case ValidateBatch sha summarize b of
           Some err \<Rightarrow> (case ingest_loop sha summarize envHash now fails (i + 1) db bs of
             (accepted, rejected, out) \<Rightarrow> (accepted, (i, err) # rejected, out))
         | None \<Rightarrow>
             if fails i then (0, [], Inl Unavailable)
             else case ingestOne envHash now db b of
               Inl err \<Rightarrow> (0, [], Inl err)
             | Inr db' \<Rightarrow> (case ingest_loop sha summarize envHash now fails (i + 1) db' bs of
                 (accepted, rejected, out) \<Rightarrow> (accepted + 1, rejected, out)))"

definition PG_IngestBatches ::
  "(string \<Rightarrow> string) \<Rightarrow> (string \<Rightarrow> string \<Rightarrow> string) \<Rightarrow> (EnvironmentFingerprint \<Rightarrow> string) \<Rightarrow> nat \<Rightarrow> (nat \<Rightarrow> bool) \<Rightarrow>
     bool \<Rightarrow> evidence_db \<Rightarrow> ObservationBatch list \<Rightarrow> evidence_db \<times> nat \<times> (nat \<times> batch_error) list \<times> ingest_error option" where
  "PG_IngestBatches sha summarize envHash now fails commit_fails db batches =
     (case ingest_loop sha summarize envHash now fails 0 db batches of
        (accepted, rejected, Inl err) \<Rightarrow> (db, accepted, rejected, Some err)
      | (accepted, rejected, Inr db') \<Rightarrow>
          if commit_fails then (db, accepted, rejected, Some Unavailable)
          else (db', accepted, rejected, None))"

definition PG_PurgeDedupOlderThan :: "string \<Rightarrow> evidence_db \<Rightarrow> evidence_db \<times> nat" where
  "PG_PurgeDedupOlderThan cutoff db =
     (db\<lparr>dbDedup := filter (\<lambda>(dk, _). \<not> dkEpoch dk < cutoff) (dbDedup db)\<rparr>,
      length (filter (\<lambda>(dk, _). dkEpoch dk < cutoff) (dbDedup db)))"

section \<open>The in-memory store\<close>

record fakeAggMeta =
  fmSymbolConfidence :: string
  fmEnvJSON :: EnvironmentFingerprint
  fmErrorCode :: string
  fmTerminationKind :: string
  fmExitCode :: "int option"
  fmSignal :: string
  fmTimeoutMillis :: int
  fmErrorSummary :: string
  fmEvidenceQuality :: string
  fmOuterCommands :: "(string, bool) gomap"
  fmOuterStage :: string
  fmActualToolchain :: string
  fmStageEvidence :: string
  fmEvidenceGap :: string
  fmDirect :: bool
  fmFirstSeen :: nat
  fmLastSeen :: nat

record Fake =
  fkMerge :: mergeState
  fkAggMeta :: "(aggKey, fakeAggMeta) gomap"
  fkCoresidence :: "(coresKey, (string, bool) gomap) gomap"
  fkResolvedNone :: "(string \<times> string \<times> string, bool) gomap"
  fkEdges :: "(edgeKey, (string, bool) gomap) gomap"
  fkPackages :: "(string, PackageRow) gomap"
  fkLastFarmIngestAt :: nat

definition new_fake :: Fake where
  "new_fake = \<lparr>fkMerge = newMergeState, fkAggMeta = [], fkCoresidence = [], fkResolvedNone = [], fkEdges = [],
     fkPackages = [], fkLastFarmIngestAt = 0\<rparr>"

definition new_meta :: "nat \<Rightarrow> ObservationBatch \<Rightarrow> fakeAggMeta" where
  "new_meta now b =
     \<lparr>fmSymbolConfidence = symbol_confidence b, fmEnvJSON = Normalize (obEnvironment b), fmErrorCode = [],
      fmTerminationKind = [], fmExitCode = None, fmSignal = [], fmTimeoutMillis = 0, fmErrorSummary = [],
      fmEvidenceQuality = [], fmOuterCommands = [], fmOuterStage = [], fmActualToolchain = [],
      fmStageEvidence = [], fmEvidenceGap = [], fmDirect = False, fmFirstSeen = now, fmLastSeen = 0\<rparr>"

definition fill_termination :: "ObservationBatch \<Rightarrow> fakeAggMeta \<Rightarrow> fakeAggMeta" where
  "fill_termination b m =
     (if fmTerminationKind m = []
      then m\<lparr>fmTerminationKind := obTerminationKind b, fmExitCode := obExitCode b, fmSignal := obSignal b,
             fmTimeoutMillis := obTimeoutMillis b\<rparr>
      else m)"

definition fill_lineage :: "ObservationBatch \<Rightarrow> fakeAggMeta \<Rightarrow> fakeAggMeta" where
  "fill_lineage b m =
     (if fmOuterStage m = []
      then m\<lparr>fmOuterStage := obOuterStage b, fmActualToolchain := obActualToolchain b,
             fmStageEvidence := obStageEvidence b, fmEvidenceGap := obFailureEvidenceGap b\<rparr>
      else m)"

definition fill_meta :: "nat \<Rightarrow> ObservationBatch \<Rightarrow> fakeAggMeta \<Rightarrow> fakeAggMeta" where
  "fill_meta now b m0 =
     (let m1 = m0\<lparr>fmDirect := (fmDirect m0 \<or> obDirect b)\<rparr>;
          m2 = m1\<lparr>fmErrorCode := if_blank (fmErrorCode m1) (obErrorCode b)\<rparr>;
          m3 = fill_termination b m2;
          m4 = m3\<lparr>fmErrorSummary := if_blank (fmErrorSummary m3) (obErrorSummary b)\<rparr>;
          m5 = m4\<lparr>fmEvidenceQuality := if_blank (fmEvidenceQuality m4) (normalizedEvidenceQuality b)\<rparr>;
          m6 = (if obOuterCommand b \<noteq> []
                then m5\<lparr>fmOuterCommands := AList.update (obOuterCommand b) True (fmOuterCommands m5)\<rparr> else m5)
      in (fill_lineage b m6)\<lparr>fmLastSeen := now\<rparr>)"

definition project_day :: "ObservationBatch \<Rightarrow> string" where
  "project_day b = obProjectBucket b @ [CHR 0x1F] @ obEpoch b"

definition fake_package :: "nat \<Rightarrow> PURL \<Rightarrow> Fake \<Rightarrow> Fake" where
  "fake_package now p f =
     (let canonical = PURL_String p
      in f\<lparr>fkPackages := AList.update canonical
           (case map_of (fkPackages f) canonical of
              Some row \<Rightarrow> row\<lparr>pkLastSeen := now\<rparr>
            | None \<Rightarrow> \<lparr>pkEcosystem = pEcosystem p, pkName = pName p, pkVersion = pVersion p, pkMajor = Major p,
                pkPublicness = ''UNKNOWN'', pkCheckedAt = None, pkFirstSeen = now, pkLastSeen = now\<rparr>)
           (fkPackages f)\<rparr>)"

definition fake_coresidence :: "ObservationBatch \<Rightarrow> Fake \<Rightarrow> Fake" where
  "fake_coresidence b f = (case ParsePURL (obPackage b) of
     Inl _ \<Rightarrow> f
   | Inr p \<Rightarrow>
       if obProjectBucket b \<noteq> []
       then f\<lparr>fkCoresidence := foldl (\<lambda>t pair.
              let ck = cores_key p pair; days = get [] t ck
              in AList.update ck (AList.update (project_day b)
                   (get False days (project_day b) \<or> batchNamesAnAttributedFailure b) days) t)
            (fkCoresidence f) (coresidencePairs b)\<rparr>
       else f)"

definition fake_resolution :: "ObservationBatch \<Rightarrow> Fake \<Rightarrow> Fake" where
  "fake_resolution b f =
     (if obProjectBucket b \<noteq> [] \<and> obDependsOnNone b \<and> obSymbol b = [] then
        (case ParsePURL (obPackage b) of
           Inl _ \<Rightarrow> f
         | Inr p \<Rightarrow>
             if pVersion p \<noteq> []
             then f\<lparr>fkResolvedNone := AList.update (pEcosystem p, pName p, pVersion p) True (fkResolvedNone f)\<rparr>
             else f)
      else f)"

definition fake_edges :: "ObservationBatch \<Rightarrow> Fake \<Rightarrow> Fake" where
  "fake_edges b f =
     (if obProjectBucket b \<noteq> []
      then f\<lparr>fkEdges := foldl (\<lambda>t pc.
             AList.update (edge_key pc) (AList.update (project_day b) True (get [] t (edge_key pc))) t)
           (fkEdges f) (edgeClaims b)\<rparr>
      else f)"

definition ingestOneLocked :: "(EnvironmentFingerprint \<Rightarrow> string) \<Rightarrow> nat \<Rightarrow> Fake \<Rightarrow> ObservationBatch \<Rightarrow> Fake" where
  "ingestOneLocked envHash now f b =
     (let purl = (case ParsePURL (obPackage b) of Inl _ \<Rightarrow> \<lparr>pEcosystem = [], pName = [], pVersion = []\<rparr> | Inr p \<Rightarrow> p);
          f1 = (if fkLastFarmIngestAt f < now then f\<lparr>fkLastFarmIngestAt := now\<rparr> else f);
          f2 = fake_package now purl f1;
          k = aggKeyOf envHash b;
          meta = (case map_of (fkAggMeta f2) k of None \<Rightarrow> new_meta now b | Some m \<Rightarrow> m);
          f3 = f2\<lparr>fkAggMeta := AList.update k (fill_meta now b meta) (fkAggMeta f2)\<rparr>;
          f4 = fake_edges b (fake_resolution b (fake_coresidence b f3))
      in f4\<lparr>fkMerge := fst (merge_apply envHash (fkMerge f4) b)\<rparr>)"

fun Fake_IngestBatches ::
  "(string \<Rightarrow> string) \<Rightarrow> (string \<Rightarrow> string \<Rightarrow> string) \<Rightarrow> (EnvironmentFingerprint \<Rightarrow> string) \<Rightarrow> nat \<Rightarrow>
     nat \<Rightarrow> Fake \<Rightarrow> ObservationBatch list \<Rightarrow> Fake \<times> nat \<times> (nat \<times> batch_error) list" where
  "Fake_IngestBatches sha summarize envHash now i f [] = (f, 0, [])"
| "Fake_IngestBatches sha summarize envHash now i f (b0 # bs) =
     (let b = CanonicalizeObservationFailure sha b0
      in case ValidateBatch sha summarize b of
           Some err \<Rightarrow> (case Fake_IngestBatches sha summarize envHash now (i + 1) f bs of
             (f', accepted, rejected) \<Rightarrow> (f', accepted, (i, err) # rejected))
         | None \<Rightarrow> (case Fake_IngestBatches sha summarize envHash now (i + 1) (ingestOneLocked envHash now f b) bs of
             (f', accepted, rejected) \<Rightarrow> (f', accepted + 1, rejected)))"

definition Fake_PurgeDedupOlderThan :: "string \<Rightarrow> Fake \<Rightarrow> Fake \<times> nat" where
  "Fake_PurgeDedupOlderThan cutoff f =
     (let m = fkMerge f
      in (f\<lparr>fkMerge := m\<lparr>mContributions := filter (\<lambda>(ck, _). \<not> ckEpoch ck < cutoff) (mContributions m)\<rparr>\<rparr>,
          length (filter (\<lambda>(ck, _). ckEpoch ck < cutoff) (mContributions m))))"

section \<open>One batch, table by table\<close>

lemma aggKeyOf_parsed:
  "ParsePURL (obPackage b) = Inr p \<Longrightarrow> aggKeyOf envHash b =
     \<lparr>akPURL = PURL_String p, akSymbol = obSymbol b, akEnvHash = envHash (Normalize (obEnvironment b)),
      akStage = obStage b, akResult = obResult b, akErrorFP = obErrorFingerprint b\<rparr>"
  by (simp add: aggKeyOf_def)

definition agg_before :: "nat \<Rightarrow> ObservationBatch \<Rightarrow> evidence_agg option \<Rightarrow> evidence_agg" where
  "agg_before now b r0 = (case r0 of None \<Rightarrow> inserted_agg now b | Some r \<Rightarrow> updated_agg now b r)"

definition dedup_after :: "aggKey \<Rightarrow> ObservationBatch \<Rightarrow> (dedupKey, int) gomap \<Rightarrow> (dedupKey, int) gomap" where
  "dedup_after k b d =
     upsert_dedup (obObservationCount b) (dedup_key ''project'' (obProjectBucket b) k (obEpoch b))
       (upsert_dedup (obObservationCount b) (dedup_key ''peer'' (obAnonID b) k (obEpoch b)) d)"

definition growth :: "aggKey \<Rightarrow> ObservationBatch \<Rightarrow> (dedupKey, int) gomap \<Rightarrow> int" where
  "growth k b d = deltaContribution (get 0 d (dedup_key ''peer'' (obAnonID b) k (obEpoch b))) (obObservationCount b)"

lemma parts_dedup [simp]:
  "dbDedup (record_coresidence now p b db) = dbDedup db" "dbDedup (record_edges now b db) = dbDedup db"
  "dbDedup (record_resolution now b db) = dbDedup db" "dbDedup (upsert_agg now k b db) = dbDedup db"
  "dbDedup (upsert_package now p db) = dbDedup db"
  by (simp_all add: record_coresidence_def record_edges_def record_resolution_def upsert_agg_def
      upsert_package_def Let_def split: sum.splits)

lemma parts_agg [simp]:
  "dbAgg (record_coresidence now p b db) = dbAgg db" "dbAgg (record_edges now b db) = dbAgg db"
  "dbAgg (record_resolution now b db) = dbAgg db" "dbAgg (upsert_package now p db) = dbAgg db"
  "dbAgg (upsert_agg now k b db) = AList.update k (agg_before now b (map_of (dbAgg db) k)) (dbAgg db)"
  by (simp_all add: record_coresidence_def record_edges_def record_resolution_def upsert_agg_def
      upsert_package_def agg_before_def Let_def split: sum.splits)

lemma ingestOne_Inr:
  fixes envHash :: "EnvironmentFingerprint \<Rightarrow> string" and now :: nat
  assumes "ParsePURL (obPackage b) = Inr p"
  defines "k \<equiv> aggKeyOf envHash b"
  defines "r \<equiv> \<lambda>db. agg_before now b (map_of (dbAgg db) k)"
  shows "ingestOne envHash now db b =
     (if \<not> in_int64 (agObservationCount (r db) + growth k b (dbDedup db)) then Inl BigintOutOfRange
      else if 2 ^ 31 \<le> int (bucket_peak (dedup_after k b (dbDedup db)) ''peer'' k) \<or>
              2 ^ 31 \<le> int (bucket_peak (dedup_after k b (dbDedup db)) ''project'' k) then Inl IntegerOutOfRange
      else Inr ((record_coresidence now p b (record_edges now b (record_resolution now b (upsert_package now p db))))
        \<lparr>dbDedup := dedup_after k b (dbDedup db),
         dbAgg := AList.update k ((r db)\<lparr>agObservationCount := agObservationCount (r db) + growth k b (dbDedup db),
           agUniquePeerBuckets := bucket_peak (dedup_after k b (dbDedup db)) ''peer'' k,
           agUniqueProjectBuckets := bucket_peak (dedup_after k b (dbDedup db)) ''project'' k,
           agLastSeen := now\<rparr>) (dbAgg db)\<rparr>))"
proof -
  have k: "k = \<lparr>akPURL = PURL_String p, akSymbol = obSymbol b, akEnvHash = envHash (Normalize (obEnvironment b)),
      akStage = obStage b, akResult = obResult b, akErrorFP = obErrorFingerprint b\<rparr>"
    using assms(1) by (simp add: k_def aggKeyOf_parsed)
  have commute: "record_coresidence now p b (record_edges now b (record_resolution now b (upsert_agg now k b d))) =
      (record_coresidence now p b (record_edges now b (record_resolution now b d)))\<lparr>dbAgg := AList.update k (agg_before now b (map_of (dbAgg d) k)) (dbAgg d)\<rparr>" for d
    by (simp add: record_coresidence_def record_edges_def record_resolution_def upsert_agg_def agg_before_def split: sum.splits)
  show ?thesis
    unfolding ingestOne_def assms(1) sum.case k [symmetric] Let_def merge_counts_def
    unfolding commute
    by (simp add: dedup_after_def growth_def r_def update_conv')
qed


section \<open>The ledger of the tables\<close>

definition stored :: "string \<Rightarrow> evidence_db \<Rightarrow> aggKey \<Rightarrow> string \<Rightarrow> string set" where
  "stored kind db k e = {a. dedup_key kind a k e \<in> fst ` set (dbDedup db)}"

definition agg_column :: "'v \<Rightarrow> (evidence_agg \<Rightarrow> 'v) \<Rightarrow> evidence_db \<Rightarrow> aggKey \<Rightarrow> 'v" where
  "agg_column z f db k = (case map_of (dbAgg db) k of None \<Rightarrow> z | Some r \<Rightarrow> f r)"

definition contributed_row :: "evidence_db \<Rightarrow> aggKey \<Rightarrow> string \<Rightarrow> string \<Rightarrow> int" where
  "contributed_row db k e a = get 0 (dbDedup db) (dedup_key ''peer'' a k e)"

definition PG_ingest :: "(EnvironmentFingerprint \<Rightarrow> string) \<Rightarrow> evidence_db \<Rightarrow> nat \<times> ObservationBatch \<Rightarrow> evidence_db" where
  "PG_ingest envHash db nb = (case ingestOne envHash (fst nb) db (snd nb) of Inl _ \<Rightarrow> db | Inr db' \<Rightarrow> db')"

definition peaks_hold :: "evidence_db \<Rightarrow> bool" where
  "peaks_hold db \<longleftrightarrow>
     (\<forall>k. is_peak (agg_column 0 agUniquePeerBuckets db k) (\<lambda>e. card (stored ''peer'' db k e)) \<and>
          is_peak (agg_column 0 agUniqueProjectBuckets db k) (\<lambda>e. card (stored ''project'' db k e)))"

lemma dedup_key_eq [simp]:
  "dedup_key kind a k e = dedup_key kind' a' k' e' \<longleftrightarrow> kind = kind' \<and> a = a' \<and> k = k' \<and> e = e'"
  by (simp add: dedup_key_def)

lemma upsert_dedup_get:
  "0 \<le> c \<Longrightarrow> get 0 (upsert_dedup c dk d) x = (if x = dk then max (get 0 d dk) c else get 0 d x)"
  by (auto simp: upsert_dedup_def get_def update_conv' max_def split: option.split)

lemma dedup_after_keys:
  "fst ` set (dedup_after k b d) =
     insert (dedup_key ''project'' (obProjectBucket b) k (obEpoch b))
       (insert (dedup_key ''peer'' (obAnonID b) k (obEpoch b)) (fst ` set d))"
  by (simp add: dedup_after_def upsert_dedup_def)

lemma dedup_after_contributed:
  "0 \<le> obObservationCount b \<Longrightarrow> get 0 (dedup_after k0 b d) (dedup_key ''peer'' a k e) =
     (if k = k0 \<and> e = obEpoch b \<and> a = obAnonID b then max (get 0 d (dedup_key ''peer'' a k e)) (obObservationCount b)
      else get 0 d (dedup_key ''peer'' a k e))"
  by (auto simp: dedup_after_def upsert_dedup_get)

lemma bucket_peak_is_peak:
  "is_peak (bucket_peak d kind k) (\<lambda>e. card {a. dedup_key kind a k e \<in> fst ` set d})"
proof -
  define rows where "rows = filter (\<lambda>dk. dkAgg dk = k \<and> dkKind dk = kind) (map fst d)"
  let ?c = "\<lambda>e. card (dkBucket ` set (filter (\<lambda>dk. dkEpoch dk = e) rows))"
  have bucket: "dkBucket ` set (filter (\<lambda>dk. dkEpoch dk = e) rows) = {a. dedup_key kind a k e \<in> fst ` set d}" for e
  proof (intro set_eqI iffI)
    fix a assume "a \<in> dkBucket ` set (filter (\<lambda>dk. dkEpoch dk = e) rows)"
    then obtain dk where "dk \<in> fst ` set d" "dkAgg dk = k" "dkKind dk = kind" "dkEpoch dk = e" "a = dkBucket dk"
      by (auto simp: rows_def)
    moreover from this have "dedup_key kind a k e = dk" by (cases dk) (simp add: dedup_key_def)
    ultimately show "a \<in> {a. dedup_key kind a k e \<in> fst ` set d}" by simp
  next
    fix a assume "a \<in> {a. dedup_key kind a k e \<in> fst ` set d}"
    then have "dedup_key kind a k e \<in> set (filter (\<lambda>dk. dkEpoch dk = e) rows)"
      by (simp add: rows_def dedup_key_def)
    then show "a \<in> dkBucket ` set (filter (\<lambda>dk. dkEpoch dk = e) rows)"
      by (metis dedup_key_def dedupKey.select_convs(2) image_eqI)
  qed
  have peak: "bucket_peak d kind k = Max (insert 0 (?c ` set (map dkEpoch rows)))"
    by (simp only: bucket_peak_def Let_def rows_def)
  have "bucket_peak d kind k \<in> insert 0 (?c ` set (map dkEpoch rows))" unfolding peak by (rule Max_in) auto
  then have hit: "bucket_peak d kind k = 0 \<or> (\<exists>e. ?c e = bucket_peak d kind k)" by auto
  have "?c e \<le> bucket_peak d kind k" for e
  proof (cases "e \<in> set (map dkEpoch rows)")
    case True
    then show ?thesis unfolding peak by (intro Max_ge) auto
  next
    case False
    then have "set (filter (\<lambda>dk. dkEpoch dk = e) rows) = {}" by auto
    then show ?thesis by (simp only: image_empty card.empty)
  qed
  with hit show ?thesis unfolding is_peak_def bucket by blast
qed

lemma finite_stored: "finite (stored kind db k e)"
proof -
  have "stored kind db k e \<subseteq> dkBucket ` fst ` set (dbDedup db)"
    by (force simp: stored_def dedup_key_def)
  then show ?thesis by (rule finite_subset) simp
qed

lemma dedup_after_stored:
  "{a. dedup_key kind a k e \<in> fst ` set (dedup_after k0 b (dbDedup db))} =
     (if k = k0 \<and> e = obEpoch b \<and> kind = ''peer'' then insert (obAnonID b) (stored kind db k e)
      else if k = k0 \<and> e = obEpoch b \<and> kind = ''project'' then insert (obProjectBucket b) (stored kind db k e)
      else stored kind db k e)"
  by (auto simp: dedup_after_keys stored_def)

lemma bucket_peak_after:
  assumes "\<forall>k e. card (stored kind db k e) < 2 ^ 31 - 1"
  shows "int (bucket_peak (dedup_after k0 b (dbDedup db)) kind k) < 2 ^ 31"
proof -
  have le: "card {a. dedup_key kind a k e \<in> fst ` set (dedup_after k0 b (dbDedup db))} < 2 ^ 31" for e
  proof -
    have "card (insert x (stored kind db k e)) \<le> Suc (card (stored kind db k e))" for x
      by (simp add: card_insert_if finite_stored)
    moreover have "Suc (card (stored kind db k e)) < 2 ^ 31" using assms [rule_format, of k e] by simp
    ultimately have "card (insert x (stored kind db k e)) < 2 ^ 31" for x by (rule le_less_trans)
    then show ?thesis using assms [rule_format, of k e] unfolding dedup_after_stored by auto
  qed
  have "bucket_peak (dedup_after k0 b (dbDedup db)) kind k < 2 ^ 31"
    using bucket_peak_is_peak [of "dedup_after k0 b (dbDedup db)" kind k] le unfolding is_peak_def by (metis zero_less_numeral zero_less_power)
  then show ?thesis by simp
qed


lemma agg_before_count: "agObservationCount (agg_before now b r) = (case r of None \<Rightarrow> 0 | Some r \<Rightarrow> agObservationCount r)"
  by (simp add: agg_before_def inserted_agg_def updated_agg_def split: option.split)

lemma ingestOne_fields:
  fixes now :: nat
  assumes p: "ParsePURL (obPackage b) = Inr p" and ok: "ingestOne envHash now db b = Inr db'"
  defines "k \<equiv> aggKeyOf envHash b"
  shows "dbDedup db' = dedup_after k b (dbDedup db)"
    "dbAgg db' = AList.update k ((agg_before now b (map_of (dbAgg db) k))\<lparr>
       agObservationCount := agg_column 0 agObservationCount db k + growth k b (dbDedup db),
       agUniquePeerBuckets := bucket_peak (dedup_after k b (dbDedup db)) ''peer'' k,
       agUniqueProjectBuckets := bucket_peak (dedup_after k b (dbDedup db)) ''project'' k,
       agLastSeen := now\<rparr>) (dbAgg db)"
    "in_int64 (agg_column 0 agObservationCount db k + growth k b (dbDedup db))"
    "dbPackages db' = dbPackages (upsert_package now p db)"
    "dbResolution db' = dbResolution (record_resolution now b db)"
    "dbEdge db' = dbEdge (record_edges now b db)"
    "dbCoresidence db' = dbCoresidence (record_coresidence now p b db)"
proof -
  have count: "agObservationCount (agg_before now b (map_of (dbAgg db) k)) = agg_column 0 agObservationCount db k"
    by (simp add: agg_before_count agg_column_def)
  note res = ok [unfolded ingestOne_Inr [OF p], folded k_def, unfolded count]
  show "in_int64 (agg_column 0 agObservationCount db k + growth k b (dbDedup db))"
    using res by (simp split: if_splits)
  have db': "db' = (record_coresidence now p b (record_edges now b (record_resolution now b (upsert_package now p db))))
        \<lparr>dbDedup := dedup_after k b (dbDedup db),
         dbAgg := AList.update k ((agg_before now b (map_of (dbAgg db) k))\<lparr>
           agObservationCount := agg_column 0 agObservationCount db k + growth k b (dbDedup db),
           agUniquePeerBuckets := bucket_peak (dedup_after k b (dbDedup db)) ''peer'' k,
           agUniqueProjectBuckets := bucket_peak (dedup_after k b (dbDedup db)) ''project'' k,
           agLastSeen := now\<rparr>) (dbAgg db)\<rparr>"
    using res by (simp split: if_splits)
  show "dbDedup db' = dedup_after k b (dbDedup db)" by (simp add: db')
  show "dbAgg db' = AList.update k ((agg_before now b (map_of (dbAgg db) k))\<lparr>
       agObservationCount := agg_column 0 agObservationCount db k + growth k b (dbDedup db),
       agUniquePeerBuckets := bucket_peak (dedup_after k b (dbDedup db)) ''peer'' k,
       agUniqueProjectBuckets := bucket_peak (dedup_after k b (dbDedup db)) ''project'' k,
       agLastSeen := now\<rparr>) (dbAgg db)" by (simp add: db')
  show "dbPackages db' = dbPackages (upsert_package now p db)" "dbResolution db' = dbResolution (record_resolution now b db)"
    "dbEdge db' = dbEdge (record_edges now b db)" "dbCoresidence db' = dbCoresidence (record_coresidence now p b db)"
    by (simp_all add: db' record_coresidence_def record_edges_def record_resolution_def upsert_package_def Let_def
        split: sum.split)
qed

lemma ingested:
  fixes now :: nat
  assumes p: "ParsePURL (obPackage b) = Inr p" and ok: "ingestOne envHash now db b = Inr db'"
  defines "k0 \<equiv> aggKeyOf envHash b"
  shows "stored ''peer'' db' k e =
       (if k = k0 \<and> e = obEpoch b then insert (obAnonID b) (stored ''peer'' db k e) else stored ''peer'' db k e)"
    "stored ''project'' db' k e =
       (if k = k0 \<and> e = obEpoch b then insert (obProjectBucket b) (stored ''project'' db k e) else stored ''project'' db k e)"
    "agg_column 0 agObservationCount db' k =
       agg_column 0 agObservationCount db k + (if k = k0 then growth k0 b (dbDedup db) else 0)"
    "peaks_hold db \<Longrightarrow> peaks_hold db'"
proof -
  note f = ingestOne_fields [OF p ok, folded k0_def]
  have stored: "stored kind db' k e = {a. dedup_key kind a k e \<in> fst ` set (dedup_after k0 b (dbDedup db))}" for kind k e
    by (simp add: stored_def f)
  show peer: "stored ''peer'' db' k e =
       (if k = k0 \<and> e = obEpoch b then insert (obAnonID b) (stored ''peer'' db k e) else stored ''peer'' db k e)"
    and project: "stored ''project'' db' k e =
       (if k = k0 \<and> e = obEpoch b then insert (obProjectBucket b) (stored ''project'' db k e) else stored ''project'' db k e)"
    for k e by (simp_all add: stored dedup_after_stored)
  show "agg_column 0 agObservationCount db' k =
       agg_column 0 agObservationCount db k + (if k = k0 then growth k0 b (dbDedup db) else 0)"
    by (simp add: agg_column_def f update_conv')
  have column: "agg_column 0 agUniquePeerBuckets db' k = (if k = k0
      then bucket_peak (dedup_after k0 b (dbDedup db)) ''peer'' k0 else agg_column 0 agUniquePeerBuckets db k)"
    "agg_column 0 agUniqueProjectBuckets db' k = (if k = k0
      then bucket_peak (dedup_after k0 b (dbDedup db)) ''project'' k0 else agg_column 0 agUniqueProjectBuckets db k)" for k
    by (simp_all add: agg_column_def f update_conv')
  assume inv: "peaks_hold db"
  show "peaks_hold db'"
    unfolding peaks_hold_def
  proof (intro allI conjI)
    fix k
    show "is_peak (agg_column 0 agUniquePeerBuckets db' k) (\<lambda>e. card (stored ''peer'' db' k e))"
      using inv bucket_peak_is_peak [of "dedup_after k0 b (dbDedup db)" "''peer''" k0]
      by (cases "k = k0") (simp_all add: column stored dedup_after_stored peaks_hold_def)
    show "is_peak (agg_column 0 agUniqueProjectBuckets db' k) (\<lambda>e. card (stored ''project'' db' k e))"
      using inv bucket_peak_is_peak [of "dedup_after k0 b (dbDedup db)" "''project''" k0]
      by (cases "k = k0") (simp_all add: column stored dedup_after_stored peaks_hold_def)
  qed
qed

lemma ingest_succeeds:
  assumes b: "countable_report b" and k0: "k0 = aggKeyOf envHash b"
    and room: "agg_column 0 agObservationCount db k0 + obObservationCount b < 2 ^ 63" "0 \<le> agg_column 0 agObservationCount db k0"
    and pos: "0 \<le> contributed_row db k0 (obEpoch b) (obAnonID b)"
    and few: "\<forall>k e. card (stored ''peer'' db k e) < 2 ^ 31 - 1" "\<forall>k e. card (stored ''project'' db k e) < 2 ^ 31 - 1"
  shows "\<exists>db'. ingestOne envHash now db b = Inr db'"
    and "growth k0 b (dbDedup db) = max (contributed_row db k0 (obEpoch b) (obAnonID b)) (obObservationCount b) -
      contributed_row db k0 (obEpoch b) (obAnonID b)"
proof -
  obtain p where p: "ParsePURL (obPackage b) = Inr p" using b by (auto simp: countable_report_def)
  let ?p = "contributed_row db k0 (obEpoch b) (obAnonID b)" and ?c = "obObservationCount b"
  have c: "1 \<le> ?c" "?c \<le> 1000000" using b by (auto simp: countable_report_def)
  show growth: "growth k0 b (dbDedup db) = max ?p ?c - ?p"
    using pos c by (simp add: growth_def contributed_row_def deltaContribution_def wrap64_small)
  have count: "agObservationCount (agg_before now b (map_of (dbAgg db) k0)) = agg_column 0 agObservationCount db k0"
    by (simp add: agg_before_count agg_column_def)
  have "in_int64 (agg_column 0 agObservationCount db k0 + (max ?p ?c - ?p))"
    using room pos c by (auto simp: in_int64_def max_def min_int64_def max_int64_def)
  moreover have "\<not> 2 ^ 31 \<le> int (bucket_peak (dedup_after k0 b (dbDedup db)) ''peer'' k0)"
    "\<not> 2 ^ 31 \<le> int (bucket_peak (dedup_after k0 b (dbDedup db)) ''project'' k0)"
    using bucket_peak_after [OF few(1)] bucket_peak_after [OF few(2)] by (simp_all only: not_le)
  ultimately show "\<exists>db'. ingestOne envHash now db b = Inr db'"
    by (simp only: ingestOne_Inr [OF p] k0 [symmetric] count growth) simp
qed

lemma PG_ingest_step:
  fixes now :: nat
  assumes inv: "peaks_hold db" and b: "countable_report b" and k0: "k0 = aggKeyOf envHash b"
    and room: "agg_column 0 agObservationCount db k0 + obObservationCount b < 2 ^ 63" "0 \<le> agg_column 0 agObservationCount db k0"
    and pos: "0 \<le> contributed_row db k0 (obEpoch b) (obAnonID b)"
    and few: "\<forall>k e. card (stored ''peer'' db k e) < 2 ^ 31 - 1" "\<forall>k e. card (stored ''project'' db k e) < 2 ^ 31 - 1"
  defines "db' \<equiv> PG_ingest envHash db (now, b)"
  shows "peaks_hold db'"
    "contributed_row db' k e a =
       (if k = k0 \<and> e = obEpoch b \<and> a = obAnonID b then max (contributed_row db k e a) (obObservationCount b)
        else contributed_row db k e a)"
    "agg_column 0 agObservationCount db' k = agg_column 0 agObservationCount db k +
       (if k = k0 then max (contributed_row db k (obEpoch b) (obAnonID b)) (obObservationCount b) -
          contributed_row db k (obEpoch b) (obAnonID b) else 0)"
    "stored ''peer'' db' k e =
       (if k = k0 \<and> e = obEpoch b then insert (obAnonID b) (stored ''peer'' db k e) else stored ''peer'' db k e)"
    "stored ''project'' db' k e =
       (if k = k0 \<and> e = obEpoch b then insert (obProjectBucket b) (stored ''project'' db k e) else stored ''project'' db k e)"
proof -
  obtain p where p: "ParsePURL (obPackage b) = Inr p" using b by (auto simp: countable_report_def)
  obtain d where ok: "ingestOne envHash now db b = Inr d" using ingest_succeeds(1) [OF b k0 room pos few] by blast
  have db': "db' = d" by (simp add: db'_def PG_ingest_def ok)
  note step = ingested [OF p ok, folded k0]
  show "peaks_hold db'" using step(4) inv by (simp add: db')
  show "contributed_row db' k e a =
       (if k = k0 \<and> e = obEpoch b \<and> a = obAnonID b then max (contributed_row db k e a) (obObservationCount b)
        else contributed_row db k e a)"
    using b by (simp add: contributed_row_def db' ingestOne_fields(1) [OF p ok, folded k0] dedup_after_contributed
        countable_report_def)
  show "agg_column 0 agObservationCount db' k = agg_column 0 agObservationCount db k +
       (if k = k0 then max (contributed_row db k (obEpoch b) (obAnonID b)) (obObservationCount b) -
          contributed_row db k (obEpoch b) (obAnonID b) else 0)"
    using step(3) ingest_succeeds(2) [OF b k0 room pos few] by (simp add: db')
  show "stored ''peer'' db' k e =
       (if k = k0 \<and> e = obEpoch b then insert (obAnonID b) (stored ''peer'' db k e) else stored ''peer'' db k e)"
    "stored ''project'' db' k e =
       (if k = k0 \<and> e = obEpoch b then insert (obProjectBucket b) (stored ''project'' db k e) else stored ''project'' db k e)"
    unfolding db' by (rule step)+
qed

lemma PG_ledger:
  "delta_ledger envHash peaks_hold empty_db (PG_ingest envHash) contributed_row (agg_column 0 agObservationCount)
     (stored ''peer'') (stored ''project'') (agg_column 0 agUniquePeerBuckets) (agg_column 0 agUniqueProjectBuckets)"
proof (unfold_locales, goal_cases)
  case 1
  then show ?case by (simp add: peaks_hold_def is_peak_def agg_column_def stored_def empty_db_def)
next
  case 6
  then show ?case by (intro conjI PG_ingest_step)
qed (simp_all add: contributed_row_def agg_column_def stored_def empty_db_def peaks_hold_def)

interpretation pg_ledger: delta_ledger envHash peaks_hold empty_db "PG_ingest envHash" contributed_row
  "agg_column 0 agObservationCount" "stored ''peer''" "stored ''project''"
  "agg_column 0 agUniquePeerBuckets" "agg_column 0 agUniqueProjectBuckets" for envHash
  by (rule PG_ledger)


section \<open>The in-memory store against the tables\<close>

datatype store_op = Ingest nat ObservationBatch | Purge string

fun PG_run :: "(EnvironmentFingerprint \<Rightarrow> string) \<Rightarrow> evidence_db \<Rightarrow> store_op list \<Rightarrow> ingest_error + evidence_db" where
  "PG_run envHash db [] = Inr db"
| "PG_run envHash db (Ingest now b # ops) = (case ingestOne envHash now db b of
     Inl err \<Rightarrow> Inl err | Inr db' \<Rightarrow> PG_run envHash db' ops)"
| "PG_run envHash db (Purge cutoff # ops) = PG_run envHash (fst (PG_PurgeDedupOlderThan cutoff db)) ops"

fun Fake_run :: "(EnvironmentFingerprint \<Rightarrow> string) \<Rightarrow> Fake \<Rightarrow> store_op list \<Rightarrow> Fake" where
  "Fake_run envHash f [] = f"
| "Fake_run envHash f (Ingest now b # ops) = Fake_run envHash (ingestOneLocked envHash now f b) ops"
| "Fake_run envHash f (Purge cutoff # ops) = Fake_run envHash (fst (Fake_PurgeDedupOlderThan cutoff f)) ops"

lemma ingestOneLocked_fields:
  fixes envHash :: "EnvironmentFingerprint \<Rightarrow> string" and now :: nat and f :: Fake
  assumes p: "ParsePURL (obPackage b) = Inr p"
  defines "k \<equiv> aggKeyOf envHash b"
  defines "f' \<equiv> ingestOneLocked envHash now f b"
  shows "fkMerge f' = fst (merge_apply envHash (fkMerge f) b)"
    "fkAggMeta f' = AList.update k (fill_meta now b (case map_of (fkAggMeta f) k of None \<Rightarrow> new_meta now b | Some m \<Rightarrow> m))
       (fkAggMeta f)"
    "fkPackages f' = fkPackages (fake_package now p f)"
    "fkResolvedNone f' = fkResolvedNone (fake_resolution b f)"
    "fkEdges f' = fkEdges (fake_edges b f)"
    "fkCoresidence f' = fkCoresidence (fake_coresidence b f)"
  using p by (simp_all add: f'_def k_def ingestOneLocked_def fake_package_def fake_resolution_def fake_edges_def
      fake_coresidence_def Let_def)

text \<open>The row of an aggregate, as both stores show it; the columns in which they differ are left out.\<close>

definition agg_same :: "evidence_agg \<Rightarrow> fakeAggMeta \<Rightarrow> bool" where
  "agg_same r m \<longleftrightarrow> agEnvJSON r = fmEnvJSON m \<and> agErrorCode r = fmErrorCode m \<and> agErrorSummary r = fmErrorSummary m \<and>
     agDirect r = fmDirect m \<and> agOuterCommands r = sorted_list_of_set (fst ` set (fmOuterCommands m)) \<and>
     agFirstSeen r = fmFirstSeen m \<and> agLastSeen r = fmLastSeen m"

lemma fill_fields [simp]:
  "fmEnvJSON (fill_meta now b m) = fmEnvJSON m"
  "fmErrorCode (fill_meta now b m) = if_blank (fmErrorCode m) (obErrorCode b)"
  "fmErrorSummary (fill_meta now b m) = if_blank (fmErrorSummary m) (obErrorSummary b)"
  "fmDirect (fill_meta now b m) = (fmDirect m \<or> obDirect b)"
  "fst ` set (fmOuterCommands (fill_meta now b m)) = fst ` set (fmOuterCommands m) \<union> set (outer_commands b)"
  "fmFirstSeen (fill_meta now b m) = fmFirstSeen m"
  "fmLastSeen (fill_meta now b m) = now"
  by (simp_all add: fill_meta_def fill_termination_def fill_lineage_def outer_commands_def Let_def)

lemma agg_same_first: "agg_same (inserted_agg now b) (fill_meta now b (new_meta now b))"
  by (auto simp: agg_same_def inserted_agg_def new_meta_def if_blank_def outer_commands_def)

lemma agg_same_next:
  assumes "agg_same r m" shows "agg_same (updated_agg now b r) (fill_meta now b m)"
proof -
  have "set (agOuterCommands r) = fst ` set (fmOuterCommands m)" using assms by (simp add: agg_same_def)
  then show ?thesis using assms by (simp add: agg_same_def updated_agg_def)
qed

lemma agg_same_counts [simp]:
  "agg_same (r\<lparr>agObservationCount := x, agUniquePeerBuckets := y, agUniqueProjectBuckets := z, agLastSeen := n\<rparr>) m \<longleftrightarrow>
     agg_same (r\<lparr>agLastSeen := n\<rparr>) m"
  by (simp add: agg_same_def)

lemma rows_step:
  assumes p: "ParsePURL (obPackage b) = Inr p" and ok: "ingestOne envHash now db b = Inr db'"
    and same: "\<forall>k. rel_option agg_same (map_of (dbAgg db) k) (map_of (fkAggMeta f) k)"
  shows "rel_option agg_same (map_of (dbAgg db') k) (map_of (fkAggMeta (ingestOneLocked envHash now f b)) k)"
proof -
  let ?k = "aggKeyOf envHash b"
  have "agg_same ((agg_before now b (map_of (dbAgg db) ?k))\<lparr>agLastSeen := now\<rparr>)
      (fill_meta now b (case map_of (fkAggMeta f) ?k of None \<Rightarrow> new_meta now b | Some m \<Rightarrow> m))"
    using same [rule_format, of ?k] agg_same_first [of now b] agg_same_next [of _ _ now b]
    by (cases "map_of (dbAgg db) ?k"; cases "map_of (fkAggMeta f) ?k")
      (auto simp: agg_before_def agg_same_def inserted_agg_def updated_agg_def)
  then show ?thesis using same
    by (simp add: ingestOne_fields(2) [OF p ok] ingestOneLocked_fields(2) [OF p] update_conv')
qed


lemma totals_step:
  assumes p: "ParsePURL (obPackage b) = Inr p" and ok: "ingestOne envHash now db b = Inr db'"
    and b: "countable_report b"
    and same: "\<forall>k. agg_column 0 agObservationCount db k = get 0 (mObservations m) k"
      "\<forall>k e a. contributed_row db k e a = contribution m k e a"
  defines "m' \<equiv> fst (merge_apply envHash m b)"
  shows "agg_column 0 agObservationCount db' k = get 0 (mObservations m') k"
    and "contributed_row db' k e a = contribution m' k e a"
proof -
  let ?k = "aggKeyOf envHash b"
  have c: "1 \<le> obObservationCount b" using b by (simp add: countable_report_def)
  have g: "growth ?k b (dbDedup db) = deltaContribution (contribution m ?k (obEpoch b) (obAnonID b)) (obObservationCount b)"
    using same(2) [rule_format, of ?k] by (simp add: growth_def contributed_row_def)
  have "wrap64 (get 0 (mObservations m) ?k + growth ?k b (dbDedup db)) =
      get 0 (mObservations m) ?k + growth ?k b (dbDedup db)"
    using ingestOne_fields(3) [OF p ok] same(1) by simp
  then show "agg_column 0 agObservationCount db' k = get 0 (mObservations m') k"
    using same(1) [rule_format, of k] same(1) [rule_format, of ?k]
    by (simp add: agg_column_def ingestOne_fields(2) [OF p ok] update_conv' m'_def merge_apply_def Let_def
        g [unfolded contribution_def] contribution_def)
  show "contributed_row db' k e a = contribution m' k e a"
    using c same(2) [rule_format, of k e a]
    by (auto simp: contributed_row_def ingestOne_fields(1) [OF p ok] dedup_after_contributed m'_def merge_apply_def
        contribution_def Let_def)
qed

lemma packages_step:
  "map_of (dbPackages db) = map_of (fkPackages f) \<Longrightarrow>
   map_of (dbPackages (upsert_package now p db)) = map_of (fkPackages (fake_package now p f))"
  by (simp add: upsert_package_def fake_package_def Let_def update_conv')

text \<open>A project-day names one project bucket and one epoch, as long as the bucket holds no unit separator.\<close>

definition day :: "string \<Rightarrow> string \<Rightarrow> string" where
  "day bucket epoch = bucket @ [CHR 0x1F] @ epoch"

lemma day_eq:
  "CHR 0x1F \<notin> set u \<Longrightarrow> CHR 0x1F \<notin> set v \<Longrightarrow> day u e = day v e' \<longleftrightarrow> u = v \<and> e = e'"
proof (induction u arbitrary: v)
  case Nil
  then show ?case by (cases v) (auto simp: day_def)
next
  case (Cons x u)
  then show ?case by (cases v) (auto simp: day_def)
qed

definition same_edges :: "(edgeKey \<times> string \<times> string, nat) gomap \<Rightarrow> (edgeKey, (string, bool) gomap) gomap \<Rightarrow> bool" where
  "same_edges t t' \<longleftrightarrow> (\<forall>ek u e. CHR 0x1F \<notin> set u \<longrightarrow>
     ((ek, u, e) \<in> fst ` set t \<longleftrightarrow> day u e \<in> fst ` set (get [] t' ek)))"

lemma edges_step:
  assumes u: "CHR 0x1F \<notin> set u" and same: "same_edges t t'"
  shows "same_edges (foldl (\<lambda>t pc. AList.update (edge_key pc, u, e) now t) t pcs)
     (foldl (\<lambda>t pc. AList.update (edge_key pc) (AList.update (day u e) True (get [] t (edge_key pc))) t) t' pcs)"
  using same
proof (induction pcs arbitrary: t t')
  case (Cons pc pcs)
  have "same_edges (AList.update (edge_key pc, u, e) now t)
      (AList.update (edge_key pc) (AList.update (day u e) True (get [] t' (edge_key pc))) t')"
    using Cons.prems u by (auto simp: same_edges_def day_eq)
  from Cons.IH [OF this] show ?case by simp
qed simp

definition same_pairs ::
  "(coresKey \<times> string \<times> string, bool \<times> nat) gomap \<Rightarrow> (coresKey, (string, bool) gomap) gomap \<Rightarrow> bool" where
  "same_pairs t t' \<longleftrightarrow> (\<forall>ck u e. CHR 0x1F \<notin> set u \<longrightarrow>
     map_option fst (map_of t (ck, u, e)) = map_of (get [] t' ck) (day u e))"

lemma pairs_step:
  assumes u: "CHR 0x1F \<notin> set u" and same: "same_pairs t t'"
  shows "same_pairs (foldl (\<lambda>t pair. upsert_pair now failed t (cores_key p pair, u, e)) t pairs)
     (foldl (\<lambda>t pair. let ck = cores_key p pair; days = get [] t ck
        in AList.update ck (AList.update (day u e) (get False days (day u e) \<or> failed) days) t) t' pairs)"
  using same
proof (induction pairs arbitrary: t t')
  case (Cons pair pairs)
  let ?ck = "cores_key p pair"
  have old: "get False (get [] t' ?ck) (day u e) = (case map_of t (?ck, u, e) of None \<Rightarrow> False | Some (x, _) \<Rightarrow> x)"
  proof -
    have "map_of (get [] t' ?ck) (day u e) = map_option fst (map_of t (?ck, u, e))"
      using Cons.prems u by (simp add: same_pairs_def)
    then show ?thesis unfolding get_def [of False] by (auto split: option.split)
  qed
  have "same_pairs (upsert_pair now failed t (?ck, u, e))
      (AList.update ?ck (AList.update (day u e) (get False (get [] t' ?ck) (day u e) \<or> failed) (get [] t' ?ck)) t')"
    using Cons.prems u by (auto simp: same_pairs_def upsert_pair_def update_conv' day_eq old split: option.split)
  from Cons.IH [OF this] show ?case by (simp add: Let_def)
qed simp

definition same_leaves :: "((string \<times> string \<times> string) \<times> string \<times> string, nat) gomap \<Rightarrow> (string \<times> string \<times> string, bool) gomap \<Rightarrow> bool" where
  "same_leaves t t' \<longleftrightarrow> (\<forall>x. get False t' x \<longleftrightarrow> (\<exists>u e. (x, u, e) \<in> fst ` set t))"

lemma leaves_step:
  "same_leaves (dbResolution db) (fkResolvedNone f) \<Longrightarrow>
   same_leaves (dbResolution (record_resolution now b db)) (fkResolvedNone (fake_resolution b f))"
  by (auto simp: same_leaves_def record_resolution_def fake_resolution_def split: sum.split)


definition same_store :: "evidence_db \<Rightarrow> Fake \<Rightarrow> bool" where
  "same_store db f \<longleftrightarrow>
     (\<forall>k. rel_option agg_same (map_of (dbAgg db) k) (map_of (fkAggMeta f) k)) \<and>
     (\<forall>k. agg_column 0 agObservationCount db k = get 0 (mObservations (fkMerge f)) k) \<and>
     (\<forall>k e a. contributed_row db k e a = contribution (fkMerge f) k e a) \<and>
     map_of (dbPackages db) = map_of (fkPackages f) \<and>
     same_edges (dbEdge db) (fkEdges f) \<and> same_pairs (dbCoresidence db) (fkCoresidence f) \<and>
     same_leaves (dbResolution db) (fkResolvedNone f)"

definition same_buckets :: "evidence_db \<Rightarrow> Fake \<Rightarrow> bool" where
  "same_buckets db f \<longleftrightarrow> peaks_hold db \<and> wf_index (mPeerBuckets (fkMerge f)) \<and> wf_index (mProjectBuckets (fkMerge f)) \<and>
     (\<forall>k e. stored ''peer'' db k e = indexed (mPeerBuckets (fkMerge f)) k e \<and>
            stored ''project'' db k e = indexed (mProjectBuckets (fkMerge f)) k e)"

lemma same_store_new: "same_store empty_db new_fake"
  by (simp add: same_store_def empty_db_def new_fake_def newMergeState_def agg_column_def contributed_row_def
      contribution_def same_edges_def same_pairs_def same_leaves_def)

lemma same_buckets_new: "same_buckets empty_db new_fake"
  by (simp add: same_buckets_def peaks_hold_def is_peak_def empty_db_def new_fake_def newMergeState_def agg_column_def
      stored_def indexed_def)

definition accepted_report :: "ObservationBatch \<Rightarrow> bool" where
  "accepted_report b \<longleftrightarrow> countable_report b \<and> CHR 0x1F \<notin> set (obProjectBucket b)"

lemma accepted_reports: "ValidateBatch sha summarize b = None \<Longrightarrow> accepted_report b"
proof -
  assume ok: "ValidateBatch sha summarize b = None"
  obtain p where "ParsePURL (obPackage b) = Inr p" "1 \<le> obObservationCount b" "obObservationCount b \<le> 1000000"
    "validBucket ''projectBucket'' (obProjectBucket b) = None"
    by (rule accepted [OF ok])
  moreover have "\<not> CHR '' '' < CHR 0x1F" by code_simp
  ultimately show ?thesis using validBucket_bytes [of "''projectBucket''" "obProjectBucket b"]
    by (auto simp: accepted_report_def countable_report_def list_all_iff)
qed

lemma ingest_same_store:
  assumes b: "accepted_report b" and ok: "ingestOne envHash now db b = Inr db'" and same: "same_store db f"
  shows "same_store db' (ingestOneLocked envHash now f b)"
proof -
  obtain p where p: "ParsePURL (obPackage b) = Inr p" using b by (auto simp: accepted_report_def countable_report_def)
  have u: "CHR 0x1F \<notin> set (obProjectBucket b)" and c: "countable_report b" using b by (auto simp: accepted_report_def)
  note s = same [unfolded same_store_def]
  note db' = ingestOne_fields [OF p ok] and f' = ingestOneLocked_fields [OF p, where envHash = envHash and now = now and f = f]
  have pd: "project_day b = day (obProjectBucket b) (obEpoch b)" by (simp add: project_day_def day_def)
  have "rel_option agg_same (map_of (dbAgg db') k) (map_of (fkAggMeta (ingestOneLocked envHash now f b)) k)" for k
    using s by (intro rows_step [OF p ok]) blast
  moreover have "agg_column 0 agObservationCount db' k = get 0 (mObservations (fkMerge (ingestOneLocked envHash now f b))) k"
    "contributed_row db' k e a = contribution (fkMerge (ingestOneLocked envHash now f b)) k e a" for k e a
    unfolding f' using s by (intro totals_step [OF p ok c]; blast)+
  moreover have "map_of (dbPackages db') = map_of (fkPackages (ingestOneLocked envHash now f b))"
    unfolding f' db' using s by (intro packages_step) blast
  moreover have "same_edges (dbEdge db') (fkEdges (ingestOneLocked envHash now f b))"
    unfolding f' db' using edges_step [OF u, of "dbEdge db" "fkEdges f"] s
    by (simp add: record_edges_def fake_edges_def pd)
  moreover have "same_pairs (dbCoresidence db') (fkCoresidence (ingestOneLocked envHash now f b))"
    unfolding f' db' using pairs_step [OF u, of "dbCoresidence db" "fkCoresidence f"] s
    by (simp add: record_coresidence_def fake_coresidence_def pd p)
  moreover have "same_leaves (dbResolution db') (fkResolvedNone (ingestOneLocked envHash now f b))"
    unfolding f' db' using s by (intro leaves_step) blast
  ultimately show ?thesis unfolding same_store_def by blast
qed

lemma ingest_same_buckets:
  assumes b: "accepted_report b" and ok: "ingestOne envHash now db b = Inr db'" and same: "same_buckets db f"
  shows "same_buckets db' (ingestOneLocked envHash now f b)"
proof -
  obtain p where p: "ParsePURL (obPackage b) = Inr p" using b by (auto simp: accepted_report_def countable_report_def)
  show ?thesis
    using ingested(4) [OF p ok] same
    by (simp add: same_buckets_def ingested(1,2) [OF p ok] ingestOneLocked_fields(1) [OF p])
      (simp add: merge_apply_def Let_def)
qed

lemma map_of_filter_key: "map_of (filter (\<lambda>(x, _). P x) m) k = (if P k then map_of m k else None)"
  by (induction m) auto

lemma purge_same_store:
  "same_store db f \<Longrightarrow> same_store (fst (PG_PurgeDedupOlderThan cutoff db)) (fst (Fake_PurgeDedupOlderThan cutoff f))"
  by (simp add: same_store_def PG_PurgeDedupOlderThan_def Fake_PurgeDedupOlderThan_def agg_column_def
      contributed_row_def contribution_def get_def map_of_filter_key dedup_key_def Let_def)

lemma run_same_store:
  "\<forall>now b. Ingest now b \<in> set ops \<longrightarrow> accepted_report b \<Longrightarrow> PG_run envHash db ops = Inr db' \<Longrightarrow> same_store db f \<Longrightarrow>
     same_store db' (Fake_run envHash f ops)"
proof (induction envHash db ops arbitrary: f rule: PG_run.induct)
  case (2 envHash db now b ops)
  then show ?case using ingest_same_store [of b envHash now db _ f] by (auto split: sum.splits)
next
  case (3 envHash db cutoff ops)
  then show ?case using purge_same_store [of db f cutoff] by auto
qed simp

lemma run_same_buckets:
  "\<forall>op \<in> set ops. \<exists>now b. op = Ingest now b \<and> accepted_report b \<Longrightarrow> PG_run envHash db ops = Inr db' \<Longrightarrow>
     same_buckets db f \<Longrightarrow> same_buckets db' (Fake_run envHash f ops)"
proof (induction envHash db ops arbitrary: f rule: PG_run.induct)
  case (2 envHash db now b ops)
  then show ?case using ingest_same_buckets [of b envHash now db _ f] by (auto split: sum.splits)
qed auto


section \<open>Retried requests\<close>

text \<open>A report a store already accounts for.\<close>

definition covered :: "(EnvironmentFingerprint \<Rightarrow> string) \<Rightarrow> evidence_db \<Rightarrow> ObservationBatch \<Rightarrow> bool" where
  "covered envHash db b \<longleftrightarrow> (let k = aggKeyOf envHash b in
     obObservationCount b \<le> contributed_row db k (obEpoch b) (obAnonID b) \<and>
     obAnonID b \<in> stored ''peer'' db k (obEpoch b) \<and> obProjectBucket b \<in> stored ''project'' db k (obEpoch b))"

definition same_figures :: "evidence_db \<Rightarrow> evidence_db \<Rightarrow> bool" where
  "same_figures db db' \<longleftrightarrow> (\<forall>k. agg_column 0 agObservationCount db k = agg_column 0 agObservationCount db' k \<and>
     (\<forall>e. stored ''peer'' db k e = stored ''peer'' db' k e \<and> stored ''project'' db k e = stored ''project'' db' k e \<and>
        (\<forall>a. contributed_row db k e a = contributed_row db' k e a)))"

lemma contributed_after:
  assumes "accepted_report b" "ingestOne envHash now db b = Inr db'"
  shows "contributed_row db' k e a =
     (if k = aggKeyOf envHash b \<and> e = obEpoch b \<and> a = obAnonID b
      then max (contributed_row db k e a) (obObservationCount b) else contributed_row db k e a)"
proof -
  obtain p where p: "ParsePURL (obPackage b) = Inr p"
    using assms(1) by (auto simp: accepted_report_def countable_report_def)
  show ?thesis using assms(1)
    by (simp add: contributed_row_def ingestOne_fields(1) [OF p assms(2)] dedup_after_contributed accepted_report_def
        countable_report_def)
qed

lemma ingest_covers:
  assumes "accepted_report b" "ingestOne envHash now db b = Inr db'"
  shows "covered envHash db' b" "covered envHash db c \<Longrightarrow> covered envHash db' c"
proof -
  obtain p where p: "ParsePURL (obPackage b) = Inr p"
    using assms(1) by (auto simp: accepted_report_def countable_report_def)
  show "covered envHash db' b" "covered envHash db c \<Longrightarrow> covered envHash db' c"
    by (auto simp: covered_def Let_def contributed_after [OF assms] ingested(1,2) [OF p assms(2)])
qed

lemma ingest_covered:
  assumes b: "accepted_report b" and ok: "ingestOne envHash now db b = Inr db'" and "covered envHash db b"
  shows "same_figures db db'"
proof -
  obtain p where p: "ParsePURL (obPackage b) = Inr p"
    using b by (auto simp: accepted_report_def countable_report_def)
  have "growth (aggKeyOf envHash b) b (dbDedup db) = 0"
    using assms(3) by (simp add: growth_def covered_def contributed_row_def Let_def deltaContribution_def)
  then show ?thesis using assms(3)
    by (auto simp: same_figures_def ingested(1-3) [OF p ok] contributed_after [OF b ok] covered_def Let_def insert_absorb)
qed

lemma same_figures_covered: "same_figures db db' \<Longrightarrow> covered envHash db b \<Longrightarrow> covered envHash db' b"
  by (simp add: same_figures_def covered_def Let_def)

definition admitted ::
  "(string \<Rightarrow> string) \<Rightarrow> (string \<Rightarrow> string \<Rightarrow> string) \<Rightarrow> ObservationBatch list \<Rightarrow> ObservationBatch list" where
  "admitted sha summarize bs =
     filter (\<lambda>b. ValidateBatch sha summarize b = None) (map (CanonicalizeObservationFailure sha) bs)"

lemma loop_covers:
  "ingest_loop sha summarize envHash now fails i db bs = (n, rej, Inr db') \<Longrightarrow>
     (\<forall>b \<in> set (admitted sha summarize bs). covered envHash db' b) \<and>
     (\<forall>c. covered envHash db c \<longrightarrow> covered envHash db' c)"
proof (induction sha summarize envHash now fails i db bs arbitrary: n rej rule: ingest_loop.induct)
  case (2 sha summarize envHash now fails i db b0 bs)
  let ?b = "CanonicalizeObservationFailure sha b0"
  show ?case
  proof (cases "ValidateBatch sha summarize ?b")
    case (Some err)
    with 2 show ?thesis by (auto simp: Let_def admitted_def split: prod.splits)
  next
    case None
    then obtain d m where d: "\<not> fails i" "ingestOne envHash now db ?b = Inr d"
      "ingest_loop sha summarize envHash now fails (i + 1) d bs = (m, rej, Inr db')"
      using 2(3) by (auto simp: Let_def split: if_splits sum.splits prod.splits)
    note cov = ingest_covers [OF accepted_reports [OF None] d(2)]
    have "\<forall>b \<in> set (admitted sha summarize bs). covered envHash db' b" "\<forall>c. covered envHash d c \<longrightarrow> covered envHash db' c"
      using 2(1) [OF refl None d(1,2,3)] by blast+
    with cov show ?thesis using None by (auto simp: admitted_def)
  qed
qed (simp add: admitted_def)

lemma loop_covered:
  "ingest_loop sha summarize envHash now fails i db bs = (n, rej, Inr db') \<Longrightarrow>
     \<forall>b \<in> set (admitted sha summarize bs). covered envHash db b \<Longrightarrow> same_figures db db'"
proof (induction sha summarize envHash now fails i db bs arbitrary: n rej rule: ingest_loop.induct)
  case (2 sha summarize envHash now fails i db b0 bs)
  let ?b = "CanonicalizeObservationFailure sha b0"
  show ?case
  proof (cases "ValidateBatch sha summarize ?b")
    case (Some err)
    with 2 show ?thesis by (auto simp: Let_def admitted_def split: prod.splits)
  next
    case None
    then obtain d m where d: "\<not> fails i" "ingestOne envHash now db ?b = Inr d"
      "ingest_loop sha summarize envHash now fails (i + 1) d bs = (m, rej, Inr db')"
      using 2(3) by (auto simp: Let_def split: if_splits sum.splits prod.splits)
    have b: "covered envHash db ?b" and bs: "\<forall>b \<in> set (admitted sha summarize bs). covered envHash db b"
      using 2(4) None by (auto simp: admitted_def)
    have same: "same_figures db d" by (rule ingest_covered [OF accepted_reports [OF None] d(2) b])
    have "same_figures d db'"
      using 2(1) [OF refl None d(1,2,3)] bs same_figures_covered [OF same] by blast
    with same show ?thesis by (simp add: same_figures_def)
  qed
qed (simp add: same_figures_def)

text \<open>C4: a request is all or nothing and safe to repeat: when any statement or the commit fails the tables are
  exactly as before, and when a request that was applied is sent again, at whatever time, the retry adds no
  observation and no bucket to any row.\<close>

theorem retried_request_adds_nothing:
  assumes "PG_IngestBatches sha summarize envHash now fails commit_fails db bs = (db', n, rejected, err)"
  shows "(err \<noteq> None \<longrightarrow> db' = db) \<and>
    (err = None \<longrightarrow> (\<forall>now2 fails2 commit_fails2 db2 n2 rejected2 err2.
       PG_IngestBatches sha summarize envHash now2 fails2 commit_fails2 db' bs = (db2, n2, rejected2, err2) \<longrightarrow>
       (\<forall>k. agg_column 0 agObservationCount db2 k = agg_column 0 agObservationCount db' k \<and>
          (\<forall>e. stored ''peer'' db2 k e = stored ''peer'' db' k e \<and> stored ''project'' db2 k e = stored ''project'' db' k e))))"
proof (intro conjI impI allI)
  show "db' = db" if "err \<noteq> None"
    using assms that by (auto simp: PG_IngestBatches_def split: prod.splits sum.splits if_splits)
next
  fix now2 fails2 commit_fails2 db2 n2 rejected2 err2 k
  assume "err = None"
    and again: "PG_IngestBatches sha summarize envHash now2 fails2 commit_fails2 db' bs = (db2, n2, rejected2, err2)"
  then obtain m rej where "ingest_loop sha summarize envHash now fails 0 db bs = (m, rej, Inr db')"
    using assms by (auto simp: PG_IngestBatches_def split: prod.splits sum.splits if_splits)
  note covered = loop_covers [OF this]
  have "same_figures db' db2"
  proof (cases "err2 = None")
    case True
    then obtain m rej where "ingest_loop sha summarize envHash now2 fails2 0 db' bs = (m, rej, Inr db2)"
      using again by (auto simp: PG_IngestBatches_def split: prod.splits sum.splits if_splits)
    then show ?thesis using covered by (auto intro: loop_covered)
  next
    case False
    then have "db2 = db'" using again by (auto simp: PG_IngestBatches_def split: prod.splits sum.splits if_splits)
    then show ?thesis by (simp add: same_figures_def)
  qed
  then show "agg_column 0 agObservationCount db2 k = agg_column 0 agObservationCount db' k"
    "\<And>e. stored ''peer'' db2 k e = stored ''peer'' db' k e" "\<And>e. stored ''project'' db2 k e = stored ''project'' db' k e"
    by (simp_all add: same_figures_def)
qed

end
