(* ===== verification/StoreAgreement.thy ===== *)
theory StoreAgreement
  imports Ingest
begin

text \<open>
  The agreement of the two observation stores: the in-memory store of
  \<open>src/internal/serverstore/fake.go\<close> is a simulation of the statements of
  \<open>src/internal/serverstore/pg.go\<close> for every sequence of accepted batches and purges, and both count what
  the set of reports says.  The last section shows, on concrete runs, the three columns in which they differ.
\<close>

section \<open>Properties\<close>


lemma batches_run:
  "\<forall>b \<in> snd ` set bs. countable_report b \<Longrightarrow> length bs < 2 ^ 31 \<Longrightarrow>
     PG_run envHash empty_db (map (\<lambda>(now, b). Ingest now b) bs) = Inr (foldl (PG_ingest envHash) empty_db bs)"
proof (induction bs rule: rev_induct)
  case (snoc nb bs)
  obtain now b where nb: "nb = (now, b)" by (cases nb)
  let ?db = "foldl (PG_ingest envHash) empty_db bs"
  have bs: "\<forall>b \<in> snd ` set bs. countable_report b" "length bs < 2 ^ 31 - 1" and b: "countable_report b"
    using snoc.prems nb by auto
  have append: "PG_run envHash db (xs @ [Ingest now b]) =
      (case PG_run envHash db xs of Inl err \<Rightarrow> Inl err | Inr d \<Rightarrow> ingestOne envHash now d b)" for db xs
    by (induction envHash db xs rule: PG_run.induct) (auto split: sum.split)
  obtain d where d: "ingestOne envHash now ?db b = Inr d"
    using ingest_succeeds(1) [OF b refl] pg_ledger.ledger_has_room [OF bs b] by blast
  moreover have "PG_ingest envHash ?db (now, b) = d" by (simp add: PG_ingest_def d)
  ultimately show ?case using snoc by (simp add: nb append)
qed simp



section \<open>Witnesses and differences\<close>

definition no_hash :: "EnvironmentFingerprint \<Rightarrow> string" where
  "no_hash e = []"

definition report :: "string \<Rightarrow> string \<Rightarrow> int \<Rightarrow> ObservationBatch" where
  "report epoch peer n = sample_fail\<lparr>obEpoch := epoch, obAnonID := peer, obObservationCount := n\<rparr>"

lemma report_accepted:
  "ValidateBatch zero_sha (\<lambda>s _. s) (report ''2026-01-01'' ''a1'' 3) = None"
  "ValidateBatch zero_sha (\<lambda>s _. s) (report ''2026-01-01'' ''a2'' 2) = None"
  "ValidateBatch zero_sha (\<lambda>s _. s) (report ''2026-03-01'' ''a1'' 1) = None"
  by code_simp+

definition example_ops :: "store_op list" where
  "example_ops = [Ingest 1 (report ''2026-01-01'' ''a1'' 3), Ingest 2 (report ''2026-01-01'' ''a2'' 2),
     Ingest 3 (report ''2026-01-01'' ''a1'' 3)]"

definition run_tables :: "store_op list \<Rightarrow> evidence_db" where
  "run_tables ops = (case PG_run no_hash empty_db ops of Inl _ \<Rightarrow> empty_db | Inr db \<Rightarrow> db)"

abbreviation example_row :: aggKey where
  "example_row \<equiv> aggKeyOf no_hash (report [] [] 0)"

lemma example_run:
  "isl (PG_run no_hash empty_db example_ops) = False"
  "agg_column 0 agObservationCount (run_tables example_ops) example_row = 5"
  "agg_column 0 agUniquePeerBuckets (run_tables example_ops) example_row = 2"
  by code_simp+


lemma example_run_ok: "PG_run no_hash empty_db example_ops = Inr (run_tables example_ops)"
  using example_run(1) by (cases "PG_run no_hash empty_db example_ops") (simp_all add: run_tables_def)

lemma example_ops_accepted: "\<forall>now b. Ingest now b \<in> set example_ops \<longrightarrow> ValidateBatch zero_sha (\<lambda>s _. s) b = None"
  by (auto simp: example_ops_def report_accepted)



definition one_request :: "evidence_db \<Rightarrow> evidence_db \<times> nat \<times> (nat \<times> batch_error) list \<times> ingest_error option" where
  "one_request db = PG_IngestBatches zero_sha (\<lambda>s _. s) no_hash 7 (\<lambda>_. False) False db [report ''2026-01-01'' ''a1'' 3, report ''2026-01-01'' ''a2'' 0]"

theorem retried_request_adds_nothing_witness:
  "fst (snd (one_request empty_db)) = 1 \<and>
   agg_column 0 agObservationCount (fst (one_request (fst (one_request empty_db)))) example_row = 3"
proof -
  obtain db n rejected err where first: "one_request empty_db = (db, n, rejected, err)" by (cases "one_request empty_db")
  obtain db2 n2 rejected2 err2 where second: "one_request db = (db2, n2, rejected2, err2)" by (cases "one_request db")
  have facts: "fst (snd (one_request empty_db)) = 1" "snd (snd (snd (one_request empty_db))) = None"
    "agg_column 0 agObservationCount (fst (one_request empty_db)) example_row = 3"
    by code_simp+
  have err: "err = None" using facts(2) first by simp
  have "agg_column 0 agObservationCount db2 example_row = agg_column 0 agObservationCount db example_row"
    by (rule retried_request_adds_nothing [OF first [unfolded one_request_def], THEN conjunct2, rule_format,
          OF err second [unfolded one_request_def], THEN conjunct1])
  with facts first second show ?thesis by simp
qed

section \<open>Where the two stores differ\<close>

text \<open>After a purge the next batch of a row recomputes its bucket counts from what is left of the ledger: the
  count of PostgreSQL shrinks where the in-memory one stays.\<close>

lemma purge_then_ingest_shrinks_peers:
  "let ops = [Ingest 1 (report ''2026-01-01'' ''a1'' 3), Ingest 2 (report ''2026-01-01'' ''a2'' 2), Purge ''2026-02-01'',
       Ingest 3 (report ''2026-03-01'' ''a1'' 1)]
   in agg_column 0 agUniquePeerBuckets (run_tables ops) example_row = 1 \<and>
      peakBuckets (mPeerBuckets (fkMerge (Fake_run no_hash new_fake ops))) example_row = 2"
  by code_simp

text \<open>The confidence of a symbol is the latest one in PostgreSQL and the first one in memory.\<close>

lemma stores_differ_on_confidence:
  "let b = report ''2026-01-01'' ''a1'' 3;
       ops = [Ingest 1 (b\<lparr>obSymbolConfidence := ''EXACT''\<rparr>), Ingest 2 (b\<lparr>obSymbolConfidence := ''PROBABLE''\<rparr>)]
   in agg_column [] agSymbolConfidence (run_tables ops) example_row = ''PROBABLE'' \<and>
      map_option fmSymbolConfidence (map_of (fkAggMeta (Fake_run no_hash new_fake ops)) example_row) = Some ''EXACT''"
  by code_simp

text \<open>An incomplete legacy failure is superseded by better evidence in PostgreSQL only.\<close>

lemma stores_differ_on_quality:
  "let b = (report ''2026-01-01'' ''a1'' 3)\<lparr>obErrorFingerprint := [], obExitCode := None, obTerminationKind := [],
         obErrorSummary := [], obEvidenceQuality := []\<rparr>;
       ops = [Ingest 1 b, Ingest 2 (b\<lparr>obEvidenceQuality := ''missing''\<rparr>)]
   in agg_column [] agEvidenceQuality (run_tables ops) (aggKeyOf no_hash b) = ''missing'' \<and>
      map_option fmEvidenceQuality (map_of (fkAggMeta (Fake_run no_hash new_fake ops)) (aggKeyOf no_hash b)) =
        Some ''legacy-evidence-incomplete'' \<and>
      list_all (\<lambda>q. ValidateBatch zero_sha (\<lambda>s _. s) (b\<lparr>obEvidenceQuality := q\<rparr>) = None) [[], ''missing'']"
  by code_simp

end
