(* ===== verification/PoolPolicy.thy ===== *)
theory PoolPolicy
  imports Governor Prelude
begin

text \<open>
  The database pool's policy, \<open>src/internal/serverstore/pool.go\<close>: the classes of work, the errors a caller
  may retry, the shares and ceilings with their normalization, and the budget that travels with a request.
  Durations are nanoseconds.  An error is what \<open>errors.Is\<close> and \<open>errors.As\<close> find in its chain together with
  its text; \<open>None\<close> is nil.
\<close>

section \<open>Classes\<close>

datatype QueryClass = ClassBackground | ClassInteractive | ClassProbe | ClassFarmIngest | ClassAuthoring

definition class_String :: "QueryClass \<Rightarrow> string" where
  "class_String c = (case c of
     ClassInteractive \<Rightarrow> ''interactive''
   | ClassProbe \<Rightarrow> ''probe''
   | ClassFarmIngest \<Rightarrow> ''farm_ingest''
   | ClassAuthoring \<Rightarrow> ''authoring''
   | ClassBackground \<Rightarrow> ''background'')"

text \<open>The constants of the \<open>uint8\<close> type, in order; \<open>NewQueryBudget\<close> reads any other value as background.\<close>

definition query_classes :: "QueryClass list" where
  "query_classes = [ClassBackground, ClassInteractive, ClassProbe, ClassFarmIngest, ClassAuthoring]"

definition class_of_value :: "nat \<Rightarrow> QueryClass" where
  "class_of_value v = (if length query_classes \<le> v then ClassBackground else query_classes ! v)"

section \<open>Errors\<close>

datatype sentinel = ErrPoolBusy | DeadlineExceeded | ContextCanceled

record go_error =
  geIs :: "sentinel list"
  gePg :: "(string \<times> string) option"
  geNet :: "(bool \<times> bool) option"
  geText :: string

fun Contains :: "string \<Rightarrow> string \<Rightarrow> bool" where
  "Contains [] sub = (sub = [])"
| "Contains (c # s) sub = (HasPrefix (c # s) sub \<or> Contains s sub)"

definition IsPoolBusy :: "go_error option \<Rightarrow> bool" where
  "IsPoolBusy err = (case err of None \<Rightarrow> False | Some e \<Rightarrow> ErrPoolBusy \<in> set (geIs e))"

definition IsQueryTimeout :: "go_error option \<Rightarrow> bool" where
  "IsQueryTimeout err = (case err of None \<Rightarrow> False | Some e \<Rightarrow>
     (case gePg e of None \<Rightarrow> False | Some (code, message) \<Rightarrow>
        if code \<noteq> ''57014'' then False else message = ''canceling statement due to statement timeout''))"

definition IsQueryCanceled :: "go_error option \<Rightarrow> bool" where
  "IsQueryCanceled err = (case err of None \<Rightarrow> False | Some e \<Rightarrow>
     (case gePg e of None \<Rightarrow> False | Some (code, message) \<Rightarrow> code = ''57014''))"

definition transient_markers :: "string list" where
  "transient_markers = [''connection refused'', ''connection reset'', ''broken pipe'', ''i/o timeout'',
     ''server closed the query connection'', ''unexpected EOF'', ''EOF'']"

definition IsTransientReadError :: "go_error option \<Rightarrow> bool" where
  "IsTransientReadError err = (case err of None \<Rightarrow> False | Some e \<Rightarrow>
     if ErrPoolBusy \<in> set (geIs e) \<or> DeadlineExceeded \<in> set (geIs e) then True
     else if IsQueryTimeout err \<or> IsQueryCanceled err then True
     else if (case geNet e of None \<Rightarrow> False | Some (timeout, temporary) \<Rightarrow> timeout \<or> temporary) then True
     else list_ex (Contains (geText e)) transient_markers)"

definition retryable_markers :: "string list" where
  "retryable_markers = [''connection refused'', ''connection reset'', ''broken pipe'', ''i/o timeout'',
     ''server closed the query connection'', ''unexpected EOF'', ''conn closed'', ''EOF'']"

definition IsRetryableTransportError :: "go_error option \<Rightarrow> bool" where
  "IsRetryableTransportError err = (case err of None \<Rightarrow> False | Some e \<Rightarrow>
     if ErrPoolBusy \<in> set (geIs e) \<or> DeadlineExceeded \<in> set (geIs e) \<or> ContextCanceled \<in> set (geIs e) then False
     else (case gePg e of
        Some (code, message) \<Rightarrow> HasPrefix code ''08''
      | None \<Rightarrow> (case geNet e of
          Some _ \<Rightarrow> True
        | None \<Rightarrow> list_ex (Contains (geText e)) retryable_markers)))"

section \<open>Policy\<close>

record PoolPolicy =
  poEnabled :: bool
  poMaxConns :: int
  poProbeReserve :: int
  poInteractiveConns :: int
  poBackgroundConns :: int
  poFarmIngestConns :: int
  poAuthoringConns :: int
  poAuthoringTimeout :: int
  poAuthoringWait :: int
  poReadTimeout :: int
  poReadWait :: int
  poProbeTimeout :: int
  poProbeWait :: int
  poFarmIngestTimeout :: int
  poFarmIngestWait :: int

definition second_ns :: int where
  "second_ns = 1000000000"

definition defaultMaxConns :: int where
  "defaultMaxConns = 16"

definition DefaultPoolPolicy :: PoolPolicy where
  "DefaultPoolPolicy = \<lparr>poEnabled = True, poMaxConns = defaultMaxConns, poProbeReserve = 1, poInteractiveConns = 6,
     poBackgroundConns = 4, poFarmIngestConns = 2, poAuthoringConns = 4, poAuthoringTimeout = 10 * second_ns,
     poAuthoringWait = second_ns, poReadTimeout = 8 * second_ns, poReadWait = 3 * second_ns,
     poProbeTimeout = 2 * second_ns, poProbeWait = second_ns, poFarmIngestTimeout = 30 * second_ns,
     poFarmIngestWait = 5 * second_ns\<rparr>"

definition clamp_share :: "int \<Rightarrow> int \<Rightarrow> int" where
  "clamp_share general n = (if n < 1 \<or> general < n then general else n)"

definition no_negative :: "int \<Rightarrow> int" where
  "no_negative d = (if d < 0 then 0 else d)"

definition policy_normalize :: "PoolPolicy \<Rightarrow> PoolPolicy" where
  "policy_normalize p0 =
     (let p = (if poMaxConns p0 < 1 then p0\<lparr>poMaxConns := defaultMaxConns\<rparr> else p0)
      in if \<not> poEnabled p
         then \<lparr>poEnabled = False, poMaxConns = poMaxConns p, poProbeReserve = 0, poInteractiveConns = 0,
               poBackgroundConns = 0, poFarmIngestConns = 0, poAuthoringConns = 0, poAuthoringTimeout = 0,
               poAuthoringWait = 0, poReadTimeout = 0, poReadWait = 0, poProbeTimeout = 0, poProbeWait = 0,
               poFarmIngestTimeout = 0, poFarmIngestWait = 0\<rparr>
         else
           let reserve0 = (if poProbeReserve p < 0 then 0 else poProbeReserve p);
               reserve = (if poMaxConns p - 1 < reserve0 then poMaxConns p - 1 else reserve0);
               general = poMaxConns p - reserve
           in p\<lparr>poProbeReserve := reserve,
                poInteractiveConns := clamp_share general (poInteractiveConns p),
                poBackgroundConns := clamp_share general (poBackgroundConns p),
                poFarmIngestConns := clamp_share general (poFarmIngestConns p),
                poAuthoringConns := clamp_share general (poAuthoringConns p),
                poReadTimeout := no_negative (poReadTimeout p), poReadWait := no_negative (poReadWait p),
                poProbeTimeout := no_negative (poProbeTimeout p), poProbeWait := no_negative (poProbeWait p),
                poFarmIngestTimeout := no_negative (poFarmIngestTimeout p),
                poFarmIngestWait := no_negative (poFarmIngestWait p),
                poAuthoringTimeout := no_negative (poAuthoringTimeout p),
                poAuthoringWait := no_negative (poAuthoringWait p)\<rparr>)"

definition general :: "PoolPolicy \<Rightarrow> int" where
  "general p = poMaxConns p - poProbeReserve p"

definition statementTimeout :: "PoolPolicy \<Rightarrow> QueryClass \<Rightarrow> int" where
  "statementTimeout p c =
     (if \<not> poEnabled p then 0
      else case c of ClassInteractive \<Rightarrow> poReadTimeout p | ClassProbe \<Rightarrow> poProbeTimeout p
        | ClassFarmIngest \<Rightarrow> poFarmIngestTimeout p | ClassAuthoring \<Rightarrow> poAuthoringTimeout p | ClassBackground \<Rightarrow> 0)"

definition wait_budget :: "PoolPolicy \<Rightarrow> QueryClass \<Rightarrow> int" where
  "wait_budget p c =
     (if \<not> poEnabled p then 0
      else case c of ClassInteractive \<Rightarrow> poReadWait p | ClassProbe \<Rightarrow> poProbeWait p
        | ClassFarmIngest \<Rightarrow> poFarmIngestWait p | ClassAuthoring \<Rightarrow> poAuthoringWait p | ClassBackground \<Rightarrow> 0)"

section \<open>Budgets\<close>

record QueryBudget =
  qbClass :: QueryClass
  qbRetry :: bool
  qbWaitedNS :: int
  qbBusy :: int
  qbTimeouts :: int
  qbAttempts :: u64
  qbSuppressed :: int

definition NewQueryBudget :: "nat \<Rightarrow> QueryBudget" where
  "NewQueryBudget v = \<lparr>qbClass = class_of_value v, qbRetry = False, qbWaitedNS = 0, qbBusy = 0, qbTimeouts = 0,
     qbAttempts = 0, qbSuppressed = 0\<rparr>"

definition NewRetryQueryBudget :: "nat \<Rightarrow> QueryBudget" where
  "NewRetryQueryBudget v = (NewQueryBudget v)\<lparr>qbRetry := True\<rparr>"

definition budget_class :: "QueryBudget option \<Rightarrow> QueryClass" where
  "budget_class b = (case b of None \<Rightarrow> ClassBackground | Some q \<Rightarrow> qbClass q)"

definition Pressure :: "QueryBudget option \<Rightarrow> int \<times> int \<times> int" where
  "Pressure b = (case b of None \<Rightarrow> (0, 0, 0) | Some q \<Rightarrow> (qbBusy q, qbTimeouts q, qbWaitedNS q))"

definition Suppressed :: "QueryBudget option \<Rightarrow> int" where
  "Suppressed b = (case b of None \<Rightarrow> 0 | Some q \<Rightarrow> qbSuppressed q)"

definition backpressured :: "QueryBudget option \<Rightarrow> bool" where
  "backpressured b = (case b of None \<Rightarrow> False | Some q \<Rightarrow> 0 < qbBusy q \<or> 0 < qbTimeouts q)"

section \<open>Properties\<close>

definition usable :: "PoolPolicy \<Rightarrow> bool" where
  "usable p \<longleftrightarrow> 1 \<le> poMaxConns p \<and>
     (poEnabled p \<longrightarrow> 0 \<le> poProbeReserve p \<and> poProbeReserve p < poMaxConns p \<and>
        (\<forall>n \<in> {poInteractiveConns p, poBackgroundConns p, poFarmIngestConns p, poAuthoringConns p}. 1 \<le> n \<and> n \<le> general p)) \<and>
     (\<forall>c. 0 \<le> statementTimeout p c \<and> 0 \<le> wait_budget p c)"

lemma clamp_share_bounds: "1 \<le> g \<Longrightarrow> 1 \<le> clamp_share g n \<and> clamp_share g n \<le> g"
  by (simp add: clamp_share_def)

lemma clamp_share_id [simp]: "1 \<le> n \<Longrightarrow> n \<le> g \<Longrightarrow> clamp_share g n = n"
  by (simp add: clamp_share_def)

lemma no_negative_id [simp]: "0 \<le> no_negative d" "0 \<le> d \<Longrightarrow> no_negative d = d"
  by (simp_all add: no_negative_def)

lemma normalize_usable: "usable (policy_normalize p)"
proof -
  define max where "max = (if poMaxConns p < 1 then defaultMaxConns else poMaxConns p)"
  define reserve where "reserve = (let r = (if poProbeReserve p < 0 then 0 else poProbeReserve p) in
    if max - 1 < r then max - 1 else r)"
  have m: "1 \<le> max" by (simp add: max_def defaultMaxConns_def)
  have r: "0 \<le> reserve" "reserve \<le> max - 1" using m by (auto simp: reserve_def Let_def)
  have fields: "poMaxConns (policy_normalize p) = max" "poEnabled (policy_normalize p) = poEnabled p"
    "poEnabled p \<Longrightarrow> poProbeReserve (policy_normalize p) = reserve"
    by (simp_all add: policy_normalize_def max_def reserve_def Let_def)
  have shares: "1 \<le> n \<and> n \<le> general (policy_normalize p)"
    if "poEnabled p" "n \<in> {poInteractiveConns (policy_normalize p), poBackgroundConns (policy_normalize p),
        poFarmIngestConns (policy_normalize p), poAuthoringConns (policy_normalize p)}" for n
  proof -
    have "general (policy_normalize p) = max - reserve" using that(1) fields by (simp add: general_def)
    moreover have "\<exists>k. n = clamp_share (max - reserve) k"
      using that by (auto simp: policy_normalize_def max_def reserve_def Let_def)
    ultimately show ?thesis using r clamp_share_bounds by force
  qed
  have times: "0 \<le> statementTimeout (policy_normalize p) c \<and> 0 \<le> wait_budget (policy_normalize p) c" for c
    by (cases c) (auto simp: statementTimeout_def wait_budget_def policy_normalize_def Let_def)
  show ?thesis using m r shares times fields by (simp add: usable_def)
qed



text \<open>What may be retried is described exactly against what is transient: an error that is worth a second
  attempt and is not counted as transient is an answer of class 08 or a network error that is neither a timeout
  nor temporary, with none of the transport texts, or a connection the driver calls closed; and no refusal of
  the pool, no expired deadline and no statement the ceiling cancelled is ever retried.\<close>

theorem retryable_beyond_transient:
  "(IsRetryableTransportError (Some e) \<and> \<not> IsTransientReadError (Some e) \<longleftrightarrow>
     set (geIs e) = {} \<and> \<not> list_ex (Contains (geText e)) transient_markers \<and>
     (case gePg e of
        Some (code, _) \<Rightarrow> HasPrefix code ''08'' \<and> (\<forall>b t. geNet e = Some (b, t) \<longrightarrow> \<not> b \<and> \<not> t)
      | None \<Rightarrow> (case geNet e of Some (b, t) \<Rightarrow> \<not> b \<and> \<not> t | None \<Rightarrow> Contains (geText e) ''conn closed''))) \<and>
   (IsPoolBusy (Some e) \<or> IsQueryTimeout (Some e) \<or> IsQueryCanceled (Some e) \<or> DeadlineExceeded \<in> set (geIs e) \<longrightarrow>
     \<not> IsRetryableTransportError (Some e))"
proof -
  have none: "set (geIs e) = {} \<longleftrightarrow> ErrPoolBusy \<notin> set (geIs e) \<and> DeadlineExceeded \<notin> set (geIs e) \<and> ContextCanceled \<notin> set (geIs e)"
  proof
    assume *: "ErrPoolBusy \<notin> set (geIs e) \<and> DeadlineExceeded \<notin> set (geIs e) \<and> ContextCanceled \<notin> set (geIs e)"
    have "x \<notin> set (geIs e)" for x using * by (cases x) auto
    then show "set (geIs e) = {}" by (intro equals0I) auto
  qed simp
  have code: "c = ''57014'' \<Longrightarrow> \<not> HasPrefix c ''08''" for c by (simp add: HasPrefix_def)
  have marks: "list_ex (Contains t) retryable_markers \<longleftrightarrow> list_ex (Contains t) transient_markers \<or> Contains t ''conn closed''" for t
    unfolding retryable_markers_def transient_markers_def by (simp add: disj_ac)
  show ?thesis
    unfolding none IsRetryableTransportError_def IsTransientReadError_def IsQueryTimeout_def IsQueryCanceled_def
      IsPoolBusy_def marks option.case
    using code by (auto split: option.split)
qed

definition closed_session :: go_error where
  "closed_session = \<lparr>geIs = [], gePg = Some (''08006'', ''connection failure''), geNet = None,
     geText = ''connection failure (SQLSTATE 08006)''\<rparr>"

theorem retryable_beyond_transient_witness:
  "IsRetryableTransportError (Some closed_session) \<and> \<not> IsTransientReadError (Some closed_session)"
proof -
  have "\<not> list_ex (Contains (geText closed_session)) transient_markers" "HasPrefix ''08006'' ''08''"
    by code_simp+
  then show ?thesis
    using retryable_beyond_transient [of closed_session] by (simp add: closed_session_def)
qed

end
