(* ===== verification/Interleaving.thy ===== *)
theory Interleaving
  imports Prelude
begin

text \<open>
  Any number of clients around one shared state.  A client takes a step on the shared state and on its own;
  a system is the shared state with the list of its clients, and its runs interleave the steps of the clients
  in every order.  The locale \<open>conserved\<close> is the contract of a quantity that the clients hold shares of: a
  step of a client changes the shared amount by what it changes of that client's share.
\<close>

type_synonym ('e, 's, 'c) client_step = "'e \<Rightarrow> 's \<Rightarrow> 'c \<Rightarrow> ('s \<times> 'c) option"

fun system_step :: "('e, 's, 'c) client_step \<Rightarrow> nat \<times> 'e \<Rightarrow> 's \<times> 'c list \<Rightarrow> ('s \<times> 'c list) option" where
  "system_step step (i, e) (s, cs) =
     (if i < length cs then (case step e s (cs ! i) of None \<Rightarrow> None | Some (s', c') \<Rightarrow> Some (s', cs[i := c'])) else None)"

fun system_run :: "('e, 's, 'c) client_step \<Rightarrow> (nat \<times> 'e) list \<Rightarrow> 's \<times> 'c list \<Rightarrow> ('s \<times> 'c list) option" where
  "system_run step [] x = Some x"
| "system_run step (e # es) x = (case system_step step e x of None \<Rightarrow> None | Some y \<Rightarrow> system_run step es y)"

inductive reaches :: "('e, 's, 'c) client_step \<Rightarrow> 's \<times> 'c list \<Rightarrow> 's \<times> 'c list \<Rightarrow> bool" for step x where
  here: "reaches step x x"
| step: "reaches step x (s, cs) \<Longrightarrow> i < length cs \<Longrightarrow> step e s (cs ! i) = Some (s', c') \<Longrightarrow>
    reaches step x (s', cs[i := c'])"

lemma reaches_step1: "reaches step x y \<Longrightarrow> system_step step ie y = Some z \<Longrightarrow> reaches step x z"
  by (cases ie; cases y) (auto intro: reaches.step split: if_splits option.splits)

lemma run_reaches: "system_run step es y = Some z \<Longrightarrow> reaches step x y \<Longrightarrow> reaches step x z"
  by (induction es arbitrary: y) (auto split: option.splits intro: reaches_step1)

lemma reaches_length: "reaches step x y \<Longrightarrow> length (snd y) = length (snd x)"
  by (induction rule: reaches.induct) auto

lemma sum_list_update_group:
  "i < length cs \<Longrightarrow> sum_list (map w (cs[i := c'])) = sum_list (map w cs) - w (cs ! i) + (w c' :: 'm :: ab_group_add)"
proof (induction cs arbitrary: i)
  case (Cons c cs)
  then show ?case by (cases i) (simp_all add: algebra_simps)
qed simp

text \<open>What holds of the shared state and of every client alone.\<close>

locale client_invariant =
  fixes step :: "('e, 's, 'c) client_step" and shared :: "'s \<Rightarrow> bool" and good :: "'c \<Rightarrow> bool"
  assumes keeps: "shared s \<Longrightarrow> good c \<Longrightarrow> step e s c = Some (s', c') \<Longrightarrow> shared s' \<and> good c'"
begin

lemma invariant:
  assumes "reaches step x y" and "shared (fst x)" and "list_all good (snd x)"
  shows "shared (fst y) \<and> list_all good (snd y)"
  using assms(1)
proof (induction rule: reaches.induct)
  case here
  then show ?case using assms(2,3) by simp
next
  case (step s cs i e s' c')
  then have "good (cs ! i)" "shared s" by (simp_all add: list_all_length)
  then have "shared s' \<and> good c'" using keeps step.hyps(3) by blast
  then show ?case using step.IH step.hyps(2) by (auto simp: list_all_length nth_list_update)
qed

end

locale conserved = client_invariant step shared good
  for step :: "('e, 's, 'c) client_step" and shared good +
  fixes amount :: "'s \<Rightarrow> 'm :: ab_group_add" and share :: "'c \<Rightarrow> 'm"
  assumes conserves: "shared s \<Longrightarrow> good c \<Longrightarrow> step e s c = Some (s', c') \<Longrightarrow> amount s' - share c' = amount s - share c"
begin

lemma conserved:
  assumes "reaches step x y" and "shared (fst x)" and "list_all good (snd x)"
  shows "amount (fst y) - sum_list (map share (snd y)) = amount (fst x) - sum_list (map share (snd x))"
  using assms(1)
proof (induction rule: reaches.induct)
  case here
  then show ?case by simp
next
  case (step s cs i e s' c')
  have "shared s" "good (cs ! i)" using invariant [OF step.hyps(1) assms(2,3)] step.hyps(2) by (auto simp: list_all_length)
  from conserves [OF this step.hyps(3)] step.IH show ?case
    by (simp add: sum_list_update_group [OF step.hyps(2)] algebra_simps)
qed

end

end
