(* ===== verification/Pool.thy ===== *)
theory Pool
  imports PoolPolicy Interleaving
begin

text \<open>
  The connections of the database pool, \<open>connPool\<close> of \<open>src/internal/serverstore/pool.go\<close>, as any number of
  goroutines around the shared pool.  A channel used as a semaphore is its number of tokens, the channel of
  idle connections a queue.  The program counter of a goroutine inside \<open>acquire\<close>, \<open>release\<close> or \<open>close\<close> is its
  \<open>phase\<close>; one step is one channel operation, one read of the live ceiling or one call to the database, with
  the counters around it.  A step that would block is not enabled (\<open>None\<close>).  What the environment decides is
  an argument of the event: whether a context has ended, whether the driver reports a connection closed, what a
  dial or a \<open>SET\<close> returned, and how long something took (the clock is monotone, so the time to the grant of a
  connection is not negative).  The statistics are read at one instant.
\<close>

section \<open>Shared state\<close>

datatype gate = GGeneral | GInter | GBack | GProbe | GFarm | GAuthoring

text \<open>\<open>pcSession\<close> is the ceiling PostgreSQL holds for the session, in milliseconds; zero is none.\<close>

record pooledConn =
  pcStmtTimeout :: int
  pcSession :: int
  pcClass :: QueryClass
  pcGates :: "gate list"

record classCounters =
  ccInUse :: u64
  ccAttempts :: u64
  ccFirst :: u64
  ccRetries :: u64
  ccFollowups :: u64
  ccAcquired :: u64
  ccWaited :: u64
  ccWaitNS :: u64
  ccWaitMaxNS :: u64
  ccBusy :: u64
  ccSuppressed :: u64
  ccCanceled :: u64
  ccFailed :: u64
  ccTimeouts :: u64

record connPool =
  plPol :: PoolPolicy
  plIdle :: "pooledConn list"
  plSem :: nat
  plClosed :: bool
  plTokens :: "gate \<Rightarrow> nat"
  plFarmConns :: int
  plStats :: "QueryClass \<Rightarrow> classCounters"
  plBudgets :: "nat \<Rightarrow> QueryBudget"

definition zero_counters :: classCounters where
  "zero_counters = \<lparr>ccInUse = 0, ccAttempts = 0, ccFirst = 0, ccRetries = 0, ccFollowups = 0, ccAcquired = 0,
     ccWaited = 0, ccWaitNS = 0, ccWaitMaxNS = 0, ccBusy = 0, ccSuppressed = 0, ccCanceled = 0, ccFailed = 0,
     ccTimeouts = 0\<rparr>"

text \<open>The pool, with the budgets of the requests (\<open>plBudgets\<close>), which the callers create.\<close>

definition newConnPool :: "(nat \<Rightarrow> QueryBudget) \<Rightarrow> PoolPolicy \<Rightarrow> connPool" where
  "newConnPool budgets pol0 =
     (let pol = policy_normalize pol0
      in \<lparr>plPol = pol, plIdle = [], plSem = 0, plClosed = False, plTokens = (\<lambda>_. 0),
          plFarmConns = poFarmIngestConns pol, plStats = (\<lambda>_. zero_counters), plBudgets = budgets\<rparr>)"

definition gate_cap :: "PoolPolicy \<Rightarrow> gate \<Rightarrow> int" where
  "gate_cap pol g = (case g of
     GGeneral \<Rightarrow> general pol
   | GInter \<Rightarrow> poInteractiveConns pol
   | GBack \<Rightarrow> poBackgroundConns pol
   | GFarm \<Rightarrow> poFarmIngestConns pol
   | GAuthoring \<Rightarrow> poAuthoringConns pol
   | GProbe \<Rightarrow> (if poProbeReserve pol < 1 then 1 else poProbeReserve pol))"

definition SetFarmIngestConns :: "int \<Rightarrow> connPool \<Rightarrow> connPool" where
  "SetFarmIngestConns n p =
     (let n1 = (if n < 0 then 0 else n);
          ceiling = poFarmIngestConns (plPol p);
          n2 = (if ceiling < n1 then ceiling else n1)
      in p\<lparr>plFarmConns := n2\<rparr>)"

definition class_gate :: "QueryClass \<Rightarrow> gate" where
  "class_gate cl = (case cl of ClassProbe \<Rightarrow> GProbe | ClassInteractive \<Rightarrow> GInter | ClassFarmIngest \<Rightarrow> GFarm
     | ClassAuthoring \<Rightarrow> GAuthoring | ClassBackground \<Rightarrow> GBack)"

definition gatesFor :: "PoolPolicy \<Rightarrow> QueryClass \<Rightarrow> gate list" where
  "gatesFor pol cl =
     (if \<not> poEnabled pol then []
      else case cl of
        ClassProbe \<Rightarrow> [GProbe]
      | ClassInteractive \<Rightarrow> [GInter, GGeneral]
      | ClassFarmIngest \<Rightarrow> [GFarm, GGeneral]
      | ClassAuthoring \<Rightarrow> [GAuthoring, GGeneral]
      | ClassBackground \<Rightarrow> [GBack, GGeneral])"

text \<open>Channel operations: sending takes a token, receiving gives one back; both block at their bound.\<close>

definition take_token :: "gate \<Rightarrow> connPool \<Rightarrow> connPool option" where
  "take_token g p = (if int (plTokens p g) < gate_cap (plPol p) g
     then Some (p\<lparr>plTokens := (plTokens p)(g := plTokens p g + 1)\<rparr>) else None)"

definition give_token :: "gate \<Rightarrow> connPool \<Rightarrow> connPool option" where
  "give_token g p = (if 0 < plTokens p g
     then Some (p\<lparr>plTokens := (plTokens p)(g := plTokens p g - 1)\<rparr>) else None)"

definition take_slot :: "connPool \<Rightarrow> connPool option" where
  "take_slot p = (if int (plSem p) < poMaxConns (plPol p) then Some (p\<lparr>plSem := plSem p + 1\<rparr>) else None)"

definition give_slot :: "connPool \<Rightarrow> connPool option" where
  "give_slot p = (if 0 < plSem p then Some (p\<lparr>plSem := plSem p - 1\<rparr>) else None)"

definition push_idle :: "pooledConn \<Rightarrow> connPool \<Rightarrow> connPool option" where
  "push_idle cn p = (if int (length (plIdle p)) < poMaxConns (plPol p)
     then Some (p\<lparr>plIdle := plIdle p @ [cn]\<rparr>) else None)"

section \<open>Counters and budgets\<close>

definition observeWait :: "int \<Rightarrow> classCounters \<Rightarrow> classCounters" where
  "observeWait d c =
     (if d < 1000000 then c
      else c\<lparr>ccWaited := ccWaited c + 1, ccWaitNS := ccWaitNS c + word_of_int d,
             ccWaitMaxNS := (if (word_of_int d :: u64) \<le> ccWaitMaxNS c then ccWaitMaxNS c else word_of_int d)\<rparr>)"

definition count_stat :: "QueryClass \<Rightarrow> (classCounters \<Rightarrow> classCounters) \<Rightarrow> connPool \<Rightarrow> connPool" where
  "count_stat cl f p = p\<lparr>plStats := (plStats p)(cl := f (plStats p cl))\<rparr>"

definition count_budget :: "nat option \<Rightarrow> (QueryBudget \<Rightarrow> QueryBudget) \<Rightarrow> connPool \<Rightarrow> connPool" where
  "count_budget b f p = (case b of None \<Rightarrow> p | Some i \<Rightarrow> p\<lparr>plBudgets := (plBudgets p)(i := f (plBudgets p i))\<rparr>)"

definition BudgetOf :: "nat option \<Rightarrow> connPool \<Rightarrow> QueryBudget option" where
  "BudgetOf b p = map_option (plBudgets p) b"

definition observeAttempt :: "nat option \<Rightarrow> QueryClass \<Rightarrow> connPool \<Rightarrow> connPool" where
  "observeAttempt b cl p0 =
     (let p = count_stat cl (\<lambda>c. c\<lparr>ccAttempts := ccAttempts c + 1\<rparr>) p0
      in case BudgetOf b p of
           None \<Rightarrow> count_stat cl (\<lambda>c. c\<lparr>ccFirst := ccFirst c + 1\<rparr>) p
         | Some q \<Rightarrow>
             (let n = qbAttempts q + 1;
                  p' = count_budget b (\<lambda>q. q\<lparr>qbAttempts := n\<rparr>) p
              in if n = 1 then
                   (if qbRetry q then count_stat cl (\<lambda>c. c\<lparr>ccRetries := ccRetries c + 1\<rparr>) p'
                    else count_stat cl (\<lambda>c. c\<lparr>ccFirst := ccFirst c + 1\<rparr>) p')
                 else count_stat cl (\<lambda>c. c\<lparr>ccFollowups := ccFollowups c + 1\<rparr>) p'))"

definition chargeBudget :: "nat option \<Rightarrow> int \<Rightarrow> connPool \<Rightarrow> connPool" where
  "chargeBudget b spent = count_budget b (\<lambda>q. q\<lparr>qbWaitedNS := wrap64 (qbWaitedNS q + spent)\<rparr>)"

definition charge :: "nat option \<Rightarrow> QueryClass \<Rightarrow> int \<Rightarrow> int \<Rightarrow> connPool \<Rightarrow> connPool" where
  "charge b cl spent queued p0 =
     (let p = chargeBudget b spent p0
      in if queued < 0 then p
         else count_stat cl (\<lambda>c. observeWait (if queued < 1000000 then 0 else queued) (c\<lparr>ccAcquired := ccAcquired c + 1\<rparr>)) p)"

section \<open>Goroutines\<close>

datatype ctx_state = Live | CallerDone | BudgetDone

datatype refusal = Busy | Canceled | Failed

text \<open>
  \<open>Gating todo\<close>: before the first gate of \<open>todo\<close>.  \<open>Admitting\<close>: holding a farm token, in \<open>farmAdmitted\<close>, before or
  after it has read the ceiling.  \<open>Checkout\<close> and \<open>Blocked\<close>: at the first and the second \<open>select\<close> of \<open>checkout\<close>.
  \<open>Dialing\<close>: in \<open>pgx.ConnectConfig\<close>, with a slot.  \<open>Ready\<close>: back in \<open>acquire\<close>, with a connection.  \<open>Setup\<close>: in
  the \<open>SET\<close> of \<open>applyStatementTimeout\<close>.  \<open>Using\<close>: the caller has it.  \<open>Returning\<close>: about to send it on \<open>idle\<close>.
  \<open>Leaving\<close>: giving the gates back, after a release or in \<open>fail\<close> with its error and queueing time.  \<open>Closing\<close>:
  in the loop of \<open>close\<close>.
\<close>

datatype phase = Out | Gating "gate list" | Admitting "gate list" "int option" | Checkout | Blocked | Dialing
  | Ready pooledConn | Setup pooledConn | Using pooledConn | Returning pooledConn "(refusal \<times> int) option"
  | Leaving "(refusal \<times> int) option" | Closing

record client =
  clPhase :: phase
  clClass :: QueryClass
  clBudget :: "nat option"
  clHeld :: "gate list"
  clGranted :: int

definition idle_client :: client where
  "idle_client = \<lparr>clPhase = Out, clClass = ClassBackground, clBudget = None, clHeld = [], clGranted = -1\<rparr>"

text \<open>A wait budget can only end where there is one; otherwise \<open>waitContext\<close> is the caller's context.\<close>

definition waitContext :: "PoolPolicy \<Rightarrow> QueryClass \<Rightarrow> ctx_state \<Rightarrow> bool" where
  "waitContext pol cl ctx \<longleftrightarrow> (ctx = BudgetDone \<longrightarrow> 0 < wait_budget pol cl)"

definition waitErr :: "ctx_state \<Rightarrow> refusal" where
  "waitErr ctx = (if ctx = CallerDone then Canceled else Busy)"

definition next_gate :: "gate list \<Rightarrow> phase" where
  "next_gate todo = (if todo = [] then Checkout else Gating todo)"

definition leave :: "refusal \<Rightarrow> int \<Rightarrow> client \<Rightarrow> client" where
  "leave r queued c = c\<lparr>clPhase := Leaving (Some (r, queued))\<rparr>"

text \<open>\<open>acquire\<close> up to its first gate.\<close>

definition acquire :: "nat option \<Rightarrow> ctx_state \<Rightarrow> connPool \<Rightarrow> client \<Rightarrow> (connPool \<times> client) option" where
  "acquire b ctx p0 c0 =
     (case clPhase c0 of
        Out \<Rightarrow>
          (let cl = budget_class (BudgetOf b p0);
               p = observeAttempt b cl p0;
               c = c0\<lparr>clClass := cl, clBudget := b, clHeld := [], clGranted := -1\<rparr>
           in if \<not> waitContext (plPol p) cl ctx then None
              else if cl = ClassInteractive \<and> backpressured (BudgetOf b p) then
                Some (count_budget b (\<lambda>q. q\<lparr>qbSuppressed := wrap64 (qbSuppressed q + 1)\<rparr>)
                        (count_stat cl (\<lambda>s. s\<lparr>ccSuppressed := ccSuppressed s + 1\<rparr>) p), c)
              else if plClosed p then Some (count_stat cl (\<lambda>s. s\<lparr>ccFailed := ccFailed s + 1\<rparr>) p, c)
              else if ctx \<noteq> Live then Some (p, leave (waitErr ctx) 0 c)
              else if cl = ClassFarmIngest \<and> poEnabled (plPol p) \<and> plFarmConns p \<le> 0 then Some (p, leave Busy 0 c)
              else Some (p, c\<lparr>clPhase := next_gate (gatesFor (plPol p) cl)\<rparr>))
      | _ \<Rightarrow> None)"

text \<open>A token of the next gate, taken at once or after waiting; only then is the context looked at again.\<close>

definition pass_gate :: "ctx_state \<Rightarrow> int \<Rightarrow> connPool \<Rightarrow> client \<Rightarrow> (connPool \<times> client) option" where
  "pass_gate ctx queued p c =
     (case clPhase c of
        Gating (g # todo) \<Rightarrow>
          (if \<not> waitContext (plPol p) (clClass c) ctx then None
           else case take_token g p of
             None \<Rightarrow> None
           | Some p' \<Rightarrow>
               (let c' = c\<lparr>clHeld := clHeld c @ [g]\<rparr>
                in if ctx \<noteq> Live then Some (p', leave (waitErr ctx) queued c')
                   else if g = GFarm then Some (p', c'\<lparr>clPhase := Admitting todo None\<rparr>)
                   else Some (p', c'\<lparr>clPhase := next_gate todo\<rparr>)))
      | _ \<Rightarrow> None)"

definition give_up :: "ctx_state \<Rightarrow> int \<Rightarrow> connPool \<Rightarrow> client \<Rightarrow> (connPool \<times> client) option" where
  "give_up ctx queued p c =
     (if ctx = Live \<or> \<not> waitContext (plPol p) (clClass c) ctx then None
      else case clPhase c of
        Gating _ \<Rightarrow> Some (p, leave (waitErr ctx) queued c)
      | Blocked \<Rightarrow> Some (p, leave (waitErr ctx) queued c)
      | _ \<Rightarrow> None)"

text \<open>\<open>farmAdmitted\<close> reads the ceiling first and the number of tokens after it.\<close>

definition farm_limit :: "connPool \<Rightarrow> client \<Rightarrow> (connPool \<times> client) option" where
  "farm_limit p c = (case clPhase c of
     Admitting todo None \<Rightarrow> Some (p, c\<lparr>clPhase := Admitting todo (Some (plFarmConns p))\<rparr>)
   | _ \<Rightarrow> None)"

definition farmAdmitted :: "int \<Rightarrow> connPool \<Rightarrow> client \<Rightarrow> (connPool \<times> client) option" where
  "farmAdmitted queued p c = (case clPhase c of
     Admitting todo (Some limit) \<Rightarrow>
       (if int (plTokens p GFarm) \<le> limit then Some (p, c\<lparr>clPhase := next_gate todo\<rparr>)
        else Some (p, leave Busy queued c))
   | _ \<Rightarrow> None)"

text \<open>The idle connection \<open>checkout\<close> is handed, and \<open>ensureAlive\<close> on it.\<close>

definition fetch_idle :: "bool \<Rightarrow> int \<Rightarrow> connPool \<Rightarrow> client \<Rightarrow> (connPool \<times> client) option" where
  "fetch_idle dead queued p c =
     (if (clPhase c = Checkout \<or> clPhase c = Blocked) \<and> 0 \<le> queued then
        (case plIdle p of
           [] \<Rightarrow> None
         | cn # rest \<Rightarrow> Some (p\<lparr>plIdle := rest\<rparr>,
             c\<lparr>clGranted := queued, clPhase := (if dead then Dialing else Ready cn)\<rparr>))
      else None)"

definition find_no_idle :: "connPool \<Rightarrow> client \<Rightarrow> (connPool \<times> client) option" where
  "find_no_idle p c = (if clPhase c = Checkout \<and> plIdle p = [] then Some (p, c\<lparr>clPhase := Blocked\<rparr>) else None)"

definition open_slot :: "int \<Rightarrow> connPool \<Rightarrow> client \<Rightarrow> (connPool \<times> client) option" where
  "open_slot queued p c =
     (if clPhase c = Blocked \<and> 0 \<le> queued then
        (case take_slot p of None \<Rightarrow> None | Some p' \<Rightarrow> Some (p', c\<lparr>clGranted := queued, clPhase := Dialing\<rparr>))
      else None)"

text \<open>\<open>session\<close> is the ceiling a new session starts with.\<close>

definition dialed :: "int \<Rightarrow> connPool \<Rightarrow> client \<Rightarrow> (connPool \<times> client) option" where
  "dialed session p c = (if clPhase c = Dialing
     then Some (p, c\<lparr>clPhase := Ready \<lparr>pcStmtTimeout = -1, pcSession = session, pcClass = ClassBackground, pcGates = []\<rparr>\<rparr>)
     else None)"

definition dial_failed :: "bool \<Rightarrow> ctx_state \<Rightarrow> int \<Rightarrow> connPool \<Rightarrow> client \<Rightarrow> (connPool \<times> client) option" where
  "dial_failed of_context ctx queued p c =
     (if clPhase c = Dialing \<and> waitContext (plPol p) (clClass c) ctx then
        (case give_slot p of
           None \<Rightarrow> None
         | Some p' \<Rightarrow> Some (p', if of_context then leave (waitErr ctx) queued c else leave Failed (clGranted c) c))
      else None)"

definition granted :: "pooledConn \<Rightarrow> int \<Rightarrow> connPool \<Rightarrow> client \<Rightarrow> connPool \<times> client" where
  "granted cn spent p c =
     (count_stat (clClass c) (\<lambda>s. s\<lparr>ccInUse := ccInUse s + 1\<rparr>) (charge (clBudget c) (clClass c) spent (clGranted c) p),
      c\<lparr>clPhase := Using cn\<rparr>)"

text \<open>\<open>discard\<close>, or the way back to \<open>idle\<close>, of \<open>returnUnused\<close> and \<open>release\<close>.\<close>

definition hand_back :: "bool \<Rightarrow> pooledConn \<Rightarrow> (refusal \<times> int) option \<Rightarrow> connPool \<Rightarrow> client \<Rightarrow> (connPool \<times> client) option" where
  "hand_back dead cn after p c =
     (if plClosed p \<or> dead then
        (case give_slot p of None \<Rightarrow> None | Some p' \<Rightarrow> Some (p', c\<lparr>clPhase := Leaving after\<rparr>))
      else Some (p, c\<lparr>clPhase := Returning cn after\<rparr>))"

definition check_context :: "ctx_state \<Rightarrow> bool \<Rightarrow> int \<Rightarrow> connPool \<Rightarrow> client \<Rightarrow> (connPool \<times> client) option" where
  "check_context ctx dead queued p c =
     (case clPhase c of
        Ready cn \<Rightarrow>
          (if \<not> waitContext (plPol p) (clClass c) ctx then None
           else if ctx \<noteq> Live then hand_back dead cn (Some (waitErr ctx, queued)) p c
           else
             (let cn' = cn\<lparr>pcClass := clClass c, pcGates := clHeld c\<rparr>
              in if pcStmtTimeout cn' = statementTimeout (plPol p) (clClass c) then Some (granted cn' queued p c)
                 else Some (p, c\<lparr>clPhase := Setup cn'\<rparr>)))
      | _ \<Rightarrow> None)"

definition timeout_set :: "int \<Rightarrow> connPool \<Rightarrow> client \<Rightarrow> (connPool \<times> client) option" where
  "timeout_set spent p c =
     (case clPhase c of
        Setup cn \<Rightarrow>
          (let want = statementTimeout (plPol p) (clClass c)
           in Some (granted (cn\<lparr>pcStmtTimeout := want, pcSession := want div 1000000\<rparr>) spent p c))
      | _ \<Rightarrow> None)"

definition timeout_failed :: "bool \<Rightarrow> connPool \<Rightarrow> client \<Rightarrow> (connPool \<times> client) option" where
  "timeout_failed of_context p c =
     (case clPhase c of
        Setup cn \<Rightarrow>
          (case give_slot p of
             None \<Rightarrow> None
           | Some p' \<Rightarrow> Some (p', leave (if of_context then Canceled else Failed) (clGranted c) c))
      | _ \<Rightarrow> None)"

definition release :: "bool \<Rightarrow> connPool \<Rightarrow> client \<Rightarrow> (connPool \<times> client) option" where
  "release dead p c =
     (case clPhase c of
        Using cn \<Rightarrow>
          hand_back dead (cn\<lparr>pcGates := [], pcClass := ClassBackground\<rparr>) None
            (count_stat (pcClass cn) (\<lambda>s. s\<lparr>ccInUse := ccInUse s - 1\<rparr>) p) (c\<lparr>clHeld := pcGates cn\<rparr>)
      | _ \<Rightarrow> None)"

definition send_idle :: "connPool \<Rightarrow> client \<Rightarrow> (connPool \<times> client) option" where
  "send_idle p c =
     (case clPhase c of
        Returning cn after \<Rightarrow> (case push_idle cn p of None \<Rightarrow> None | Some p' \<Rightarrow> Some (p', c\<lparr>clPhase := Leaving after\<rparr>))
      | _ \<Rightarrow> None)"

text \<open>Giving back the gates, last taken first, and the counters of \<open>fail\<close> at the end.\<close>

definition count_refusal :: "refusal \<Rightarrow> classCounters \<Rightarrow> classCounters" where
  "count_refusal r s = (case r of Busy \<Rightarrow> s\<lparr>ccBusy := ccBusy s + 1\<rparr> | Canceled \<Rightarrow> s\<lparr>ccCanceled := ccCanceled s + 1\<rparr>
     | Failed \<Rightarrow> s\<lparr>ccFailed := ccFailed s + 1\<rparr>)"

definition fail :: "refusal \<Rightarrow> int \<Rightarrow> int \<Rightarrow> connPool \<Rightarrow> client \<Rightarrow> connPool" where
  "fail r queued spent p c =
     (let p1 = count_stat (clClass c) (\<lambda>s. count_refusal r (observeWait queued s)) (chargeBudget (clBudget c) spent p)
      in if r = Busy then count_budget (clBudget c) (\<lambda>q. q\<lparr>qbBusy := wrap64 (qbBusy q + 1)\<rparr>) p1 else p1)"

definition leave_step :: "int \<Rightarrow> connPool \<Rightarrow> client \<Rightarrow> (connPool \<times> client) option" where
  "leave_step spent p c =
     (case clPhase c of
        Leaving after \<Rightarrow>
          (if clHeld c \<noteq> [] then
             (case give_token (last (clHeld c)) p of
                None \<Rightarrow> None | Some p' \<Rightarrow> Some (p', c\<lparr>clHeld := butlast (clHeld c)\<rparr>))
           else case after of
             None \<Rightarrow> Some (p, c\<lparr>clPhase := Out\<rparr>)
           | Some (r, queued) \<Rightarrow> Some (fail r queued spent p c, c\<lparr>clPhase := Out\<rparr>))
      | _ \<Rightarrow> None)"

definition observeQueryError :: "go_error option \<Rightarrow> connPool \<Rightarrow> client \<Rightarrow> (connPool \<times> client) option" where
  "observeQueryError err p c =
     (case clPhase c of
        Using _ \<Rightarrow>
          Some (if err = None \<or> \<not> IsQueryTimeout err then p
                else count_budget (clBudget c) (\<lambda>q. q\<lparr>qbTimeouts := wrap64 (qbTimeouts q + 1)\<rparr>)
                       (count_stat (budget_class (BudgetOf (clBudget c) p)) (\<lambda>s. s\<lparr>ccTimeouts := ccTimeouts s + 1\<rparr>) p), c)
      | _ \<Rightarrow> None)"

definition close_pool :: "connPool \<Rightarrow> client \<Rightarrow> (connPool \<times> client) option" where
  "close_pool p c =
     (case clPhase c of
        Out \<Rightarrow> Some (if plClosed p then (p, c) else (p\<lparr>plClosed := True\<rparr>, c\<lparr>clPhase := Closing\<rparr>))
      | _ \<Rightarrow> None)"

definition close_idle :: "connPool \<Rightarrow> client \<Rightarrow> (connPool \<times> client) option" where
  "close_idle p c =
     (case clPhase c of
        Closing \<Rightarrow>
          (case plIdle p of
             [] \<Rightarrow> Some (p, c\<lparr>clPhase := Out\<rparr>)
           | cn # rest \<Rightarrow> (case give_slot (p\<lparr>plIdle := rest\<rparr>) of None \<Rightarrow> None | Some p' \<Rightarrow> Some (p', c)))
      | _ \<Rightarrow> None)"

definition set_ceiling :: "int \<Rightarrow> connPool \<Rightarrow> client \<Rightarrow> (connPool \<times> client) option" where
  "set_ceiling n p c = (case clPhase c of Out \<Rightarrow> Some (SetFarmIngestConns n p, c) | _ \<Rightarrow> None)"

datatype pool_event = Acquire "nat option" ctx_state | PassGate ctx_state int | GiveUp ctx_state int | FarmLimit
  | FarmAdmitted int | FetchIdle bool int | FindNoIdle | OpenSlot int | Dialed int | DialFailed bool ctx_state int
  | CheckContext ctx_state bool int | TimeoutSet int | TimeoutFailed bool | Release bool | SendIdle | LeaveStep int
  | QueryError "go_error option" | ClosePool | CloseIdle | SetFarm int

definition pool_step :: "(pool_event, connPool, client) client_step" where
  "pool_step e = (case e of
     Acquire b ctx \<Rightarrow> acquire b ctx
   | PassGate ctx queued \<Rightarrow> pass_gate ctx queued
   | GiveUp ctx queued \<Rightarrow> give_up ctx queued
   | FarmLimit \<Rightarrow> farm_limit
   | FarmAdmitted queued \<Rightarrow> farmAdmitted queued
   | FetchIdle dead queued \<Rightarrow> fetch_idle dead queued
   | FindNoIdle \<Rightarrow> find_no_idle
   | OpenSlot queued \<Rightarrow> open_slot queued
   | Dialed session \<Rightarrow> dialed session
   | DialFailed of_context ctx queued \<Rightarrow> dial_failed of_context ctx queued
   | CheckContext ctx dead queued \<Rightarrow> check_context ctx dead queued
   | TimeoutSet spent \<Rightarrow> timeout_set spent
   | TimeoutFailed of_context \<Rightarrow> timeout_failed of_context
   | Release dead \<Rightarrow> release dead
   | SendIdle \<Rightarrow> send_idle
   | LeaveStep spent \<Rightarrow> leave_step spent
   | QueryError err \<Rightarrow> observeQueryError err
   | ClosePool \<Rightarrow> close_pool
   | CloseIdle \<Rightarrow> close_idle
   | SetFarm n \<Rightarrow> set_ceiling n)"

section \<open>Statistics\<close>

definition class_limit :: "connPool \<Rightarrow> QueryClass \<Rightarrow> int" where
  "class_limit p cl =
     (if poEnabled (plPol p)
      then (case cl of ClassBackground \<Rightarrow> poBackgroundConns (plPol p) | ClassInteractive \<Rightarrow> poInteractiveConns (plPol p)
          | ClassProbe \<Rightarrow> max (poProbeReserve (plPol p)) 1 | ClassFarmIngest \<Rightarrow> plFarmConns p
          | ClassAuthoring \<Rightarrow> poAuthoringConns (plPol p))
      else poMaxConns (plPol p))"

definition class_stat :: "connPool \<Rightarrow> QueryClass \<Rightarrow> ClassPoolStats" where
  "class_stat p cl =
     (let c = plStats p cl
      in \<lparr>cpClass = class_String cl, cpLimit = class_limit p cl, cpInUse = sint (ccInUse c), cpAttempts = ccAttempts c,
          cpFirst = ccFirst c, cpRetries = ccRetries c, cpFollowups = ccFollowups c, cpAcquired = ccAcquired c,
          cpWaited = ccWaited c, cpWaitTotal = sint (ccWaitNS c), cpWaitMax = sint (ccWaitMaxNS c), cpBusy = ccBusy c,
          cpSuppressed = ccSuppressed c, cpCanceled = ccCanceled c, cpFailed = ccFailed c, cpTimeouts = ccTimeouts c\<rparr>)"

definition stat :: "connPool \<Rightarrow> PoolStats" where
  "stat p =
     \<lparr>psEnabled = poEnabled (plPol p), psMaxConns = poMaxConns (plPol p), psOpen = int (plSem p),
      psInUse = max (int (plSem p) - int (length (plIdle p))) 0, psIdle = int (length (plIdle p)),
      psClasses = map (class_stat p) [ClassInteractive, ClassBackground, ClassProbe, ClassFarmIngest, ClassAuthoring]\<rparr>"

section \<open>What a step keeps\<close>

text \<open>Counters and budgets are apart from the channels.\<close>

lemma count_stat_fields [simp]:
  "plPol (count_stat cl f p) = plPol p" "plIdle (count_stat cl f p) = plIdle p" "plSem (count_stat cl f p) = plSem p"
  "plClosed (count_stat cl f p) = plClosed p" "plTokens (count_stat cl f p) = plTokens p"
  "plFarmConns (count_stat cl f p) = plFarmConns p" "plBudgets (count_stat cl f p) = plBudgets p"
  "plStats (count_stat cl f p) k = (if k = cl then f (plStats p cl) else plStats p k)"
  by (simp_all add: count_stat_def)

lemma count_budget_fields [simp]:
  "plPol (count_budget b h p) = plPol p" "plIdle (count_budget b h p) = plIdle p" "plSem (count_budget b h p) = plSem p"
  "plClosed (count_budget b h p) = plClosed p" "plTokens (count_budget b h p) = plTokens p"
  "plFarmConns (count_budget b h p) = plFarmConns p" "plStats (count_budget b h p) = plStats p"
  by (simp_all add: count_budget_def split: option.split)

lemma observeAttempt_fields [simp]:
  "plPol (observeAttempt b cl p) = plPol p" "plIdle (observeAttempt b cl p) = plIdle p" "plSem (observeAttempt b cl p) = plSem p"
  "plClosed (observeAttempt b cl p) = plClosed p" "plTokens (observeAttempt b cl p) = plTokens p"
  "plFarmConns (observeAttempt b cl p) = plFarmConns p"
  by (simp_all add: observeAttempt_def Let_def split: option.split)

lemma charge_fields [simp]:
  "plPol (chargeBudget b t p) = plPol p" "plIdle (chargeBudget b t p) = plIdle p" "plSem (chargeBudget b t p) = plSem p"
  "plTokens (chargeBudget b t p) = plTokens p" "plFarmConns (chargeBudget b t p) = plFarmConns p"
  "plStats (chargeBudget b t p) = plStats p"
  "plPol (charge b cl t q p) = plPol p" "plIdle (charge b cl t q p) = plIdle p" "plSem (charge b cl t q p) = plSem p"
  "plTokens (charge b cl t q p) = plTokens p" "plFarmConns (charge b cl t q p) = plFarmConns p"
  by (simp_all add: chargeBudget_def charge_def Let_def)

lemma fail_fields [simp]:
  "plPol (fail r q t p c) = plPol p" "plIdle (fail r q t p c) = plIdle p" "plSem (fail r q t p c) = plSem p"
  "plTokens (fail r q t p c) = plTokens p" "plFarmConns (fail r q t p c) = plFarmConns p"
  "plStats (fail r q t p c) k =
     (if k = clClass c then count_refusal r (observeWait q (plStats p k)) else plStats p k)"
  by (simp_all add: fail_def Let_def)

lemma observeWait_fields [simp]:
  "ccInUse (observeWait d s) = ccInUse s" "ccAttempts (observeWait d s) = ccAttempts s" "ccFirst (observeWait d s) = ccFirst s"
  "ccRetries (observeWait d s) = ccRetries s" "ccFollowups (observeWait d s) = ccFollowups s"
  "ccAcquired (observeWait d s) = ccAcquired s" "ccBusy (observeWait d s) = ccBusy s"
  "ccSuppressed (observeWait d s) = ccSuppressed s" "ccCanceled (observeWait d s) = ccCanceled s"
  "ccFailed (observeWait d s) = ccFailed s"
  by (simp_all add: observeWait_def)

lemma leave_fields [simp]:
  "clPhase (leave r q c) = Leaving (Some (r, q))" "clClass (leave r q c) = clClass c" "clHeld (leave r q c) = clHeld c"
  "clBudget (leave r q c) = clBudget c" "clGranted (leave r q c) = clGranted c"
  by (simp_all add: leave_def)

lemma SetFarmIngestConns_fields [simp]:
  "plPol (SetFarmIngestConns n p) = plPol p" "plIdle (SetFarmIngestConns n p) = plIdle p"
  "plSem (SetFarmIngestConns n p) = plSem p" "plTokens (SetFarmIngestConns n p) = plTokens p"
  "plStats (SetFarmIngestConns n p) = plStats p"
  by (simp_all add: SetFarmIngestConns_def Let_def)

lemmas pool_step_defs = acquire_def pass_gate_def give_up_def farm_limit_def farmAdmitted_def fetch_idle_def
  find_no_idle_def open_slot_def dialed_def dial_failed_def granted_def hand_back_def check_context_def timeout_set_def
  timeout_failed_def release_def send_idle_def leave_step_def observeQueryError_def close_pool_def close_idle_def
  set_ceiling_def take_token_def give_token_def take_slot_def give_slot_def push_idle_def

lemmas pool_step_splits = phase.splits option.splits list.splits if_splits

end
