(* ===== verification/PoolAdmission.thy ===== *)
theory PoolAdmission
  imports Pool
begin

text \<open>
  What the admission of the database pool guarantees, for every interleaving of any number of goroutines.
\<close>

section \<open>Invariants of the shared pool and of one goroutine\<close>

text \<open>The pool within its bounds, and a goroutine that holds what its program counter says.\<close>

definition conn_ok :: "pooledConn \<Rightarrow> bool" where
  "conn_ok cn \<longleftrightarrow> pcStmtTimeout cn \<noteq> -1 \<longrightarrow> pcSession cn = pcStmtTimeout cn div 1000000"

lemma conn_ok_owner [simp]:
  "conn_ok (cn\<lparr>pcClass := cl, pcGates := gs\<rparr>) \<longleftrightarrow> conn_ok cn" "conn_ok (cn\<lparr>pcGates := gs, pcClass := cl\<rparr>) \<longleftrightarrow> conn_ok cn"
  "conn_ok (cn\<lparr>pcStmtTimeout := t, pcSession := t div 1000000\<rparr>)"
  "conn_ok \<lparr>pcStmtTimeout = -1, pcSession = t, pcClass = cl, pcGates = gs\<rparr>"
  by (simp_all add: conn_ok_def)

definition pool_ok :: "PoolPolicy \<Rightarrow> connPool \<Rightarrow> bool" where
  "pool_ok pol p \<longleftrightarrow> plPol p = pol \<and> (\<forall>g. plTokens p g \<le> nat (gate_cap pol g)) \<and> plSem p \<le> nat (poMaxConns pol) \<and>
     list_all conn_ok (plIdle p)"

definition client_ok :: "PoolPolicy \<Rightarrow> client \<Rightarrow> bool" where
  "client_ok pol c \<longleftrightarrow> (case clPhase c of
     Out \<Rightarrow> clHeld c = []
   | Gating todo \<Rightarrow> clHeld c @ todo = gatesFor pol (clClass c)
   | Admitting todo _ \<Rightarrow> clHeld c @ todo = gatesFor pol (clClass c) \<and> GFarm \<in> set (clHeld c)
   | Using cn \<Rightarrow> clHeld c = gatesFor pol (clClass c) \<and> pcGates cn = clHeld c \<and> pcClass cn = clClass c \<and>
       pcStmtTimeout cn = statementTimeout pol (clClass c) \<and> conn_ok cn
   | Leaving _ \<Rightarrow> (\<exists>rest. clHeld c @ rest = gatesFor pol (clClass c))
   | Closing \<Rightarrow> clHeld c = []
   | Setup cn \<Rightarrow> clHeld c = gatesFor pol (clClass c) \<and> pcGates cn = clHeld c \<and> pcClass cn = clClass c \<and> 0 \<le> clGranted c
   | Dialing \<Rightarrow> clHeld c = gatesFor pol (clClass c) \<and> 0 \<le> clGranted c
   | Ready cn \<Rightarrow> clHeld c = gatesFor pol (clClass c) \<and> 0 \<le> clGranted c \<and> conn_ok cn
   | Returning cn _ \<Rightarrow> clHeld c = gatesFor pol (clClass c) \<and> conn_ok cn
   | _ \<Rightarrow> clHeld c = gatesFor pol (clClass c))"

lemma diff_bound: "\<forall>g. f g \<le> N g \<Longrightarrow> f g - k \<le> (N g :: nat)"
  by (meson diff_le_self le_trans)

lemma pool_ok_keeps: "pool_ok pol p \<Longrightarrow> client_ok pol c \<Longrightarrow> pool_step e p c = Some (p', c') \<Longrightarrow> pool_ok pol p'"
  by (cases e; cases "clPhase c")
    (simp_all add: pool_step_def pool_ok_def client_ok_def pool_step_defs Let_def,
     (auto simp: pool_step_defs Let_def split: option.splits if_splits list.splits intro: diff_bound)+)

lemma gatesFor_cases:
  "gatesFor pol cl = (if \<not> poEnabled pol then [] else if cl = ClassProbe then [GProbe] else [class_gate cl, GGeneral])"
  by (cases cl) (simp_all add: gatesFor_def class_gate_def)

lemma next_gate_ok [simp]:
  "(case next_gate todo of
     Out \<Rightarrow> a | Gating t \<Rightarrow> held @ t = gs | Admitting t l \<Rightarrow> b t l | Checkout \<Rightarrow> held = gs | Blocked \<Rightarrow> cc | Dialing \<Rightarrow> d
   | Ready cn \<Rightarrow> e cn | Setup cn \<Rightarrow> f cn | Using cn \<Rightarrow> h cn | Returning cn x \<Rightarrow> i cn x | Leaving x \<Rightarrow> j x | Closing \<Rightarrow> k) \<longleftrightarrow>
   held @ todo = gs"
  by (simp add: next_gate_def)

lemma prefix_butlast: "held @ rest = gs \<Longrightarrow> \<exists>rest. butlast held @ rest = gs"
  by (cases held rule: rev_cases) auto

lemma client_ok_keeps:
  assumes "pool_ok pol p" "client_ok pol c" "pool_step e p c = Some (p', c')"
  shows "client_ok pol c'"
  using assms
  by (cases e; cases "clPhase c")
    (simp_all add: pool_step_def pool_ok_def client_ok_def pool_step_defs Let_def,
     (auto simp: pool_step_defs Let_def split: option.splits if_splits list.splits intro: prefix_butlast)+)

section \<open>What the goroutines hold of the pool\<close>

definition slots :: "client \<Rightarrow> int" where
  "slots c = (case clPhase c of Dialing \<Rightarrow> 1 | Ready _ \<Rightarrow> 1 | Setup _ \<Rightarrow> 1 | Using _ \<Rightarrow> 1 | Returning _ _ \<Rightarrow> 1 | _ \<Rightarrow> 0)"

definition in_use :: "client \<Rightarrow> bool" where
  "in_use c = (case clPhase c of Using _ \<Rightarrow> True | _ \<Rightarrow> False)"

fun acquiring :: "phase \<Rightarrow> bool" where
  "acquiring Out \<longleftrightarrow> False"
| "acquiring Closing \<longleftrightarrow> False"
| "acquiring (Using _) \<longleftrightarrow> False"
| "acquiring (Returning _ after) \<longleftrightarrow> after \<noteq> None"
| "acquiring (Leaving after) \<longleftrightarrow> after \<noteq> None"
| "acquiring _ \<longleftrightarrow> True"

definition in_flight :: "client \<Rightarrow> bool" where
  "in_flight c \<longleftrightarrow> acquiring (clPhase c)"

lemma acquiring_next_gate [simp]: "acquiring (next_gate gs)"
  by (simp add: next_gate_def)

interpretation pool_inv: client_invariant pool_step "pool_ok pol" "client_ok pol" for pol
proof
  fix p c e p' c'
  assume a: "pool_ok pol p" "client_ok pol c" "pool_step e p c = Some (p', c')"
  then show "pool_ok pol p' \<and> client_ok pol c'" using pool_ok_keeps client_ok_keeps by blast
qed

lemma count_butlast: "xs \<noteq> [] \<Longrightarrow> count_list xs g = count_list (butlast xs) g + (if last xs = g then 1 else 0)"
  by (cases xs rule: rev_cases) simp_all

lemmas conserve_splits = option.splits if_splits list.splits

lemma charge_stats:
  "plStats (charge b cl t q p) k =
     (if k = cl \<and> 0 \<le> q
      then observeWait (if q < 1000000 then 0 else q) ((plStats p k)\<lparr>ccAcquired := ccAcquired (plStats p k) + 1\<rparr>)
      else plStats p k)"
  by (simp add: charge_def Let_def)

text \<open>What every attempt ends as, so far; and what kind of attempt each is.\<close>

definition ended :: "classCounters \<Rightarrow> u64" where
  "ended s = ccAcquired s + ccBusy s + ccSuppressed s + ccCanceled s + ccFailed s"

definition kinds :: "classCounters \<Rightarrow> u64" where
  "kinds s = ccFirst s + ccRetries s + ccFollowups s"

lemma observeAttempt_stats:
  "ccInUse (plStats (observeAttempt b cl p) k) = ccInUse (plStats p k)"
  "ended (plStats (observeAttempt b cl p) k) = ended (plStats p k)"
  "ccAttempts (plStats (observeAttempt b cl p) k) = ccAttempts (plStats p k) + of_bool (k = cl)"
  "kinds (plStats (observeAttempt b cl p) k) = kinds (plStats p k) + of_bool (k = cl)"
  by (simp_all add: observeAttempt_def Let_def ended_def kinds_def split: option.split)

lemma count_refusal_stats:
  "ccInUse (count_refusal r s) = ccInUse s" "ended (count_refusal r s) = ended s + 1"
  "ccAttempts (count_refusal r s) = ccAttempts s" "kinds (count_refusal r s) = kinds s"
  by (cases r; simp add: count_refusal_def ended_def kinds_def)+

lemma observeWait_stats [simp]: "ended (observeWait d s) = ended s" "kinds (observeWait d s) = kinds s"
  by (simp_all add: ended_def kinds_def)

lemma ended_updates [simp]:
  "ended (s\<lparr>ccInUse := u\<rparr>) = ended s" "ended (s\<lparr>ccTimeouts := u\<rparr>) = ended s"
  "ended (s\<lparr>ccAcquired := ccAcquired s + 1\<rparr>) = ended s + 1" "ended (s\<lparr>ccSuppressed := ccSuppressed s + 1\<rparr>) = ended s + 1"
  "ended (s\<lparr>ccFailed := ccFailed s + 1\<rparr>) = ended s + 1"
  by (simp_all add: ended_def)

lemma kinds_updates [simp]:
  "kinds (s\<lparr>ccInUse := u\<rparr>) = kinds s" "kinds (s\<lparr>ccTimeouts := u\<rparr>) = kinds s" "kinds (s\<lparr>ccAcquired := u\<rparr>) = kinds s"
  "kinds (s\<lparr>ccSuppressed := u\<rparr>) = kinds s" "kinds (s\<lparr>ccFailed := u\<rparr>) = kinds s"
  by (simp_all add: kinds_def)

lemmas pool_stats = charge_stats observeAttempt_stats count_refusal_stats

interpretation gates: conserved pool_step "pool_ok pol" "client_ok pol" "\<lambda>p. int (plTokens p g)" "\<lambda>c. int (count_list (clHeld c) g)" for pol g
proof
  fix p c e p' c'
  assume a: "pool_ok pol p" "client_ok pol c" "pool_step e p c = Some (p', c')"
  show "int (plTokens p' g) - int (count_list (clHeld c') g) = int (plTokens p g) - int (count_list (clHeld c) g)"
    using a(2,3)
    by (cases e; cases "clPhase c")
      (simp_all add: pool_step_def client_ok_def pool_step_defs Let_def, (auto simp: pool_step_defs Let_def count_butlast split: conserve_splits)+)
qed

interpretation slots: conserved pool_step "pool_ok pol" "client_ok pol" "\<lambda>p. int (plSem p) - int (length (plIdle p))" slots for pol
proof
  fix p c e p' c'
  assume a: "pool_ok pol p" "client_ok pol c" "pool_step e p c = Some (p', c')"
  show "int (plSem p') - int (length (plIdle p')) - slots c' = int (plSem p) - int (length (plIdle p)) - slots c"
    using a(3)
    by (cases e; cases "clPhase c")
      (simp_all add: pool_step_def pool_step_defs slots_def Let_def, (auto simp: pool_step_defs Let_def slots_def next_gate_def split: conserve_splits)+)
qed

interpretation gauge: conserved pool_step "pool_ok pol" "client_ok pol" "\<lambda>p. ccInUse (plStats p cl)"
  "\<lambda>c. of_bool (in_use c \<and> clClass c = cl)" for pol cl
proof
  fix p c e p' c'
  assume a: "pool_ok pol p" "client_ok pol c" "pool_step e p c = Some (p', c')"
  show "ccInUse (plStats p' cl) - of_bool (in_use c' \<and> clClass c' = cl) = ccInUse (plStats p cl) - of_bool (in_use c \<and> clClass c = cl)"
    using a(2,3)
    by (cases e; cases "clPhase c")
      (simp_all add: pool_step_def client_ok_def pool_step_defs in_use_def Let_def,
       (auto simp: pool_step_defs Let_def in_use_def next_gate_def pool_stats split: conserve_splits)+)
qed

interpretation ledger: conserved pool_step "pool_ok pol" "client_ok pol" "\<lambda>p. ccAttempts (plStats p cl) - ended (plStats p cl)"
  "\<lambda>c. of_bool (in_flight c \<and> clClass c = cl)" for pol cl
proof
  fix p c e p' c'
  assume a: "pool_ok pol p" "client_ok pol c" "pool_step e p c = Some (p', c')"
  show "ccAttempts (plStats p' cl) - ended (plStats p' cl) - of_bool (in_flight c' \<and> clClass c' = cl) =
    ccAttempts (plStats p cl) - ended (plStats p cl) - of_bool (in_flight c \<and> clClass c = cl)"
    using a(2,3)
    by (cases e; cases "clPhase c")
      (simp_all add: pool_step_def client_ok_def pool_step_defs Let_def in_flight_def,
       (clarsimp simp: pool_step_defs Let_def in_flight_def pool_stats split: conserve_splits)+)
qed

interpretation kinds: conserved pool_step "pool_ok pol" "client_ok pol" "\<lambda>p. ccAttempts (plStats p cl) - kinds (plStats p cl)"
  "\<lambda>c. 0" for pol cl
proof
  fix p c e p' c'
  assume a: "pool_ok pol p" "client_ok pol c" "pool_step e p c = Some (p', c')"
  show "ccAttempts (plStats p' cl) - kinds (plStats p' cl) - 0 = ccAttempts (plStats p cl) - kinds (plStats p cl) - 0"
    using a(3)
    by (cases e; cases "clPhase c")
      (simp_all add: pool_step_def pool_step_defs Let_def,
       (auto simp: pool_step_defs Let_def pool_stats split: conserve_splits)+)
qed

section \<open>Reachable pools\<close>

definition pool_start :: "(nat \<Rightarrow> QueryBudget) \<Rightarrow> PoolPolicy \<Rightarrow> nat \<Rightarrow> connPool \<times> client list" where
  "pool_start budgets pol n = (newConnPool budgets pol, replicate n idle_client)"

definition pool_reaches :: "(nat \<Rightarrow> QueryBudget) \<Rightarrow> PoolPolicy \<Rightarrow> nat \<Rightarrow> connPool \<Rightarrow> client list \<Rightarrow> bool" where
  "pool_reaches budgets pol n p cs \<longleftrightarrow> reaches pool_step (pool_start budgets pol n) (p, cs)"

lemma start_ok:
  "pool_ok (policy_normalize pol) (fst (pool_start budgets pol n))"
  "list_all (client_ok (policy_normalize pol)) (snd (pool_start budgets pol n))"
  by (simp_all add: pool_ok_def pool_start_def newConnPool_def client_ok_def idle_client_def Let_def list_all_length)

lemma sum_replicate_zero: "f x = (0 :: 'm :: comm_monoid_add) \<Longrightarrow> sum_list (map f (replicate n x)) = 0"
  by (induction n) simp_all

lemma start_shares:
  "sum_list (map (\<lambda>c. int (count_list (clHeld c) g)) (snd (pool_start budgets pol n))) = 0"
  "sum_list (map slots (snd (pool_start budgets pol n))) = 0"
  "sum_list (map (\<lambda>c. of_bool (in_use c \<and> clClass c = cl)) (snd (pool_start budgets pol n))) = (0 :: u64)"
  "sum_list (map (\<lambda>c. of_bool (in_flight c \<and> clClass c = cl)) (snd (pool_start budgets pol n))) = (0 :: u64)"
  unfolding pool_start_def snd_conv
  by (rule sum_replicate_zero; simp add: idle_client_def slots_def in_use_def in_flight_def)+

lemma start_amounts:
  "plTokens (fst (pool_start budgets pol n)) g = 0" "plSem (fst (pool_start budgets pol n)) = 0"
  "plIdle (fst (pool_start budgets pol n)) = []" "plStats (fst (pool_start budgets pol n)) cl = zero_counters"
  by (simp_all add: pool_start_def newConnPool_def Let_def)

lemma reachable_pool:
  assumes "pool_reaches budgets pol n p cs"
  shows reachable_ok: "pool_ok (policy_normalize pol) p" "list_all (client_ok (policy_normalize pol)) cs"
    and reachable_tokens: "int (plTokens p g) = (\<Sum>c \<leftarrow> cs. int (count_list (clHeld c) g))"
    and reachable_slots: "int (plSem p) = int (length (plIdle p)) + (\<Sum>c \<leftarrow> cs. slots c)"
    and reachable_gauge: "ccInUse (plStats p cl) = (\<Sum>c \<leftarrow> cs. of_bool (in_use c \<and> clClass c = cl))"
    and reachable_attempts: "ccAttempts (plStats p cl) = ended (plStats p cl) + (\<Sum>c \<leftarrow> cs. of_bool (in_flight c \<and> clClass c = cl))"
    and reachable_kinds: "ccAttempts (plStats p cl) = kinds (plStats p cl)"
    and reachable_length: "length cs = n"
proof -
  note r = assms [unfolded pool_reaches_def]
  note i = r start_ok
  show "pool_ok (policy_normalize pol) p" "list_all (client_ok (policy_normalize pol)) cs"
    using pool_inv.invariant [OF i] by simp_all
  show "int (plTokens p g) = (\<Sum>c \<leftarrow> cs. int (count_list (clHeld c) g))"
    using gates.conserved [OF i, of g] by (simp add: start_shares start_amounts)
  show "int (plSem p) = int (length (plIdle p)) + (\<Sum>c \<leftarrow> cs. slots c)"
    using slots.conserved [OF i] by (simp add: start_shares start_amounts)
  show "ccInUse (plStats p cl) = (\<Sum>c \<leftarrow> cs. of_bool (in_use c \<and> clClass c = cl))"
    using gauge.conserved [OF i, of cl] by (simp add: start_shares start_amounts zero_counters_def)
  show "ccAttempts (plStats p cl) = ended (plStats p cl) + (\<Sum>c \<leftarrow> cs. of_bool (in_flight c \<and> clClass c = cl))"
    using ledger.conserved [OF i, of cl]
    by (simp add: start_shares start_amounts zero_counters_def ended_def algebra_simps)
  show "ccAttempts (plStats p cl) = kinds (plStats p cl)"
    using kinds.conserved [OF i, of cl] by (simp add: start_amounts zero_counters_def kinds_def)
  show "length cs = n" using reaches_length [OF r] by (simp add: pool_start_def)
qed

lemma sum_list_at:
  assumes "\<forall>c \<in> set cs. f c \<le> (g c :: int)" and "i < length cs"
  shows "(\<Sum>c \<leftarrow> cs. f c) - f (cs ! i) \<le> (\<Sum>c \<leftarrow> cs. g c) - g (cs ! i)"
  using assms
proof (induction cs arbitrary: i)
  case (Cons c cs)
  have "(\<Sum>c \<leftarrow> cs. f c) \<le> (\<Sum>c \<leftarrow> cs. g c)" using Cons.prems(1) by (intro sum_list_mono) simp
  with Cons show ?case by (cases i) fastforce+
qed simp

lemma slots_bounds: "0 \<le> slots c" "slots c \<le> 1"
  by (simp_all add: slots_def split: phase.split)

lemma slot_le_sem:
  assumes r: "pool_reaches budgets pol n p cs" and i: "i < length cs"
  shows "int (length (plIdle p)) + slots (cs ! i) \<le> int (plSem p)" "int (plSem p) \<le> poMaxConns (plPol p)"
proof -
  have "(\<Sum>c \<leftarrow> cs. 0) - 0 \<le> (\<Sum>c \<leftarrow> cs. slots c) - slots (cs ! i)"
    using sum_list_at [of cs "\<lambda>_. 0" slots i] slots_bounds i by simp
  then show "int (length (plIdle p)) + slots (cs ! i) \<le> int (plSem p)" using reachable_slots [OF r] by simp
  show "int (plSem p) \<le> poMaxConns (plPol p)"
    using reachable_ok(1) [OF r] normalize_usable [of pol] by (auto simp: pool_ok_def usable_def)
qed

lemma held_le_tokens:
  assumes r: "pool_reaches budgets pol n p cs" and i: "i < length cs"
  shows "count_list (clHeld (cs ! i)) g \<le> plTokens p g"
proof -
  have "(\<Sum>c \<leftarrow> cs. 0) - 0 \<le> (\<Sum>c \<leftarrow> cs. int (count_list (clHeld c) g)) - int (count_list (clHeld (cs ! i)) g)"
    using sum_list_at [of cs "\<lambda>_. 0" "\<lambda>c. int (count_list (clHeld c) g)" i] i by simp
  then show ?thesis using reachable_tokens [OF r, of g] by simp
qed

lemma reachable_client:
  assumes "pool_reaches budgets pol n p cs" and "i < length cs"
  shows "client_ok (plPol p) (cs ! i)" "plPol p = policy_normalize pol"
  using reachable_ok [OF assms(1)] assms(2) by (simp_all add: pool_ok_def list_all_length)

text \<open>The step that gives back what a goroutine holds; a connection is thrown away or kept as \<open>dead\<close> says.\<close>

definition give_back :: "bool \<Rightarrow> phase \<Rightarrow> pool_event option" where
  "give_back dead ph = (case ph of
     Dialing \<Rightarrow> Some (DialFailed dead Live 0) | Ready _ \<Rightarrow> Some (CheckContext CallerDone dead 0)
   | Setup _ \<Rightarrow> Some (TimeoutFailed dead) | Using _ \<Rightarrow> Some (Release dead) | Returning _ _ \<Rightarrow> Some SendIdle
   | Leaving _ \<Rightarrow> Some (LeaveStep 0) | Closing \<Rightarrow> Some CloseIdle | _ \<Rightarrow> None)"

lemma slot_gives:
  assumes "pool_reaches budgets pol n p cs" "i < length cs" "slots (cs ! i) = 1"
  shows "0 < plSem p" "int (length (plIdle p)) < poMaxConns (plPol p)"
  using slot_le_sem [OF assms(1,2)] assms(3) by auto

lemma giving_back_is_enabled:
  assumes r: "pool_reaches budgets pol n p cs" and i: "i < length cs" and e: "give_back dead (clPhase (cs ! i)) = Some e"
  shows "pool_step e p (cs ! i) \<noteq> None"
proof -
  note s = slot_gives [OF r i]
  have held: "g \<in> set (clHeld (cs ! i)) \<Longrightarrow> 0 < plTokens p g" for g
    using held_le_tokens [OF r i, of g] count_list_0_iff [of "clHeld (cs ! i)" g] by linarith
  have idle: "plIdle p \<noteq> [] \<Longrightarrow> 0 < plSem p"
    using slot_le_sem(1) [OF r i] slots_bounds(1) [of "cs ! i"] by (cases "plIdle p") auto
  show ?thesis
  proof (cases "clPhase (cs ! i)")
    case (Leaving after)
    then show ?thesis using e held [of "last (clHeld (cs ! i))"]
      by (auto simp: give_back_def pool_step_def leave_step_def give_token_def split: option.split)
  next
    case Closing
    then show ?thesis using e idle
      by (auto simp: give_back_def pool_step_def close_idle_def give_slot_def split: option.split list.split)
  qed (use e s in \<open>auto simp: give_back_def pool_step_def slots_def dial_failed_def waitContext_def give_slot_def
      check_context_def hand_back_def timeout_failed_def release_def send_idle_def push_idle_def\<close>)
qed

section \<open>Admission\<close>

definition inside :: "client \<Rightarrow> bool" where
  "inside c \<longleftrightarrow> clPhase c \<noteq> Out \<and> clPhase c \<noteq> Closing"

text \<open>
  What a class is sure of: the share the policy computes, which is the general connections less the caps of the
  other classes, within the cap of the class itself; probes have their own gate.
\<close>

definition class_floor :: "PoolPolicy \<Rightarrow> QueryClass \<Rightarrow> int" where
  "class_floor pol cl =
     (if cl = ClassProbe then gate_cap pol GProbe
      else min (gate_cap pol (class_gate cl))
        (general pol - (\<Sum>k \<leftarrow> filter (\<lambda>k. k \<noteq> cl) [ClassBackground, ClassInteractive, ClassFarmIngest, ClassAuthoring].
           gate_cap pol (class_gate k))))"

lemma held_prefix: "client_ok pol c \<Longrightarrow> \<exists>rest. clHeld c @ rest = gatesFor pol (clClass c)"
  by (auto simp: client_ok_def split: phase.splits)

lemma full_hand: "client_ok pol c \<Longrightarrow> slots c = 1 \<or> clPhase c = Checkout \<or> clPhase c = Blocked \<Longrightarrow> clHeld c = gatesFor pol (clClass c)"
  by (auto simp: client_ok_def slots_def split: phase.splits)

lemma hand_of_client:
  assumes "client_ok pol c" "poEnabled pol"
  shows "slots c \<le> int (count_list (clHeld c) GGeneral) + int (count_list (clHeld c) GProbe)"
    and "int (count_list (clHeld c) GGeneral) \<le> int (count_list (clHeld c) GInter) + int (count_list (clHeld c) GBack) +
      int (count_list (clHeld c) GFarm) + int (count_list (clHeld c) GAuthoring)"
    and "int (count_list (clHeld c) (class_gate cl)) \<le> of_bool (inside c \<and> clClass c = cl)"
    and "of_bool (clClass c = cl) * slots c \<le> int (count_list (clHeld c) (class_gate cl))"
proof -
  have h: "clHeld c \<in> {[], [GProbe]} \<and> clClass c = ClassProbe \<or>
      (clHeld c \<in> {[], [class_gate (clClass c)], [class_gate (clClass c), GGeneral]}) \<and> clClass c \<noteq> ClassProbe"
    using held_prefix [OF assms(1)] assms(2) by (auto simp: gatesFor_cases append_eq_Cons_conv split: if_splits)
  have out: "\<not> inside c \<Longrightarrow> clHeld c = []" using assms(1) by (auto simp: inside_def client_ok_def)
  have full: "slots c = 1 \<Longrightarrow> clHeld c = (if clClass c = ClassProbe then [GProbe] else [class_gate (clClass c), GGeneral])"
    using full_hand [OF assms(1)] assms(2) by (simp add: gatesFor_cases)
  have s: "slots c = 0 \<or> slots c = 1" using slots_bounds [of c] by linarith
  show "slots c \<le> int (count_list (clHeld c) GGeneral) + int (count_list (clHeld c) GProbe)" using s full by auto
  show "int (count_list (clHeld c) GGeneral) \<le> int (count_list (clHeld c) GInter) + int (count_list (clHeld c) GBack) +
      int (count_list (clHeld c) GFarm) + int (count_list (clHeld c) GAuthoring)"
    using h by (cases "clClass c") (auto simp: class_gate_def)
  show "int (count_list (clHeld c) (class_gate cl)) \<le> of_bool (inside c \<and> clClass c = cl)"
    using h out by (cases "clClass c"; cases cl) (auto simp: class_gate_def)
  show "of_bool (clClass c = cl) * slots c \<le> int (count_list (clHeld c) (class_gate cl))"
    using s full by (auto simp: class_gate_def)
qed

lemma tokens_le_cap:
  assumes "pool_reaches budgets pol n p cs" "poEnabled (plPol p)"
  shows "int (plTokens p g) \<le> gate_cap (plPol p) g"
proof -
  have "0 \<le> gate_cap (plPol p) g"
    using normalize_usable [of pol] reachable_ok(1) [OF assms(1)] assms(2)
    by (cases g) (auto simp: pool_ok_def gate_cap_def usable_def general_def)
  moreover have "plTokens p g \<le> nat (gate_cap (plPol p) g)" using reachable_ok(1) [OF assms(1)] by (simp add: pool_ok_def)
  ultimately show ?thesis by linarith
qed

lemma sum_list_le_at:
  assumes "\<forall>c \<in> set cs. f c \<le> (g c :: int)" and "i < length cs" and "f (cs ! i) + d \<le> g (cs ! i)"
  shows "(\<Sum>c \<leftarrow> cs. f c) + d \<le> (\<Sum>c \<leftarrow> cs. g c)"
  using sum_list_at [OF assms(1,2)] assms(3) by linarith

lemma all_clients:
  "pool_reaches budgets pol n p cs \<Longrightarrow> c \<in> set cs \<Longrightarrow> client_ok (plPol p) c"
  using reachable_ok by (fastforce simp: pool_ok_def list_all_iff)

lemma checkout_room:
  assumes r: "pool_reaches budgets pol n p cs" and e: "poEnabled (plPol p)" "1 \<le> poProbeReserve (plPol p)"
    and i: "i < length cs" "clPhase (cs ! i) = Blocked"
  shows "plIdle p \<noteq> [] \<or> int (plSem p) < poMaxConns (plPol p)"
proof -
  let ?h = "\<lambda>c. int (count_list (clHeld c) GGeneral) + int (count_list (clHeld c) GProbe)"
  have "slots (cs ! i) + 1 \<le> ?h (cs ! i)"
    using full_hand [OF reachable_client(1) [OF r i(1)]] i e by (auto simp: slots_def gatesFor_cases class_gate_def)
  then have "(\<Sum>c \<leftarrow> cs. slots c) + 1 \<le> (\<Sum>c \<leftarrow> cs. ?h c)"
    using hand_of_client(1) all_clients [OF r] e(1) i(1) by (intro sum_list_le_at) auto
  also have "\<dots> = int (plTokens p GGeneral) + int (plTokens p GProbe)"
    by (simp add: sum_list_addf reachable_tokens [OF r])
  also have "\<dots> \<le> poMaxConns (plPol p)"
    using tokens_le_cap [OF r e(1), of GGeneral] tokens_le_cap [OF r e(1), of GProbe] e(2)
    by (simp add: gate_cap_def general_def)
  finally show ?thesis using reachable_slots [OF r] by auto
qed

lemma gate_room:
  assumes r: "pool_reaches budgets pol n p cs" and e: "poEnabled (plPol p)"
    and few: "(\<Sum>c \<leftarrow> cs. of_bool (inside c \<and> clClass c = cl)) \<le> class_floor (plPol p) cl"
    and i: "i < length cs" "clClass (cs ! i) = cl" "clPhase (cs ! i) = Gating (g # todo)"
  shows "int (plTokens p g) < gate_cap (plPol p) g"
proof -
  let ?c = "cs ! i" and ?n = "\<lambda>g c. int (count_list (clHeld c) g)" and ?t = "\<lambda>g. int (plTokens p g)"
  note cap = tokens_le_cap [OF r e]
  have hand: "clHeld ?c @ g # todo = gatesFor (plPol p) cl"
    using reachable_client(1) [OF r i(1)] i by (simp add: client_ok_def)
  have mine: "?t (class_gate cl) + d \<le> class_floor (plPol p) cl" if "?n (class_gate cl) ?c + d \<le> 1" for d
  proof -
    have each: "\<forall>c \<in> set cs. ?n (class_gate cl) c \<le> of_bool (inside c \<and> clClass c = cl)"
      using hand_of_client(3) [OF all_clients [OF r] e] by blast
    have "(\<Sum>c \<leftarrow> cs. ?n (class_gate cl) c) + d \<le> (\<Sum>c \<leftarrow> cs. of_bool (inside c \<and> clClass c = cl))"
      by (rule sum_list_le_at [OF each i(1)]) (use that i in \<open>simp add: inside_def\<close>)
    then show ?thesis using few reachable_tokens [OF r, of "class_gate cl"] by linarith
  qed
  have floor: "class_floor (plPol p) cl \<le> gate_cap (plPol p) (class_gate cl)"
    by (simp add: class_floor_def class_gate_def)
  consider (own) "g = class_gate cl" "clHeld ?c = []" | (general) "g = GGeneral" "clHeld ?c = [class_gate cl]" "cl \<noteq> ClassProbe"
    using hand e by (auto simp: gatesFor_cases append_eq_Cons_conv class_gate_def split: if_splits)
  then show ?thesis
  proof cases
    case own
    then show ?thesis using mine [of 1] floor by simp
  next
    case general
    let ?all = "\<lambda>c. ?n GInter c + ?n GBack c + ?n GFarm c + ?n GAuthoring c"
    have "?n GGeneral ?c + 1 \<le> ?all ?c" using general by (cases cl) (simp_all add: class_gate_def)
    then have "(\<Sum>c \<leftarrow> cs. ?n GGeneral c) + 1 \<le> (\<Sum>c \<leftarrow> cs. ?all c)"
      using hand_of_client(2) all_clients [OF r] e i(1) by (intro sum_list_le_at) auto
    then have "?t GGeneral + 1 \<le> ?t GInter + ?t GBack + ?t GFarm + ?t GAuthoring"
      by (simp add: sum_list_addf reachable_tokens [OF r])
    moreover have "?t (class_gate cl) \<le> class_floor (plPol p) cl" using mine [of 0] general by simp
    ultimately show ?thesis
      using general cap [of GInter] cap [of GBack] cap [of GFarm] cap [of GAuthoring]
      by (cases cl) (simp_all add: class_floor_def class_gate_def gate_cap_def)
  qed
qed

section \<open>The live ceiling of farm ingest\<close>

definition admitted :: "client \<Rightarrow> bool" where
  "admitted c \<longleftrightarrow> GFarm \<in> set (clHeld c) \<and> (case clPhase c of Admitting _ _ \<Rightarrow> False | Leaving _ \<Rightarrow> False | _ \<Rightarrow> True)"

definition limit_read :: "client \<Rightarrow> int option" where
  "limit_read c = (case clPhase c of Admitting _ l \<Rightarrow> l | _ \<Rightarrow> None)"

lemma newly_admitted:
  assumes "client_ok pol c" "pool_step e p c = Some (p', c')" "admitted c'" "\<not> admitted c"
  shows "\<exists>limit. limit_read c = Some limit \<and> int (plTokens p GFarm) \<le> limit \<and> clHeld c' = clHeld c"
  using assms
  by (cases e; cases "clPhase c")
    (simp_all add: pool_step_def client_ok_def pool_step_defs admitted_def limit_read_def Let_def,
     (auto simp: pool_step_defs Let_def split: option.splits if_splits list.splits)+)

lemma ceiling_read:
  assumes "pool_step e p c = Some (p', c')" "limit_read c' = Some l"
  shows "limit_read c = Some l \<or> l = plFarmConns p"
  using assms
  by (cases e; cases "clPhase c")
    (simp_all add: pool_step_def pool_step_defs limit_read_def Let_def,
     (auto simp: pool_step_defs Let_def next_gate_def split: option.splits if_splits list.splits)+)

lemma ceiling_set:
  assumes "pool_step e p c = Some (p', c')" "plFarmConns p \<le> m" "0 \<le> m" "\<And>k. e = SetFarm k \<Longrightarrow> k \<le> m"
  shows "plFarmConns p' \<le> m"
  using assms
  by (cases e; cases "clPhase c")
    (simp_all add: pool_step_def pool_step_defs SetFarmIngestConns_def Let_def,
     (auto simp: pool_step_defs Let_def split: option.splits if_splits list.splits)+)

lemma sum_of_bool: "(\<Sum>c \<leftarrow> cs. of_bool (P c)) = (of_nat (length (filter P cs)) :: 'm :: semiring_1)"
  by (induction cs) (simp_all add: algebra_simps)

lemma admitted_le_held: "of_bool (admitted c) \<le> int (count_list (clHeld c) GFarm)"
  using count_list_0_iff [of "clHeld c" GFarm] by (cases "admitted c") (auto simp: admitted_def)

lemma ceiling_step:
  assumes r: "pool_reaches budgets pol n p cs" and i: "i < length cs" and s: "pool_step e p (cs ! i) = Some (p', c')"
    and m: "\<forall>c \<in> set cs. \<forall>l. limit_read c = Some l \<longrightarrow> l \<le> m"
  shows "int (length (filter admitted (cs[i := c']))) \<le> max m (int (length (filter admitted cs)))"
proof (cases "admitted c' \<and> \<not> admitted (cs ! i)")
  case True
  then obtain l where l: "limit_read (cs ! i) = Some l" "int (plTokens p GFarm) \<le> l" "clHeld c' = clHeld (cs ! i)"
    using newly_admitted [OF reachable_client(1) [OF r i] s] by blast
  then have "int (plTokens p GFarm) \<le> m" using m i by fastforce
  moreover have "(\<Sum>c \<leftarrow> cs[i := c']. of_bool (admitted c)) \<le> (\<Sum>c \<leftarrow> cs[i := c']. int (count_list (clHeld c) GFarm))"
    using admitted_le_held by (intro sum_list_mono)
  moreover have "\<dots> = int (plTokens p GFarm)"
    using l(3) by (simp add: sum_list_update_group [OF i] reachable_tokens [OF r])
  ultimately show ?thesis by (simp add: sum_of_bool)
next
  case False
  then have "(\<Sum>c \<leftarrow> cs[i := c']. of_bool (admitted c)) \<le> (\<Sum>c \<leftarrow> cs. of_bool (admitted c) :: int)"
    by (auto simp: sum_list_update_group [OF i])
  then show ?thesis by (simp add: sum_of_bool)
qed


section \<open>The pool as a whole\<close>

lemma sum_slots: "(\<Sum>c \<leftarrow> cs. slots c) = int (length (filter (\<lambda>c. slots c = 1) cs))"
proof -
  have "slots c = of_bool (slots c = 1)" for c by (simp add: slots_def split: phase.split)
  then have "map slots cs = map (\<lambda>c. of_bool (slots c = 1)) cs" by (intro map_cong refl)
  then show ?thesis by (simp only: sum_of_bool)
qed

text \<open>C13: in every reachable state the open connections are those idle and those of goroutines, the tokens of a
  gate are those goroutines hold, and none of the bounds is exceeded: not the connections of the process, not the
  capacity of a gate, not the share of a class.  Hence giving back a connection, a slot or a token never blocks.\<close>

theorem pool_accounts_for_every_connection:
  assumes r: "pool_reaches budgets pol n p cs"
  shows "plSem p = length (plIdle p) + length (filter (\<lambda>c. slots c = 1) cs) \<and> int (plSem p) \<le> poMaxConns (plPol p) \<and>
    (\<forall>g. int (plTokens p g) = (\<Sum>c \<leftarrow> cs. int (count_list (clHeld c) g))) \<and>
    (poEnabled (plPol p) \<longrightarrow> (\<forall>g. int (plTokens p g) \<le> gate_cap (plPol p) g) \<and>
       (\<forall>cl. int (length (filter (\<lambda>c. slots c = 1 \<and> clClass c = cl) cs)) \<le> gate_cap (plPol p) (class_gate cl))) \<and>
    (\<forall>i < length cs. \<forall>dead e. give_back dead (clPhase (cs ! i)) = Some e \<longrightarrow> pool_step e p (cs ! i) \<noteq> None)"
proof (intro conjI impI allI)
  show "plSem p = length (plIdle p) + length (filter (\<lambda>c. slots c = 1) cs)"
    using reachable_slots [OF r] by (simp add: sum_slots)
  show "int (plSem p) \<le> poMaxConns (plPol p)"
    using reachable_ok(1) [OF r] normalize_usable [of pol] by (auto simp: pool_ok_def usable_def)
  show "int (plTokens p g) = (\<Sum>c \<leftarrow> cs. int (count_list (clHeld c) g))" for g by (rule reachable_tokens [OF r])
  show "int (plTokens p g) \<le> gate_cap (plPol p) g" if "poEnabled (plPol p)" for g by (rule tokens_le_cap [OF r that])
  show "int (length (filter (\<lambda>c. slots c = 1 \<and> clClass c = cl) cs)) \<le> gate_cap (plPol p) (class_gate cl)"
    if e: "poEnabled (plPol p)" for cl
  proof -
    have "(\<Sum>c \<leftarrow> cs. of_bool (slots c = 1 \<and> clClass c = cl)) \<le> (\<Sum>c \<leftarrow> cs. int (count_list (clHeld c) (class_gate cl)))"
      using hand_of_client(4) [OF all_clients [OF r] e, of _ cl] by (intro sum_list_mono) fastforce
    then show ?thesis
      using tokens_le_cap [OF r e, of "class_gate cl"] by (simp add: sum_of_bool reachable_tokens [OF r])
  qed
  show "pool_step e p (cs ! i) \<noteq> None" if "i < length cs" "give_back dead (clPhase (cs ! i)) = Some e" for i dead e
    by (rule giving_back_is_enabled [OF r that])
qed

text \<open>C14: the floor the policy promises is real: while no more goroutines of a class are inside the pool than its
  floor, none of them waits at a gate; and with a probe reserve no goroutine that has passed its gates waits for a
  connection, whatever the others do.\<close>

theorem class_floor_is_guaranteed:
  assumes r: "pool_reaches budgets pol n p cs" and e: "poEnabled (plPol p)" and i: "i < length cs" and q: "0 \<le> queued"
  shows "(int (length (filter (\<lambda>c. inside c \<and> clClass c = clClass (cs ! i)) cs)) \<le> class_floor (plPol p) (clClass (cs ! i)) \<and>
      clPhase (cs ! i) = Gating (g # todo) \<longrightarrow> pool_step (PassGate Live queued) p (cs ! i) \<noteq> None) \<and>
    (1 \<le> poProbeReserve (plPol p) \<and> clPhase (cs ! i) = Blocked \<longrightarrow>
      pool_step (FetchIdle dead queued) p (cs ! i) \<noteq> None \<or> pool_step (OpenSlot queued) p (cs ! i) \<noteq> None)"
proof (intro conjI impI)
  show "pool_step (PassGate Live queued) p (cs ! i) \<noteq> None"
    if "int (length (filter (\<lambda>c. inside c \<and> clClass c = clClass (cs ! i)) cs)) \<le> class_floor (plPol p) (clClass (cs ! i)) \<and>
      clPhase (cs ! i) = Gating (g # todo)"
    using gate_room [OF r e _ i refl, of g todo] that
    by (simp add: sum_of_bool pool_step_def pass_gate_def take_token_def waitContext_def Let_def)
  show "pool_step (FetchIdle dead queued) p (cs ! i) \<noteq> None \<or> pool_step (OpenSlot queued) p (cs ! i) \<noteq> None"
    if "1 \<le> poProbeReserve (plPol p) \<and> clPhase (cs ! i) = Blocked"
    using checkout_room [OF r e _ i] that q
    by (auto simp: pool_step_def fetch_idle_def open_slot_def take_slot_def neq_Nil_conv split: list.split)
qed

text \<open>The figures an operator reads add up: of each class the attempts are the first, retried and follow-up ones,
  and are the acquired, refused, suppressed, cancelled and failed ones with those still in flight (modulo \<open>2 ^ 64\<close>); the
  connections shown in use are those the callers of the class have; and every one of these sessions has the ceiling of
  the class, in whole milliseconds.\<close>

theorem pool_counters_add_up:
  assumes r: "pool_reaches budgets pol n p cs" and n: "n < 2 ^ 63"
  shows "cpAttempts (class_stat p cl) = cpFirst (class_stat p cl) + cpRetries (class_stat p cl) + cpFollowups (class_stat p cl) \<and>
    cpAttempts (class_stat p cl) = cpAcquired (class_stat p cl) + cpBusy (class_stat p cl) + cpSuppressed (class_stat p cl) +
      cpCanceled (class_stat p cl) + cpFailed (class_stat p cl) + of_nat (length (filter (\<lambda>c. in_flight c \<and> clClass c = cl) cs)) \<and>
    cpInUse (class_stat p cl) = int (length (filter (\<lambda>c. in_use c \<and> clClass c = cl) cs)) \<and>
    psInUse (stat p) = int (length (filter (\<lambda>c. slots c = 1) cs)) \<and>
    (\<forall>c cn. c \<in> set cs \<and> clPhase c = Using cn \<longrightarrow> pcSession cn = statementTimeout (plPol p) (clClass c) div 1000000)"
proof (intro conjI allI impI)
  show "cpAttempts (class_stat p cl) = cpFirst (class_stat p cl) + cpRetries (class_stat p cl) + cpFollowups (class_stat p cl)"
    using reachable_kinds [OF r, of cl] by (simp add: class_stat_def kinds_def Let_def)
  show "cpAttempts (class_stat p cl) = cpAcquired (class_stat p cl) + cpBusy (class_stat p cl) + cpSuppressed (class_stat p cl) +
      cpCanceled (class_stat p cl) + cpFailed (class_stat p cl) + of_nat (length (filter (\<lambda>c. in_flight c \<and> clClass c = cl) cs))"
    using reachable_attempts [OF r, of cl] by (simp add: class_stat_def ended_def Let_def sum_of_bool)
  let ?k = "length (filter (\<lambda>c. in_use c \<and> clClass c = cl) cs)"
  have "?k < 2 ^ 63" using n reachable_length [OF r] length_filter_le [of _ cs] by (meson le_less_trans)
  moreover have "ccInUse (plStats p cl) = of_nat ?k" using reachable_gauge [OF r, of cl] by (simp add: sum_of_bool)
  ultimately show "cpInUse (class_stat p cl) = int ?k"
    by (simp add: class_stat_def Let_def signed_of_nat signed_take_bit_int_eq_self)
  show "psInUse (stat p) = int (length (filter (\<lambda>c. slots c = 1) cs))"
    using reachable_slots [OF r] by (simp add: stat_def sum_slots)
  show "pcSession cn = statementTimeout (plPol p) (clClass c) div 1000000" if "c \<in> set cs \<and> clPhase c = Using cn" for c cn
  proof -
    have "client_ok (plPol p) c" "plPol p = policy_normalize pol"
      using all_clients [OF r] that reachable_ok(1) [OF r] by (auto simp: pool_ok_def)
    moreover have "0 \<le> statementTimeout (policy_normalize pol) (clClass c)"
      using normalize_usable [of pol] by (simp add: usable_def)
    ultimately show ?thesis using that by (auto simp: client_ok_def conn_ok_def)
  qed
qed

section \<open>Concrete runs\<close>

definition get_conn :: "nat \<Rightarrow> nat option \<Rightarrow> (nat \<times> pool_event) list" where
  "get_conn i b = map (Pair i) [Acquire b Live, PassGate Live 0, PassGate Live 0, FindNoIdle, OpenSlot 0, Dialed 0,
     CheckContext Live False 0, TimeoutSet 0]"

definition get_farm_conn :: "nat \<Rightarrow> nat option \<Rightarrow> (nat \<times> pool_event) list" where
  "get_farm_conn i b = map (Pair i) [Acquire b Live, PassGate Live 0, FarmLimit, FarmAdmitted 0, PassGate Live 0, FindNoIdle, OpenSlot 0,
     Dialed 0, CheckContext Live False 0, TimeoutSet 0]"

definition leave_pool :: "nat \<Rightarrow> (nat \<times> pool_event) list" where
  "leave_pool i = map (Pair i) [Release False, SendIdle, LeaveStep 0, LeaveStep 0, LeaveStep 0]"

definition one_of_each :: "nat \<Rightarrow> QueryBudget" where
  "one_of_each i = NewQueryBudget i"

text \<open>A connection that is on its way back when the pool closes stays open.\<close>

lemma close_leaves_a_returning_connection:
  "map_option (\<lambda>(p, cs). (plClosed p, length (plIdle p), plSem p, map clPhase cs))
     (system_run pool_step
        (get_conn 0 None @ [(0, Release False), (1, ClosePool), (1, CloseIdle), (0, SendIdle), (0, LeaveStep 0), (0, LeaveStep 0), (0, LeaveStep 0)])
        (pool_start one_of_each DefaultPoolPolicy 2)) =
   Some (True, 1, 1, [Out, Out])"
  by code_simp

text \<open>A ceiling below a millisecond is sent as zero, which is none.\<close>

lemma ceiling_below_a_millisecond_is_none:
  "map_option (\<lambda>(p, cs). case clPhase (cs ! 0) of Using cn \<Rightarrow> Some (pcStmtTimeout cn, pcSession cn) | _ \<Rightarrow> None)
     (system_run pool_step (get_conn 0 (Some 1)) (pool_start one_of_each (DefaultPoolPolicy\<lparr>poReadTimeout := 500000\<rparr>) 1)) =
   Some (Some (500000, 0))"
  by code_simp

lemma run_reachable: "system_run pool_step es (pool_start budgets pol n) = Some (p, cs) \<Longrightarrow> pool_reaches budgets pol n p cs"
  by (auto simp: pool_reaches_def intro: run_reaches reaches.here)

theorem pool_accounts_for_every_connection_witness:
  "\<exists>p cs. system_run pool_step (get_conn 0 None) (pool_start one_of_each DefaultPoolPolicy 2) = Some (p, cs) \<and>
     plSem p = length (plIdle p) + length (filter (\<lambda>c. slots c = 1) cs)"
proof -
  have "system_run pool_step (get_conn 0 None) (pool_start one_of_each DefaultPoolPolicy 2) \<noteq> None" by code_simp
  then obtain p cs where "system_run pool_step (get_conn 0 None) (pool_start one_of_each DefaultPoolPolicy 2) = Some (p, cs)"
    by auto
  then show ?thesis using pool_accounts_for_every_connection [OF run_reachable] by blast
qed

theorem class_floor_is_guaranteed_witness:
  "\<exists>p cs. system_run pool_step [(0, Acquire (Some 1) Live)] (pool_start one_of_each DefaultPoolPolicy 2) = Some (p, cs) \<and>
     pool_step (PassGate Live 0) p (cs ! 0) \<noteq> None"
proof -
  let ?run = "system_run pool_step [(0, Acquire (Some 1) Live)] (pool_start one_of_each DefaultPoolPolicy 2)"
  have facts: "map_option (\<lambda>(p, cs). (poEnabled (plPol p), length cs, clPhase (cs ! 0),
      int (length (filter (\<lambda>c. inside c \<and> clClass c = clClass (cs ! 0)) cs)) \<le> class_floor (plPol p) (clClass (cs ! 0)))) ?run =
    Some (True, 2, Gating [GInter, GGeneral], True)" by code_simp
  then obtain p cs where run: "?run = Some (p, cs)" by auto
  then have c: "poEnabled (plPol p)" "0 < length cs" "clPhase (cs ! 0) = Gating [GInter, GGeneral]"
      "int (length (filter (\<lambda>c. inside c \<and> clClass c = clClass (cs ! 0)) cs)) \<le> class_floor (plPol p) (clClass (cs ! 0))"
    using facts by auto
  have "pool_step (PassGate Live 0) p (cs ! 0) \<noteq> None"
    using class_floor_is_guaranteed [OF run_reachable [OF run] c(1,2), of 0 GInter "[GGeneral]"] c(3,4) by blast
  then show ?thesis using run by blast
qed


theorem pool_counters_add_up_witness:
  "\<exists>p cs. system_run pool_step (get_conn 0 (Some 1)) (pool_start one_of_each DefaultPoolPolicy 2) = Some (p, cs) \<and>
     cpInUse (class_stat p ClassInteractive) = 1"
proof -
  let ?run = "system_run pool_step (get_conn 0 (Some 1)) (pool_start one_of_each DefaultPoolPolicy 2)"
  have facts: "map_option (\<lambda>(p, cs). length (filter (\<lambda>c. in_use c \<and> clClass c = ClassInteractive) cs)) ?run = Some 1" by code_simp
  then obtain p cs where run: "?run = Some (p, cs)" by auto
  then show ?thesis using pool_counters_add_up [OF run_reachable [OF run], of ClassInteractive] facts by fastforce
qed

end
