(* ===== verification/JobQueue.thy ===== *)
theory JobQueue
  imports Receipts
begin

text \<open>
  The verification queue of \<open>src/internal/serverstore\<close>: jobs, claims under a lease and the receipts that answer
  them, as the statements of \<open>pg.go\<close> and as the in-memory store of \<open>fake.go\<close>.  A column that holds a JSON
  document holds the value it encodes (an absent document is \<open>None\<close>); a transaction under its advisory lock is
  one step; instants are nanoseconds and \<open>None\<close> is NULL or the zero time; an empty claimant is NULL, since every
  peer has a name.  A call that the database refuses for want of a connection changes nothing and is left out.
\<close>

section \<open>Rows\<close>

record WorkerRequirements =
  wrSandboxCapability :: string
  wrVerifierAdapter :: string
  wrOS :: string
  wrEcosystem :: string
  wrRuntime :: string
  wrRuntimeVersion :: string
  wrExecutionContext :: string
  wrBrowserFamily :: string
  wrBrowserMajor :: string
  wrEngine :: string
  wrEngineVersion :: string
  wrFrameworks :: "string list"

record JobRow =
  jbID :: int
  jbSampleID :: string
  jbReason :: string
  jbWantEnv :: "WorkerRequirements option"
  jbStatus :: string
  jbClaimedBy :: string
  jbClaimedAt :: "int option"
  jbCreatedAt :: "int option"

record ReceiptRow =
  rrReceiptID :: string
  rrSampleID :: string
  rrPeerID :: string
  rrEnvHash :: string
  rrReceipt :: VerificationReceipt
  rrContractResult :: string
  rrCreatedAt :: "int option"

text \<open>Of a sample the queue reads its state and its manifest.\<close>

record SampleRow =
  saStatus :: string
  saQuarantined :: bool
  saQuarantineReason :: string
  saManifest :: SampleManifest
  saCreatedAt :: "int option"

definition JobStatusUnsupported :: string where
  "JobStatusUnsupported = ''unsupported''"

definition JobLease :: int where
  "JobLease = 30 * 60 * 1000000000"

section \<open>What a receipt says\<close>

definition ContractWasJudged :: "string \<Rightarrow> string \<Rightarrow> bool \<Rightarrow> bool" where
  "ContractWasJudged contractResult terminationKind hasFailureEvidence =
     (if ToLower (TrimSpace terminationKind) \<in> {''timeout'', ''process-start-failed''} then False
      else if ToUpper (TrimSpace contractResult) = ''PASS'' then True
      else if ToUpper (TrimSpace contractResult) = ''FAIL'' then hasFailureEvidence
      else False)"

definition ReceiptHasFailureEvidence :: "VerificationReceipt \<Rightarrow> bool" where
  "ReceiptHasFailureEvidence r \<longleftrightarrow> vrStageFailures r \<noteq> []"

definition ReceiptTerminationKind :: "VerificationReceipt \<Rightarrow> string" where
  "ReceiptTerminationKind r = (case map_of (vrStageFailures r) ''contract'' of None \<Rightarrow> [] | Some f \<Rightarrow> feTerminationKind f)"

definition contractJudgedSQL :: "ReceiptRow \<Rightarrow> bool" where
  "contractJudgedSQL r \<longleftrightarrow> ToUpper (rrContractResult r) \<in> {''PASS'', ''FAIL''} \<and>
     (ToUpper (rrContractResult r) = ''PASS'' \<or> ReceiptHasFailureEvidence (rrReceipt r)) \<and>
     ReceiptTerminationKind (rrReceipt r) \<notin> {''timeout'', ''process-start-failed''}"

definition loadBearingDimensions :: "EnvironmentFingerprint \<Rightarrow> string list" where
  "loadBearingDimensions e = [eOS e, eArch e, eLibc e]"

definition EnvironmentAgrees :: "EnvironmentFingerprint \<Rightarrow> EnvironmentFingerprint \<Rightarrow> bool" where
  "EnvironmentAgrees declared ranIn =
     list_all2 (\<lambda>want got. TrimSpace want = [] \<or> TrimSpace got = [] \<or> EqualFold (TrimSpace want) (TrimSpace got))
       (loadBearingDimensions declared) (loadBearingDimensions ranIn)"

definition environmentAgreesSQL :: "EnvironmentFingerprint \<Rightarrow> EnvironmentFingerprint \<Rightarrow> bool" where
  "environmentAgreesSQL declared ranIn =
     list_all2 (\<lambda>want got. \<not> (want \<noteq> [] \<and> got \<noteq> [] \<and> ToLower want \<noteq> ToLower got))
       (loadBearingDimensions declared) (loadBearingDimensions ranIn)"

section \<open>The tables\<close>

record queue_db =
  qdJobs :: "JobRow list"
  qdNextID :: int
  qdReceipts :: "ReceiptRow list"
  qdSamples :: "(string, SampleRow) gomap"
  qdDrafts :: "string list"
  qdAssignments :: "(string \<times> string) list"

datatype queue_error = ForeignKeyViolation | NotACrossJob

definition insert_job :: "int \<Rightarrow> string \<Rightarrow> string \<Rightarrow> WorkerRequirements option \<Rightarrow> string \<Rightarrow> queue_db \<Rightarrow> queue_error + queue_db \<times> int" where
  "insert_job now sample reason want status db =
     (if map_of (qdSamples db) sample = None then Inl ForeignKeyViolation
      else Inr (db\<lparr>qdNextID := qdNextID db + 1,
                   qdJobs := qdJobs db @ [\<lparr>jbID = qdNextID db, jbSampleID = sample, jbReason = reason, jbWantEnv = want,
                     jbStatus = status, jbClaimedBy = [], jbClaimedAt = None, jbCreatedAt = Some now\<rparr>]\<rparr>, qdNextID db))"

text \<open>\<open>ORDER BY id LIMIT 1\<close>.\<close>

definition first_job :: "(JobRow \<Rightarrow> bool) \<Rightarrow> queue_db \<Rightarrow> JobRow option" where
  "first_job P db = find P (sort_by (\<lambda>a b. jbID a < jbID b) (qdJobs db))"

definition default_status :: "string \<Rightarrow> string" where
  "default_status s = (if s = [] then ''open'' else s)"

definition PG_CreateJob :: "int \<Rightarrow> JobRow \<Rightarrow> queue_db \<Rightarrow> queue_error + queue_db \<times> int" where
  "PG_CreateJob now j db =
     (if jbReason j \<noteq> ''matrix'' then insert_job now (jbSampleID j) (jbReason j) (jbWantEnv j) (default_status (jbStatus j)) db
      else case first_job (\<lambda>k. jbSampleID k = jbSampleID j \<and> jbReason k = ''matrix'' \<and> jbWantEnv k = jbWantEnv j) db of
        Some k \<Rightarrow> Inr (db, jbID k)
      | None \<Rightarrow> insert_job now (jbSampleID j) ''matrix'' (jbWantEnv j) ''open'' db)"

definition PG_EnsureCrossJob :: "int \<Rightarrow> JobRow \<Rightarrow> queue_db \<Rightarrow> queue_error + queue_db \<times> int" where
  "PG_EnsureCrossJob now j db =
     (if jbReason j \<noteq> ''cross'' \<or> jbSampleID j = [] then Inl NotACrossJob
      else
        let status = default_status (jbStatus j); reuseUnsupported = (status = JobStatusUnsupported)
        in case first_job (\<lambda>k. jbSampleID k = jbSampleID j \<and> jbReason k = ''cross'' \<and>
               (jbStatus k \<in> {''open'', ''claimed''} \<or> reuseUnsupported \<and> jbStatus k = JobStatusUnsupported)) db of
             Some k \<Rightarrow> Inr (db, jbID k)
           | None \<Rightarrow> insert_job now (jbSampleID j) ''cross'' (jbWantEnv j) status db)"

text \<open>A claim that has outlived the lease; the review of lanes also reads one without a time.\<close>

definition expired :: "int \<Rightarrow> JobRow \<Rightarrow> bool" where
  "expired now j \<longleftrightarrow> jbStatus j = ''claimed'' \<and> (case jbClaimedAt j of None \<Rightarrow> False | Some t \<Rightarrow> t < now - JobLease)"

definition reviewable :: "int \<Rightarrow> JobRow \<Rightarrow> bool" where
  "reviewable now j \<longleftrightarrow> jbStatus j = ''open'' \<or> jbStatus j = JobStatusUnsupported \<or>
     jbStatus j = ''claimed'' \<and> (case jbClaimedAt j of None \<Rightarrow> True | Some t \<Rightarrow> t < now - JobLease)"

definition PG_CrossJobsForLaneReview :: "int \<Rightarrow> int \<Rightarrow> queue_db \<Rightarrow> JobRow list" where
  "PG_CrossJobsForLaneReview now limit db =
     take (nat (if limit \<le> 0 then 100 else limit))
       (sort_by (\<lambda>a b. jbID a < jbID b) (filter (\<lambda>j. jbReason j = ''cross'' \<and> reviewable now j) (qdJobs db)))"

text \<open>\<open>UPDATE verification_jobs SET ... WHERE ...\<close>.\<close>

definition update_jobs :: "(JobRow \<Rightarrow> bool) \<Rightarrow> (JobRow \<Rightarrow> JobRow) \<Rightarrow> queue_db \<Rightarrow> queue_db" where
  "update_jobs P f db = db\<lparr>qdJobs := map (\<lambda>j. if P j then f j else j) (qdJobs db)\<rparr>"

definition PG_SetJobRequirements :: "int \<Rightarrow> int \<Rightarrow> WorkerRequirements option \<Rightarrow> string \<Rightarrow> queue_db \<Rightarrow> queue_db" where
  "PG_SetJobRequirements now i want status =
     update_jobs (\<lambda>j. jbID j = i \<and> reviewable now j)
       (\<lambda>j. j\<lparr>jbWantEnv := want, jbStatus := status, jbClaimedBy := [], jbClaimedAt := None\<rparr>)"

definition judged_by :: "queue_db \<Rightarrow> string \<Rightarrow> string \<Rightarrow> bool" where
  "judged_by db sample peer \<longleftrightarrow> list_ex (\<lambda>r. rrSampleID r = sample \<and> rrPeerID r = peer \<and>
     (case map_of (qdSamples db) sample of None \<Rightarrow> False
      | Some sm \<Rightarrow> contractJudgedSQL r \<and> environmentAgreesSQL (smEnvironment (saManifest sm)) (vrEnvironment (rrReceipt r)))) (qdReceipts db)"

definition want_allows :: "string \<Rightarrow> string \<Rightarrow> JobRow \<Rightarrow> bool" where
  "want_allows capability os j \<longleftrightarrow> (case jbWantEnv j of None \<Rightarrow> True | Some w \<Rightarrow>
     (capability = [] \<or> wrSandboxCapability w = [] \<or> wrSandboxCapability w = capability) \<and>
     (os = [] \<or> wrOS w = [] \<or> ToLower (wrOS w) = ToLower os))"

definition offered :: "int \<Rightarrow> string \<Rightarrow> string \<Rightarrow> string \<Rightarrow> string \<Rightarrow> queue_db \<Rightarrow> JobRow \<Rightarrow> bool" where
  "offered now capability peer reason os db j \<longleftrightarrow> (jbStatus j = ''open'' \<or> expired now j) \<and>
     (reason = [] \<or> jbReason j = reason) \<and> want_allows capability os j \<and>
     (peer = [] \<or> jbReason j \<noteq> ''cross'' \<or> \<not> judged_by db (jbSampleID j) peer)"

definition older :: "JobRow \<Rightarrow> JobRow \<Rightarrow> bool" where
  "older a b \<longleftrightarrow> (case (jbCreatedAt a, jbCreatedAt b) of
     (Some s, Some t) \<Rightarrow> s < t \<or> s = t \<and> jbID a < jbID b
   | (Some _, None) \<Rightarrow> True
   | (None, Some _) \<Rightarrow> False
   | (None, None) \<Rightarrow> jbID a < jbID b)"

definition PG_OpenJobsPage ::
  "int \<Rightarrow> string \<Rightarrow> string \<Rightarrow> string \<Rightarrow> string \<Rightarrow> int \<Rightarrow> int \<Rightarrow> queue_db \<Rightarrow> JobRow list" where
  "PG_OpenJobsPage now capability peer reason os limit offset db =
     take (nat (if limit \<le> 0 then 10 else limit)) (drop (nat (if offset < 0 then 0 else offset))
       (sort_by older (filter (offered now capability peer reason os db) (qdJobs db))))"

definition PG_OpenJobs :: "int \<Rightarrow> string \<Rightarrow> string \<Rightarrow> string \<Rightarrow> int \<Rightarrow> queue_db \<Rightarrow> JobRow list" where
  "PG_OpenJobs now capability peer reason limit db = PG_OpenJobsPage now capability peer reason [] limit 0 db"

definition live_claim :: "int \<Rightarrow> string \<Rightarrow> JobRow \<Rightarrow> bool" where
  "live_claim now peer j \<longleftrightarrow> jbStatus j = ''claimed'' \<and> jbClaimedBy j = peer \<and>
     (case jbClaimedAt j of None \<Rightarrow> False | Some t \<Rightarrow> now - JobLease \<le> t)"

definition claimable :: "int \<Rightarrow> string \<Rightarrow> queue_db \<Rightarrow> JobRow \<Rightarrow> bool" where
  "claimable now peer db j \<longleftrightarrow> (jbStatus j = ''open'' \<or> expired now j) \<and>
     \<not> list_ex (\<lambda>other. jbID other \<noteq> jbID j \<and> jbSampleID other = jbSampleID j \<and> live_claim now peer other) (qdJobs db)"

definition PG_ClaimJob :: "int \<Rightarrow> int \<Rightarrow> string \<Rightarrow> queue_db \<Rightarrow> queue_db \<times> bool" where
  "PG_ClaimJob now i peer db =
     (if \<not> list_ex (\<lambda>j. jbID j = i) (qdJobs db) then (db, False)
      else (update_jobs (\<lambda>j. jbID j = i \<and> claimable now peer db j)
              (\<lambda>j. j\<lparr>jbStatus := ''claimed'', jbClaimedBy := peer, jbClaimedAt := Some now\<rparr>) db,
            length (filter (\<lambda>j. jbID j = i \<and> claimable now peer db j) (qdJobs db)) = 1))"

text \<open>The peer of the first receipt of a sample, by time and then by id.\<close>

definition earlier_receipt :: "ReceiptRow \<Rightarrow> ReceiptRow \<Rightarrow> bool" where
  "earlier_receipt a b \<longleftrightarrow> (case (rrCreatedAt a, rrCreatedAt b) of
     (Some s, Some t) \<Rightarrow> s < t \<or> s = t \<and> rrReceiptID a < rrReceiptID b
   | (Some _, None) \<Rightarrow> True
   | (None, Some _) \<Rightarrow> False
   | (None, None) \<Rightarrow> rrReceiptID a < rrReceiptID b)"

definition first_peer :: "ReceiptRow list \<Rightarrow> string option" where
  "first_peer rs = (case sort_by earlier_receipt rs of [] \<Rightarrow> None | r # _ \<Rightarrow> Some (rrPeerID r))"

definition PG_CompleteJobsForSample :: "string \<Rightarrow> string \<Rightarrow> queue_db \<Rightarrow> queue_db" where
  "PG_CompleteJobsForSample sample peer db =
     (let origin = first_peer (filter (\<lambda>r. rrSampleID r = sample) (qdReceipts db))
      in update_jobs (\<lambda>j. jbSampleID j = sample \<and> jbReason j = ''cross'' \<and> jbStatus j \<in> {''open'', ''claimed''} \<and>
             (peer = [] \<or> Some peer \<noteq> origin)) (\<lambda>j. j\<lparr>jbStatus := ''done''\<rparr>) db)"

definition PG_CompleteJob :: "int \<Rightarrow> queue_db \<Rightarrow> queue_db" where
  "PG_CompleteJob i = update_jobs (\<lambda>j. jbID j = i) (\<lambda>j. j\<lparr>jbStatus := ''done''\<rparr>)"

text \<open>\<open>INSERT INTO receipts ... ON CONFLICT (receipt_id) DO NOTHING\<close>, with the number of rows inserted.\<close>

definition insert_receipt :: "int \<Rightarrow> ReceiptRow \<Rightarrow> queue_db \<Rightarrow> queue_error + queue_db \<times> nat" where
  "insert_receipt now r db =
     (if list_ex (\<lambda>k. rrReceiptID k = rrReceiptID r) (qdReceipts db) then Inr (db, 0)
      else if map_of (qdSamples db) (rrSampleID r) = None then Inl ForeignKeyViolation
      else Inr (db\<lparr>qdReceipts := qdReceipts db @ [r\<lparr>rrCreatedAt := Some now\<rparr>]\<rparr>, 1))"

definition PG_SaveReceipt :: "int \<Rightarrow> ReceiptRow \<Rightarrow> queue_db \<Rightarrow> queue_error + queue_db" where
  "PG_SaveReceipt now r db = (case insert_receipt now r db of Inl e \<Rightarrow> Inl e | Inr (db', _) \<Rightarrow> Inr db')"

definition answers :: "int \<Rightarrow> ReceiptRow \<Rightarrow> JobRow \<Rightarrow> bool" where
  "answers i r j \<longleftrightarrow> jbID j = i \<and> jbSampleID j = rrSampleID r \<and> jbStatus j = ''claimed'' \<and> jbClaimedBy j = rrPeerID r"

definition is_cross :: "int \<Rightarrow> queue_db \<Rightarrow> bool" where
  "is_cross i db \<longleftrightarrow> list_ex (\<lambda>j. jbID j = i \<and> jbReason j = ''cross'') (qdJobs db)"

definition promote :: "string \<Rightarrow> queue_db \<Rightarrow> queue_db" where
  "promote sample db = (case map_of (qdSamples db) sample of
     None \<Rightarrow> db
   | Some s \<Rightarrow>
       if saStatus s = ''DRAFT'' \<and> saQuarantined s \<and> sample \<in> set (qdDrafts db)
       then db\<lparr>qdSamples := AList.update sample (s\<lparr>saStatus := ''CROSS_PASS'', saQuarantined := False, saQuarantineReason := []\<rparr>) (qdSamples db)\<rparr>
       else db)"

definition settle :: "int \<Rightarrow> ReceiptRow \<Rightarrow> queue_db \<Rightarrow> queue_db" where
  "settle i r db =
     (if rrContractResult r = ''PASS'' then (if is_cross i db then promote (rrSampleID r) db else db)
      else if rrContractResult r = ''FAIL'' then
        (if is_cross i db then db\<lparr>qdAssignments := filter (\<lambda>(_, s). s \<noteq> rrSampleID r) (qdAssignments db)\<rparr> else db)
      else db)"

definition PG_SaveReceiptForJob :: "int \<Rightarrow> ReceiptRow \<Rightarrow> int \<Rightarrow> queue_db \<Rightarrow> queue_error + queue_db \<times> bool" where
  "PG_SaveReceiptForJob now r i db =
     (let db1 = update_jobs (answers i r) (\<lambda>j. j\<lparr>jbStatus := ''done''\<rparr>) db
      in if length (filter (answers i r) (qdJobs db)) \<noteq> 1 then Inr (db, False)
         else case insert_receipt now r db1 of
           Inl e \<Rightarrow> Inl e
         | Inr (db2, n) \<Rightarrow> if n \<noteq> 1 then Inr (db, False) else Inr (settle i r db2, True))"

definition PG_StrandedDrafts :: "int \<Rightarrow> int \<Rightarrow> queue_db \<Rightarrow> string list" where
  "PG_StrandedDrafts maxAttempts limit db =
     take (nat limit) (map fst (sort_by (\<lambda>a b. case (saCreatedAt (snd a), saCreatedAt (snd b)) of
           (Some s, Some t) \<Rightarrow> s < t | (Some _, None) \<Rightarrow> True | _ \<Rightarrow> False)
       (filter (\<lambda>(i, s). saStatus s = ''DRAFT'' \<and> saQuarantined s \<and>
          \<not> list_ex (\<lambda>r. rrSampleID r = i \<and> rrContractResult r = ''PASS'') (qdReceipts db) \<and>
          \<not> list_ex (\<lambda>j. jbSampleID j = i \<and> jbStatus j \<in> {''open'', ''claimed''}) (qdJobs db) \<and>
          int (length (filter (\<lambda>j. jbSampleID j = i \<and> jbReason j = ''cross'') (qdJobs db))) < maxAttempts) (qdSamples db))))"

definition PG_JobsForSample :: "string \<Rightarrow> queue_db \<Rightarrow> JobRow list" where
  "PG_JobsForSample sample db = sort_by older (filter (\<lambda>j. jbSampleID j = sample) (qdJobs db))"

definition PG_JobsForSamples :: "string list \<Rightarrow> queue_db \<Rightarrow> (string, JobRow list) gomap" where
  "PG_JobsForSamples samples db =
     foldl (\<lambda>out j. AList.update (jbSampleID j) (get [] out (jbSampleID j) @ [j]) out) []
       (sort_by (\<lambda>a b. jbSampleID a < jbSampleID b \<or> jbSampleID a = jbSampleID b \<and> older a b)
         (filter (\<lambda>j. jbSampleID j \<in> set samples) (qdJobs db)))"

definition PG_Job :: "int \<Rightarrow> queue_db \<Rightarrow> JobRow option" where
  "PG_Job i db = find (\<lambda>j. jbID j = i) (qdJobs db)"

section \<open>Calls and runs\<close>

datatype queue_op = CreateJob JobRow | EnsureCrossJob JobRow | SetJobRequirements int "WorkerRequirements option" string
  | ClaimJob int string | CompleteJobsForSample string string | CompleteJob int | SaveReceipt ReceiptRow
  | SaveReceiptForJob ReceiptRow int | OpenJobsPage string string string string int int | CrossJobsForLaneReview int
  | JobsForSample string | Job int

datatype queue_answer = Refused queue_error | JobID int | Claimed bool | Saved bool | Jobs "JobRow list" | Found "JobRow option" | Ok

definition PG_call :: "int \<Rightarrow> queue_op \<Rightarrow> queue_db \<Rightarrow> queue_db \<times> queue_answer" where
  "PG_call now op db = (case op of
     CreateJob j \<Rightarrow> (case PG_CreateJob now j db of Inl e \<Rightarrow> (db, Refused e) | Inr (db', i) \<Rightarrow> (db', JobID i))
   | EnsureCrossJob j \<Rightarrow> (case PG_EnsureCrossJob now j db of Inl e \<Rightarrow> (db, Refused e) | Inr (db', i) \<Rightarrow> (db', JobID i))
   | SetJobRequirements i want status \<Rightarrow> (PG_SetJobRequirements now i want status db, Ok)
   | ClaimJob i peer \<Rightarrow> (case PG_ClaimJob now i peer db of (db', b) \<Rightarrow> (db', Claimed b))
   | CompleteJobsForSample sample peer \<Rightarrow> (PG_CompleteJobsForSample sample peer db, Ok)
   | CompleteJob i \<Rightarrow> (PG_CompleteJob i db, Ok)
   | SaveReceipt r \<Rightarrow> (case PG_SaveReceipt now r db of Inl e \<Rightarrow> (db, Refused e) | Inr db' \<Rightarrow> (db', Ok))
   | SaveReceiptForJob r i \<Rightarrow> (case PG_SaveReceiptForJob now r i db of Inl e \<Rightarrow> (db, Refused e) | Inr (db', b) \<Rightarrow> (db', Saved b))
   | OpenJobsPage capability peer reason os limit offset \<Rightarrow> (db, Jobs (PG_OpenJobsPage now capability peer reason os limit offset db))
   | CrossJobsForLaneReview limit \<Rightarrow> (db, Jobs (PG_CrossJobsForLaneReview now limit db))
   | JobsForSample sample \<Rightarrow> (db, Jobs (PG_JobsForSample sample db))
   | Job i \<Rightarrow> (db, Found (PG_Job i db)))"

text \<open>
  The calls of any clients, in the order in which they take effect.  The instant of a call is the one \<open>now()\<close> gives
  it, the start of its transaction, so the instants need not be in that order.
\<close>

inductive queue_reaches :: "queue_db \<Rightarrow> queue_db \<Rightarrow> bool" for db0 where
  here: "queue_reaches db0 db0"
| call: "queue_reaches db0 db \<Longrightarrow> queue_reaches db0 (fst (PG_call now op db))"

text \<open>A run of calls with the answers they got; each call names the time since the call before.\<close>

fun answers_of :: "('op \<Rightarrow> 's \<Rightarrow> 's \<times> 'a) \<Rightarrow> 'op list \<Rightarrow> 's \<Rightarrow> 's \<times> 'a list" where
  "answers_of step [] s = (s, [])"
| "answers_of step (op # ops) s = (let (s', a) = step op s; (s'', as) = answers_of step ops s' in (s'', a # as))"

definition timed :: "(int \<Rightarrow> 'op \<Rightarrow> 's \<Rightarrow> 's \<times> 'a) \<Rightarrow> int \<times> 'op \<Rightarrow> int \<times> 's \<Rightarrow> (int \<times> 's) \<times> 'a" where
  "timed call c s = (let now = fst s + fst c; (s', a) = call now (snd c) (snd s) in ((now, s'), a))"

definition new_queue :: "(string, SampleRow) gomap \<Rightarrow> string list \<Rightarrow> (string \<times> string) list \<Rightarrow> queue_db" where
  "new_queue samples drafts work = \<lparr>qdJobs = [], qdNextID = 1, qdReceipts = [], qdSamples = samples, qdDrafts = drafts, qdAssignments = work\<rparr>"

lemma run_reaches_queue: "queue_reaches db0 db \<Longrightarrow> queue_reaches db0 (snd (fst (answers_of (timed PG_call) cs (t, db))))"
  by (induction cs arbitrary: t db) (auto simp: timed_def split_beta Let_def intro: queue_reaches.call)

section \<open>How a call changes the jobs\<close>

text \<open>
  Every call rewrites some rows in place and may add one row: \<open>row_change now db a b\<close> is what may become of one row.
\<close>

definition row_change :: "int \<Rightarrow> queue_db \<Rightarrow> JobRow \<Rightarrow> JobRow \<Rightarrow> bool" where
  "row_change now db a b \<longleftrightarrow> b = a \<or>
     (\<exists>want status. reviewable now a \<and> b = a\<lparr>jbWantEnv := want, jbStatus := status, jbClaimedBy := [], jbClaimedAt := None\<rparr>) \<or>
     (\<exists>peer. claimable now peer db a \<and> b = a\<lparr>jbStatus := ''claimed'', jbClaimedBy := peer, jbClaimedAt := Some now\<rparr>) \<or>
     b = a\<lparr>jbStatus := ''done''\<rparr>"

lemma row_changes [intro]:
  "reviewable now a \<Longrightarrow> row_change now db a (a\<lparr>jbWantEnv := want, jbStatus := status, jbClaimedBy := [], jbClaimedAt := None\<rparr>)"
  "claimable now peer db a \<Longrightarrow> row_change now db a (a\<lparr>jbStatus := ''claimed'', jbClaimedBy := peer, jbClaimedAt := Some now\<rparr>)"
  "row_change now db a (a\<lparr>jbStatus := ''done''\<rparr>)" "row_change now db a a"
  unfolding row_change_def by blast+

text \<open>Of the rows of one call only one is claimed.\<close>

definition one_claim :: "queue_db \<Rightarrow> JobRow list \<Rightarrow> bool" where
  "one_claim db js \<longleftrightarrow> (\<exists>i. \<forall>a b. (a, b) \<in> set (zip (qdJobs db) js) \<and> jbStatus b = ''claimed'' \<and> jbClaimedAt b \<noteq> None \<and> b \<noteq> a \<longrightarrow> jbID a = i)"

definition new_row :: "int \<Rightarrow> queue_db \<Rightarrow> JobRow \<Rightarrow> bool" where
  "new_row now db j \<longleftrightarrow> jbID j = qdNextID db \<and> jbClaimedBy j = [] \<and> jbClaimedAt j = None \<and> jbCreatedAt j = Some now \<and>
     map_of (qdSamples db) (jbSampleID j) \<noteq> None"

lemma update_jobs_fields [simp]:
  "qdNextID (update_jobs P f db) = qdNextID db" "qdReceipts (update_jobs P f db) = qdReceipts db"
  "qdSamples (update_jobs P f db) = qdSamples db" "qdDrafts (update_jobs P f db) = qdDrafts db"
  "qdJobs (update_jobs P f db) = map (\<lambda>j. if P j then f j else j) (qdJobs db)"
  "qdAssignments (update_jobs P f db) = qdAssignments db"
  by (simp_all add: update_jobs_def)

lemma settle_fields [simp]:
  "qdNextID (settle i r db) = qdNextID db" "qdReceipts (settle i r db) = qdReceipts db" "qdJobs (settle i r db) = qdJobs db"
  "qdDrafts (settle i r db) = qdDrafts db"
  by (simp_all add: settle_def promote_def split: option.split)

lemma insert_receipt_fields:
  "insert_receipt now r db = Inr (db', n) \<Longrightarrow> qdJobs db' = qdJobs db \<and> qdNextID db' = qdNextID db \<and> qdSamples db' = qdSamples db \<and> qdDrafts db' = qdDrafts db"
  by (auto simp: insert_receipt_def split: if_splits)

definition rewritten :: "int \<Rightarrow> queue_db \<Rightarrow> queue_db \<Rightarrow> bool" where
  "rewritten now db db' \<longleftrightarrow> (\<exists>js. list_all2 (row_change now db) (qdJobs db) js \<and> one_claim db js \<and>
     (qdJobs db' = js \<and> qdNextID db' = qdNextID db \<or>
      (\<exists>j. qdJobs db' = js @ [j] \<and> new_row now db j \<and> qdNextID db' = qdNextID db + 1)))"

lemma rewritten_same: "qdJobs db' = qdJobs db \<Longrightarrow> qdNextID db' = qdNextID db \<Longrightarrow> rewritten now db db'"
  unfolding rewritten_def
  by (rule exI [of _ "qdJobs db"]) (auto simp: row_change_def one_claim_def list_all2_conv_all_nth in_set_zip)

lemma rewritten_update:
  assumes "\<And>j. j \<in> set (qdJobs db) \<Longrightarrow> P j \<Longrightarrow> row_change now db j (f j)"
    and "\<And>j. jbStatus (f j) = ''claimed'' \<Longrightarrow> jbClaimedAt (f j) \<noteq> None \<Longrightarrow> P j \<Longrightarrow> jbID j = i"
    and "qdJobs db' = map (\<lambda>j. if P j then f j else j) (qdJobs db)" "qdNextID db' = qdNextID db"
  shows "rewritten now db db'"
  unfolding rewritten_def
proof (intro exI [of _ "map (\<lambda>j. if P j then f j else j) (qdJobs db)"] conjI disjI1)
  show "list_all2 (row_change now db) (qdJobs db) (map (\<lambda>j. if P j then f j else j) (qdJobs db))"
    using assms(1) by (auto simp: list_all2_conv_all_nth row_change_def)
  show "one_claim db (map (\<lambda>j. if P j then f j else j) (qdJobs db))"
    unfolding one_claim_def
  proof (intro exI [of _ i] allI impI)
    fix a b assume *: "(a, b) \<in> set (zip (qdJobs db) (map (\<lambda>j. if P j then f j else j) (qdJobs db))) \<and>
      jbStatus b = ''claimed'' \<and> jbClaimedAt b \<noteq> None \<and> b \<noteq> a"
    then have "(a, b) \<in> set (zip (qdJobs db) (map (\<lambda>j. if P j then f j else j) (qdJobs db)))" by blast
    then have b: "b = (if P a then f a else a)" by (auto simp: in_set_zip)
    with * have "P a" by (cases "P a") auto
    with b * show "jbID a = i" using assms(2) [of a] by simp
  qed
qed (use assms in simp_all)

lemma rewritten_done: "rewritten now db (update_jobs P (\<lambda>j. j\<lparr>jbStatus := ''done''\<rparr>) db)"
  by (rule rewritten_update [where P = P and f = "\<lambda>j. j\<lparr>jbStatus := ''done''\<rparr>" and i = 0]) auto

lemma rewritten_insert: "insert_job now s r w st db = Inr (db', i) \<Longrightarrow> rewritten now db db'"
  unfolding rewritten_def
  by (rule exI [of _ "qdJobs db"])
    (auto simp: insert_job_def new_row_def row_change_def one_claim_def list_all2_conv_all_nth in_set_zip split: if_splits)

lemma call_rewrites: "rewritten now db (fst (PG_call now op db))"
proof (cases op)
  case (CreateJob j)
  then show ?thesis
    by (auto simp: PG_call_def PG_CreateJob_def rewritten_same intro: rewritten_insert split: sum.split option.splits if_splits)
next
  case (EnsureCrossJob j)
  then show ?thesis
    by (auto simp: PG_call_def PG_EnsureCrossJob_def rewritten_same Let_def intro: rewritten_insert split: sum.split option.splits if_splits)
next
  case (SetJobRequirements i want status)
  show ?thesis unfolding SetJobRequirements PG_call_def
    by (simp add: PG_SetJobRequirements_def,
        rule rewritten_update [where P = "\<lambda>j. jbID j = i \<and> reviewable now j"
          and f = "\<lambda>j. j\<lparr>jbWantEnv := want, jbStatus := status, jbClaimedBy := [], jbClaimedAt := None\<rparr>" and i = i]) auto
next
  case (ClaimJob i peer)
  show ?thesis
  proof (cases "list_ex (\<lambda>j. jbID j = i) (qdJobs db)")
    case True
    then have eq: "fst (PG_call now op db) = update_jobs (\<lambda>j. jbID j = i \<and> claimable now peer db j)
        (\<lambda>j. j\<lparr>jbStatus := ''claimed'', jbClaimedBy := peer, jbClaimedAt := Some now\<rparr>) db"
      by (simp add: ClaimJob PG_call_def PG_ClaimJob_def)
    show ?thesis unfolding eq
      by (rule rewritten_update [where P = "\<lambda>j. jbID j = i \<and> claimable now peer db j"
            and f = "\<lambda>j. j\<lparr>jbStatus := ''claimed'', jbClaimedBy := peer, jbClaimedAt := Some now\<rparr>" and i = i]) auto
  qed (simp add: ClaimJob PG_call_def PG_ClaimJob_def rewritten_same)
next
  case (CompleteJobsForSample s peer)
  then show ?thesis by (simp add: PG_call_def PG_CompleteJobsForSample_def rewritten_done Let_def)
next
  case (CompleteJob i)
  then show ?thesis by (simp add: PG_call_def PG_CompleteJob_def rewritten_done)
next
  case (SaveReceipt r)
  then show ?thesis
    by (auto simp: PG_call_def PG_SaveReceipt_def split: sum.split intro!: rewritten_same dest: insert_receipt_fields)
next
  case (SaveReceiptForJob r i)
  show ?thesis
  proof (cases "\<exists>db2. insert_receipt now r (update_jobs (answers i r) (\<lambda>j. j\<lparr>jbStatus := ''done''\<rparr>) db) = Inr (db2, 1) \<and>
      length (filter (answers i r) (qdJobs db)) = 1")
    case True
    then obtain db2 where 2: "insert_receipt now r (update_jobs (answers i r) (\<lambda>j. j\<lparr>jbStatus := ''done''\<rparr>) db) = Inr (db2, 1)"
      "length (filter (answers i r) (qdJobs db)) = 1" by blast
    show ?thesis
      by (rule rewritten_update [where P = "answers i r" and f = "\<lambda>j. j\<lparr>jbStatus := ''done''\<rparr>" and i = 0])
        (use 2 insert_receipt_fields [OF 2(1)] in \<open>simp_all add: SaveReceiptForJob PG_call_def PG_SaveReceiptForJob_def row_changes Let_def\<close>)
  next
    case False
    then have "fst (PG_call now op db) = db"
      by (auto simp: SaveReceiptForJob PG_call_def PG_SaveReceiptForJob_def Let_def split: sum.split)
    then show ?thesis by (simp add: rewritten_same)
  qed
qed (simp_all add: PG_call_def rewritten_same)


section \<open>Claims\<close>

definition claims_spaced :: "JobRow list \<Rightarrow> bool" where
  "claims_spaced js \<longleftrightarrow> (\<forall>a \<in> set js. \<forall>b \<in> set js. jbID a \<noteq> jbID b \<and> jbSampleID a = jbSampleID b \<and> jbClaimedBy a = jbClaimedBy b \<and>
     jbStatus a = ''claimed'' \<and> jbStatus b = ''claimed'' \<longrightarrow>
     (\<forall>s u. jbClaimedAt a = Some s \<and> jbClaimedAt b = Some u \<and> s \<le> u \<longrightarrow> s < u - JobLease))"

definition queue_ok :: "queue_db \<Rightarrow> bool" where
  "queue_ok db \<longleftrightarrow> distinct (map jbID (qdJobs db)) \<and> claims_spaced (qdJobs db) \<and>
     (\<forall>j \<in> set (qdJobs db). jbID j < qdNextID db)"

lemma row_changeE:
  assumes "row_change now db a b"
  obtains (same) "b = a"
  | (set) want status where "reviewable now a" "b = a\<lparr>jbWantEnv := want, jbStatus := status, jbClaimedBy := [], jbClaimedAt := None\<rparr>"
  | (claim) peer where "claimable now peer db a" "b = a\<lparr>jbStatus := ''claimed'', jbClaimedBy := peer, jbClaimedAt := Some now\<rparr>"
  | (finish) "b = a\<lparr>jbStatus := ''done''\<rparr>"
  using assms unfolding row_change_def by blast

lemma row_change_id [simp]:
  "row_change now db a b \<Longrightarrow> jbID b = jbID a" "row_change now db a b \<Longrightarrow> jbSampleID b = jbSampleID a"
  "row_change now db a b \<Longrightarrow> jbReason b = jbReason a" "row_change now db a b \<Longrightarrow> jbCreatedAt b = jbCreatedAt a"
  by (auto simp: row_change_def)

lemma row_change_done: "row_change now db a b \<Longrightarrow> jbStatus a = ''done'' \<Longrightarrow> b = a"
proof -
  assume c: "row_change now db a b" and d: "jbStatus a = ''done''"
  have "\<not> reviewable now a" "\<And>peer. \<not> claimable now peer db a"
    using d by (auto simp: reviewable_def claimable_def expired_def JobStatusUnsupported_def)
  moreover have "a\<lparr>jbStatus := ''done''\<rparr> = a" using d by (cases a) simp
  ultimately show "b = a" using c unfolding row_change_def by metis
qed

lemma row_change_claimed:
  assumes "row_change now db a b" "jbStatus b = ''claimed''" "jbClaimedAt b = Some s" "b \<noteq> a"
  shows "s = now \<and> claimable now (jbClaimedBy b) db a"
  using assms(1) by (cases rule: row_changeE) (use assms(2-4) in simp_all)

lemma changed_rows:
  assumes "list_all2 (row_change now db) (qdJobs db) js" "b \<in> set js"
  obtains a where "a \<in> set (qdJobs db)" "row_change now db a b" "(a, b) \<in> set (zip (qdJobs db) js)"
  using assms by (fastforce simp: list_all2_conv_all_nth in_set_conv_nth in_set_zip)

lemma spaced_after_claim:
  assumes a: "a \<in> set (qdJobs db)" "jbStatus a = ''claimed''" "jbClaimedAt a = Some s"
    and c: "claimable now (jbClaimedBy a) db b" "jbSampleID a = jbSampleID b" "jbID a \<noteq> jbID b"
  shows "s < now - JobLease"
proof -
  have "\<not> live_claim now (jbClaimedBy a) a" using c a(1) by (auto simp: claimable_def list_ex_iff)
  then show ?thesis using a by (auto simp: live_claim_def)
qed

lemma spaced_rewritten:
  assumes ok: "queue_ok db" and js: "list_all2 (row_change now db) (qdJobs db) js" "one_claim db js"
  shows "claims_spaced js"
  unfolding claims_spaced_def
proof (intro ballI impI allI, elim conjE)
  fix a' b' s u
  assume in_js: "a' \<in> set js" "b' \<in> set js" and ne: "jbID a' \<noteq> jbID b'" and same: "jbSampleID a' = jbSampleID b'" "jbClaimedBy a' = jbClaimedBy b'"
    and cl: "jbStatus a' = ''claimed''" "jbStatus b' = ''claimed''" and at: "jbClaimedAt a' = Some s" "jbClaimedAt b' = Some u" "s \<le> u"
  obtain a where a: "a \<in> set (qdJobs db)" "row_change now db a a'" "(a, a') \<in> set (zip (qdJobs db) js)" using changed_rows [OF js(1) in_js(1)] .
  obtain b where b: "b \<in> set (qdJobs db)" "row_change now db b b'" "(b, b') \<in> set (zip (qdJobs db) js)" using changed_rows [OF js(1) in_js(2)] .
  have ids: "jbID a \<noteq> jbID b" "jbSampleID a = jbSampleID b" using a(2) b(2) ne same(1) by simp_all
  obtain i where i: "\<And>x y. (x, y) \<in> set (zip (qdJobs db) js) \<Longrightarrow> jbStatus y = ''claimed'' \<Longrightarrow> jbClaimedAt y \<noteq> None \<Longrightarrow> y \<noteq> x \<Longrightarrow> jbID x = i"
    using js(2) unfolding one_claim_def by blast
  have "a' = a \<or> b' = b" using i [OF a(3) cl(1)] i [OF b(3) cl(2)] at(1,2) ids(1) by force
  then consider "a' = a" "b' = b" | "a' = a" "b' \<noteq> b" | "a' \<noteq> a" "b' = b" by blast
  then show "s < u - JobLease"
  proof cases
    case 1
    then show ?thesis using ok a(1) b(1) ids cl at same by (fastforce simp: queue_ok_def claims_spaced_def)
  next
    case 2
    then have "u = now" "claimable now (jbClaimedBy a) db b" using row_change_claimed [OF b(2) cl(2) at(2)] same by auto
    then show ?thesis using spaced_after_claim [OF a(1) _ _ _ ids(2,1)] 2 cl at by auto
  next
    case 3
    then have "s = now" "claimable now (jbClaimedBy b) db a" using row_change_claimed [OF a(2) cl(1) at(1)] same by auto
    then have "u < now - JobLease" using spaced_after_claim [OF b(1) _ _ _ ids(2) [symmetric] ids(1) [symmetric]] 3 cl at by auto
    then show ?thesis using \<open>s = now\<close> at(3) by (simp add: JobLease_def)
  qed
qed

lemma ids_kept: "list_all2 (row_change now db) xs js \<Longrightarrow> map jbID js = map jbID xs"
  by (induction rule: list_all2_induct) simp_all

lemma queue_ok_call:
  assumes ok: "queue_ok db"
  shows "queue_ok (fst (PG_call now op db))"
proof -
  obtain js where js: "list_all2 (row_change now db) (qdJobs db) js" "one_claim db js"
    and after: "qdJobs (fst (PG_call now op db)) = js \<and> qdNextID (fst (PG_call now op db)) = qdNextID db \<or>
      (\<exists>j. qdJobs (fst (PG_call now op db)) = js @ [j] \<and> new_row now db j \<and> qdNextID (fst (PG_call now op db)) = qdNextID db + 1)"
    using call_rewrites [of now db op] by (auto simp: rewritten_def)
  have sp: "claims_spaced js" by (rule spaced_rewritten [OF ok js])
  have dist: "distinct (map jbID js)" using ok ids_kept [OF js(1)] by (simp add: queue_ok_def)
  have rows: "jbID j < qdNextID db" if "j \<in> set js" for j
  proof -
    obtain a where "a \<in> set (qdJobs db)" "row_change now db a j" using changed_rows [OF js(1) \<open>j \<in> set js\<close>] .
    then show ?thesis using ok by (fastforce simp: queue_ok_def)
  qed
  show ?thesis
    using after
  proof
    assume "qdJobs (fst (PG_call now op db)) = js \<and> qdNextID (fst (PG_call now op db)) = qdNextID db"
    then show ?thesis using sp dist rows by (simp add: queue_ok_def)
  next
    assume "\<exists>j. qdJobs (fst (PG_call now op db)) = js @ [j] \<and> new_row now db j \<and> qdNextID (fst (PG_call now op db)) = qdNextID db + 1"
    then obtain j where j: "qdJobs (fst (PG_call now op db)) = js @ [j]" "new_row now db j" "qdNextID (fst (PG_call now op db)) = qdNextID db + 1" by blast
    have "claims_spaced (js @ [j])" using sp j(2) by (auto simp: claims_spaced_def new_row_def)
    moreover have "distinct (map jbID (js @ [j]))" using dist rows j(2) by (fastforce simp: new_row_def)
    moreover have "\<forall>k \<in> set (js @ [j]). jbID k < qdNextID db + 1"
      using rows j(2) by (fastforce simp: new_row_def)
    ultimately show ?thesis using j by (simp add: queue_ok_def)
  qed
qed

lemma queue_ok_reaches: "queue_reaches db0 db \<Longrightarrow> queue_ok db0 \<Longrightarrow> queue_ok db"
  by (induction rule: queue_reaches.induct) (auto intro: queue_ok_call)


lemma empty_queue_ok: "qdJobs db = [] \<Longrightarrow> queue_ok db"
  by (simp add: queue_ok_def claims_spaced_def)

text \<open>C5: whatever the calls and their interleaving, a peer never holds two unexpired claims on jobs of the same
  sample, so the cells of a matrix cannot be collected by one machine at once; job ids are never reused.\<close>

theorem one_live_claim_per_peer:
  assumes "queue_reaches db0 db" and "qdJobs db0 = []"
    and "\<forall>j \<in> set (qdJobs db). \<forall>s. jbClaimedAt j = Some s \<longrightarrow> s \<le> now"
    and "a \<in> set (qdJobs db)" and "b \<in> set (qdJobs db)" and "jbSampleID a = jbSampleID b"
    and "live_claim now peer a" and "live_claim now peer b"
  shows "a = b"
proof -
  have ok: "queue_ok db" using queue_ok_reaches [OF assms(1)] empty_queue_ok [OF assms(2)] by blast
  obtain s u where su: "jbClaimedAt a = Some s" "jbClaimedAt b = Some u" "now - JobLease \<le> s" "now - JobLease \<le> u"
    using assms(7,8) by (auto simp: live_claim_def split: option.splits)
  have late: "s \<le> now" "u \<le> now" using assms(3-5) su by blast+
  have sp: "jbID x \<noteq> jbID y \<Longrightarrow> jbClaimedAt x = Some v \<Longrightarrow> jbClaimedAt y = Some w \<Longrightarrow> v \<le> w \<Longrightarrow> v < w - JobLease"
    if "{x, y} = {a, b}" for x y v w
    using ok assms(4-8) that unfolding queue_ok_def claims_spaced_def live_claim_def doubleton_eq_iff by metis
  have "jbID a = jbID b"
  proof (rule ccontr)
    assume ne: "jbID a \<noteq> jbID b"
    show False
    proof (cases "s \<le> u")
      case True
      then show ?thesis using sp [of a b s u] ne su late by auto
    next
      case False
      then show ?thesis using sp [of b a u s] ne su late by auto
    qed
  qed
  then show "a = b" using ok assms(4,5) by (auto simp: queue_ok_def distinct_map inj_on_def)
qed

section \<open>Jobs and receipts last\<close>

lemma call_receipts: "set (qdReceipts db) \<subseteq> set (qdReceipts (fst (PG_call now op db)))"
proof (cases op)
  case (SaveReceipt r)
  then show ?thesis by (auto simp: PG_call_def PG_SaveReceipt_def insert_receipt_def)
next
  case (SaveReceiptForJob r i)
  then show ?thesis
    by (auto simp: PG_call_def PG_SaveReceiptForJob_def insert_receipt_def Let_def split: sum.split)
qed (auto simp: PG_call_def PG_CreateJob_def PG_EnsureCrossJob_def insert_job_def PG_SetJobRequirements_def PG_ClaimJob_def
    PG_CompleteJobsForSample_def PG_CompleteJob_def Let_def split: sum.splits option.splits if_splits)

lemma call_keeps_job:
  assumes "j \<in> set (qdJobs db)"
  shows "\<exists>j' \<in> set (qdJobs (fst (PG_call now op db))). row_change now db j j'"
proof -
  obtain js where js: "list_all2 (row_change now db) (qdJobs db) js" "set js \<subseteq> set (qdJobs (fst (PG_call now op db)))"
    using call_rewrites [of now db op] unfolding rewritten_def by (metis set_append Un_upper1 order_refl)
  obtain k where "k < length (qdJobs db)" "j = qdJobs db ! k" using assms by (auto simp: in_set_conv_nth)
  then have "row_change now db j (js ! k)" "js ! k \<in> set js" using js(1) by (auto simp: list_all2_conv_all_nth)
  then show ?thesis using js(2) by blast
qed

text \<open>C34: jobs and receipts are history: no call removes one, changes what a job asks about or reopens a job that is
  done.\<close>

theorem finished_jobs_stay:
  assumes "queue_reaches db db'"
  shows "set (qdReceipts db) \<subseteq> set (qdReceipts db') \<and>
    (\<forall>j \<in> set (qdJobs db). \<exists>j' \<in> set (qdJobs db'). jbID j' = jbID j \<and> jbSampleID j' = jbSampleID j \<and> jbReason j' = jbReason j \<and>
       jbCreatedAt j' = jbCreatedAt j \<and> (jbStatus j = ''done'' \<longrightarrow> j' = j))"
  using assms
proof (induction rule: queue_reaches.induct)
  case here
  then show ?case by blast
next
  case (call db1 now op)
  show ?case
  proof (intro conjI ballI)
    show "set (qdReceipts db) \<subseteq> set (qdReceipts (fst (PG_call now op db1)))" using call.IH call_receipts by blast
    fix j assume "j \<in> set (qdJobs db)"
    then obtain j1 where j1: "j1 \<in> set (qdJobs db1)" "jbID j1 = jbID j" "jbSampleID j1 = jbSampleID j" "jbReason j1 = jbReason j"
      "jbCreatedAt j1 = jbCreatedAt j" "jbStatus j = ''done'' \<longrightarrow> j1 = j" using call.IH by blast
    obtain j2 where "j2 \<in> set (qdJobs (fst (PG_call now op db1)))" "row_change now db1 j1 j2"
      using call_keeps_job [OF j1(1), of now op] by blast
    with j1 show "\<exists>j' \<in> set (qdJobs (fst (PG_call now op db1))). jbID j' = jbID j \<and> jbSampleID j' = jbSampleID j \<and>
        jbReason j' = jbReason j \<and> jbCreatedAt j' = jbCreatedAt j \<and> (jbStatus j = ''done'' \<longrightarrow> j' = j)"
      using row_change_done by (intro bexI [of _ j2]) auto
  qed
qed

section \<open>Drafts\<close>

text \<open>What lets a draft out of quarantine: a passing receipt of the peer that held a cross job of the sample.\<close>

definition vouched :: "string \<Rightarrow> queue_db \<Rightarrow> bool" where
  "vouched i db \<longleftrightarrow> (\<exists>r \<in> set (qdReceipts db). \<exists>j \<in> set (qdJobs db). rrSampleID r = i \<and> rrContractResult r = ''PASS'' \<and>
     jbSampleID j = i \<and> jbReason j = ''cross'' \<and> jbStatus j = ''done'' \<and> jbClaimedBy j = rrPeerID r)"

lemma vouched_call: "vouched i db \<Longrightarrow> vouched i (fst (PG_call now op db))"
  unfolding vouched_def
proof (elim bexE conjE)
  fix r j assume r: "r \<in> set (qdReceipts db)" "rrSampleID r = i" "rrContractResult r = ''PASS''" and j: "j \<in> set (qdJobs db)" "jbSampleID j = i"
    "jbReason j = ''cross''" "jbStatus j = ''done''" "jbClaimedBy j = rrPeerID r"
  obtain j' where "j' \<in> set (qdJobs (fst (PG_call now op db)))" "j' = j"
    using call_keeps_job [OF j(1), of now op] row_change_done [OF _ j(4)] by blast
  then show "\<exists>r \<in> set (qdReceipts (fst (PG_call now op db))). \<exists>j \<in> set (qdJobs (fst (PG_call now op db))). rrSampleID r = i \<and>
      rrContractResult r = ''PASS'' \<and> jbSampleID j = i \<and> jbReason j = ''cross'' \<and> jbStatus j = ''done'' \<and> jbClaimedBy j = rrPeerID r"
    using r j call_receipts by blast
qed

lemma promote_fields [simp]:
  "qdJobs (promote i db) = qdJobs db" "qdReceipts (promote i db) = qdReceipts db"
  "k \<noteq> i \<Longrightarrow> map_of (qdSamples (promote i db)) k = map_of (qdSamples db) k"
  by (simp_all add: promote_def update_conv' split: option.split)

lemma settle_samples: "map_of (qdSamples (settle i r db)) k \<noteq> map_of (qdSamples db) k \<Longrightarrow>
  k = rrSampleID r \<and> rrContractResult r = ''PASS'' \<and> is_cross i db"
  by (auto simp: settle_def split: if_splits) (metis promote_fields(3))

lemma accepted_receipt:
  assumes "PG_SaveReceiptForJob now r i db = Inr (db', True)" and "distinct (map jbID (qdJobs db))"
  obtains db2 j where "db' = settle i r db2" "j \<in> set (qdJobs db)" "answers i r j" "qdSamples db2 = qdSamples db"
    "qdJobs db2 = map (\<lambda>j. if answers i r j then j\<lparr>jbStatus := ''done''\<rparr> else j) (qdJobs db)"
    "qdReceipts db2 = qdReceipts db @ [r\<lparr>rrCreatedAt := Some now\<rparr>]"
proof -
  let ?db1 = "update_jobs (answers i r) (\<lambda>j. j\<lparr>jbStatus := ''done''\<rparr>) db"
  obtain db2 where one: "length (filter (answers i r) (qdJobs db)) = 1" and ins: "insert_receipt now r ?db1 = Inr (db2, 1)" and "db' = settle i r db2"
    using assms(1) by (auto simp: PG_SaveReceiptForJob_def Let_def split: if_splits sum.splits)
  moreover have "db2 = ?db1\<lparr>qdReceipts := qdReceipts db @ [r\<lparr>rrCreatedAt := Some now\<rparr>]\<rparr>"
    using ins by (auto simp: insert_receipt_def split: if_splits)
  moreover obtain j where "j \<in> set (filter (answers i r) (qdJobs db))" using one by (cases "filter (answers i r) (qdJobs db)") auto
  ultimately show thesis using that by auto
qed

lemma call_samples:
  assumes ok: "queue_ok db" and ch: "map_of (qdSamples (fst (PG_call now op db))) k \<noteq> map_of (qdSamples db) k"
  shows "vouched k (fst (PG_call now op db))"
proof (cases op)
  case (SaveReceiptForJob r i)
  with ch obtain db' where acc: "PG_SaveReceiptForJob now r i db = Inr (db', True)"
    by (auto simp: PG_call_def PG_SaveReceiptForJob_def Let_def split: sum.splits if_splits)
  have dist: "distinct (map jbID (qdJobs db))" using ok by (simp add: queue_ok_def)
  obtain db2 j where d: "db' = settle i r db2" "j \<in> set (qdJobs db)" "answers i r j" "qdSamples db2 = qdSamples db"
    "qdJobs db2 = map (\<lambda>j. if answers i r j then j\<lparr>jbStatus := ''done''\<rparr> else j) (qdJobs db)"
    "qdReceipts db2 = qdReceipts db @ [r\<lparr>rrCreatedAt := Some now\<rparr>]" using accepted_receipt [OF acc dist] .
  have call: "fst (PG_call now op db) = settle i r db2" using acc d(1) by (simp add: SaveReceiptForJob PG_call_def)
  have k: "k = rrSampleID r" "rrContractResult r = ''PASS''" and cross: "is_cross i db2"
    using settle_samples [of i r db2 k] ch d(4) call by auto
  obtain x where x: "x \<in> set (qdJobs db)" "jbID x = i" "jbReason x = ''cross''"
    using cross d(5) by (auto simp: is_cross_def list_ex_iff split: if_splits)
  have "x = j" using dist x d(2,3) by (auto simp: answers_def distinct_map inj_on_def)
  then show ?thesis
    unfolding vouched_def call
    using d(2,3,5,6) k x by (intro bexI [of _ "r\<lparr>rrCreatedAt := Some now\<rparr>"] bexI [of _ "j\<lparr>jbStatus := ''done''\<rparr>"]) (auto simp: answers_def)
next
  case (SaveReceipt r)
  then show ?thesis using ch by (auto simp: PG_call_def PG_SaveReceipt_def dest: insert_receipt_fields split: sum.splits)
qed (use ch in \<open>auto simp: PG_call_def PG_CreateJob_def PG_EnsureCrossJob_def insert_job_def PG_SetJobRequirements_def PG_ClaimJob_def
    PG_CompleteJobsForSample_def PG_CompleteJob_def Let_def split: sum.splits option.splits if_splits\<close>)

text \<open>C7: a sample is never let out of quarantine by the queue alone: if the row of a sample has changed since the
  tables were empty of jobs, a passing receipt of it was accepted from the peer that had claimed a cross job of it, and
  that job is done.\<close>

theorem published_draft_was_reproduced:
  assumes "queue_reaches db0 db" and "qdJobs db0 = []" and "map_of (qdSamples db) k \<noteq> map_of (qdSamples db0) k"
  shows "\<exists>r \<in> set (qdReceipts db). \<exists>j \<in> set (qdJobs db). rrSampleID r = k \<and> rrContractResult r = ''PASS'' \<and>
     jbSampleID j = k \<and> jbReason j = ''cross'' \<and> jbStatus j = ''done'' \<and> jbClaimedBy j = rrPeerID r"
proof -
  have "map_of (qdSamples db) k = map_of (qdSamples db0) k \<or> vouched k db"
    using assms(1)
  proof (induction rule: queue_reaches.induct)
    case (call db1 now op)
    have "queue_ok db1" using queue_ok_reaches [OF call.hyps(1)] empty_queue_ok [OF assms(2)] by blast
    then show ?case using call.IH call_samples [of db1 now op k] vouched_call by metis
  qed simp
  with assms(3) show ?thesis by (simp add: vouched_def)
qed


section \<open>Job histories\<close>

text \<open>\<open>sort_by\<close> is stable, so it commutes with choosing rows.\<close>

context strict_weak
begin

lemma insert_front: "\<forall>z \<in> set ys. \<not> lt z x \<Longrightarrow> insert_by lt x ys = x # ys"
  by (cases ys) auto

lemma filter_insert_by:
  "sorted_wrt (\<lambda>a b. \<not> lt b a) ys \<Longrightarrow> filter P (insert_by lt x ys) = (if P x then insert_by lt x (filter P ys) else filter P ys)"
proof (induction ys)
  case (Cons y ys)
  show ?case
  proof (cases "lt y x")
    case False
    then have "\<forall>z \<in> set (y # ys). \<not> lt z x" using Cons.prems not_less_trans by auto
    then have "insert_by lt x (filter P (y # ys)) = x # filter P (y # ys)" by (intro insert_front) auto
    then show ?thesis using False by simp
  qed (use Cons in simp)
qed simp

lemma filter_sort_by: "filter P (sort_by lt xs) = sort_by lt (filter P xs)"
proof (induction xs)
  case (Cons x xs)
  have "sort_by lt (x # xs) = insert_by lt x (sort_by lt xs)" by (simp add: sort_by_def)
  then show ?case using Cons filter_insert_by [OF sorted_sort_by] by (simp add: sort_by_def)
qed (simp add: sort_by_def)

end

interpretation job_age: strict_weak older
proof
  fix x y z :: JobRow
  show "older x y \<Longrightarrow> \<not> older y x"
    unfolding older_def by (cases "jbCreatedAt x"; cases "jbCreatedAt y"; simp; linarith)
  show "older x z \<Longrightarrow> older x y \<or> older y z"
    unfolding older_def by (cases "jbCreatedAt x"; cases "jbCreatedAt y"; cases "jbCreatedAt z"; simp; linarith)
qed

interpretation job_age_in_sample: strict_weak "\<lambda>a b. jbSampleID a < jbSampleID b \<or> jbSampleID a = jbSampleID b \<and> older a b"
proof
  fix x y z :: JobRow
  show "jbSampleID x < jbSampleID y \<or> jbSampleID x = jbSampleID y \<and> older x y \<Longrightarrow>
      \<not> (jbSampleID y < jbSampleID x \<or> jbSampleID y = jbSampleID x \<and> older y x)"
    using job_age.asym by (metis order.asym order.irrefl)
  show "jbSampleID x < jbSampleID z \<or> jbSampleID x = jbSampleID z \<and> older x z \<Longrightarrow>
      (jbSampleID x < jbSampleID y \<or> jbSampleID x = jbSampleID y \<and> older x y) \<or> jbSampleID y < jbSampleID z \<or> jbSampleID y = jbSampleID z \<and> older y z"
    using job_age.neg_trans [of x z y] by (metis linorder_neqE order.strict_trans)
qed

lemma insert_by_cong: "(\<And>y. y \<in> set ys \<Longrightarrow> lt y x = lt' y x) \<Longrightarrow> insert_by lt x ys = insert_by lt' x ys"
  by (induction ys) auto

lemma sort_by_cong: "(\<And>x y. x \<in> set xs \<Longrightarrow> y \<in> set xs \<Longrightarrow> lt x y = lt' x y) \<Longrightarrow> sort_by lt xs = sort_by lt' xs"
proof (induction xs)
  case (Cons x xs)
  have s: "sort_by l (x # xs) = insert_by l x (sort_by l xs)" for l by (simp add: sort_by_def)
  have "sort_by lt xs = sort_by lt' xs" using Cons by simp
  moreover have "insert_by lt x (sort_by lt' xs) = insert_by lt' x (sort_by lt' xs)" using Cons.prems by (intro insert_by_cong) simp
  ultimately show ?case by (simp add: s)
qed (simp add: sort_by_def)

lemma grouped: "get [] (foldl (\<lambda>out j. AList.update (jbSampleID j) (get [] out (jbSampleID j) @ [j]) out) m js) k =
  get [] m k @ filter (\<lambda>j. jbSampleID j = k) js"
  by (induction js arbitrary: m) auto

text \<open>The batched lookup of job histories gives every requested sample the rows, in the order, that the lookup of that
  sample alone gives.\<close>

theorem batched_histories_are_the_histories:
  "get [] (PG_JobsForSamples samples db) k = (if k \<in> set samples then PG_JobsForSample k db else [])"
proof -
  have "get [] (PG_JobsForSamples samples db) k =
      sort_by (\<lambda>a b. jbSampleID a < jbSampleID b \<or> jbSampleID a = jbSampleID b \<and> older a b)
        (filter (\<lambda>j. jbSampleID j = k \<and> k \<in> set samples) (qdJobs db))"
    by (auto simp: PG_JobsForSamples_def grouped job_age_in_sample.filter_sort_by intro!: arg_cong2 [where f = sort_by] filter_cong)
  also have "\<dots> = sort_by older (filter (\<lambda>j. jbSampleID j = k \<and> k \<in> set samples) (qdJobs db))" by (rule sort_by_cong) auto
  finally show ?thesis by (simp add: PG_JobsForSample_def sort_by_def)
qed

section \<open>Offers\<close>

lemma in_page: "j \<in> set (PG_OpenJobsPage now capability peer reason os limit offset db) \<Longrightarrow>
  j \<in> set (qdJobs db) \<and> offered now capability peer reason os db j"
  by (auto simp: PG_OpenJobsPage_def dest!: in_set_takeD in_set_dropD)

lemma filter_one:
  assumes "distinct (map jbID js)" "j \<in> set js" "P j" "\<And>k. P k \<Longrightarrow> jbID k = jbID j"
  shows "filter P js = [j]"
  using assms
proof (induction js)
  case (Cons k ks)
  show ?case
  proof (cases "k = j")
    case True
    then have "jbID x \<noteq> jbID j" if "x \<in> set ks" for x using Cons.prems(1) that by (metis distinct.simps(2) image_eqI list.set_map list.simps(9))
    then have "filter P ks = []" using Cons.prems(4) by (metis filter_False)
    then show ?thesis using True Cons.prems(3) by simp
  next
    case False
    have ks: "j \<in> set ks" "distinct (map jbID ks)" using False Cons.prems(1,2) by auto
    have "jbID j \<in> set (map jbID ks)" using ks(1) by simp
    then have "jbID k \<noteq> jbID j" using Cons.prems(1) by (metis distinct.simps(2) list.simps(9))
    then have "\<not> P k" using Cons.prems(4) by blast
    moreover have "filter P ks = [j]" by (rule Cons.IH [OF ks(2,1) Cons.prems(3,4)])
    ultimately show ?thesis by simp
  qed
qed simp

lemma claim_succeeds:
  assumes "distinct (map jbID (qdJobs db))" "j \<in> set (qdJobs db)" "claimable now peer db j"
  defines "db' \<equiv> fst (PG_ClaimJob now (jbID j) peer db)"
    and "j' \<equiv> j\<lparr>jbStatus := ''claimed'', jbClaimedBy := peer, jbClaimedAt := Some now\<rparr>"
  shows "snd (PG_ClaimJob now (jbID j) peer db)" "j' \<in> set (qdJobs db')" "map jbID (qdJobs db') = map jbID (qdJobs db)"
    "qdReceipts db' = qdReceipts db" "qdSamples db' = qdSamples db"
proof -
  have one: "filter (\<lambda>k. jbID k = jbID j \<and> claimable now peer db k) (qdJobs db) = [j]"
    using assms(1-3) by (intro filter_one) auto
  have ex: "list_ex (\<lambda>k. jbID k = jbID j) (qdJobs db)" using assms(2) by (auto simp: list_ex_iff)
  show "snd (PG_ClaimJob now (jbID j) peer db)" using ex by (simp add: PG_ClaimJob_def one)
  show "j' \<in> set (qdJobs db')" using ex assms(2,3) by (auto simp: PG_ClaimJob_def db'_def j'_def image_iff)
  show "map jbID (qdJobs db') = map jbID (qdJobs db)" using ex by (simp add: PG_ClaimJob_def db'_def)
  show "qdReceipts db' = qdReceipts db" "qdSamples db' = qdSamples db" using ex by (simp_all add: PG_ClaimJob_def db'_def)
qed

lemma receipt_of_claimant:
  assumes "distinct (map jbID (qdJobs db))" "j \<in> set (qdJobs db)" "jbStatus j = ''claimed''" "rrSampleID r = jbSampleID j"
  shows "rrPeerID r \<noteq> jbClaimedBy j \<Longrightarrow> PG_SaveReceiptForJob now r (jbID j) db = Inr (db, False)"
    and "rrPeerID r = jbClaimedBy j \<Longrightarrow> \<forall>x \<in> set (qdReceipts db). rrReceiptID x \<noteq> rrReceiptID r \<Longrightarrow>
      map_of (qdSamples db) (jbSampleID j) \<noteq> None \<Longrightarrow> \<exists>db'. PG_SaveReceiptForJob now r (jbID j) db = Inr (db', True)"
proof -
  have only: "answers (jbID j) r k \<Longrightarrow> k \<in> set (qdJobs db) \<Longrightarrow> k = j" for k
    using assms(1,2) by (auto simp: answers_def distinct_map inj_on_def)
  show "PG_SaveReceiptForJob now r (jbID j) db = Inr (db, False)" if "rrPeerID r \<noteq> jbClaimedBy j"
  proof -
    have "\<not> answers (jbID j) r k" if "k \<in> set (qdJobs db)" for k
      using only [of k] that \<open>rrPeerID r \<noteq> jbClaimedBy j\<close> by (metis answers_def)
    then have "filter (answers (jbID j) r) (qdJobs db) = []" by (metis filter_False)
    then show ?thesis by (simp add: PG_SaveReceiptForJob_def Let_def)
  qed
  show "\<exists>db'. PG_SaveReceiptForJob now r (jbID j) db = Inr (db', True)"
    if "rrPeerID r = jbClaimedBy j" "\<forall>x \<in> set (qdReceipts db). rrReceiptID x \<noteq> rrReceiptID r" "map_of (qdSamples db) (jbSampleID j) \<noteq> None"
  proof -
    have "filter (answers (jbID j) r) (qdJobs db) = [j]"
      using assms that by (intro filter_one) (auto simp: answers_def)
    moreover have "\<not> list_ex (\<lambda>k. rrReceiptID k = rrReceiptID r) (qdReceipts db)" using that(2) by (auto simp: list_ex_iff)
    ultimately show ?thesis using that(3) assms(4) by (simp add: PG_SaveReceiptForJob_def insert_receipt_def Let_def)
  qed
qed


text \<open>C8: a claim that was abandoned does not hold its job: once its lease is over the job is on the page of every peer that
  has not judged the sample, such a peer can claim it, and a receipt of the old claimant for it is refused from then on.\<close>

theorem abandoned_job_is_taken_over:
  assumes r: "queue_reaches db0 db" and e: "qdJobs db0 = []"
    and j: "j \<in> set (qdJobs db)" "jbStatus j = ''claimed''" "jbClaimedAt j = Some s" "s + JobLease < now"
    and peer: "\<not> judged_by db (jbSampleID j) peer" "jbClaimedBy j \<noteq> peer"
    and free: "\<forall>k \<in> set (qdJobs db). jbSampleID k = jbSampleID j \<longrightarrow> \<not> live_claim now peer k"
    and old: "rrSampleID rec = jbSampleID j" "rrPeerID rec = jbClaimedBy j"
  shows "j \<in> set (PG_OpenJobsPage now [] peer [] [] (int (length (qdJobs db))) 0 db) \<and>
    (\<exists>db1. PG_ClaimJob now (jbID j) peer db = (db1, True) \<and> PG_SaveReceiptForJob later rec (jbID j) db1 = Inr (db1, False))"
proof
  have d: "distinct (map jbID (qdJobs db))"
    using queue_ok_reaches [OF r] empty_queue_ok [OF e] by (auto simp: queue_ok_def)
  have x: "expired now j" using j by (simp add: expired_def)
  then have "offered now [] peer [] [] db j" using peer by (simp add: offered_def want_allows_def split: option.split)
  moreover have "length (filter (offered now [] peer [] [] db) (qdJobs db)) \<le> length (qdJobs db)" by simp
  moreover have "qdJobs db \<noteq> []" using j by auto
  ultimately show "j \<in> set (PG_OpenJobsPage now [] peer [] [] (int (length (qdJobs db))) 0 db)"
    using j(1) by (simp add: PG_OpenJobsPage_def)
  have c: "claimable now peer db j" using x free by (auto simp: claimable_def list_ex_iff)
  let ?db1 = "fst (PG_ClaimJob now (jbID j) peer db)" and ?j = "j\<lparr>jbStatus := ''claimed'', jbClaimedBy := peer, jbClaimedAt := Some now\<rparr>"
  note s = claim_succeeds [OF d j(1) c]
  have "PG_SaveReceiptForJob later rec (jbID ?j) ?db1 = Inr (?db1, False)"
    using s d old peer(2) by (intro receipt_of_claimant(1)) simp_all
  moreover have "PG_ClaimJob now (jbID j) peer db = (?db1, True)" using s(1) by (simp add: prod_eq_iff)
  ultimately show "\<exists>db1. PG_ClaimJob now (jbID j) peer db = (db1, True) \<and> PG_SaveReceiptForJob later rec (jbID j) db1 = Inr (db1, False)"
    by auto
qed

section \<open>A concrete run\<close>

text \<open>A quarantined draft, its cross job taken by a peer that goes away and reproduced by another.\<close>

definition zero_manifest :: SampleManifest where
  "zero_manifest = \<lparr>smSchemaVersion = 0, smCase = zero_case, smPackages = [], smSymbols = [], smSubject = [], smEnvironment = zero_env,
     smLicense = [], smBuildCommand = [], smContractCommand = [], smVerifierAdapter = []\<rparr>"

definition draft_sample :: SampleRow where
  "draft_sample = \<lparr>saStatus = ''DRAFT'', saQuarantined = True, saQuarantineReason = ''unverified'',
     saManifest = zero_manifest\<lparr>smEnvironment := zero_env\<lparr>eOS := ''linux''\<rparr>\<rparr>, saCreatedAt = Some 0\<rparr>"

definition cross_job :: JobRow where
  "cross_job = \<lparr>jbID = 0, jbSampleID = ''s1'', jbReason = ''cross'', jbWantEnv = None, jbStatus = [], jbClaimedBy = [],
     jbClaimedAt = None, jbCreatedAt = None\<rparr>"

definition passing :: "string \<Rightarrow> string \<Rightarrow> ReceiptRow" where
  "passing i peer = \<lparr>rrReceiptID = i, rrSampleID = ''s1'', rrPeerID = peer, rrEnvHash = [], rrReceipt = zero_receipt,
     rrContractResult = ''PASS'', rrCreatedAt = None\<rparr>"

definition draft_calls :: "(int \<times> queue_op) list" where
  "draft_calls = [(1, EnsureCrossJob cross_job), (1, EnsureCrossJob cross_job), (1, ClaimJob 1 ''p2''),
     (1, OpenJobsPage [] ''p3'' [] [] 5 0), (JobLease, OpenJobsPage [] ''p3'' [] [] 5 0), (1, ClaimJob 1 ''p3''),
     (1, SaveReceiptForJob (passing ''r1'' ''p2'') 1), (1, SaveReceiptForJob (passing ''r1'' ''p3'') 1),
     (1, CompleteJobsForSample ''s1'' ''p3'')]"

definition draft_db :: "nat \<Rightarrow> queue_db" where
  "draft_db n = snd (fst (answers_of (timed PG_call) (take n draft_calls) (0, new_queue [(''s1'', draft_sample)] [''s1''] [])))"

lemma draft_db_reached: "queue_reaches (draft_db 0) (draft_db n)"
  using run_reaches_queue [OF queue_reaches.here] by (simp add: draft_db_def)

lemma draft_db_start: "qdJobs (draft_db 0) = []" "map_of (qdSamples (draft_db 0)) ''s1'' = Some draft_sample"
  by (simp_all add: draft_db_def new_queue_def)

definition draft_job :: "string \<Rightarrow> string \<Rightarrow> int option \<Rightarrow> JobRow" where
  "draft_job status peer since = \<lparr>jbID = 1, jbSampleID = ''s1'', jbReason = ''cross'', jbWantEnv = None, jbStatus = status,
     jbClaimedBy = peer, jbClaimedAt = since, jbCreatedAt = Some 1\<rparr>"

lemma draft_db_rows:
  "qdJobs (draft_db 2) = [draft_job ''open'' [] None]" "qdReceipts (draft_db 2) = []" "map_of (qdSamples (draft_db 2)) ''s1'' = Some draft_sample"
  "qdJobs (draft_db 3) = [draft_job ''claimed'' ''p2'' (Some 3)]" "qdReceipts (draft_db 3) = []"
  "qdJobs (draft_db 9) = [draft_job ''done'' ''p3'' (Some (JobLease + 5))]" "qdReceipts (draft_db 9) = [(passing ''r1'' ''p3'')\<lparr>rrCreatedAt := Some (JobLease + 7)\<rparr>]"
  "map_option saStatus (map_of (qdSamples (draft_db 9)) ''s1'') = Some ''CROSS_PASS''"
  by code_simp+

theorem one_live_claim_per_peer_witness:
  "draft_job ''claimed'' ''p2'' (Some 3) \<in> set (qdJobs (draft_db 3)) \<and> live_claim 4 ''p2'' (draft_job ''claimed'' ''p2'' (Some 3)) \<and>
   hd (qdJobs (draft_db 3)) = draft_job ''claimed'' ''p2'' (Some 3)"
proof -
  have live: "live_claim 4 ''p2'' (draft_job ''claimed'' ''p2'' (Some 3))" by code_simp
  show ?thesis
    using one_live_claim_per_peer [OF draft_db_reached draft_db_start(1), of 3 4 "hd (qdJobs (draft_db 3))" "draft_job ''claimed'' ''p2'' (Some 3)" "''p2''"]
      live by (simp add: draft_db_rows draft_job_def)
qed

theorem finished_jobs_stay_witness:
  "set (qdReceipts (draft_db 0)) \<subseteq> set (qdReceipts (draft_db 9)) \<and> length (qdReceipts (draft_db 9)) = 1"
  using finished_jobs_stay [OF draft_db_reached [of 9]] by (simp add: draft_db_rows)

theorem published_draft_was_reproduced_witness:
  "\<exists>r \<in> set (qdReceipts (draft_db 9)). \<exists>j \<in> set (qdJobs (draft_db 9)). rrSampleID r = ''s1'' \<and> rrContractResult r = ''PASS'' \<and>
     jbSampleID j = ''s1'' \<and> jbReason j = ''cross'' \<and> jbStatus j = ''done'' \<and> jbClaimedBy j = rrPeerID r"
proof (rule published_draft_was_reproduced [OF draft_db_reached draft_db_start(1)])
  show "map_of (qdSamples (draft_db 9)) ''s1'' \<noteq> map_of (qdSamples (draft_db 0)) ''s1''"
    using draft_db_rows(8) by (auto simp: draft_db_start draft_sample_def)
qed


theorem abandoned_job_is_taken_over_witness:
  "draft_job ''claimed'' ''p2'' (Some 3) \<in> set (PG_OpenJobsPage (JobLease + 4) [] ''p3'' [] [] 1 0 (draft_db 3)) \<and>
   (\<exists>db1. PG_ClaimJob (JobLease + 4) 1 ''p3'' (draft_db 3) = (db1, True) \<and>
     PG_SaveReceiptForJob (JobLease + 5) (passing ''r1'' ''p2'') 1 db1 = Inr (db1, False))"
proof -
  let ?j = "draft_job ''claimed'' ''p2'' (Some 3)"
  have j: "?j \<in> set (qdJobs (draft_db 3))" "jbStatus ?j = ''claimed''" "jbClaimedAt ?j = Some 3" "3 + JobLease < JobLease + 4"
    by (simp_all add: draft_db_rows) (simp_all add: draft_job_def)
  have p: "\<not> judged_by (draft_db 3) (jbSampleID ?j) ''p3''" "jbClaimedBy ?j \<noteq> ''p3''"
    by (simp_all add: judged_by_def draft_db_rows) (simp add: draft_job_def)
  have i: "jbID ?j = 1" "int (length (qdJobs (draft_db 3))) = 1" by (simp_all add: draft_db_rows) (simp add: draft_job_def)
  have free: "\<forall>k \<in> set (qdJobs (draft_db 3)). jbSampleID k = jbSampleID ?j \<longrightarrow> \<not> live_claim (JobLease + 4) ''p3'' k"
    by (simp add: draft_db_rows live_claim_def) (simp add: draft_job_def)
  have old: "rrSampleID (passing ''r1'' ''p2'') = jbSampleID ?j" "rrPeerID (passing ''r1'' ''p2'') = jbClaimedBy ?j"
    by (simp_all add: passing_def draft_job_def)
  show ?thesis
    using abandoned_job_is_taken_over [OF draft_db_reached draft_db_start(1) j p free old, of "JobLease + 5"] by (simp only: i)
qed

text \<open>The page keeps a job from a peer that has judged the sample, but the claim does not: a peer that knows the number of
  the job can claim and answer it after its own verdict.\<close>

lemma claim_ignores_earlier_verdicts:
  defines "db \<equiv> snd (fst (answers_of (timed PG_call)
      [(1, SaveReceipt (passing ''r0'' ''p1'')), (1, EnsureCrossJob cross_job)] (0, new_queue [(''s1'', draft_sample)] [''s1''] [])))"
  shows "PG_OpenJobsPage 3 [] ''p1'' [] [] 5 0 db = [] \<and> snd (PG_ClaimJob 3 1 ''p1'' db) \<and>
    map_option (saStatus \<circ> the \<circ> (\<lambda>d. map_of (qdSamples (fst d)) ''s1''))
      (case PG_SaveReceiptForJob 4 (passing ''r1'' ''p1'') 1 (fst (PG_ClaimJob 3 1 ''p1'' db)) of Inl _ \<Rightarrow> None | Inr x \<Rightarrow> Some x) = Some ''CROSS_PASS''"
  unfolding db_def by code_simp

end
