(* ===== verification/QueueAgreement.thy ===== *)
theory QueueAgreement
  imports JobQueue
begin

text \<open>
  The verification queue of the in-memory store, \<open>src/internal/serverstore/fake.go\<close>, and its agreement with the
  PostgreSQL statements of \<open>JobQueue\<close>: for calls in the order of the clock both give the same answers.  The last
  section holds the concrete calls on which they differ.
\<close>

section \<open>The in-memory queue\<close>

record fake_queue =
  fqJobs :: "JobRow list"
  fqNextJobID :: int
  fqReceipts :: "(string, ReceiptRow list) gomap"
  fqSamples :: "(string, SampleRow) gomap"
  fqDrafts :: "string list"
  fqWork :: "(string \<times> string) list"

definition stamped :: "int \<Rightarrow> ReceiptRow \<Rightarrow> ReceiptRow" where
  "stamped now r = (if rrCreatedAt r = None then r\<lparr>rrCreatedAt := Some now\<rparr> else r)"

definition append_receipt :: "int \<Rightarrow> ReceiptRow \<Rightarrow> fake_queue \<Rightarrow> fake_queue" where
  "append_receipt now r f =
     f\<lparr>fqReceipts := AList.update (rrSampleID r) (get [] (fqReceipts f) (rrSampleID r) @ [stamped now r]) (fqReceipts f)\<rparr>"

definition Fake_SaveReceipt :: "int \<Rightarrow> ReceiptRow \<Rightarrow> fake_queue \<Rightarrow> fake_queue" where
  "Fake_SaveReceipt now r f =
     (if list_ex (\<lambda>prev. rrReceiptID prev = rrReceiptID r) (get [] (fqReceipts f) (rrSampleID r)) then f
      else append_receipt now r f)"

text \<open>The first row that satisfies a condition is rewritten; the rows are shared by address.\<close>

fun update_first :: "(JobRow \<Rightarrow> bool) \<Rightarrow> (JobRow \<Rightarrow> JobRow) \<Rightarrow> JobRow list \<Rightarrow> JobRow list" where
  "update_first P g [] = []"
| "update_first P g (j # js) = (if P j then g j # js else j # update_first P g js)"

definition Fake_settle :: "string \<Rightarrow> ReceiptRow \<Rightarrow> fake_queue \<Rightarrow> fake_queue" where
  "Fake_settle reason r f =
     (if rrContractResult r = ''PASS'' \<and> reason = ''cross'' then
        (case map_of (fqSamples f) (rrSampleID r) of
           None \<Rightarrow> f
         | Some s \<Rightarrow>
             if rrSampleID r \<in> set (fqDrafts f) \<and> saStatus s = ''DRAFT'' \<and> saQuarantined s
             then f\<lparr>fqSamples := AList.update (rrSampleID r)
               (s\<lparr>saStatus := ''CROSS_PASS'', saQuarantined := False, saQuarantineReason := []\<rparr>) (fqSamples f)\<rparr>
             else f)
      else if rrContractResult r = ''FAIL'' \<and> reason = ''cross'' then f\<lparr>fqWork := filter (\<lambda>(_, s). s \<noteq> rrSampleID r) (fqWork f)\<rparr>
      else f)"

definition Fake_SaveReceiptForJob :: "int \<Rightarrow> ReceiptRow \<Rightarrow> int \<Rightarrow> fake_queue \<Rightarrow> fake_queue \<times> bool" where
  "Fake_SaveReceiptForJob now r i f = (case find (\<lambda>j. jbID j = i) (fqJobs f) of
     None \<Rightarrow> (f, False)
   | Some job \<Rightarrow>
       if jbStatus job \<noteq> ''claimed'' \<or> jbClaimedBy job \<noteq> rrPeerID r \<or> jbSampleID job \<noteq> rrSampleID r then (f, False)
       else if list_ex (\<lambda>prev. rrReceiptID prev = rrReceiptID r) (get [] (fqReceipts f) (rrSampleID r)) then (f, False)
       else (Fake_settle (jbReason job) r
               ((append_receipt now r f)\<lparr>fqJobs := update_first (\<lambda>j. jbID j = i) (\<lambda>j. j\<lparr>jbStatus := ''done''\<rparr>) (fqJobs f)\<rparr>), True))"

definition Fake_append_job :: "int \<Rightarrow> JobRow \<Rightarrow> fake_queue \<Rightarrow> fake_queue \<times> int" where
  "Fake_append_job now j f =
     (let i = fqNextJobID f + 1
      in (f\<lparr>fqNextJobID := i, fqJobs := fqJobs f @ [j\<lparr>jbID := i, jbStatus := default_status (jbStatus j),
            jbCreatedAt := (if jbCreatedAt j = None then Some now else jbCreatedAt j)\<rparr>]\<rparr>, i))"

definition Fake_CreateJob :: "int \<Rightarrow> JobRow \<Rightarrow> fake_queue \<Rightarrow> fake_queue \<times> int" where
  "Fake_CreateJob now j f =
     (case if jbReason j = ''matrix''
           then find (\<lambda>k. jbSampleID k = jbSampleID j \<and> jbReason k = jbReason j \<and> jbWantEnv k = jbWantEnv j) (fqJobs f)
           else None of
        Some k \<Rightarrow> (f, jbID k)
      | None \<Rightarrow> Fake_append_job now j f)"

definition Fake_EnsureCrossJob :: "int \<Rightarrow> JobRow \<Rightarrow> fake_queue \<Rightarrow> queue_error + fake_queue \<times> int" where
  "Fake_EnsureCrossJob now j f =
     (if jbReason j \<noteq> ''cross'' \<or> jbSampleID j = [] then Inl NotACrossJob
      else case find (\<lambda>k. jbSampleID k = jbSampleID j \<and> jbReason k = ''cross'' \<and>
               (jbStatus k = ''open'' \<or> jbStatus k = ''claimed'' \<or>
                jbStatus j = JobStatusUnsupported \<and> jbStatus k = JobStatusUnsupported)) (fqJobs f) of
             Some k \<Rightarrow> Inr (f, jbID k)
           | None \<Rightarrow> Inr (Fake_append_job now j f))"

definition Fake_expired :: "int \<Rightarrow> JobRow \<Rightarrow> bool" where
  "Fake_expired now j \<longleftrightarrow> jbStatus j = ''claimed'' \<and> (case jbClaimedAt j of None \<Rightarrow> False | Some t \<Rightarrow> JobLease < now - t)"

definition Fake_mine :: "string \<Rightarrow> string \<Rightarrow> fake_queue \<Rightarrow> bool" where
  "Fake_mine sample peer f =
     (let declared = (case map_of (fqSamples f) sample of None \<Rightarrow> zero_env | Some s \<Rightarrow> smEnvironment (saManifest s))
      in list_ex (\<lambda>r. rrPeerID r = peer \<and>
           ContractWasJudged (rrContractResult r) (ReceiptTerminationKind (rrReceipt r)) (ReceiptHasFailureEvidence (rrReceipt r)) \<and>
           EnvironmentAgrees declared (vrEnvironment (rrReceipt r))) (get [] (fqReceipts f) sample))"

definition Fake_pins_other :: "string \<Rightarrow> string \<Rightarrow> JobRow \<Rightarrow> bool" where
  "Fake_pins_other capability os j = (case jbWantEnv j of None \<Rightarrow> False | Some w \<Rightarrow>
     capability \<noteq> [] \<and> wrSandboxCapability w \<noteq> [] \<and> wrSandboxCapability w \<noteq> capability \<or>
     os \<noteq> [] \<and> wrOS w \<noteq> [] \<and> \<not> EqualFold (wrOS w) os)"

fun Fake_page :: "(JobRow \<Rightarrow> bool) \<Rightarrow> int \<Rightarrow> int \<Rightarrow> int \<Rightarrow> JobRow list \<Rightarrow> JobRow list \<Rightarrow> JobRow list" where
  "Fake_page eligible limit offset seen out [] = out"
| "Fake_page eligible limit offset seen out (j # js) =
     (if \<not> eligible j then Fake_page eligible limit offset seen out js
      else if seen < offset then Fake_page eligible limit offset (seen + 1) out js
      else if limit \<le> int (length (out @ [j])) then out @ [j]
      else Fake_page eligible limit offset (seen + 1) (out @ [j]) js)"

definition Fake_OpenJobsPage ::
  "int \<Rightarrow> string \<Rightarrow> string \<Rightarrow> string \<Rightarrow> string \<Rightarrow> int \<Rightarrow> int \<Rightarrow> fake_queue \<Rightarrow> JobRow list" where
  "Fake_OpenJobsPage now capability peer reason os limit offset f =
     Fake_page (\<lambda>j. \<not> (jbStatus j \<noteq> ''open'' \<and> \<not> Fake_expired now j) \<and> \<not> (reason \<noteq> [] \<and> jbReason j \<noteq> reason) \<and>
         \<not> (peer \<noteq> [] \<and> jbReason j = ''cross'' \<and> Fake_mine (jbSampleID j) peer f) \<and> \<not> Fake_pins_other capability os j)
       (if limit \<le> 0 then 10 else limit) (if offset < 0 then 0 else offset) 0 [] (fqJobs f)"

definition Fake_OpenJobs :: "int \<Rightarrow> string \<Rightarrow> string \<Rightarrow> string \<Rightarrow> int \<Rightarrow> fake_queue \<Rightarrow> JobRow list" where
  "Fake_OpenJobs now capability peer reason limit f = Fake_OpenJobsPage now capability peer reason [] limit 0 f"

definition Fake_JobsForSample :: "string \<Rightarrow> fake_queue \<Rightarrow> JobRow list" where
  "Fake_JobsForSample sample f = filter (\<lambda>j. jbSampleID j = sample) (fqJobs f)"

definition Fake_Job :: "int \<Rightarrow> fake_queue \<Rightarrow> JobRow option" where
  "Fake_Job i f = find (\<lambda>j. jbID j = i) (fqJobs f)"

definition Fake_reviewable :: "int \<Rightarrow> JobRow \<Rightarrow> bool" where
  "Fake_reviewable now j \<longleftrightarrow> \<not> (jbStatus j \<noteq> ''open'' \<and> jbStatus j \<noteq> JobStatusUnsupported \<and>
     \<not> (jbStatus j = ''claimed'' \<and> (case jbClaimedAt j of None \<Rightarrow> True | Some t \<Rightarrow> JobLease < now - t)))"

definition Fake_CrossJobsForLaneReview :: "int \<Rightarrow> int \<Rightarrow> fake_queue \<Rightarrow> JobRow list" where
  "Fake_CrossJobsForLaneReview now limit f =
     Fake_page (\<lambda>j. jbReason j = ''cross'' \<and> Fake_reviewable now j) (if limit \<le> 0 then 100 else limit) 0 0 [] (fqJobs f)"

definition Fake_SetJobRequirements :: "int \<Rightarrow> int \<Rightarrow> WorkerRequirements option \<Rightarrow> string \<Rightarrow> fake_queue \<Rightarrow> fake_queue" where
  "Fake_SetJobRequirements now i want status f =
     f\<lparr>fqJobs := update_first (\<lambda>j. jbID j = i)
        (\<lambda>j. if \<not> Fake_reviewable now j then j
             else j\<lparr>jbWantEnv := want, jbStatus := status, jbClaimedBy := [], jbClaimedAt := None\<rparr>) (fqJobs f)\<rparr>"

definition Fake_ClaimJob :: "int \<Rightarrow> int \<Rightarrow> string \<Rightarrow> fake_queue \<Rightarrow> fake_queue \<times> bool" where
  "Fake_ClaimJob now i peer f =
     (let free = (\<lambda>j. jbID j = i \<and> (jbStatus j = ''open'' \<or> Fake_expired now j))
      in case find free (fqJobs f) of
           None \<Rightarrow> (f, False)
         | Some j \<Rightarrow>
             if list_ex (\<lambda>other. jbID other \<noteq> jbID j \<and> jbSampleID other = jbSampleID j \<and> jbStatus other = ''claimed'' \<and>
                  jbClaimedBy other = peer \<and> (case jbClaimedAt other of None \<Rightarrow> False | Some t \<Rightarrow> now - t \<le> JobLease)) (fqJobs f)
             then (f, False)
             else (f\<lparr>fqJobs := update_first free
                 (\<lambda>j. j\<lparr>jbStatus := ''claimed'', jbClaimedBy := peer, jbClaimedAt := Some now\<rparr>) (fqJobs f)\<rparr>, True))"

text \<open>\<open>Before\<close> on instants, where no instant is the zero time.\<close>

definition before :: "int option \<Rightarrow> int option \<Rightarrow> bool" where
  "before a b = (case (a, b) of (Some s, Some t) \<Rightarrow> s < t | (None, Some _) \<Rightarrow> True | _ \<Rightarrow> False)"

definition Fake_origin :: "ReceiptRow list \<Rightarrow> string" where
  "Fake_origin rs = (case rs of
     [] \<Rightarrow> []
   | r0 # rest \<Rightarrow> foldl (\<lambda>origin r. if before (rrCreatedAt r) (rrCreatedAt r0) then rrPeerID r else origin) (rrPeerID r0) rest)"

definition Fake_CompleteJobsForSample :: "string \<Rightarrow> string \<Rightarrow> fake_queue \<Rightarrow> fake_queue" where
  "Fake_CompleteJobsForSample sample peer f =
     (let origin = Fake_origin (get [] (fqReceipts f) sample)
      in f\<lparr>fqJobs := map (\<lambda>j.
           if jbSampleID j \<noteq> sample \<or> jbReason j \<noteq> ''cross'' \<or> jbStatus j \<noteq> ''open'' \<and> jbStatus j \<noteq> ''claimed'' then j
           else if jbReason j = ''cross'' \<and> peer \<noteq> [] \<and> peer = origin then j
           else j\<lparr>jbStatus := ''done''\<rparr>) (fqJobs f)\<rparr>)"

definition Fake_CompleteJob :: "int \<Rightarrow> fake_queue \<Rightarrow> fake_queue" where
  "Fake_CompleteJob i f = f\<lparr>fqJobs := map (\<lambda>j. if jbID j = i then j\<lparr>jbStatus := ''done''\<rparr> else j) (fqJobs f)\<rparr>"

definition Fake_StrandedDrafts :: "int \<Rightarrow> int \<Rightarrow> fake_queue \<Rightarrow> string list" where
  "Fake_StrandedDrafts maxAttempts limit f =
     (let passed = (\<lambda>i. list_ex (\<lambda>r. rrContractResult r = ''PASS'') (get [] (fqReceipts f) i));
          live = (\<lambda>i. list_ex (\<lambda>j. (jbStatus j = ''open'' \<or> jbStatus j = ''claimed'') \<and> jbSampleID j = i) (fqJobs f));
          attempts = (\<lambda>i. int (length (filter (\<lambda>j. jbReason j = ''cross'' \<and> jbSampleID j = i) (fqJobs f))));
          out = filter (\<lambda>i. (case map_of (fqSamples f) i of None \<Rightarrow> False | Some s \<Rightarrow> \<not> (saStatus s \<noteq> ''DRAFT'' \<or> \<not> saQuarantined s)) \<and>
                  \<not> (passed i \<or> live i \<or> maxAttempts \<le> attempts i)) (sort_by (<) (map fst (fqSamples f)))
      in if 0 < limit then take (nat limit) out else out)"

definition Fake_call :: "int \<Rightarrow> queue_op \<Rightarrow> fake_queue \<Rightarrow> fake_queue \<times> queue_answer" where
  "Fake_call now op f = (case op of
     CreateJob j \<Rightarrow> (case Fake_CreateJob now j f of (f', i) \<Rightarrow> (f', JobID i))
   | EnsureCrossJob j \<Rightarrow> (case Fake_EnsureCrossJob now j f of Inl e \<Rightarrow> (f, Refused e) | Inr (f', i) \<Rightarrow> (f', JobID i))
   | SetJobRequirements i want status \<Rightarrow> (Fake_SetJobRequirements now i want status f, Ok)
   | ClaimJob i peer \<Rightarrow> (case Fake_ClaimJob now i peer f of (f', b) \<Rightarrow> (f', Claimed b))
   | CompleteJobsForSample sample peer \<Rightarrow> (Fake_CompleteJobsForSample sample peer f, Ok)
   | CompleteJob i \<Rightarrow> (Fake_CompleteJob i f, Ok)
   | SaveReceipt r \<Rightarrow> (Fake_SaveReceipt now r f, Ok)
   | SaveReceiptForJob r i \<Rightarrow> (case Fake_SaveReceiptForJob now r i f of (f', b) \<Rightarrow> (f', Saved b))
   | OpenJobsPage capability peer reason os limit offset \<Rightarrow> (f, Jobs (Fake_OpenJobsPage now capability peer reason os limit offset f))
   | CrossJobsForLaneReview limit \<Rightarrow> (f, Jobs (Fake_CrossJobsForLaneReview now limit f))
   | JobsForSample sample \<Rightarrow> (f, Jobs (Fake_JobsForSample sample f))
   | Job i \<Rightarrow> (f, Found (Fake_Job i f)))"

section \<open>Runs of calls\<close>

text \<open>
  Two stores that take the same calls: \<open>rel\<close> is what keeps them in step and \<open>ok\<close> says which calls it needs.
\<close>

locale simulation =
  fixes step1 :: "'op \<Rightarrow> 's \<Rightarrow> 's \<times> 'a" and step2 :: "'op \<Rightarrow> 't \<Rightarrow> 't \<times> 'a"
    and rel :: "'s \<Rightarrow> 't \<Rightarrow> bool" and ok :: "'op \<Rightarrow> bool"
  assumes follows: "rel s t \<Longrightarrow> ok op \<Longrightarrow> snd (step1 op s) = snd (step2 op t) \<and> rel (fst (step1 op s)) (fst (step2 op t))"
begin

lemma same_answers:
  "rel s t \<Longrightarrow> list_all ok ops \<Longrightarrow>
     snd (answers_of step1 ops s) = snd (answers_of step2 ops t) \<and> rel (fst (answers_of step1 ops s)) (fst (answers_of step2 ops t))"
proof (induction ops arbitrary: s t)
  case (Cons op ops)
  have "snd (step1 op s) = snd (step2 op t) \<and> rel (fst (step1 op s)) (fst (step2 op t))" using follows Cons.prems by simp
  then show ?case using Cons.IH [of "fst (step1 op s)" "fst (step2 op t)"] Cons.prems(2) by (simp add: split_beta Let_def)
qed simp

end

section \<open>What the two queues share\<close>

lemma sort_by_sorted: "sorted_wrt (\<lambda>a b. \<not> lt b a) xs \<Longrightarrow> sort_by lt xs = xs"
  unfolding sort_by_def
proof (induction xs)
  case (Cons x xs)
  then show ?case by (cases xs) auto
qed simp

lemma update_first_map:
  "distinct (map jbID js) \<Longrightarrow> (\<And>j. P j \<Longrightarrow> jbID j = i) \<Longrightarrow> update_first P g js = map (\<lambda>j. if P j then g j else j) js"
proof (induction js)
  case (Cons j js)
  show ?case
  proof (cases "P j")
    case True
    have "\<not> P k" if "k \<in> set js" for k
    proof
      assume "P k"
      then have "jbID j = jbID k" using True Cons.prems(2) by metis
      then show False using Cons.prems(1) that by auto
    qed
    then have "map (\<lambda>j. if P j then g j else j) js = js" by (simp add: map_idI)
    then show ?thesis using True by simp
  qed (use Cons in auto)
qed simp

lemma Fake_page_take:
  "int (length out) < limit \<Longrightarrow>
     Fake_page P limit offset seen out js = out @ take (nat limit - length out) (drop (nat (offset - seen)) (filter P js))"
proof (induction js arbitrary: seen out)
  case (Cons j js)
  show ?case
  proof (cases "P j \<and> seen < offset")
    case True
    then have "nat (offset - seen) = Suc (nat (offset - (seen + 1)))" by arith
    then show ?thesis using True Cons by simp
  next
    case False
    consider "\<not> P j" | "P j" "limit \<le> int (length out) + 1" | "P j" "int (length out) + 1 < limit" by linarith
    then show ?thesis
    proof cases
      case 2
      then have "nat limit - length out = 1" using Cons.prems by simp
      then show ?thesis using 2 False by simp
    next
      case 3
      then have "nat limit - length out = Suc (nat limit - Suc (length out))" by linarith
      then show ?thesis using 3 False Cons.IH [of "out @ [j]" "seen + 1"] by simp
    qed (use Cons in simp)
  qed
qed simp

lemma Fake_expired_eq [simp]: "Fake_expired now j = expired now j"
  by (auto simp: Fake_expired_def expired_def split: option.split)

lemma Fake_reviewable_eq [simp]: "Fake_reviewable now j = reviewable now j"
  by (auto simp: Fake_reviewable_def reviewable_def split: option.split)

lemma Fake_pins_eq [simp]: "Fake_pins_other capability os j = (\<not> want_allows capability os j)"
  by (auto simp: Fake_pins_other_def want_allows_def EqualFold_def split: option.split)

text \<open>Texts with no surrounding space, and termination kinds in lower case as the domain writes them.\<close>

definition plain_env :: "EnvironmentFingerprint \<Rightarrow> bool" where
  "plain_env e \<longleftrightarrow> list_all (\<lambda>s. TrimSpace s = s) (loadBearingDimensions e)"

definition plain_receipt :: "ReceiptRow \<Rightarrow> bool" where
  "plain_receipt r \<longleftrightarrow> TrimSpace (rrContractResult r) = rrContractResult r \<and> plain_env (vrEnvironment (rrReceipt r)) \<and>
     TrimSpace (ReceiptTerminationKind (rrReceipt r)) = ReceiptTerminationKind (rrReceipt r) \<and>
     ToLower (ReceiptTerminationKind (rrReceipt r)) = ReceiptTerminationKind (rrReceipt r)"

lemma judged_same: "plain_receipt r \<Longrightarrow>
  ContractWasJudged (rrContractResult r) (ReceiptTerminationKind (rrReceipt r)) (ReceiptHasFailureEvidence (rrReceipt r)) = contractJudgedSQL r"
  by (auto simp: plain_receipt_def ContractWasJudged_def contractJudgedSQL_def)

lemma agrees_same: "plain_env d \<Longrightarrow> plain_env e \<Longrightarrow> EnvironmentAgrees d e = environmentAgreesSQL d e"
  by (auto simp: plain_env_def EnvironmentAgrees_def environmentAgreesSQL_def loadBearingDimensions_def EqualFold_def)

lemma first_peer_sorted:
  "sorted_wrt (\<lambda>a b. the (rrCreatedAt a) < the (rrCreatedAt b)) rs \<Longrightarrow> \<forall>r \<in> set rs. rrCreatedAt r \<noteq> None \<Longrightarrow>
     first_peer rs = (case rs of [] \<Rightarrow> None | r # _ \<Rightarrow> Some (rrPeerID r)) \<and> (rs \<noteq> [] \<longrightarrow> first_peer rs = Some (Fake_origin rs))"
proof -
  assume s: "sorted_wrt (\<lambda>a b. the (rrCreatedAt a) < the (rrCreatedAt b)) rs" and n: "\<forall>r \<in> set rs. rrCreatedAt r \<noteq> None"
  have "sorted_wrt (\<lambda>a b. \<not> earlier_receipt b a) rs"
    by (rule sorted_wrt_mono_rel [OF _ s]) (use n in \<open>auto simp: earlier_receipt_def split: option.splits\<close>)
  then have sorted: "sort_by earlier_receipt rs = rs" by (rule sort_by_sorted)
  have keep: "foldl (\<lambda>origin r. if before (rrCreatedAt r) (rrCreatedAt r0) then rrPeerID r else origin) p rest = p"
    if "\<forall>r \<in> set rest. the (rrCreatedAt r0) < the (rrCreatedAt r) \<and> rrCreatedAt r \<noteq> None" "rrCreatedAt r0 \<noteq> None" for p r0 rest
    using that by (induction rest) (auto simp: before_def)
  show ?thesis
  proof (cases rs)
    case (Cons r0 rest)
    then show ?thesis using keep [of rest r0 "rrPeerID r0"] sorted s n by (simp add: first_peer_def Fake_origin_def)
  qed (simp add: first_peer_def sort_by_def)
qed

section \<open>The relation\<close>

definition same_queue :: "queue_db \<Rightarrow> fake_queue \<Rightarrow> bool" where
  "same_queue db f \<longleftrightarrow> fqJobs f = qdJobs db \<and> qdNextID db = fqNextJobID f + 1 \<and> fqSamples f = qdSamples db \<and> fqDrafts f = qdDrafts db \<and>
     fqWork f = qdAssignments db \<and> (\<forall>s. get [] (fqReceipts f) s = filter (\<lambda>r. rrSampleID r = s) (qdReceipts db))"

definition jobs_in_order :: "int \<Rightarrow> queue_db \<Rightarrow> bool" where
  "jobs_in_order t db \<longleftrightarrow> sorted_wrt (\<lambda>a b. jbID a < jbID b \<and> the (jbCreatedAt a) < the (jbCreatedAt b)) (qdJobs db) \<and>
     (\<forall>j \<in> set (qdJobs db). (\<exists>s. jbCreatedAt j = Some s \<and> s \<le> t) \<and> jbID j < qdNextID db \<and> map_of (qdSamples db) (jbSampleID j) \<noteq> None)"

definition receipts_in_order :: "(string \<Rightarrow> string) \<Rightarrow> int \<Rightarrow> queue_db \<Rightarrow> bool" where
  "receipts_in_order owner t db \<longleftrightarrow> sorted_wrt (\<lambda>a b. the (rrCreatedAt a) < the (rrCreatedAt b)) (qdReceipts db) \<and>
     (\<forall>r \<in> set (qdReceipts db). (\<exists>s. rrCreatedAt r = Some s \<and> s \<le> t) \<and> plain_receipt r \<and> rrSampleID r = owner (rrReceiptID r))"

definition samples_plain :: "string list \<Rightarrow> queue_db \<Rightarrow> bool" where
  "samples_plain known db \<longleftrightarrow> (\<forall>k. map_of (qdSamples db) k \<noteq> None \<longleftrightarrow> k \<in> set known) \<and>
     (\<forall>k s. map_of (qdSamples db) k = Some s \<longrightarrow> plain_env (smEnvironment (saManifest s)))"

definition in_step :: "(string \<Rightarrow> string) \<Rightarrow> string list \<Rightarrow> int \<times> queue_db \<Rightarrow> int \<times> fake_queue \<Rightarrow> bool" where
  "in_step owner known s u \<longleftrightarrow> fst u = fst s \<and> same_queue (snd s) (snd u) \<and> jobs_in_order (fst s) (snd s) \<and>
     receipts_in_order owner (fst s) (snd s) \<and> samples_plain known (snd s)"

definition fresh_job :: "JobRow \<Rightarrow> bool" where
  "fresh_job j \<longleftrightarrow> jbClaimedBy j = [] \<and> jbClaimedAt j = None \<and> jbCreatedAt j = None"

definition fresh_receipt :: "(string \<Rightarrow> string) \<Rightarrow> ReceiptRow \<Rightarrow> bool" where
  "fresh_receipt owner r \<longleftrightarrow> rrCreatedAt r = None \<and> plain_receipt r \<and> rrSampleID r = owner (rrReceiptID r)"

definition portable :: "(string \<Rightarrow> string) \<Rightarrow> string list \<Rightarrow> int \<times> queue_op \<Rightarrow> bool" where
  "portable owner known c \<longleftrightarrow> 0 < fst c \<and> (case snd c of
     CreateJob j \<Rightarrow> fresh_job j \<and> jbSampleID j \<in> set known \<and> (jbReason j = ''matrix'' \<longrightarrow> default_status (jbStatus j) = ''open'')
   | EnsureCrossJob j \<Rightarrow> fresh_job j \<and> (jbReason j = ''cross'' \<longrightarrow> jbSampleID j \<in> set known)
   | SaveReceipt r \<Rightarrow> fresh_receipt owner r \<and> rrSampleID r \<in> set known
   | SaveReceiptForJob r _ \<Rightarrow> fresh_receipt owner r
   | _ \<Rightarrow> True)"

section \<open>The order is kept\<close>

lemma call_new_receipts:
  "qdReceipts (fst (PG_call now op db)) = qdReceipts db \<or>
   (\<exists>r. (op = SaveReceipt r \<or> (\<exists>i. op = SaveReceiptForJob r i)) \<and> qdReceipts (fst (PG_call now op db)) = qdReceipts db @ [r\<lparr>rrCreatedAt := Some now\<rparr>])"
proof (cases op)
  case (SaveReceipt r)
  then show ?thesis by (auto simp: PG_call_def PG_SaveReceipt_def insert_receipt_def)
next
  case (SaveReceiptForJob r i)
  then show ?thesis
    by (auto simp: PG_call_def PG_SaveReceiptForJob_def insert_receipt_def Let_def)
qed (auto simp: PG_call_def PG_CreateJob_def PG_EnsureCrossJob_def insert_job_def PG_SetJobRequirements_def PG_ClaimJob_def
    PG_CompleteJobsForSample_def PG_CompleteJob_def Let_def split: option.splits)

lemma promote_env: "map_option saManifest (map_of (qdSamples (promote i db)) k) = map_option saManifest (map_of (qdSamples db) k)"
  by (auto simp: promote_def update_conv' split: option.split)

lemma settle_env: "map_option saManifest (map_of (qdSamples (settle i r db)) k) = map_option saManifest (map_of (qdSamples db) k)"
  by (simp add: settle_def promote_env)

lemma call_env: "map_option saManifest (map_of (qdSamples (fst (PG_call now op db))) k) = map_option saManifest (map_of (qdSamples db) k)"
proof (cases op)
  case (SaveReceipt r)
  then show ?thesis by (auto simp: PG_call_def PG_SaveReceipt_def insert_receipt_def)
next
  case (SaveReceiptForJob r i)
  then show ?thesis
    by (auto simp: PG_call_def PG_SaveReceiptForJob_def insert_receipt_def settle_env Let_def)
qed (auto simp: PG_call_def PG_CreateJob_def PG_EnsureCrossJob_def insert_job_def PG_SetJobRequirements_def PG_ClaimJob_def
    PG_CompleteJobsForSample_def PG_CompleteJob_def Let_def split: option.splits)

lemma call_samples_known: "(map_of (qdSamples (fst (PG_call now op db))) k \<noteq> None) = (map_of (qdSamples db) k \<noteq> None)"
  using call_env [of now op db k] by (cases "map_of (qdSamples db) k"; cases "map_of (qdSamples (fst (PG_call now op db))) k") simp_all

lemma samples_plain_call: "samples_plain known db \<Longrightarrow> samples_plain known (fst (PG_call now op db))"
proof -
  assume plain: "samples_plain known db"
  have "plain_env (smEnvironment (saManifest s))" if "map_of (qdSamples (fst (PG_call now op db))) k = Some s" for k s
    using plain call_env [of now op db k] that unfolding samples_plain_def by (cases "map_of (qdSamples db) k") auto
  then show ?thesis using plain unfolding samples_plain_def call_samples_known by blast
qed

lemma receipts_in_order_call:
  assumes "receipts_in_order owner t db" "t < now" and p: "portable owner known (d, op)"
  shows "receipts_in_order owner now (fst (PG_call now op db))"
proof -
  have old: "\<forall>r \<in> set (qdReceipts db). (\<exists>s. rrCreatedAt r = Some s \<and> s < now) \<and> plain_receipt r \<and> rrSampleID r = owner (rrReceiptID r)"
    and sorted: "sorted_wrt (\<lambda>a b. the (rrCreatedAt a) < the (rrCreatedAt b)) (qdReceipts db)"
    using assms(1,2) by (fastforce simp: receipts_in_order_def)+
  consider "qdReceipts (fst (PG_call now op db)) = qdReceipts db"
    | r where "op = SaveReceipt r \<or> (\<exists>i. op = SaveReceiptForJob r i)" "qdReceipts (fst (PG_call now op db)) = qdReceipts db @ [r\<lparr>rrCreatedAt := Some now\<rparr>]"
    using call_new_receipts [of now op db] by blast
  then show ?thesis
  proof cases
    case 1
    then show ?thesis using old sorted by (fastforce simp: receipts_in_order_def)
  next
    case 2
    have "fresh_receipt owner r" using 2(1) p by (auto simp: portable_def)
    then have "plain_receipt (r\<lparr>rrCreatedAt := Some now\<rparr>)" "rrSampleID r = owner (rrReceiptID r)"
      by (auto simp: fresh_receipt_def plain_receipt_def)
    then show ?thesis using 2(2) old sorted by (fastforce simp: receipts_in_order_def sorted_wrt_append)
  qed
qed

lemma sorted_wrt_all2:
  "list_all2 R xs ys \<Longrightarrow> sorted_wrt P xs \<Longrightarrow> (\<And>a b a' b'. R a a' \<Longrightarrow> R b b' \<Longrightarrow> P a b \<Longrightarrow> P a' b') \<Longrightarrow> sorted_wrt P ys"
  unfolding sorted_wrt_iff_nth_less list_all2_conv_all_nth by (metis order.strict_trans)

lemma jobs_in_order_call:
  assumes ok: "jobs_in_order t db" and t: "t < now"
  shows "jobs_in_order now (fst (PG_call now op db))"
proof -
  let ?db = "fst (PG_call now op db)"
  obtain js where js: "list_all2 (row_change now db) (qdJobs db) js" and after: "qdJobs ?db = js \<and> qdNextID ?db = qdNextID db \<or>
      (\<exists>j. qdJobs ?db = js @ [j] \<and> new_row now db j \<and> qdNextID ?db = qdNextID db + 1)"
    using call_rewrites [of now db op] by (auto simp: rewritten_def)
  have sorted: "sorted_wrt (\<lambda>a b. jbID a < jbID b \<and> the (jbCreatedAt a) < the (jbCreatedAt b)) js"
    by (rule sorted_wrt_all2 [OF js]) (use ok in \<open>auto simp: jobs_in_order_def\<close>)
  have rows: "(\<exists>s. jbCreatedAt j = Some s \<and> s < now) \<and> jbID j < qdNextID db \<and> map_of (qdSamples ?db) (jbSampleID j) \<noteq> None"
    if "j \<in> set js" for j
  proof -
    obtain a where a: "a \<in> set (qdJobs db)" "row_change now db a j" using changed_rows [OF js \<open>j \<in> set js\<close>] .
    then have "(\<exists>s. jbCreatedAt a = Some s \<and> s < now) \<and> jbID a < qdNextID db \<and> map_of (qdSamples db) (jbSampleID a) \<noteq> None"
      using ok t by (fastforce simp: jobs_in_order_def)
    then show ?thesis using a(2) call_samples_known [of now op db] by simp
  qed
  show ?thesis
    using after
  proof
    assume "qdJobs ?db = js \<and> qdNextID ?db = qdNextID db"
    then show ?thesis using sorted rows by (fastforce simp: jobs_in_order_def)
  next
    assume "\<exists>j. qdJobs ?db = js @ [j] \<and> new_row now db j \<and> qdNextID ?db = qdNextID db + 1"
    then obtain j where j: "qdJobs ?db = js @ [j]" "new_row now db j" "qdNextID ?db = qdNextID db + 1" by blast
    have "sorted_wrt (\<lambda>a b. jbID a < jbID b \<and> the (jbCreatedAt a) < the (jbCreatedAt b)) (js @ [j])"
      using sorted rows j(2) by (fastforce simp: sorted_wrt_append new_row_def)
    moreover have "map_of (qdSamples ?db) (jbSampleID j) \<noteq> None" using j(2) call_samples_known [of now op db] by (simp add: new_row_def)
    ultimately show ?thesis unfolding jobs_in_order_def j(1,3) using rows j(2) by (fastforce simp: new_row_def)
  qed
qed

section \<open>One call\<close>

lemma ids_distinct: "jobs_in_order t db \<Longrightarrow> distinct (map jbID (qdJobs db))"
  by (auto simp: jobs_in_order_def distinct_conv_nth sorted_wrt_iff_nth_less) (metis less_irrefl linorder_neqE_nat)

lemma jobs_by_id: "jobs_in_order t db \<Longrightarrow> sort_by (\<lambda>a b. jbID a < jbID b) (filter P (qdJobs db)) = filter P (qdJobs db)"
  by (rule sort_by_sorted, rule sorted_wrt_filter)
    (auto simp: jobs_in_order_def elim!: sorted_wrt_mono_rel [rotated])

lemma jobs_by_time: "jobs_in_order t db \<Longrightarrow> sort_by older (filter P (qdJobs db)) = filter P (qdJobs db)"
proof (rule sort_by_sorted, rule sorted_wrt_filter)
  assume ok: "jobs_in_order t db"
  have "\<not> older b a" if "a \<in> set (qdJobs db)" "b \<in> set (qdJobs db)" "the (jbCreatedAt a) < the (jbCreatedAt b)" for a b
    using ok that by (auto simp: jobs_in_order_def older_def split: option.splits)
  then show "sorted_wrt (\<lambda>a b. \<not> older b a) (qdJobs db)"
    using ok sorted_wrt_mono_rel [of "qdJobs db" "\<lambda>a b. jbID a < jbID b \<and> the (jbCreatedAt a) < the (jbCreatedAt b)"]
    by (simp add: jobs_in_order_def)
qed

lemma first_job_find: "jobs_in_order t db \<Longrightarrow> first_job P db = find P (qdJobs db)"
  using jobs_by_id [of t db "\<lambda>_. True"] by (simp add: first_job_def)

lemma Fake_mine_eq:
  assumes q: "same_queue db f" and r: "receipts_in_order owner t db" and s: "samples_plain known db" and k: "map_of (qdSamples db) i \<noteq> None"
  shows "Fake_mine i peer f = judged_by db i peer"
proof -
  obtain sm where sm: "map_of (qdSamples db) i = Some sm" using k by blast
  have "plain_env (smEnvironment (saManifest sm))" using s sm by (auto simp: samples_plain_def)
  moreover have "\<forall>x \<in> set (qdReceipts db). plain_receipt x" using r by (simp add: receipts_in_order_def)
  ultimately show ?thesis
    using q sm by (auto simp: Fake_mine_def judged_by_def same_queue_def list_ex_iff judged_same agrees_same plain_receipt_def)
qed

lemma append_agrees:
  assumes q: "same_queue db f" and j: "fresh_job j" and i: "insert_job now (jbSampleID j) (jbReason j) (jbWantEnv j) (default_status (jbStatus j)) db = Inr (db', i)"
  shows "i = snd (Fake_append_job now j f) \<and> same_queue db' (fst (Fake_append_job now j f))"
proof -
  have row: "j\<lparr>jbID := fqNextJobID f + 1, jbStatus := s, jbCreatedAt := Some now\<rparr> =
      \<lparr>jbID = fqNextJobID f + 1, jbSampleID = jbSampleID j, jbReason = jbReason j, jbWantEnv = jbWantEnv j, jbStatus = s, jbClaimedBy = [],
       jbClaimedAt = None, jbCreatedAt = Some now\<rparr>" for s
    using j by (cases j) (simp add: fresh_job_def)
  show ?thesis
    using assms by (auto simp: same_queue_def Fake_append_job_def insert_job_def fresh_job_def row Let_def split: if_splits)
qed

lemma inserted: "map_of (qdSamples db) s \<noteq> None \<Longrightarrow> \<exists>db' i. insert_job now s r w st db = Inr (db', i)"
  by (simp add: insert_job_def)

lemma create_agrees:
  assumes q: "same_queue db f" and o: "jobs_in_order t db" and j: "fresh_job j" "map_of (qdSamples db) (jbSampleID j) \<noteq> None"
    and m: "jbReason j = ''matrix'' \<Longrightarrow> default_status (jbStatus j) = ''open''"
  shows "snd (PG_call now (CreateJob j) db) = snd (Fake_call now (CreateJob j) f) \<and>
    same_queue (fst (PG_call now (CreateJob j) db)) (fst (Fake_call now (CreateJob j) f))"
proof -
  obtain db' i where ins: "insert_job now (jbSampleID j) (jbReason j) (jbWantEnv j) (default_status (jbStatus j)) db = Inr (db', i)"
    using inserted [OF j(2)] by blast
  note a = append_agrees [OF q j(1) ins]
  have jobs: "fqJobs f = qdJobs db" using q by (simp add: same_queue_def)
  show ?thesis
  proof (cases "jbReason j = ''matrix''")
    case True
    then show ?thesis
      using a ins m jobs q
      by (auto simp: PG_call_def Fake_call_def PG_CreateJob_def Fake_CreateJob_def first_job_find [OF o] split: option.split prod.split)
  next
    case False
    then show ?thesis
      using a ins by (auto simp: PG_call_def Fake_call_def PG_CreateJob_def Fake_CreateJob_def split: prod.split)
  qed
qed

lemma ensure_agrees:
  assumes q: "same_queue db f" and o: "jobs_in_order t db" and j: "fresh_job j" and k: "jbReason j = ''cross'' \<Longrightarrow> map_of (qdSamples db) (jbSampleID j) \<noteq> None"
  shows "snd (PG_call now (EnsureCrossJob j) db) = snd (Fake_call now (EnsureCrossJob j) f) \<and>
    same_queue (fst (PG_call now (EnsureCrossJob j) db)) (fst (Fake_call now (EnsureCrossJob j) f))"
proof (cases "jbReason j \<noteq> ''cross'' \<or> jbSampleID j = []")
  case True
  then show ?thesis using q by (auto simp: PG_call_def Fake_call_def PG_EnsureCrossJob_def Fake_EnsureCrossJob_def)
next
  case False
  then obtain db' i where ins: "insert_job now (jbSampleID j) (jbReason j) (jbWantEnv j) (default_status (jbStatus j)) db = Inr (db', i)"
    using inserted k by blast
  have st: "(default_status (jbStatus j) = JobStatusUnsupported) = (jbStatus j = JobStatusUnsupported)"
    by (simp add: default_status_def JobStatusUnsupported_def)
  show ?thesis
    using append_agrees [OF q j ins] ins False q
    by (auto simp: PG_call_def Fake_call_def PG_EnsureCrossJob_def Fake_EnsureCrossJob_def first_job_find [OF o] st same_queue_def disj_assoc Let_def
        split: option.split prod.split)
qed

lemma claim_agrees:
  assumes q: "same_queue db f" and o: "jobs_in_order t db"
  shows "snd (PG_call now (ClaimJob i peer) db) = snd (Fake_call now (ClaimJob i peer) f) \<and>
    same_queue (fst (PG_call now (ClaimJob i peer) db)) (fst (Fake_call now (ClaimJob i peer) f))"
proof -
  let ?free = "\<lambda>j. jbID j = i \<and> (jbStatus j = ''open'' \<or> expired now j)"
  let ?claim = "\<lambda>j. j\<lparr>jbStatus := ''claimed'', jbClaimedBy := peer, jbClaimedAt := Some now\<rparr>"
  have jobs: "fqJobs f = qdJobs db" using q by (simp add: same_queue_def)
  note d = ids_distinct [OF o]
  have other: "(\<lambda>other. jbID other \<noteq> i \<and> jbSampleID other = s \<and> jbStatus other = ''claimed'' \<and> jbClaimedBy other = peer \<and>
        (case jbClaimedAt other of None \<Rightarrow> False | Some t \<Rightarrow> now - t \<le> JobLease)) =
      (\<lambda>other. jbID other \<noteq> i \<and> jbSampleID other = s \<and> live_claim now peer other)" for s
    by (auto simp: live_claim_def fun_eq_iff split: option.splits)
  show ?thesis
  proof (cases "find ?free (qdJobs db)")
    case None
    then have no: "\<forall>j \<in> set (qdJobs db). \<not> ?free j" by (simp add: find_None_iff)
    then have "filter (\<lambda>j. jbID j = i \<and> claimable now peer db j) (qdJobs db) = []" by (auto simp: filter_empty_conv claimable_def)
    moreover have "map (\<lambda>j. if jbID j = i \<and> claimable now peer db j then ?claim j else j) (qdJobs db) = qdJobs db"
      using no by (auto simp: claimable_def intro!: map_idI)
    ultimately show ?thesis
      using None jobs q by (simp add: PG_call_def Fake_call_def PG_ClaimJob_def Fake_ClaimJob_def same_queue_def Let_def)
  next
    case (Some j)
    then have j: "j \<in> set (qdJobs db)" "?free j" by (auto simp: find_Some_iff in_set_conv_nth)
    have only: "k = j" if "k \<in> set (qdJobs db)" "jbID k = i" for k using that j d by (auto simp: distinct_map inj_on_def)
    have ex: "list_ex (\<lambda>j. jbID j = i) (qdJobs db)" using j by (auto simp: list_ex_iff)
    let ?busy = "list_ex (\<lambda>other. jbID other \<noteq> i \<and> jbSampleID other = jbSampleID j \<and> live_claim now peer other) (qdJobs db)"
    have c: "claimable now peer db j = (\<not> ?busy)" using j(2) by (simp add: claimable_def)
    have upd: "update_first ?free ?claim (qdJobs db) = map (\<lambda>j. if ?free j then ?claim j else j) (qdJobs db)"
      by (rule update_first_map [OF d, of _ i]) blast
    show ?thesis
    proof (cases ?busy)
      case True
      then have no: "\<forall>k \<in> set (qdJobs db). \<not> (jbID k = i \<and> claimable now peer db k)" using only c by blast
      then have "filter (\<lambda>j. jbID j = i \<and> claimable now peer db j) (qdJobs db) = []"
        "map (\<lambda>j. if jbID j = i \<and> claimable now peer db j then ?claim j else j) (qdJobs db) = qdJobs db"
        by (auto simp: filter_empty_conv intro!: map_idI)
      then show ?thesis
        using True Some jobs q j(2) by (simp add: PG_call_def Fake_call_def PG_ClaimJob_def Fake_ClaimJob_def same_queue_def other Let_def)
    next
      case False
      then have "\<forall>k \<in> set (qdJobs db). (jbID k = i \<and> claimable now peer db k) = ?free k" using only c j(2) by (metis claimable_def)
      then have "map (\<lambda>j. if jbID j = i \<and> claimable now peer db j then ?claim j else j) (qdJobs db) = map (\<lambda>j. if ?free j then ?claim j else j) (qdJobs db)"
        by (intro map_cong) auto
      moreover have "filter (\<lambda>k. jbID k = i \<and> claimable now peer db k) (qdJobs db) = [j]"
        by (rule filter_one [OF d j(1)]) (use j(2) c False in simp_all)
      ultimately show ?thesis
        using False Some jobs q j(2) ex upd by (simp add: PG_call_def Fake_call_def PG_ClaimJob_def Fake_ClaimJob_def same_queue_def other Let_def)
    qed
  qed
qed

lemma set_agrees:
  assumes q: "same_queue db f" and o: "jobs_in_order t db"
  shows "same_queue (PG_SetJobRequirements now i want status db) (Fake_SetJobRequirements now i want status f)"
proof -
  let ?set = "\<lambda>j. j\<lparr>jbWantEnv := want, jbStatus := status, jbClaimedBy := [], jbClaimedAt := None\<rparr>"
  have "update_first (\<lambda>j. jbID j = i) (\<lambda>j. if \<not> reviewable now j then j else ?set j) (qdJobs db) =
      map (\<lambda>j. if jbID j = i then (if \<not> reviewable now j then j else ?set j) else j) (qdJobs db)"
    by (rule update_first_map [OF ids_distinct [OF o], of _ i])
  then show ?thesis using q by (auto simp: same_queue_def PG_SetJobRequirements_def Fake_SetJobRequirements_def)
qed

lemma if_nested: "(if a then x else if b then x else y) = (if \<not> a \<and> \<not> b then y else x)"
  by simp

lemma complete_agrees:
  assumes q: "same_queue db f" and r: "receipts_in_order owner t db"
  shows "same_queue (PG_CompleteJobsForSample sample peer db) (Fake_CompleteJobsForSample sample peer f)"
proof -
  let ?rs = "filter (\<lambda>r. rrSampleID r = sample) (qdReceipts db)"
  have rs: "get [] (fqReceipts f) sample = ?rs" using q by (simp add: same_queue_def)
  have "sorted_wrt (\<lambda>a b. the (rrCreatedAt a) < the (rrCreatedAt b)) ?rs" "\<forall>r \<in> set ?rs. rrCreatedAt r \<noteq> None"
    using r by (auto simp: receipts_in_order_def sorted_wrt_filter)
  from first_peer_sorted [OF this] have "peer \<noteq> [] \<Longrightarrow> (Some peer = first_peer ?rs) = (peer = Fake_origin ?rs)"
    by (cases ?rs) (auto simp: Fake_origin_def)
  then have "map (\<lambda>j. if jbSampleID j = sample \<and> jbReason j = ''cross'' \<and> jbStatus j \<in> {''open'', ''claimed''} \<and>
          (peer = [] \<or> Some peer \<noteq> first_peer ?rs) then j\<lparr>jbStatus := ''done''\<rparr> else j) (qdJobs db) =
      map (\<lambda>j. if jbSampleID j \<noteq> sample \<or> jbReason j \<noteq> ''cross'' \<or> jbStatus j \<noteq> ''open'' \<and> jbStatus j \<noteq> ''claimed'' then j
        else if jbReason j = ''cross'' \<and> peer \<noteq> [] \<and> peer = Fake_origin ?rs then j else j\<lparr>jbStatus := ''done''\<rparr>) (qdJobs db)"
    unfolding if_nested by (intro map_cong if_cong) auto
  then show ?thesis
    using q by (simp add: same_queue_def PG_CompleteJobsForSample_def Fake_CompleteJobsForSample_def Let_def del: map_eq_conv)
qed

lemma list_ex_map: "list_ex P (map g xs) = list_ex (\<lambda>x. P (g x)) xs"
  by (induction xs) simp_all

lemma is_cross_update:
  assumes "\<And>j. jbID (g j) = jbID j \<and> jbReason (g j) = jbReason j"
  shows "is_cross i (update_jobs P g db\<lparr>qdReceipts := rs\<rparr>) = is_cross i db"
proof -
  have "(\<lambda>j. jbID (if P j then g j else j) = i \<and> jbReason (if P j then g j else j) = ''cross'') = (\<lambda>j. jbID j = i \<and> jbReason j = ''cross'')"
    using assms by (simp add: fun_eq_iff)
  then show ?thesis unfolding is_cross_def by (simp add: list_ex_map)
qed

lemma seen_receipt:
  assumes q: "same_queue db f" and r: "receipts_in_order owner t db" and n: "fresh_receipt owner r"
  shows "list_ex (\<lambda>prev. rrReceiptID prev = rrReceiptID r) (get [] (fqReceipts f) (rrSampleID r)) = list_ex (\<lambda>k. rrReceiptID k = rrReceiptID r) (qdReceipts db)"
  using assms by (auto simp: same_queue_def receipts_in_order_def fresh_receipt_def list_ex_iff)

lemma receipt_agrees:
  assumes q: "same_queue db f" and r: "receipts_in_order owner t db" and n: "fresh_receipt owner r" and k: "map_of (qdSamples db) (rrSampleID r) \<noteq> None"
  shows "snd (PG_call now (SaveReceipt r) db) = snd (Fake_call now (SaveReceipt r) f) \<and>
    same_queue (fst (PG_call now (SaveReceipt r) db)) (fst (Fake_call now (SaveReceipt r) f))"
proof (cases "list_ex (\<lambda>k. rrReceiptID k = rrReceiptID r) (qdReceipts db)")
  case True
  then show ?thesis using q
    by (simp add: PG_call_def Fake_call_def PG_SaveReceipt_def Fake_SaveReceipt_def insert_receipt_def seen_receipt [OF q r n])
next
  case False
  have "rrCreatedAt r = None" using n by (simp add: fresh_receipt_def)
  then have "Fake_SaveReceipt now r f = append_receipt now r f" "stamped now r = r\<lparr>rrCreatedAt := Some now\<rparr>"
    using False by (simp_all add: Fake_SaveReceipt_def stamped_def seen_receipt [OF q r n])
  then show ?thesis using False k q
    by (auto simp: PG_call_def Fake_call_def PG_SaveReceipt_def insert_receipt_def append_receipt_def same_queue_def)
qed

lemma settle_agrees: "same_queue db f \<Longrightarrow> is_cross i db = (reason = ''cross'') \<Longrightarrow> same_queue (settle i r db) (Fake_settle reason r f)"
  by (auto simp: settle_def promote_def Fake_settle_def same_queue_def split: option.split)

lemma answer_agrees:
  assumes q: "same_queue db f" and o: "jobs_in_order t db" and r: "receipts_in_order owner t db" and n: "fresh_receipt owner r"
  shows "snd (PG_call now (SaveReceiptForJob r i) db) = snd (Fake_call now (SaveReceiptForJob r i) f) \<and>
    same_queue (fst (PG_call now (SaveReceiptForJob r i) db)) (fst (Fake_call now (SaveReceiptForJob r i) f))"
proof -
  let ?done = "\<lambda>j. j\<lparr>jbStatus := ''done''\<rparr>"
  have jobs: "fqJobs f = qdJobs db" using q by (simp add: same_queue_def)
  note d = ids_distinct [OF o]
  show ?thesis
  proof (cases "\<exists>j \<in> set (qdJobs db). answers i r j")
    case False
    then have pg: "PG_SaveReceiptForJob now r i db = Inr (db, False)"
      by (auto simp: PG_SaveReceiptForJob_def filter_empty_conv Let_def)
    have "Fake_SaveReceiptForJob now r i f = (f, False)"
      using False by (auto simp: Fake_SaveReceiptForJob_def jobs answers_def find_Some_iff split: option.split)
    then show ?thesis using pg q by (simp add: PG_call_def Fake_call_def)
  next
    case True
    then obtain j where j: "j \<in> set (qdJobs db)" "answers i r j" by blast
    have same: "k = j" if "k \<in> set (qdJobs db)" "jbID k = i" for k
      using that j d by (auto simp: distinct_map inj_on_def answers_def)
    have one: "filter (answers i r) (qdJobs db) = [j]" by (rule filter_one [OF d j(1)]) (use j(2) in \<open>simp_all add: answers_def\<close>)
    have found: "find (\<lambda>k. jbID k = i) (qdJobs db) = Some j"
    proof (cases "find (\<lambda>k. jbID k = i) (qdJobs db)")
      case None
      then show ?thesis using j by (auto simp: find_None_iff answers_def)
    next
      case (Some k)
      then have "k \<in> set (qdJobs db)" "jbID k = i" by (auto simp: find_Some_iff)
      then show ?thesis using same Some by simp
    qed
    have "map (\<lambda>j. if answers i r j then ?done j else j) (qdJobs db) = map (\<lambda>j. if jbID j = i then ?done j else j) (qdJobs db)"
      using same j(2) by (intro map_cong) (auto simp: answers_def)
    also have "\<dots> = update_first (\<lambda>j. jbID j = i) ?done (qdJobs db)" by (rule update_first_map [OF d, of _ i, symmetric])
    finally have upd: "map (\<lambda>j. if answers i r j then ?done j else j) (qdJobs db) = update_first (\<lambda>j. jbID j = i) ?done (qdJobs db)" .
    have k: "map_of (qdSamples db) (rrSampleID r) \<noteq> None" using o j by (auto simp: jobs_in_order_def answers_def)
    show ?thesis
    proof (cases "list_ex (\<lambda>k. rrReceiptID k = rrReceiptID r) (qdReceipts db)")
      case True
      then show ?thesis
        using one found j(2) q by (auto simp: PG_call_def Fake_call_def PG_SaveReceiptForJob_def Fake_SaveReceiptForJob_def insert_receipt_def
            seen_receipt [OF q r n] jobs answers_def Let_def)
    next
      case False
      let ?db = "update_jobs (answers i r) ?done db\<lparr>qdReceipts := qdReceipts db @ [r\<lparr>rrCreatedAt := Some now\<rparr>]\<rparr>"
      have pg: "PG_SaveReceiptForJob now r i db = Inr (settle i r ?db, True)"
        using False one k by (simp add: PG_SaveReceiptForJob_def insert_receipt_def Let_def)
      have cross: "is_cross i ?db = (jbReason j = ''cross'')"
      proof -
        have "is_cross i ?db = is_cross i db" by (rule is_cross_update) simp
        also have "\<dots> = (jbReason j = ''cross'')" using j same unfolding is_cross_def list_ex_iff answers_def by blast
        finally show ?thesis .
      qed
      let ?f = "(append_receipt now r f)\<lparr>fqJobs := update_first (\<lambda>j. jbID j = i) ?done (fqJobs f)\<rparr>"
      have base: "same_queue ?db ?f" using q n upd
        by (simp add: same_queue_def append_receipt_def stamped_def fresh_receipt_def)
      have fake: "Fake_SaveReceiptForJob now r i f = (Fake_settle (jbReason j) r ?f, True)"
        using False found j(2) by (simp add: Fake_SaveReceiptForJob_def jobs answers_def seen_receipt [OF q r n])
      show ?thesis using pg fake settle_agrees [OF base cross] by (simp add: PG_call_def Fake_call_def)
    qed
  qed
qed

lemma page_agrees:
  assumes q: "same_queue db f" and o: "jobs_in_order t db" and r: "receipts_in_order owner t db" and s: "samples_plain known db"
  shows "PG_OpenJobsPage now capability peer reason os limit offset db = Fake_OpenJobsPage now capability peer reason os limit offset f"
proof -
  have jobs: "fqJobs f = qdJobs db" using q by (simp add: same_queue_def)
  have "\<not> (jbStatus j \<noteq> ''open'' \<and> \<not> expired now j) \<and> \<not> (reason \<noteq> [] \<and> jbReason j \<noteq> reason) \<and>
      \<not> (peer \<noteq> [] \<and> jbReason j = ''cross'' \<and> Fake_mine (jbSampleID j) peer f) \<and> want_allows capability os j \<longleftrightarrow>
      offered now capability peer reason os db j" if "j \<in> set (qdJobs db)" for j
    using Fake_mine_eq [OF q r s, of "jbSampleID j" peer] o that unfolding offered_def jobs_in_order_def by blast
  then have "filter (\<lambda>j. \<not> (jbStatus j \<noteq> ''open'' \<and> \<not> expired now j) \<and> \<not> (reason \<noteq> [] \<and> jbReason j \<noteq> reason) \<and>
      \<not> (peer \<noteq> [] \<and> jbReason j = ''cross'' \<and> Fake_mine (jbSampleID j) peer f) \<and> want_allows capability os j) (qdJobs db) =
      filter (offered now capability peer reason os db) (qdJobs db)" by (intro filter_cong) auto
  then show ?thesis
    by (simp add: PG_OpenJobsPage_def Fake_OpenJobsPage_def Fake_page_take jobs jobs_by_time [OF o])
qed

lemma call_agrees:
  assumes q: "same_queue db f" and o: "jobs_in_order t db" and r: "receipts_in_order owner t db" and s: "samples_plain known db"
    and p: "portable owner known (d, op)"
  shows "snd (PG_call now op db) = snd (Fake_call now op f) \<and> same_queue (fst (PG_call now op db)) (fst (Fake_call now op f))"
proof -
  have known: "k \<in> set known \<Longrightarrow> map_of (qdSamples db) k \<noteq> None" for k using s by (simp add: samples_plain_def)
  have jobs: "fqJobs f = qdJobs db" using q by (simp add: same_queue_def)
  show ?thesis
  proof (cases op)
    case (CreateJob j)
    then show ?thesis using create_agrees [OF q o] p known by (simp add: portable_def)
  next
    case (EnsureCrossJob j)
    then show ?thesis using ensure_agrees [OF q o] p known by (simp add: portable_def)
  next
    case (SetJobRequirements i want status)
    then show ?thesis using set_agrees [OF q o] by (simp add: PG_call_def Fake_call_def)
  next
    case (ClaimJob i peer)
    then show ?thesis using claim_agrees [OF q o] by simp
  next
    case (CompleteJobsForSample sample peer)
    then show ?thesis using complete_agrees [OF q r] by (simp add: PG_call_def Fake_call_def)
  next
    case (CompleteJob i)
    then show ?thesis using q by (simp add: PG_call_def Fake_call_def PG_CompleteJob_def Fake_CompleteJob_def same_queue_def)
  next
    case (SaveReceipt x)
    then show ?thesis using receipt_agrees [OF q r] p known by (simp add: portable_def)
  next
    case (SaveReceiptForJob x i)
    then show ?thesis using answer_agrees [OF q o r] p by (simp add: portable_def)
  next
    case (OpenJobsPage capability peer reason os limit offset)
    then show ?thesis using page_agrees [OF q o r s] q by (simp add: PG_call_def Fake_call_def)
  next
    case (CrossJobsForLaneReview limit)
    then show ?thesis using q
      by (simp add: PG_call_def Fake_call_def PG_CrossJobsForLaneReview_def Fake_CrossJobsForLaneReview_def Fake_page_take jobs jobs_by_id [OF o])
  next
    case (JobsForSample sample)
    then show ?thesis using q by (simp add: PG_call_def Fake_call_def PG_JobsForSample_def Fake_JobsForSample_def jobs jobs_by_time [OF o])
  next
    case (Job i)
    then show ?thesis using q by (simp add: PG_call_def Fake_call_def PG_Job_def Fake_Job_def jobs)
  qed
qed

interpretation queues: simulation "timed PG_call" "timed Fake_call" "in_step owner known" "portable owner known" for owner known
proof
  fix s :: "int \<times> queue_db" and u :: "int \<times> fake_queue" and c :: "int \<times> queue_op"
  assume rel: "in_step owner known s u" and ok: "portable owner known c"
  obtain t db f d op where s: "s = (t, db)" "u = (t, f)" "c = (d, op)" using rel by (cases s; cases u; cases c) (auto simp: in_step_def)
  have "0 < d" using ok s by (simp add: portable_def)
  note parts = rel [unfolded in_step_def s fst_conv snd_conv] ok [unfolded s]
  have call: "snd (PG_call (t + d) op db) = snd (Fake_call (t + d) op f) \<and> same_queue (fst (PG_call (t + d) op db)) (fst (Fake_call (t + d) op f))"
    using parts call_agrees by blast
  moreover have "jobs_in_order (t + d) (fst (PG_call (t + d) op db))" "receipts_in_order owner (t + d) (fst (PG_call (t + d) op db))"
    "samples_plain known (fst (PG_call (t + d) op db))"
    using parts \<open>0 < d\<close> jobs_in_order_call receipts_in_order_call samples_plain_call by (auto simp: less_add_same_cancel1)
  ultimately show "snd (timed PG_call c s) = snd (timed Fake_call c u) \<and> in_step owner known (fst (timed PG_call c s)) (fst (timed Fake_call c u))"
    by (simp add: s timed_def in_step_def split_beta Let_def)
qed

text \<open>The two stores with the same samples and drafts and no job yet.\<close>

definition new_fake_queue :: "(string, SampleRow) gomap \<Rightarrow> string list \<Rightarrow> (string \<times> string) list \<Rightarrow> fake_queue" where
  "new_fake_queue samples drafts work = \<lparr>fqJobs = [], fqNextJobID = 0, fqReceipts = [], fqSamples = samples, fqDrafts = drafts, fqWork = work\<rparr>"

lemma new_in_step: "\<forall>(k, s) \<in> set samples. plain_env (smEnvironment (saManifest s)) \<Longrightarrow>
  in_step owner (map fst samples) (t, new_queue samples drafts work) (t, new_fake_queue samples drafts work)"
  by (auto simp: in_step_def new_queue_def new_fake_queue_def same_queue_def jobs_in_order_def receipts_in_order_def samples_plain_def
      map_of_eq_None_iff dest!: map_of_SomeD)


definition draft_answers :: "queue_answer list" where
  "draft_answers = [JobID 1, JobID 1, Claimed True, Jobs [], Jobs [draft_job ''claimed'' ''p2'' (Some 3)], Claimed True, Saved False,
     Saved True, Ok]"


section \<open>Stranded drafts\<close>

text \<open>The two lists of stranded drafts hold the same samples, in orders of their own, when the limit does not cut them.\<close>

lemma stranded_agree:
  assumes q: "same_queue db f" and d: "distinct (map fst (qdSamples db))" and l: "int (length (qdSamples db)) \<le> limit" "0 < limit"
  shows "set (PG_StrandedDrafts maxAttempts limit db) = set (Fake_StrandedDrafts maxAttempts limit f)"
proof -
  have s: "fqSamples f = qdSamples db" "fqJobs f = qdJobs db" "\<And>i. get [] (fqReceipts f) i = filter (\<lambda>r. rrSampleID r = i) (qdReceipts db)"
    using q by (simp_all add: same_queue_def)
  have row: "map_of (qdSamples db) i = Some r \<longleftrightarrow> (i, r) \<in> set (qdSamples db)" for i r using d by simp
  have one: "(i, r) \<in> set (qdSamples db) \<Longrightarrow> (i, s) \<in> set (qdSamples db) \<Longrightarrow> r = s" for i r s using row by (metis option.inject)
  have fit: "take (nat limit) xs = xs" if "length xs \<le> length (qdSamples db)" for xs :: "'z list" using that l by simp
  have ff: "filter (\<lambda>j. jbSampleID j = i \<and> jbReason j = ''cross'') js = filter (\<lambda>j. jbReason j = ''cross'' \<and> jbSampleID j = i) js" for i js
    by (rule filter_cong) auto
  have rec: "list_ex (\<lambda>r. rrContractResult r = ''PASS'') (filter (\<lambda>r. rrSampleID r = i) rs) = list_ex (\<lambda>r. rrSampleID r = i \<and> rrContractResult r = ''PASS'') rs"
    for i rs by (auto simp: list_ex_iff)
  have "length (filter P (map fst (qdSamples db))) \<le> length (qdSamples db)" for P using length_filter_le [of P "map fst (qdSamples db)"] by simp
  then have "length (filter P (sort_by (<) (map fst (qdSamples db)))) \<le> length (qdSamples db)" for P
    using length_filter_le [of P "sort_by (<) (map fst (qdSamples db))"] by simp
  then have fake: "Fake_StrandedDrafts maxAttempts limit f = Fake_StrandedDrafts maxAttempts 0 f"
    using l(2) by (simp add: Fake_StrandedDrafts_def s Let_def fit)
  show ?thesis
    unfolding fake
    by (auto simp: PG_StrandedDrafts_def Fake_StrandedDrafts_def s fit row ff rec Let_def image_iff list_ex_iff not_le split: option.splits) (use one in blast)+
qed

section \<open>Where the two queues differ\<close>

text \<open>
  A termination kind in capitals is no verdict for the in-memory store and one for the statement, although the two
  predicates are kept as one rule.
\<close>

lemma judged_differs:
  defines "f \<equiv> \<lparr>feTerminationKind = ''TIMEOUT'', feExitCode = None, feSignal = [], feTimeoutMillis = 0, feErrorSummary = [], feErrorCode = [],
      feFingerprint = [], feEvidenceQuality = [], feOuterCommand = [], feOuterStage = [], feActualToolchain = [], feStageEvidence = [],
      feEvidenceGap = []\<rparr>"
  defines "r \<equiv> (passing ''r'' ''p'')\<lparr>rrReceipt := zero_receipt\<lparr>vrStageFailures := [(''contract'', f)]\<rparr>, rrContractResult := ''FAIL''\<rparr>"
  shows "contractJudgedSQL r \<and>
    \<not> ContractWasJudged (rrContractResult r) (ReceiptTerminationKind (rrReceipt r)) (ReceiptHasFailureEvidence (rrReceipt r))"
  unfolding f_def r_def by code_simp

text \<open>
  The origin of a sample is the peer of its first receipt; with receipts stored out of order the in-memory store
  compares each only with the one stored first and settles on the last of those that precede it.
\<close>

lemma origin_differs:
  defines "rs \<equiv> [(passing ''r1'' ''p1'')\<lparr>rrCreatedAt := Some 5\<rparr>, (passing ''r2'' ''p2'')\<lparr>rrCreatedAt := Some 3\<rparr>, (passing ''r3'' ''p3'')\<lparr>rrCreatedAt := Some 4\<rparr>]"
  shows "first_peer rs = Some ''p2'' \<and> Fake_origin rs = ''p3''"
  unfolding rs_def by code_simp

text \<open>A job of an unknown sample, a matrix job no lane can run and a limit of zero are answered differently.\<close>

lemma refusals_differ:
  defines "db \<equiv> new_queue [(''s1'', draft_sample)] [] []" and "f \<equiv> new_fake_queue [(''s1'', draft_sample)] [] []"
  shows "PG_CreateJob 1 (cross_job\<lparr>jbSampleID := ''s2''\<rparr>) db = Inl ForeignKeyViolation \<and> snd (Fake_CreateJob 1 (cross_job\<lparr>jbSampleID := ''s2''\<rparr>) f) = 1 \<and>
    map_sum id (\<lambda>x. map jbStatus (qdJobs (fst x))) (PG_CreateJob 1 (cross_job\<lparr>jbReason := ''matrix'', jbStatus := ''unsupported''\<rparr>) db) = Inr [''open''] \<and>
    map jbStatus (fqJobs (fst (Fake_CreateJob 1 (cross_job\<lparr>jbReason := ''matrix'', jbStatus := ''unsupported''\<rparr>) f))) = [''unsupported''] \<and>
    PG_StrandedDrafts 4 0 db = [] \<and> Fake_StrandedDrafts 4 0 f = [''s1'']"
  unfolding db_def f_def by code_simp

end
