(* ===== verification/Verifications.thy ===== *)
theory Verifications
  imports JobQueue Validate
begin

text \<open>
  What the server decides about a verification receipt (\<open>src/internal/httpapi/verifications.go\<close>, the reading of a
  receipt in \<open>src/internal/compatibility/aggregate.go\<close>): whether it is admitted, whether it answers the job it names,
  and which status the receipts of a sample earn it.  The signature check, the hash of an environment and of a public
  key and the sanitizer are arguments.  A receipt is read from a JSON document in which \<open>resolvedPackages\<close> and
  \<open>stageFailures\<close> may also be present and empty; the two flags of a \<open>submission\<close> say so.
\<close>

section \<open>Admission\<close>

datatype receipt_error =
    NotAContainer | NotAContainerSystem | EnvironmentHashMismatch
  | ImageNotPinned | ImageDigestMismatch
  | StageFailuresInV1 | StageDidNotFail string | ExitCodeOutOfRange string | InvalidTermination string
  | MismatchedTermination string | UnsafeEvidence string | InvalidLineage string batch_error
  | CompleteNeedsBoth string | PartialNeedsOne string | MissingCarriesReason string | InvalidQuality string
  | FingerprintMismatch string
  | ResolvedEmpty | ResolvedWithoutPass | EcosystemsDiffer | ResolvedInvalid | ResolvedNotCanonical
  | ResolvedNotConcrete | ResolvedElsewhere | ResolvedTwice | ResolvedUnsorted | ResolvedUndeclared
  | ResolvedInV1 | ImageInV1 | UnknownSchema | MissingField | InvalidSignature | PeerMismatch

record submission =
  sbReceipt :: VerificationReceipt
  sbEmptyResolved :: bool
  sbEmptyFailures :: bool

definition stage :: "VerificationReceipt \<Rightarrow> string \<Rightarrow> string" where
  "stage r name = get [] (vrStages r) name"

definition receiptDescribesWhereItRan :: "(EnvironmentFingerprint \<Rightarrow> string) \<Rightarrow> VerificationReceipt \<Rightarrow> receipt_error option" where
  "receiptDescribesWhereItRan envHash receipt = (let env = vrEnvironment receipt in first_error [
     refuse_if (vrSandboxCapability receipt = ''CONTAINER_RUN'' \<and> eVirtualization env \<noteq> ''container'') NotAContainer,
     refuse_if (vrSandboxCapability receipt = ''CONTAINER_RUN'' \<and> eOS env \<noteq> ''linux'' \<and> eOS env \<noteq> ''windows'') NotAContainerSystem,
     refuse_if (vrEnvironmentHash receipt \<noteq> [] \<and> vrEnvironmentHash receipt \<noteq> envHash env) EnvironmentHashMismatch])"

text \<open>\<open>^[^@\s]+@(sha256:[0-9a-f]{64})$\<close> with its group.\<close>

definition regexp_space :: "char \<Rightarrow> bool" where
  "regexp_space c \<longleftrightarrow> c \<in> set [CHR 0x09, CHR 0x0A, CHR 0x0C, CHR 0x0D, CHR '' '']"

definition pinnedImageReference :: "string \<Rightarrow> string option" where
  "pinnedImageReference s = (case Cut s CHR ''@'' of
     None \<Rightarrow> None
   | Some (reference, digest) \<Rightarrow>
       if reference \<noteq> [] \<and> \<not> list_ex regexp_space reference \<and> HasPrefix digest ''sha256:'' \<and> length (drop 7 digest) = 64 \<and>
          list_all hex_char (drop 7 digest) then Some digest else None)"

definition receiptVerifierImageIsPinned :: "VerificationReceipt \<Rightarrow> receipt_error option" where
  "receiptVerifierImageIsPinned receipt = (case vrVerifierImage receipt of
     None \<Rightarrow> None
   | Some img \<Rightarrow> (case pinnedImageReference (viReference img) of
       None \<Rightarrow> Some ImageNotPinned
     | Some d \<Rightarrow> refuse_if (viDigest img \<noteq> d) ImageDigestMismatch))"

definition stage_failure_is_safe ::
  "(string \<Rightarrow> string) \<Rightarrow> (string \<Rightarrow> string \<Rightarrow> string) \<Rightarrow> VerificationReceipt \<Rightarrow> string \<times> FailureEvidence \<Rightarrow> receipt_error option" where
  "stage_failure_is_safe sha summarize receipt nf =
     (let (name, failure) = nf; term = Termination failure; structured = Structured term; hasSummary = feErrorSummary failure \<noteq> [];
          want = (if feActualToolchain failure \<noteq> []
            then ClassifiedFailureFingerprint sha (ToUpper name) (feActualToolchain failure) term (feErrorCode failure) (feErrorSummary failure)
            else FailureFingerprint sha (ToUpper name) term (feErrorCode failure) (feErrorSummary failure))
      in first_error [
        refuse_if (stage receipt name \<noteq> ''FAIL'') (StageDidNotFail name),
        refuse_if (case feExitCode failure of None \<Rightarrow> False | Some c \<Rightarrow> CanonicalExitCode c = None) (ExitCodeOutOfRange name),
        refuse_if (feTerminationKind failure \<noteq> [] \<and> \<not> structured) (InvalidTermination name),
        refuse_if ((feExitCode failure \<noteq> None \<and> feTerminationKind failure \<noteq> ''exit'') \<or>
            (feSignal failure \<noteq> [] \<and> feTerminationKind failure \<noteq> ''signal'') \<or>
            (feTimeoutMillis failure \<noteq> 0 \<and> feTerminationKind failure \<noteq> ''timeout'') \<or> feTimeoutMillis failure < 0) (MismatchedTermination name),
        refuse_if (summarize (feErrorSummary failure) (ToUpper name) \<noteq> feErrorSummary failure \<or> 512 < length (feErrorSummary failure) \<or>
            32 < length (feSignal failure) \<or> 64 < length (feErrorCode failure)) (UnsafeEvidence name),
        map_option (InvalidLineage name) (ValidateFailureLineage failure),
        (if feEvidenceQuality failure = ''complete'' then refuse_if (\<not> structured \<or> \<not> hasSummary) (CompleteNeedsBoth name)
         else if feEvidenceQuality failure = ''partial'' then refuse_if (structured = hasSummary) (PartialNeedsOne name)
         else if feEvidenceQuality failure = ''missing'' then
           refuse_if (structured \<or> hasSummary \<or> feErrorCode failure \<noteq> [] \<or> feFingerprint failure \<noteq> []) (MissingCarriesReason name)
         else Some (InvalidQuality name)),
        refuse_if (feEvidenceQuality failure \<noteq> ''missing'' \<and> feFingerprint failure \<noteq> want) (FingerprintMismatch name)])"

definition receiptFailureEvidenceIsSafe ::
  "(string \<Rightarrow> string) \<Rightarrow> (string \<Rightarrow> string \<Rightarrow> string) \<Rightarrow> submission \<Rightarrow> receipt_error option" where
  "receiptFailureEvidenceIsSafe sha summarize s = (let receipt = sbReceipt s in first_error
     (refuse_if (vrSchemaVersion receipt = 1 \<and> (vrStageFailures receipt \<noteq> [] \<or> sbEmptyFailures s)) StageFailuresInV1 #
      map (stage_failure_is_safe sha summarize receipt) (vrStageFailures receipt)))"

text \<open>The loop over the resolved packages; the argument before the list is the one before.\<close>

fun admit_resolved :: "string \<Rightarrow> string option \<Rightarrow> string list \<Rightarrow> receipt_error + PURL list" where
  "admit_resolved eco before [] = Inr []"
| "admit_resolved eco before (raw # raws) = (case ParsePURL raw of
     Inl _ \<Rightarrow> Inl ResolvedInvalid
   | Inr p \<Rightarrow>
       if PURL_String p \<noteq> raw then Inl ResolvedNotCanonical
       else if \<not> ConcreteResolvedVersion (pVersion p) then Inl ResolvedNotConcrete
       else if pEcosystem p \<noteq> eco then Inl ResolvedElsewhere
       else if before = Some raw then Inl ResolvedTwice
       else if (case before of None \<Rightarrow> False | Some b \<Rightarrow> raw < b) then Inl ResolvedUnsorted
       else (case admit_resolved eco (Some raw) raws of Inl e \<Rightarrow> Inl e | Inr ps \<Rightarrow> Inr (p # ps)))"

definition declared_packages :: "SampleManifest \<Rightarrow> (string \<times> string) list" where
  "declared_packages manifest = concat (map (\<lambda>raw. case ParsePURL raw of Inl _ \<Rightarrow> [] | Inr p \<Rightarrow> [(pEcosystem p, pName p)]) (smPackages manifest))"

definition receiptResolvedPackagesMatchSample :: "submission \<Rightarrow> SampleManifest \<Rightarrow> receipt_error option" where
  "receiptResolvedPackagesMatchSample s manifest =
     (let receipt = sbReceipt s;
          receiptEcosystem = ToLower (TrimSpace (eEcosystem (vrEnvironment receipt)));
          manifestEcosystem = ToLower (TrimSpace (eEcosystem (smEnvironment manifest)))
      in if vrResolvedPackages receipt = [] then refuse_if (sbEmptyResolved s) ResolvedEmpty
         else if stage receipt ''resolve'' \<noteq> ''PASS'' then Some ResolvedWithoutPass
         else if receiptEcosystem = [] \<or> manifestEcosystem = [] \<or> receiptEcosystem \<noteq> manifestEcosystem then Some EcosystemsDiffer
         else case admit_resolved receiptEcosystem None (vrResolvedPackages receipt) of
           Inl e \<Rightarrow> Some e
         | Inr parsed \<Rightarrow>
             refuse_if (list_ex (\<lambda>p. (pEcosystem p, pName p) \<notin> set (declared_packages manifest)) parsed) ResolvedUndeclared)"

text \<open>The checks that need the receipt alone, in the order of the handler.\<close>

definition schema_check :: "submission \<Rightarrow> receipt_error option" where
  "schema_check s = (let receipt = sbReceipt s in
     if vrSchemaVersion receipt = 1 then first_error [
       refuse_if (vrResolvedPackages receipt \<noteq> [] \<or> sbEmptyResolved s) ResolvedInV1,
       refuse_if (vrVerifierImage receipt \<noteq> None) ImageInV1]
     else if vrSchemaVersion receipt = 2 then refuse_if (vrResolvedPackages receipt = [] \<and> sbEmptyResolved s) ResolvedEmpty
     else Some UnknownSchema)"

record checker =
  ckEnvHash :: "EnvironmentFingerprint \<Rightarrow> string"
  ckSha :: "string \<Rightarrow> string"
  ckSummarize :: "string \<Rightarrow> string \<Rightarrow> string"
  ckVerify :: "VerificationReceipt \<Rightarrow> bool"
  ckPeerID :: "string \<Rightarrow> string"

definition receipt_check :: "checker \<Rightarrow> submission \<Rightarrow> receipt_error option" where
  "receipt_check ck s = (let receipt = sbReceipt s in first_error [
     schema_check s,
     refuse_if (vrSampleID receipt = [] \<or> vrPeerID receipt = [] \<or> vrPeerPubkey receipt = [] \<or> vrPeerSignature receipt = []) MissingField,
     refuse_if (\<not> ckVerify ck receipt) InvalidSignature,
     refuse_if (ckPeerID ck (vrPeerPubkey receipt) \<noteq> vrPeerID receipt) PeerMismatch,
     receiptDescribesWhereItRan (ckEnvHash ck) receipt,
     receiptVerifierImageIsPinned receipt,
     receiptFailureEvidenceIsSafe (ckSha ck) (ckSummarize ck) s])"

section \<open>The answer to a job\<close>

definition versionSatisfies :: "string \<Rightarrow> string \<Rightarrow> bool" where
  "versionSatisfies want0 got0 =
     (let want = TrimSpace want0; got = TrimSpace got0
      in if want = [] then True
         else if want = got then True
         else let wantParts = Split want CHR ''.''; gotParts = Split got CHR ''.''
              in if length gotParts < length wantParts then False
                 else list_all (\<lambda>i. wantParts ! i = gotParts ! i) [0..<length wantParts])"

definition receiptMatchesRequirements :: "VerificationReceipt \<Rightarrow> WorkerRequirements \<Rightarrow> bool" where
  "receiptMatchesRequirements receipt want =
     (let env = Normalize (vrEnvironment receipt)
      in if wrSandboxCapability want \<noteq> [] \<and> vrSandboxCapability receipt \<noteq> wrSandboxCapability want then False
         else if wrVerifierAdapter want \<noteq> [] \<and> vrVerifierAdapter receipt \<noteq> wrVerifierAdapter want then False
         else if wrOS want \<noteq> [] \<and> \<not> EqualFold (wrOS want) (eOS env) then False
         else if list_ex (\<lambda>(w, g). w \<noteq> [] \<and> w \<noteq> g) [(wrEcosystem want, eEcosystem env), (wrRuntime want, eRuntime env),
             (wrExecutionContext want, eExecutionContext env), (wrBrowserFamily want, eBrowserFamily env), (wrEngine want, eEngine env)] then False
         else if list_ex (\<lambda>(w, g). \<not> versionSatisfies w g) [(wrRuntimeVersion want, eRuntimeVersion env),
             (wrBrowserMajor want, eBrowserMajor env), (wrEngineVersion want, eEngineVersion env)] then False
         else list_all (\<lambda>required. list_ex (\<lambda>got. EqualFold (TrimSpace required) (TrimSpace got)) (eFrameworks env)) (wrFrameworks want))"

definition java_lines :: "(string, int) gomap" where
  "java_lines = [(''8'', 8), (''11'', 11), (''17'', 17), (''21'', 21), (''25'', 25)]"

definition exactSupportedMatrixRequirements :: "WorkerRequirements \<Rightarrow> bool" where
  "exactSupportedMatrixRequirements want \<longleftrightarrow> wrSandboxCapability want = ''CONTAINER_RUN'' \<and>
     (wrVerifierAdapter want = ''maven-java@1'' \<or> wrVerifierAdapter want = ''gradle-java@1'') \<and>
     wrEcosystem want = ''maven'' \<and> wrRuntime want = ''java'' \<and> wrRuntimeVersion want \<in> set (map fst java_lines) \<and>
     wrExecutionContext want = ''java'' \<and> wrBrowserFamily want = [] \<and> wrBrowserMajor want = [] \<and>
     wrEngine want = [] \<and> wrEngineVersion want = [] \<and> length (wrFrameworks want) = 0"

definition matrixRequirementsMatchManifest :: "VerificationReceipt \<Rightarrow> WorkerRequirements \<Rightarrow> SampleManifest \<Rightarrow> bool" where
  "matrixRequirementsMatchManifest receipt want manifest =
     (let env = Normalize (smEnvironment manifest);
          target = (if eLanguageVersion env = [] then wrRuntimeVersion want else eLanguageVersion env)
      in if smVerifierAdapter manifest \<noteq> wrVerifierAdapter want \<or> eEcosystem env \<noteq> wrEcosystem want \<or> eRuntime env \<noteq> wrRuntime want \<or>
            (eExecutionContext env \<noteq> [] \<and> eExecutionContext env \<noteq> wrExecutionContext want) \<or>
            (eLanguage env \<noteq> [] \<and> eLanguage env \<noteq> ''java'') then False
         else get 0 java_lines target \<noteq> 0 \<and> get 0 java_lines target \<le> get 0 java_lines (wrRuntimeVersion want) \<and>
              eLanguageVersion (Normalize (vrEnvironment receipt)) = target)"

section \<open>The status of a sample\<close>

definition stableWindow :: int where
  "stableWindow = 30 * 24 * 60 * 60 * 1000000000"

definition statusRank :: "string \<Rightarrow> int" where
  "statusRank status = (if status = ''STABLE'' then 4 else if status = ''MATRIX_PASS'' then 3 else if status = ''CROSS_PASS'' then 2
     else if status = ''PUBLISHED'' then 1 else 0)"

definition majorSeg :: "string \<Rightarrow> string" where
  "majorSeg v = takeWhile (\<lambda>c. c \<noteq> CHR ''.'') v"

definition runtimeLine :: "string \<Rightarrow> string \<Rightarrow> string" where
  "runtimeLine runtime version =
     (if version = [] then []
      else if ToLower runtime \<in> {''go'', ''golang'', ''python'', ''elixir'', ''dart''} then
        (let segs = SplitN version CHR ''.'' 3 in if 2 \<le> length segs then segs ! 0 @ ''.'' @ segs ! 1 else segs ! 0)
      else majorSeg version)"

definition describesAnEnvironment :: "EnvironmentFingerprint \<Rightarrow> bool" where
  "describesAnEnvironment env \<longleftrightarrow> eOS env \<noteq> [] \<and> eRuntime env \<noteq> [] \<and> eRuntimeVersion env \<noteq> []"

text \<open>The three sets the loop fills.\<close>

definition see_context :: "string list \<times> string list \<times> string list \<Rightarrow> ReceiptInfo \<Rightarrow> string list \<times> string list \<times> string list" where
  "see_context seen info = (let env = riEnv info; (oses, runtimeMajors, browsers) = seen in
     if \<not> describesAnEnvironment env then seen
     else (List.insert (eOS env) oses,
           List.insert (eRuntime env @ ''@'' @ runtimeLine (eRuntime env) (eRuntimeVersion env)) runtimeMajors,
           if eBrowserFamily env \<noteq> [] then List.insert (eBrowserFamily env) browsers else browsers))"

definition spansContextBoundary :: "ReceiptInfo list \<Rightarrow> bool" where
  "spansContextBoundary infos = (let (oses, runtimeMajors, browsers) = foldl see_context ([], [], []) infos in
     2 \<le> length oses \<or> 2 \<le> length runtimeMajors \<or> 2 \<le> length browsers)"

definition ParseReceiptRow :: "ReceiptRow \<Rightarrow> ReceiptInfo" where
  "ParseReceiptRow r = (let rec = rrReceipt r in
     \<lparr>riPeerID = (if vrPeerID rec = [] then rrPeerID r else vrPeerID rec), riCaseID = vrCaseID rec,
      riEnv = Normalize (vrEnvironment rec),
      riContractResult = (if stage rec ''contract'' = [] then rrContractResult r else stage rec ''contract''),
      riStages = vrStages rec, riStageFailures = vrStageFailures rec, riResolvedPackages = resolvedPURLsFromReceipt rec,
      riVerifierAdapter = vrVerifierAdapter rec, riSandboxCapability = vrSandboxCapability rec,
      riCreatedAt = (case rrCreatedAt r of None \<Rightarrow> 0 | Some t \<Rightarrow> nat t)\<rparr>)"

text \<open>What the loop over the rows gathers: whether another peer passed, the passing peers, a recent failure, the passes.\<close>

definition status_step ::
  "string \<Rightarrow> int \<Rightarrow> bool \<times> string list \<times> bool \<times> ReceiptInfo list \<Rightarrow> ReceiptRow \<Rightarrow> bool \<times> string list \<times> bool \<times> ReceiptInfo list" where
  "status_step origin now acc row = (let (crossPass, passPeers, recentFail, infos) = acc in
     if rrContractResult row = ''PASS'' then
       (crossPass \<or> rrPeerID row \<noteq> origin, List.insert (rrPeerID row) passPeers, recentFail, infos @ [ParseReceiptRow row])
     else if rrContractResult row = ''FAIL'' then
       (crossPass, passPeers,
        recentFail \<or> (case rrCreatedAt row of None \<Rightarrow> True | Some t \<Rightarrow> now - t \<le> stableWindow), infos)
     else acc)"

definition status_origin :: "ReceiptRow list \<Rightarrow> string" where
  "status_origin rows = (case find (\<lambda>r. rrContractResult r = ''PASS'') rows of
     Some r \<Rightarrow> rrPeerID r
   | None \<Rightarrow> (case rows of [] \<Rightarrow> [] | r # _ \<Rightarrow> rrPeerID r))"

definition sampleStatusFromReceipts :: "string \<Rightarrow> ReceiptRow list \<Rightarrow> int \<Rightarrow> string" where
  "sampleStatusFromReceipts current rows now =
     (if rows = [] then current
      else
        let (crossPass, passPeers, recentFail, infos) = foldl (status_step (status_origin rows) now) (False, [], False, []) rows;
            s1 = (if crossPass \<and> statusRank current < statusRank ''CROSS_PASS'' then ''CROSS_PASS'' else current);
            s2 = (if crossPass \<and> spansContextBoundary infos \<and> statusRank s1 < statusRank ''MATRIX_PASS'' then ''MATRIX_PASS'' else s1)
        in if 3 \<le> length passPeers \<and> \<not> recentFail \<and> statusRank s2 < statusRank ''STABLE'' then ''STABLE'' else s2)"

definition validPeerID :: "string \<Rightarrow> bool" where
  "validPeerID peerID \<longleftrightarrow> length peerID = length ''ed25519:'' + 16 \<and> take (length ''ed25519:'') peerID = ''ed25519:'' \<and>
     list_all hex_char (drop (length ''ed25519:'') peerID)"

section \<open>Status\<close>

definition passes :: "ReceiptRow list \<Rightarrow> ReceiptRow set" where
  "passes rows = {r \<in> set rows. rrContractResult r = ''PASS''}"

definition recent_fail :: "int \<Rightarrow> ReceiptRow list \<Rightarrow> bool" where
  "recent_fail now rows \<longleftrightarrow> (\<exists>r \<in> set rows. rrContractResult r = ''FAIL'' \<and>
     (case rrCreatedAt r of None \<Rightarrow> True | Some t \<Rightarrow> now - t \<le> stableWindow))"

lemma parsed_env: "riEnv (ParseReceiptRow r) = Normalize (vrEnvironment (rrReceipt r))"
  by (simp add: ParseReceiptRow_def Let_def)

lemma length_insert_card: "distinct xs \<Longrightarrow> length xs = card (set xs)"
  by (simp add: distinct_card)

lemma status_fold:
  "foldl (status_step origin now) (c, ps, f, is) rows = (c', ps', f', is') \<Longrightarrow> distinct ps \<Longrightarrow>
     (c' \<longleftrightarrow> c \<or> (\<exists>r \<in> passes rows. rrPeerID r \<noteq> origin)) \<and> distinct ps' \<and> set ps' = set ps \<union> rrPeerID ` passes rows \<and>
     (f' \<longleftrightarrow> f \<or> recent_fail now rows) \<and> is' = is @ map ParseReceiptRow (filter (\<lambda>r. rrContractResult r = ''PASS'') rows)"
proof (induction rows arbitrary: c ps f "is")
  case Nil
  then show ?case by (simp add: passes_def recent_fail_def)
next
  case (Cons r rows)
  obtain c1 ps1 f1 is1 where s: "status_step origin now (c, ps, f, is) r = (c1, ps1, f1, is1)" by (cases "status_step origin now (c, ps, f, is) r")
  have d: "distinct ps1" using s Cons.prems(2) by (auto simp: status_step_def split: if_splits)
  have "foldl (status_step origin now) (c1, ps1, f1, is1) rows = (c', ps', f', is')" using Cons.prems(1) s by simp
  note IH = Cons.IH [OF this d]
  consider "rrContractResult r = ''PASS''" | "rrContractResult r = ''FAIL''" | "rrContractResult r \<noteq> ''PASS''" "rrContractResult r \<noteq> ''FAIL''" by blast
  then show ?case
  proof cases
    case 1
    have p: "passes (r # rows) = insert r (passes rows)" "recent_fail now (r # rows) = recent_fail now rows"
      using 1 by (auto simp: passes_def recent_fail_def)
    have "c1 = (c \<or> rrPeerID r \<noteq> origin)" "ps1 = List.insert (rrPeerID r) ps" "f1 = f" "is1 = is @ [ParseReceiptRow r]"
      using s 1 by (auto simp: status_step_def)
    then show ?thesis unfolding p using IH 1 by auto
  next
    case 2
    have p: "passes (r # rows) = passes rows"
      "recent_fail now (r # rows) = ((case rrCreatedAt r of None \<Rightarrow> True | Some t \<Rightarrow> now - t \<le> stableWindow) \<or> recent_fail now rows)"
      using 2 by (auto simp: passes_def recent_fail_def)
    have "c1 = c" "ps1 = ps" "f1 = (f \<or> (case rrCreatedAt r of None \<Rightarrow> True | Some t \<Rightarrow> now - t \<le> stableWindow))" "is1 = is"
      using s 2 by (auto simp: status_step_def)
    then show ?thesis unfolding p using IH 2 by auto
  next
    case 3
    have p: "passes (r # rows) = passes rows" "recent_fail now (r # rows) = recent_fail now rows"
      using 3 by (auto simp: passes_def recent_fail_def)
    have "c1 = c" "ps1 = ps" "f1 = f" "is1 = is" using s 3 by (auto simp: status_step_def)
    then show ?thesis unfolding p using IH 3 by auto
  qed
qed

lemma cross_is_two_peers:
  assumes "rows \<noteq> []"
  shows "(\<exists>r \<in> passes rows. rrPeerID r \<noteq> status_origin rows) \<longleftrightarrow> 2 \<le> card (rrPeerID ` passes rows)"
proof (cases "find (\<lambda>r. rrContractResult r = ''PASS'') rows")
  case None
  then have "passes rows = {}" by (auto simp: passes_def find_None_iff)
  then show ?thesis by simp
next
  case (Some q)
  then have q: "q \<in> passes rows" "status_origin rows = rrPeerID q" using find_Some_iff [of "\<lambda>r. rrContractResult r = ''PASS''" rows q] by (auto simp: passes_def status_origin_def)
  have fin: "finite (rrPeerID ` passes rows)" by (simp add: passes_def)
  show ?thesis
  proof
    assume "\<exists>r \<in> passes rows. rrPeerID r \<noteq> status_origin rows"
    then obtain r where "r \<in> passes rows" "rrPeerID r \<noteq> rrPeerID q" using q by auto
    then have "{rrPeerID r, rrPeerID q} \<subseteq> rrPeerID ` passes rows" "card {rrPeerID r, rrPeerID q} = 2" using q by auto
    then show "2 \<le> card (rrPeerID ` passes rows)" using card_mono [OF fin, of "{rrPeerID r, rrPeerID q}"] by simp
  next
    assume two: "2 \<le> card (rrPeerID ` passes rows)"
    show "\<exists>r \<in> passes rows. rrPeerID r \<noteq> status_origin rows"
    proof (rule ccontr)
      assume "\<not> (\<exists>r \<in> passes rows. rrPeerID r \<noteq> status_origin rows)"
      then have "rrPeerID ` passes rows \<subseteq> {rrPeerID q}" unfolding q(2) by blast
      then have "card (rrPeerID ` passes rows) \<le> card {rrPeerID q}" by (intro card_mono) auto
      then show False using two by simp
    qed
  qed
qed

text \<open>Two receipts that describe where they ran and ran in different places.\<close>

definition other_context :: "EnvironmentFingerprint \<Rightarrow> EnvironmentFingerprint \<Rightarrow> bool" where
  "other_context a b \<longleftrightarrow> describesAnEnvironment a \<and> describesAnEnvironment b \<and> (eOS a \<noteq> eOS b \<or>
     eRuntime a @ ''@'' @ runtimeLine (eRuntime a) (eRuntimeVersion a) \<noteq> eRuntime b @ ''@'' @ runtimeLine (eRuntime b) (eRuntimeVersion b) \<or>
     eBrowserFamily a \<noteq> [] \<and> eBrowserFamily b \<noteq> [] \<and> eBrowserFamily a \<noteq> eBrowserFamily b)"

lemma see_fold:
  "foldl see_context (os, ls, bs) infos = (os', ls', bs') \<Longrightarrow> distinct os \<Longrightarrow> distinct ls \<Longrightarrow> distinct bs \<Longrightarrow>
     distinct os' \<and> distinct ls' \<and> distinct bs' \<and>
     set os' = set os \<union> eOS ` {e \<in> riEnv ` set infos. describesAnEnvironment e} \<and>
     set ls' = set ls \<union> (\<lambda>e. eRuntime e @ ''@'' @ runtimeLine (eRuntime e) (eRuntimeVersion e)) ` {e \<in> riEnv ` set infos. describesAnEnvironment e} \<and>
     set bs' = set bs \<union> eBrowserFamily ` {e \<in> riEnv ` set infos. describesAnEnvironment e \<and> eBrowserFamily e \<noteq> []}"
proof (induction infos arbitrary: os ls bs)
  case Nil
  then show ?case by simp
next
  case (Cons i infos)
  obtain os1 ls1 bs1 where s: "see_context (os, ls, bs) i = (os1, ls1, bs1)" by (cases "see_context (os, ls, bs) i")
  have d: "distinct os1" "distinct ls1" "distinct bs1" using s Cons.prems by (auto simp: see_context_def Let_def split: if_splits)
  have "foldl see_context (os1, ls1, bs1) infos = (os', ls', bs')" using Cons.prems(1) s by simp
  note IH = Cons.IH [OF this d]
  have split: "{e \<in> riEnv ` set (i # infos). P e} = (if P (riEnv i) then insert (riEnv i) {e \<in> riEnv ` set infos. P e} else {e \<in> riEnv ` set infos. P e})" for P
    by auto
  show ?case
  proof (cases "describesAnEnvironment (riEnv i)")
    case True
    then have "os1 = List.insert (eOS (riEnv i)) os"
      "ls1 = List.insert (eRuntime (riEnv i) @ ''@'' @ runtimeLine (eRuntime (riEnv i)) (eRuntimeVersion (riEnv i))) ls"
      "bs1 = (if eBrowserFamily (riEnv i) \<noteq> [] then List.insert (eBrowserFamily (riEnv i)) bs else bs)"
      using s by (auto simp: see_context_def Let_def)
    then show ?thesis unfolding split using IH True by auto
  next
    case False
    then have "os1 = os" "ls1 = ls" "bs1 = bs" using s by (auto simp: see_context_def Let_def)
    then show ?thesis unfolding split using IH False by auto
  qed
qed

lemma two_of_list: "distinct xs \<Longrightarrow> 2 \<le> length xs \<longleftrightarrow> (\<exists>a \<in> set xs. \<exists>b \<in> set xs. a \<noteq> b)"
proof (cases xs)
  case (Cons a ys)
  assume "distinct xs"
  then show ?thesis using Cons by (cases ys) auto
qed simp

lemma two_of_image: "(\<exists>a \<in> g ` D. \<exists>b \<in> g ` D. a \<noteq> b) \<longleftrightarrow> (\<exists>a \<in> D. \<exists>b \<in> D. g a \<noteq> g b)"
  by blast

lemma spans_iff: "spansContextBoundary infos \<longleftrightarrow> (\<exists>a \<in> riEnv ` set infos. \<exists>b \<in> riEnv ` set infos. other_context a b)"
proof -
  obtain os ls bs where f: "foldl see_context ([], [], []) infos = (os, ls, bs)" by (cases "foldl see_context ([], [], []) infos")
  note sets = see_fold [OF f]
  have "spansContextBoundary infos \<longleftrightarrow> 2 \<le> length os \<or> 2 \<le> length ls \<or> 2 \<le> length bs" by (simp add: spansContextBoundary_def f)
  also have "\<dots> \<longleftrightarrow> (\<exists>a \<in> set os. \<exists>b \<in> set os. a \<noteq> b) \<or> (\<exists>a \<in> set ls. \<exists>b \<in> set ls. a \<noteq> b) \<or> (\<exists>a \<in> set bs. \<exists>b \<in> set bs. a \<noteq> b)"
    using sets by (simp add: two_of_list)
  also have "\<dots> \<longleftrightarrow> (\<exists>a \<in> riEnv ` set infos. \<exists>b \<in> riEnv ` set infos. other_context a b)"
  proof -
    have "set os = eOS ` {e \<in> riEnv ` set infos. describesAnEnvironment e}"
      "set ls = (\<lambda>e. eRuntime e @ ''@'' @ runtimeLine (eRuntime e) (eRuntimeVersion e)) ` {e \<in> riEnv ` set infos. describesAnEnvironment e}"
      "set bs = eBrowserFamily ` {e \<in> riEnv ` set infos. describesAnEnvironment e \<and> eBrowserFamily e \<noteq> []}"
      using sets by simp_all
    then show ?thesis unfolding other_context_def two_of_image by (simp only: two_of_image) blast
  qed
  finally show ?thesis .
qed

text \<open>C11: the status of a sample is a rule on the set of its receipts, whatever their order: it is raised to \<open>STABLE\<close> by three
  passing peers without a recent failure, else to \<open>MATRIX_PASS\<close> by two passing peers and two passes in different described
  contexts, else to \<open>CROSS_PASS\<close> by two passing peers, and never lowered.\<close>

theorem status_is_earned_by_peers:
  "sampleStatusFromReceipts current rows now =
     (let peers = card (rrPeerID ` passes rows);
          spans = (\<exists>r \<in> passes rows. \<exists>r' \<in> passes rows.
            other_context (Normalize (vrEnvironment (rrReceipt r))) (Normalize (vrEnvironment (rrReceipt r'))))
      in if 3 \<le> peers \<and> \<not> recent_fail now rows \<and> statusRank current < 4 then ''STABLE''
         else if 2 \<le> peers \<and> spans \<and> statusRank current < 3 then ''MATRIX_PASS''
         else if 2 \<le> peers \<and> statusRank current < 2 then ''CROSS_PASS''
         else current) \<and>
   statusRank current \<le> statusRank (sampleStatusFromReceipts current rows now)"
proof (cases "rows = []")
  case True
  then show ?thesis by (simp add: sampleStatusFromReceipts_def passes_def)
next
  case False
  obtain c ps f infos where fold: "foldl (status_step (status_origin rows) now) (False, [], False, []) rows = (c, ps, f, infos)"
    by (cases "foldl (status_step (status_origin rows) now) (False, [], False, []) rows")
  note facts = status_fold [OF fold, simplified]
  have c: "c = (2 \<le> card (rrPeerID ` passes rows))" using facts cross_is_two_peers [OF False] by simp
  have ps: "length ps = card (rrPeerID ` passes rows)" using facts distinct_card [of ps] by simp
  have env: "riEnv ` set infos = (\<lambda>r. Normalize (vrEnvironment (rrReceipt r))) ` passes rows"
    using facts by (simp add: image_image passes_def parsed_env)
  have sp: "spansContextBoundary infos = (\<exists>r \<in> passes rows. \<exists>r' \<in> passes rows.
      other_context (Normalize (vrEnvironment (rrReceipt r))) (Normalize (vrEnvironment (rrReceipt r'))))"
    unfolding spans_iff env by blast
  have rank: "statusRank s = 4 \<longleftrightarrow> s = ''STABLE''" for s by (simp add: statusRank_def)
  have f: "f = recent_fail now rows" using facts by simp
  show ?thesis
    unfolding sampleStatusFromReceipts_def fold using False
    by (simp add: c ps f sp Let_def) (auto simp: statusRank_def)
qed

section \<open>Version requirements\<close>

lemma versionSatisfies_iff:
  "versionSatisfies want got \<longleftrightarrow> TrimSpace want = [] \<or> (\<exists>rest. Split (TrimSpace got) CHR ''.'' = Split (TrimSpace want) CHR ''.'' @ rest)"
proof -
  have nth: "(\<exists>rest. ys = xs @ rest) \<longleftrightarrow> length xs \<le> length ys \<and> (\<forall>i < length xs. xs ! i = ys ! i)" for xs ys :: "string list"
  proof
    assume "length xs \<le> length ys \<and> (\<forall>i < length xs. xs ! i = ys ! i)"
    then have "take (length xs) ys = xs" by (intro nth_equalityI) auto
    then show "\<exists>rest. ys = xs @ rest" by (metis append_take_drop_id)
  qed (auto simp: nth_append)
  show ?thesis
    unfolding nth versionSatisfies_def Let_def by (auto simp: list_all_iff)
qed

lemma starts_with_space: "list_all (\<lambda>p. p \<noteq> [] \<and> \<not> concrete_byte (hd p)) space_seqs" "list_all (\<lambda>p. p \<noteq> [] \<and> \<not> concrete_byte (hd p)) (map rev space_seqs)"
  by code_simp+

lemma no_space_prefix: "list_all concrete_byte v \<Longrightarrow> list_all (\<lambda>p. p \<noteq> [] \<and> \<not> concrete_byte (hd p)) seqs \<Longrightarrow> letter_free seqs \<Longrightarrow> strip seqs v = v"
proof (rule strip_id, subst space_len_0_iff, assumption, intro ballI notI)
  fix p assume v: "list_all concrete_byte v" and s: "list_all (\<lambda>p. p \<noteq> [] \<and> \<not> concrete_byte (hd p)) seqs" and p: "p \<in> set seqs" "HasPrefix v p"
  then obtain r where "v = p @ r" by (auto simp: HasPrefix_iff)
  then show False using v s p by (cases p) (auto simp: list_all_iff)
qed

lemma TrimSpace_concrete: "list_all concrete_byte v \<Longrightarrow> TrimSpace v = v"
  using no_space_prefix [OF _ starts_with_space(1) letter_free_space_seqs(1), of v]
    no_space_prefix [OF _ starts_with_space(2) letter_free_space_seqs(2), of "rev v"]
  by (simp add: TrimSpace_def)

lemma RuntimeLine_segments:
  assumes "list_all concrete_byte v"
  shows "list_all concrete_byte (RuntimeLine rt v) \<and> (RuntimeLine rt v = [] \<or> (\<exists>rest. Split v CHR ''.'' = Split (RuntimeLine rt v) CHR ''.'' @ rest))"
proof -
  have dot: "concrete_byte CHR ''.''" by code_simp
  have first: "\<exists>rest. Split v CHR ''.'' = Split (seg0 v) CHR ''.'' @ rest" for v
  proof (cases "CHR ''.'' \<in> set v")
    case True
    then have "v = seg0 v @ CHR ''.'' # rest0 v"
      unfolding seg0_def rest0_def by (induction v) auto
    then show ?thesis using Split_append_sep [OF seg0_no_dot, of v "rest0 v"] Split_atom [OF seg0_no_dot] by auto
  qed (simp add: seg0_id)
  have "\<exists>rest. Split v CHR ''.'' = Split (versionBucket v) CHR ''.'' @ rest"
  proof (cases "CHR ''.'' \<in> set v")
    case True
    then have v: "v = seg0 v @ CHR ''.'' # rest0 v"
      unfolding seg0_def rest0_def by (induction v) auto
    have b: "versionBucket v = seg0 v @ CHR ''.'' # seg0 (rest0 v)" using True by (simp add: versionBucket_segs)
    obtain rest where "Split (rest0 v) CHR ''.'' = Split (seg0 (rest0 v)) CHR ''.'' @ rest" using first by blast
    then show ?thesis
      using Split_append_sep [OF seg0_no_dot, of v "rest0 v"] Split_append_sep [OF seg0_no_dot, of v "seg0 (rest0 v)"] v b by auto
  qed (simp add: versionBucket_segs)
  note bucket = this
  have sub: "set (seg0 w) \<subseteq> set w" for w unfolding seg0_def by (auto dest: set_takeWhileD)
  have sub': "set (rest0 w) \<subseteq> set w" for w
  proof -
    have "set (tl xs) \<subseteq> set xs" for xs :: string by (cases xs) auto
    then show ?thesis unfolding rest0_def using set_dropWhileD by fastforce
  qed
  have "set (RuntimeLine rt v) \<subseteq> insert CHR ''.'' (set v)"
    using sub [of v] sub' [of v] sub [of "rest0 v"]
    by (auto simp: RuntimeLine_def TrimSpace_concrete assms majorBucket_seg0 versionBucket_segs Let_def)
  then have "list_all concrete_byte (RuntimeLine rt v)" using assms dot by (auto simp: list_all_iff)
  moreover have "RuntimeLine rt v \<in> {[], seg0 v, versionBucket v}"
    by (simp add: RuntimeLine_def TrimSpace_concrete assms majorBucket_seg0 Let_def)
  ultimately show ?thesis using first [of v] bucket by (elim insertE emptyE) simp_all
qed

text \<open>A version requirement is a prefix of whole components: a measured version answers it exactly when its leading
  components are those of the requirement, so the release line asked of a worker is answered by every version it was derived
  from, and the order is transitive.\<close>

theorem required_version_is_a_prefix:
  "(versionSatisfies want got \<longleftrightarrow> TrimSpace want = [] \<or>
      (\<exists>rest. Split (TrimSpace got) CHR ''.'' = Split (TrimSpace want) CHR ''.'' @ rest)) \<and>
   (versionSatisfies want got \<and> versionSatisfies got v \<longrightarrow> versionSatisfies want v) \<and>
   (list_all concrete_byte v \<longrightarrow> versionSatisfies (RuntimeLine runtime v) v)"
proof (intro conjI impI)
  show "versionSatisfies want got \<longleftrightarrow> TrimSpace want = [] \<or>
      (\<exists>rest. Split (TrimSpace got) CHR ''.'' = Split (TrimSpace want) CHR ''.'' @ rest)"
    by (rule versionSatisfies_iff)
  have no_empty: "TrimSpace want = []" if "Split [] CHR ''.'' = Split (TrimSpace want) CHR ''.'' @ rest" for rest
  proof -
    have "Split (TrimSpace want) CHR ''.'' = [[]]" using that by (cases "Split (TrimSpace want) CHR ''.''") auto
    then show ?thesis using Join_Split [of "TrimSpace want" "CHR ''.''"] by simp
  qed
  show "versionSatisfies want v" if "versionSatisfies want got \<and> versionSatisfies got v"
  proof (cases "TrimSpace got = []")
    case True
    then show ?thesis using that no_empty unfolding versionSatisfies_iff by auto
  next
    case False
    then show ?thesis using that unfolding versionSatisfies_iff by (metis append.assoc)
  qed
  show "versionSatisfies (RuntimeLine runtime v) v" if "list_all concrete_byte v"
    using RuntimeLine_segments [OF that, of runtime] unfolding versionSatisfies_iff by (auto simp: TrimSpace_concrete that)
qed

theorem required_version_is_a_prefix_witness:
  "versionSatisfies ''21'' ''21.0'' \<and> versionSatisfies ''21.0'' ''21.0.5'' \<and> versionSatisfies ''21'' ''21.0.5'' \<and>
   list_all concrete_byte ''21.0.5'' \<and> versionSatisfies (RuntimeLine ''java'' ''21.0.5'') ''21.0.5''"
proof -
  have "versionSatisfies ''21'' ''21.0''" "versionSatisfies ''21.0'' ''21.0.5''" "list_all concrete_byte ''21.0.5''" by code_simp+
  then show ?thesis using required_version_is_a_prefix [of "''21''" "''21.0''" "''21.0.5''" "''java''"] by blast
qed

section \<open>Admitted receipts\<close>

lemma admitted_resolved:
  "admit_resolved eco prev raws = Inr ps \<Longrightarrow> map PURL_String ps = raws \<and> resolved_loop prev raws = Some ps \<and>
     (\<forall>p \<in> set ps. pEcosystem p = eco \<and> ConcreteResolvedVersion (pVersion p)) \<and> sorted_wrt (<) raws \<and>
     (\<forall>b r. prev = Some b \<and> r \<in> set raws \<longrightarrow> b < r)"
proof (induction raws arbitrary: prev ps)
  case Nil
  then show ?case by simp
next
  case (Cons raw raws)
  obtain p where p: "ParsePURL raw = Inr p" "PURL_String p = raw" "ConcreteResolvedVersion (pVersion p)" "pEcosystem p = eco"
    "prev \<noteq> Some raw" "\<not> (case prev of None \<Rightarrow> False | Some b \<Rightarrow> raw < b)"
    using Cons.prems by (auto split: sum.splits if_splits)
  obtain qs where qs: "admit_resolved eco (Some raw) raws = Inr qs" "ps = p # qs"
    using Cons.prems p by (auto split: sum.splits)
  have less: "prev = Some b \<Longrightarrow> b < raw" for b using p(5,6) by (auto simp: not_less order.order_iff_strict)
  note IH = Cons.IH [OF qs(1)]
  have "resolved_loop prev (raw # raws) = Some ps"
    using IH p qs less by (auto simp: not_le split: option.split)
  moreover have "\<forall>b r. prev = Some b \<and> r \<in> set (raw # raws) \<longrightarrow> b < r" using IH less by fastforce
  ultimately show ?case using IH p qs by auto
qed

text \<open>C35: the packages an admitted receipt resolved are the ones the Builder counts: the list is strictly sorted, canonical and
  concrete, of the ecosystem of the run, declared by the sample, and read back in full.\<close>

theorem admitted_packages_are_counted:
  assumes "receipt_check ck s = None" and "receiptResolvedPackagesMatchSample s manifest = None"
    and "vrResolvedPackages (sbReceipt s) \<noteq> []"
  defines "ps \<equiv> resolvedPURLsFromReceipt (sbReceipt s)"
  shows "map PURL_String ps = vrResolvedPackages (sbReceipt s) \<and> sorted_wrt (<) (vrResolvedPackages (sbReceipt s)) \<and>
    (\<forall>p \<in> set ps. ConcreteResolvedVersion (pVersion p) \<and> pEcosystem p = ToLower (TrimSpace (eEcosystem (smEnvironment manifest))) \<and>
       (\<exists>raw \<in> set (smPackages manifest). \<exists>q. ParsePURL raw = Inr q \<and> pEcosystem q = pEcosystem p \<and> pName q = pName p))"
proof -
  let ?r = "sbReceipt s" and ?eco = "ToLower (TrimSpace (eEcosystem (vrEnvironment (sbReceipt s))))"
  have v2: "vrSchemaVersion ?r = 2"
    using assms(1,3) by (auto simp: receipt_check_def schema_check_def Let_def split: if_splits)
  have m: "stage ?r ''resolve'' = ''PASS''" "?eco = ToLower (TrimSpace (eEcosystem (smEnvironment manifest)))"
    using assms(2,3) by (auto simp: receiptResolvedPackagesMatchSample_def Let_def split: if_splits)
  obtain parsed where parsed: "admit_resolved ?eco None (vrResolvedPackages ?r) = Inr parsed"
    "\<forall>p \<in> set parsed. (pEcosystem p, pName p) \<in> set (declared_packages manifest)"
    using assms(2,3) by (auto simp: receiptResolvedPackagesMatchSample_def Let_def list_ex_iff split: if_splits sum.splits)
  note a = admitted_resolved [OF parsed(1)]
  have ps: "ps = parsed" using v2 m(1) assms(3) a by (simp add: ps_def resolvedPURLsFromReceipt_def stage_def)
  have "\<exists>raw \<in> set (smPackages manifest). \<exists>q. ParsePURL raw = Inr q \<and> pEcosystem q = pEcosystem p \<and> pName q = pName p" if "p \<in> set parsed" for p
    using parsed(2) that unfolding declared_packages_def by (force split: sum.splits)
  then show ?thesis using a m ps by auto
qed

definition admitted_submission :: submission where
  "admitted_submission = \<lparr>sbReceipt = zero_receipt\<lparr>vrSchemaVersion := 2, vrSampleID := ''s'', vrPeerID := ''p'', vrPeerPubkey := ''k'',
     vrPeerSignature := ''sig'', vrEnvironment := zero_env\<lparr>eEcosystem := ''npm'', eOS := ''linux''\<rparr>,
     vrStages := [(''resolve'', ''PASS''), (''contract'', ''PASS'')], vrResolvedPackages := [''pkg:npm/left-pad@1.3.0'']\<rparr>,
     sbEmptyResolved = False, sbEmptyFailures = False\<rparr>"

definition open_checker :: checker where
  "open_checker = \<lparr>ckEnvHash = (\<lambda>_. []), ckSha = id, ckSummarize = (\<lambda>s _. s), ckVerify = (\<lambda>_. True), ckPeerID = (\<lambda>_. ''p'')\<rparr>"

definition declaring_manifest :: SampleManifest where
  "declaring_manifest = zero_manifest\<lparr>smPackages := [''pkg:npm/left-pad@^1.3''], smEnvironment := zero_env\<lparr>eEcosystem := ''npm''\<rparr>\<rparr>"

lemma witness_is_admitted: "receipt_check open_checker admitted_submission = None"
  by code_simp

theorem admitted_packages_are_counted_witness:
  "map PURL_String (resolvedPURLsFromReceipt (sbReceipt admitted_submission)) = [''pkg:npm/left-pad@1.3.0'']"
proof -
  have "receiptResolvedPackagesMatchSample admitted_submission declaring_manifest = None"
    "vrResolvedPackages (sbReceipt admitted_submission) = [''pkg:npm/left-pad@1.3.0'']" by code_simp+
  then show ?thesis using admitted_packages_are_counted [OF witness_is_admitted, of declaring_manifest] by simp
qed

lemma admitted_kind:
  assumes "receipt_check ck s = None"
  defines "k \<equiv> ReceiptTerminationKind (sbReceipt s)"
  shows "k \<in> {[], ''exit'', ''signal'', ''timeout'', ''process-start-failed''}"
    and "k \<noteq> [] \<Longrightarrow> stage (sbReceipt s) ''contract'' = ''FAIL''"
proof -
  have safe: "\<forall>nf \<in> set (vrStageFailures (sbReceipt s)). stage_failure_is_safe (ckSha ck) (ckSummarize ck) (sbReceipt s) nf = None"
    using assms(1) by (simp add: receipt_check_def receiptFailureEvidenceIsSafe_def Let_def)
  have one: "feTerminationKind f \<in> {[], ''exit'', ''signal'', ''timeout'', ''process-start-failed''} \<and> stage (sbReceipt s) n = ''FAIL''"
    if "(n, f) \<in> set (vrStageFailures (sbReceipt s))" for n f
    using safe that by (force simp: stage_failure_is_safe_def Structured_def Termination_def Let_def split: if_splits)
  show "k \<in> {[], ''exit'', ''signal'', ''timeout'', ''process-start-failed''}" "k \<noteq> [] \<Longrightarrow> stage (sbReceipt s) ''contract'' = ''FAIL''"
    using one map_of_SomeD [of "vrStageFailures (sbReceipt s)" "''contract''"]
    by (auto simp: k_def ReceiptTerminationKind_def split: option.splits)
qed

text \<open>Whether an admitted receipt judged its sample is one question: the two forms of the rule, in Go and in SQL, agree on every
  admitted receipt whose contract result has no surrounding space.\<close>

theorem admitted_verdicts_agree:
  assumes "receipt_check ck s = None" and "rrReceipt row = sbReceipt s" and "TrimSpace (rrContractResult row) = rrContractResult row"
  shows "ContractWasJudged (rrContractResult row) (ReceiptTerminationKind (rrReceipt row)) (ReceiptHasFailureEvidence (rrReceipt row)) =
    contractJudgedSQL row"
proof -
  have "ToLower (TrimSpace k) = k" if "k \<in> {[], ''exit'', ''signal'', ''timeout'', ''process-start-failed''}" for k
    using that by (elim insertE emptyE) (simp_all, code_simp+)
  then have "ToLower (TrimSpace (ReceiptTerminationKind (rrReceipt row))) = ReceiptTerminationKind (rrReceipt row)"
    using admitted_kind(1) [OF assms(1)] assms(2) by simp
  then show ?thesis using assms(3) by (auto simp: ContractWasJudged_def contractJudgedSQL_def)
qed

theorem admitted_verdicts_agree_witness:
  "\<exists>row. rrReceipt row = sbReceipt admitted_submission \<and> rrContractResult row = ''PASS'' \<and> contractJudgedSQL row \<and>
     ContractWasJudged ''PASS'' (ReceiptTerminationKind (sbReceipt admitted_submission)) (ReceiptHasFailureEvidence (sbReceipt admitted_submission))"
proof -
  define row where "row = \<lparr>rrReceiptID = ''r'', rrSampleID = ''s'', rrPeerID = ''p'', rrEnvHash = [],
    rrReceipt = sbReceipt admitted_submission, rrContractResult = ''PASS'', rrCreatedAt = None\<rparr>"
  have r: "rrReceipt row = sbReceipt admitted_submission" "rrContractResult row = ''PASS''" by (simp_all add: row_def)
  have "TrimSpace ''PASS'' = ''PASS''" by code_simp
  moreover have "ContractWasJudged ''PASS'' (ReceiptTerminationKind (sbReceipt admitted_submission)) (ReceiptHasFailureEvidence (sbReceipt admitted_submission))"
    by code_simp
  ultimately show ?thesis using r admitted_verdicts_agree [OF witness_is_admitted r(1)] by auto
qed

end
