(* ===== verification/Images.thy ===== *)
theory Images
  imports Verifications Applicability PoolPolicy
begin

text \<open>
  The verifier images of \<open>src/internal/sandbox\<close>: the registry of \<open>images.go\<close>, the selectors of \<open>docker.go\<close> that
  choose an image for a manifest or decide whether a worker can run a job, the environment a receipt of such a run
  states, and the command line of a stage.  A call of \<open>pinned\<close> with an alias outside the registry panics; here it is the
  error \<open>NotRegistered\<close>, and the package variables that call it hold it.
\<close>

section \<open>The registry\<close>

record verifierImage =
  imAlias :: string
  imDigest :: string
  imBucket :: string
  imDistro :: string
  imLibc :: string

definition ref :: "verifierImage \<Rightarrow> string" where
  "ref v = imAlias v @ ''@'' @ imDigest v"

definition image_entry :: "string \<Rightarrow> string \<Rightarrow> string \<Rightarrow> string \<Rightarrow> string \<Rightarrow> string \<times> verifierImage" where
  "image_entry alias digest bucket distro libc =
     (alias, \<lparr>imAlias = alias, imDigest = digest, imBucket = bucket, imDistro = distro, imLibc = libc\<rparr>)"

definition verifierImages :: "(string, verifierImage) gomap" where
  "verifierImages = [
     image_entry ''node:22-alpine'' ''sha256:c610fcdfb1d5b4740dd70c284ed3cb16bb857e0f7166196e36a5501df7a3aa32'' ''alpine'' [] ''musl'',
     image_entry ''node:22'' ''sha256:8a34c4ab3ea2c5cd194f07e317b2a8f09461d3c8b05c4e34c8ccd56d56024c4d'' ''debian'' [] ''glibc'',
     image_entry ''oven/bun:1-alpine'' ''sha256:07235578f79ef8c6f97d94aee7938e76f5cdba5f21ae5dbfdd3d3d38058437eb'' ''alpine'' [] ''musl'',
     image_entry ''denoland/deno:alpine'' ''sha256:b49ac52f05c3d8d0da890b6628168e9bfb5721f7bccc00305bb3ad29ed0e40af'' ''alpine'' [] ''musl'',
     image_entry ''python:3.12-slim'' ''sha256:09f7da3bc104798d0afb40bc08d23ab2da20a76130cec1f2ef170848f5d85217'' ''debian'' [] ''glibc'',
     image_entry ''python:3.14-slim'' ''sha256:cae66f2ef0ec51a9891263eeee7f987dacf0a9879e8aa9353d5606e0530619a5'' ''debian'' [] ''glibc'',
     image_entry ''python:3.12-alpine'' ''sha256:d09d15e60962ca365d1cd544a48773bac9d33f2fb1b00f2aa0deec78ade7dc31'' ''alpine'' [] ''musl'',
     image_entry ''python:3.14-alpine'' ''sha256:05b2b8b732ecd268fee8727a369f936f022d1321b59befd13c30ede22769dcdc'' ''alpine'' [] ''musl'',
     image_entry ''golang:1.26-alpine'' ''sha256:28d89ee9cc0ff9fec75c82ca201e6bf7fdf9a679d4b7b24dfa04f2bb766bb468'' ''alpine'' [] ''musl'',
     image_entry ''golang:1.26'' ''sha256:e30143be198ab04cf7ba25fba83ab3a692ca584c994aad0bf131fa0eb32dd8c1'' ''debian'' [] ''glibc'',
     image_entry ''rust:1-alpine'' ''sha256:a10e64dd139b7387337c7fbe8aca31b959b57b2fd4c8ae20a02cf1d6ea424dce'' ''alpine'' [] ''musl'',
     image_entry ''composer:2'' ''sha256:4d71c3c2109c61d5415544264b59ad4087e4c5b7244481723664138fd36d5040'' ''alpine'' [] ''musl'',
     image_entry ''ruby:3'' ''sha256:364bd08657bc1106373e8c2fc1b39b68f384f339decc5867374caf6e2e112927'' ''debian'' [] ''glibc'',
     image_entry ''dart:3.13.0'' ''sha256:8b6175f6c6b89aaf31ffdace4a22d17715c07f1cf3a772dadb10c658f779e23d'' ''debian'' [] ''glibc'',
     image_entry ''elixir:1.20.1-alpine'' ''sha256:f50894ff69b0d07b310fe9c97b48b3475568ecccb7f0ccd7c350a789feb395a3'' ''alpine'' [] ''musl'',
     image_entry ''ghcr.io/puppeteer/puppeteer:24.4.0'' ''sha256:ca2087099ad5769b74c89135c663cbb2a76e07d3e261bb3e2da83be98409a68a'' ''debian'' [] ''glibc'',
     image_entry ''maven:3.9.11-eclipse-temurin-21-alpine'' ''sha256:922927df2c662cdd47ddb116443d6bec4696cfae3de1a0ddac8fcc7b87ce61ae'' ''alpine'' [] ''musl'',
     image_entry ''gradle:8.14.3-jdk21-alpine'' ''sha256:d20561a56ff27350ea778b8151f6af913c76e9d35b6a135f927ee16e3ce8193c'' ''alpine'' [] ''musl'',
     image_entry ''maven:3.9.11-amazoncorretto-8-al2023'' ''sha256:80f411ee8dc37def5bb6808f3b2698d5fac5a16b6797ffc8fc1fbce2df71b49e'' ''2023'' ''amzn'' ''glibc'',
     image_entry ''maven:3.9.11-amazoncorretto-11-al2023'' ''sha256:07b7514c1fce56f9dece12a9daea49312fff36f4b3449e8c314667587f997be0'' ''2023'' ''amzn'' ''glibc'',
     image_entry ''maven:3.9.11-amazoncorretto-17-al2023'' ''sha256:6374befde1891b069f5297714525d2a6c03cd0f410070fb53b2842b4d8118c63'' ''2023'' ''amzn'' ''glibc'',
     image_entry ''maven:3.9.11-amazoncorretto-21-al2023'' ''sha256:b0e00d2581674e0c12392bb88075a2835e73af86af48bbdb8eeec3d2e993ea40'' ''2023'' ''amzn'' ''glibc'',
     image_entry ''maven:3.9.11-amazoncorretto-25-al2023'' ''sha256:3d55eb28eae103300391509a5ac8cfc918d4a35dbfd087ef5472023949682791'' ''2023'' ''amzn'' ''glibc'',
     image_entry ''gradle:8.14.3-jdk8-corretto-al2023'' ''sha256:ec6379bf6453a09b608f7feb4e52a53f28edc2a1acc8a07aff6328b906bf20d6'' ''2023'' ''amzn'' ''glibc'',
     image_entry ''gradle:8.14.3-jdk11-corretto-al2023'' ''sha256:93d9f84a044faf9b345b7c126772ba719195318b0e848e322c6f1a977232e012'' ''2023'' ''amzn'' ''glibc'',
     image_entry ''gradle:8.14.3-jdk17-corretto-al2023'' ''sha256:9a40f91169b9685e9d25c73722b7f8dea9e1e7aa43dc4fc8a1acda1614a05eca'' ''2023'' ''amzn'' ''glibc'',
     image_entry ''gradle:8.14.3-jdk21-corretto-al2023'' ''sha256:05cb2f8b4a77587b3de1cd7ae003204eb8c1dc9db48a52c9cebd29d0041c949b'' ''2023'' ''amzn'' ''glibc'',
     image_entry ''gradle:9.7.0-jdk25-corretto-al2023'' ''sha256:bb35f016497202d8342ff68fe5d45b74a94a3d9043a3d2cced0061818abebeef'' ''2023'' ''amzn'' ''glibc'',
     image_entry ''golang:1.26-windowsservercore-ltsc2022'' ''sha256:2a3365ef5cb38e4ebaafe073a68a97989322fda2a582ee067ef9fd59a0551692'' ''windowsservercore'' [] [],
     image_entry ''python:3.12-windowsservercore-ltsc2022'' ''sha256:035418c04b5e8fcb13c6b23f6c801a52c510c43e8bf27e2379d26ad8c40c87a7'' ''windowsservercore'' [] [],
     image_entry ''python:3.14-windowsservercore-ltsc2022'' ''sha256:f7af89224fd778159f655fceca89562fb978e12a6c66e191fd2c27800ec994e5'' ''windowsservercore'' [] []]"

datatype image_error =
    NotRegistered string
  | WindowsRuntime string string | WindowsPythonVersion string | WindowsEcosystem string | WindowsBrowser | WindowsJava
  | JavaRuntime string | JavaContext string | JavaBrowser | JavaAdapter string | JavaRuntimeVersion string string
  | JavaLanguage string | JavaLanguageAhead string string
  | NpmRuntime string | PypiRuntime string | MuslPythonVersion string | PythonVersion string | NoEcosystem string
  | LibcMismatch string string string | BrowserDimensions | RuntimeMismatch string string | NoContext string
  | BrowserNeedsNode | NoBrowser string string | NoEngine string | NoEngineVersion string

definition byRef :: "(string, verifierImage) gomap" where
  "byRef = map (\<lambda>(_, img). (ref img, img)) verifierImages"

definition pinned :: "string \<Rightarrow> image_error + string" where
  "pinned alias = (case map_of verifierImages alias of None \<Rightarrow> Inl (NotRegistered alias) | Some img \<Rightarrow> Inr (ref img))"

definition registryEntryFor :: "string \<Rightarrow> verifierImage option" where
  "registryEntryFor r = map_of byRef r"

definition PublishedImage :: "string \<Rightarrow> VerifierImage option" where
  "PublishedImage reference = map_option (\<lambda>img. \<lparr>viReference = ref img, viDigest = imDigest img\<rparr>) (registryEntryFor reference)"

definition PublishedReferences :: "string list" where
  "PublishedReferences = sort (map fst byRef)"

definition imageBase :: "string \<Rightarrow> string \<times> string" where
  "imageBase reference = (case registryEntryFor reference of
     Some img \<Rightarrow> (imBucket img, imLibc img)
   | None \<Rightarrow> if Contains reference ''alpine'' then (''alpine'', ''musl'') else (''debian'', ''glibc''))"

definition verifierImageOf :: "string \<Rightarrow> VerifierImage option" where
  "verifierImageOf r = map_option (\<lambda>img. \<lparr>viReference = ref img, viDigest = imDigest img\<rparr>) (registryEntryFor r)"

section \<open>Selectors\<close>

definition containerOSOrLinux :: "string \<Rightarrow> string" where
  "containerOSOrLinux os = (if os = ''windows'' then ''windows'' else ''linux'')"

text \<open>The answer of the daemon, or \<open>None\<close> when the probe fails.\<close>

definition DetectContainerOS :: "string option \<Rightarrow> string" where
  "DetectContainerOS probe = (case probe of None \<Rightarrow> ''linux'' | Some out \<Rightarrow> containerOSOrLinux (ToLower (TrimSpace out)))"

definition windowsImageFor :: "string \<Rightarrow> string \<Rightarrow> string \<Rightarrow> image_error + string" where
  "windowsImageFor ecosystem runtime runtimeVersion =
     (if ecosystem = ''golang'' then
        (if runtime \<noteq> [] \<and> runtime \<noteq> ''go'' then Inl (WindowsRuntime ecosystem runtime)
         else pinned ''golang:1.26-windowsservercore-ltsc2022'')
      else if ecosystem = ''pypi'' then
        (if runtime \<noteq> [] \<and> runtime \<noteq> ''python'' then Inl (WindowsRuntime ecosystem runtime)
         else if runtimeVersion = [] \<or> runtimeVersion = ''3.12'' then pinned ''python:3.12-windowsservercore-ltsc2022''
         else if runtimeVersion = ''3.14'' then pinned ''python:3.14-windowsservercore-ltsc2022''
         else Inl (WindowsPythonVersion runtimeVersion))
      else Inl (WindowsEcosystem ecosystem))"

definition ok :: "'e + 'a \<Rightarrow> bool" where
  "ok r = (case r of Inl _ \<Rightarrow> False | Inr _ \<Rightarrow> True)"

definition SupportsWindows :: "string \<Rightarrow> bool" where
  "SupportsWindows ecosystem = ok (windowsImageFor ecosystem [] [])"

definition chrome134Image :: "image_error + string" where
  "chrome134Image = pinned ''ghcr.io/puppeteer/puppeteer:24.4.0''"

definition gradleJavaImage :: "image_error + string" where
  "gradleJavaImage = pinned ''gradle:8.14.3-jdk21-alpine''"

definition python314Image :: "image_error + string" where
  "python314Image = pinned ''python:3.14-slim''"

record javaVerifierImage =
  jvImage :: string
  jvRuntimeVersion :: string
  jvPackageManagerVersion :: string

definition java_line :: "string \<Rightarrow> string \<Rightarrow> string \<Rightarrow> image_error + javaVerifierImage" where
  "java_line alias runtimeVersion packageManagerVersion =
     map_sum id (\<lambda>r. \<lparr>jvImage = r, jvRuntimeVersion = runtimeVersion, jvPackageManagerVersion = packageManagerVersion\<rparr>) (pinned alias)"

definition mavenJavaImages :: "(string, image_error + javaVerifierImage) gomap" where
  "mavenJavaImages = [
     ([], java_line ''maven:3.9.11-eclipse-temurin-21-alpine'' ''21'' ''3.9''),
     (''8'', java_line ''maven:3.9.11-amazoncorretto-8-al2023'' ''8'' ''3.9.11''),
     (''11'', java_line ''maven:3.9.11-amazoncorretto-11-al2023'' ''11'' ''3.9.11''),
     (''17'', java_line ''maven:3.9.11-amazoncorretto-17-al2023'' ''17'' ''3.9.11''),
     (''21'', java_line ''maven:3.9.11-amazoncorretto-21-al2023'' ''21'' ''3.9.11''),
     (''25'', java_line ''maven:3.9.11-amazoncorretto-25-al2023'' ''25'' ''3.9.11'')]"

definition gradleJavaImages :: "(string, image_error + javaVerifierImage) gomap" where
  "gradleJavaImages = [
     (''8'', java_line ''gradle:8.14.3-jdk8-corretto-al2023'' ''8'' ''8.14.3''),
     (''11'', java_line ''gradle:8.14.3-jdk11-corretto-al2023'' ''11'' ''8.14.3''),
     (''17'', java_line ''gradle:8.14.3-jdk17-corretto-al2023'' ''17'' ''8.14.3''),
     (''21'', java_line ''gradle:8.14.3-jdk21-corretto-al2023'' ''21'' ''8.14.3''),
     (''25'', java_line ''gradle:9.7.0-jdk25-corretto-al2023'' ''25'' ''9.7.0'')]"

definition javaReleaseNumber :: "string \<Rightarrow> int option" where
  "javaReleaseNumber version = (if version = ''8'' then Some 8 else if version = ''11'' then Some 11 else if version = ''17'' then Some 17
     else if version = ''21'' then Some 21 else if version = ''25'' then Some 25 else None)"

text \<open>\<open>None\<close> for a manifest of another ecosystem.\<close>

definition javaImageForManifest :: "SampleManifest \<Rightarrow> (image_error + javaVerifierImage) option" where
  "javaImageForManifest m =
     (let env = Normalize (smEnvironment m)
      in if eEcosystem env \<noteq> ''maven'' then None
         else Some (
           if eRuntime env \<noteq> [] \<and> eRuntime env \<noteq> ''java'' then Inl (JavaRuntime (eRuntime env))
           else if eExecutionContext env \<noteq> [] \<and> eExecutionContext env \<noteq> ''java'' then Inl (JavaContext (eExecutionContext env))
           else if eBrowserFamily env \<noteq> [] \<or> eBrowserMajor env \<noteq> [] \<or> eEngine env \<noteq> [] \<or> eEngineVersion env \<noteq> [] then Inl JavaBrowser
           else if smVerifierAdapter m \<notin> {''maven-java@1'', [], ''gradle-java@1''} then Inl (JavaAdapter (smVerifierAdapter m))
           else
             let images = (if smVerifierAdapter m = ''gradle-java@1'' then gradleJavaImages else mavenJavaImages);
                 version = (if eRuntimeVersion env = [] \<and> eLibc env = ''glibc'' then ''21'' else eRuntimeVersion env)
             in case map_of images version of
                  None \<Rightarrow> Inl (JavaRuntimeVersion (smVerifierAdapter m) (eRuntimeVersion env))
                | Some (Inl e) \<Rightarrow> Inl e
                | Some (Inr spec) \<Rightarrow>
                    if eLanguageVersion env = [] then Inr spec
                    else case javaReleaseNumber (eLanguageVersion env) of
                      None \<Rightarrow> Inl (JavaLanguage (eLanguageVersion env))
                    | Some language \<Rightarrow>
                        if (case javaReleaseNumber (jvRuntimeVersion spec) of None \<Rightarrow> 0 | Some n \<Rightarrow> n) < language
                        then Inl (JavaLanguageAhead (eLanguageVersion env) (jvRuntimeVersion spec))
                        else Inr spec))"

definition maven_manifest :: "string \<Rightarrow> string \<Rightarrow> SampleManifest" where
  "maven_manifest runtime runtimeVersion = zero_manifest\<lparr>smEnvironment := zero_env\<lparr>eSchemaVersion := 1, eEcosystem := ''maven'',
     eRuntime := runtime, eRuntimeVersion := runtimeVersion\<rparr>, smVerifierAdapter := ''maven-java@1''\<rparr>"

definition imageForRuntimeVersion :: "string \<Rightarrow> string \<Rightarrow> string \<Rightarrow> string \<Rightarrow> image_error + string" where
  "imageForRuntimeVersion ecosystem runtime runtimeVersion libc =
     (if ecosystem = ''npm'' then
        (if runtime = [] \<or> runtime = ''node'' then (if libc = ''glibc'' then pinned ''node:22'' else pinned ''node:22-alpine'')
         else if runtime = ''bun'' then pinned ''oven/bun:1-alpine''
         else if runtime = ''deno'' then pinned ''denoland/deno:alpine''
         else Inl (NpmRuntime runtime))
      else if ecosystem = ''pypi'' then
        (if runtime \<noteq> [] \<and> runtime \<noteq> ''python'' then Inl (PypiRuntime runtime)
         else if libc = ''musl'' then
           (if runtimeVersion = [] \<or> runtimeVersion = ''3.12'' then pinned ''python:3.12-alpine''
            else if runtimeVersion = ''3.14'' then pinned ''python:3.14-alpine''
            else Inl (MuslPythonVersion runtimeVersion))
         else if runtimeVersion = [] \<or> runtimeVersion = ''3.12'' then pinned ''python:3.12-slim''
         else if runtimeVersion = ''3.14'' then python314Image
         else Inl (PythonVersion runtimeVersion))
      else if ecosystem = ''golang'' then (if libc = ''glibc'' then pinned ''golang:1.26'' else pinned ''golang:1.26-alpine'')
      else if ecosystem = ''cargo'' then pinned ''rust:1-alpine''
      else if ecosystem = ''composer'' then pinned ''composer:2''
      else if ecosystem = ''gem'' then pinned ''ruby:3''
      else if ecosystem = ''pub'' then pinned ''dart:3.13.0''
      else if ecosystem = ''hex'' then pinned ''elixir:1.20.1-alpine''
      else if ecosystem = ''maven'' then
        (case javaImageForManifest (maven_manifest runtime runtimeVersion) of
           None \<Rightarrow> Inr []
         | Some spec \<Rightarrow> map_sum id jvImage spec)
      else Inl (NoEcosystem ecosystem))"

definition imageFor :: "string \<Rightarrow> string \<Rightarrow> image_error + string" where
  "imageFor ecosystem runtime = imageForRuntimeVersion ecosystem runtime [] []"

definition ContainerSupports :: "string \<Rightarrow> string \<Rightarrow> bool" where
  "ContainerSupports ecosystem runtime = ok (imageFor ecosystem runtime)"

definition imageRuntimeForVersion :: "string \<Rightarrow> string \<Rightarrow> string \<Rightarrow> string \<times> string \<times> string" where
  "imageRuntimeForVersion ecosystem runtime runtimeVersion =
     (if ecosystem = ''npm'' then
        (if runtime = ''bun'' then (''bun'', ''1'', ''javascript'')
         else if runtime = ''deno'' then (''deno'', ''2'', ''javascript'')
         else (''node'', ''22'', ''javascript''))
      else if ecosystem = ''pypi'' then
        (if runtimeVersion = ''3.14'' then (''python'', ''3.14'', ''python'') else (''python'', ''3.12'', ''python''))
      else if ecosystem = ''golang'' then (''go'', ''1.26'', ''go'')
      else if ecosystem = ''cargo'' then (''rust'', ''1'', ''rust'')
      else if ecosystem = ''composer'' then (''php'', ''8'', ''php'')
      else if ecosystem = ''gem'' then (''ruby'', ''3'', ''ruby'')
      else if ecosystem = ''pub'' then (''dart'', ''3'', ''dart'')
      else if ecosystem = ''hex'' then (''elixir'', ''1'', ''elixir'')
      else if ecosystem = ''maven'' then
        (if runtimeVersion = [] then (''java'', ''21'', ''java'') else (''java'', runtimeVersion, ''java''))
      else ([], [], []))"

definition imageRuntime :: "string \<Rightarrow> string \<Rightarrow> string \<times> string \<times> string" where
  "imageRuntime ecosystem runtime = imageRuntimeForVersion ecosystem runtime []"

definition runtimeVersionMatches :: "string \<Rightarrow> string \<Rightarrow> bool" where
  "runtimeVersionMatches provided requested \<longleftrightarrow> requested = provided \<or> HasPrefix requested (provided @ ''.'')"

definition runtimeOf :: "SampleManifest \<Rightarrow> EnvironmentFingerprint \<Rightarrow> string" where
  "runtimeOf m host = (if eRuntime (smEnvironment m) \<noteq> [] then eRuntime (smEnvironment m) else [])"

definition refuseLibcMismatch :: "string \<Rightarrow> string \<Rightarrow> image_error option" where
  "refuseLibcMismatch image_ref declared =
     (if declared = [] then None
      else case registryEntryFor image_ref of
        None \<Rightarrow> None
      | Some entry \<Rightarrow> if imLibc entry = [] \<or> EqualFold (imLibc entry) declared then None
                      else Some (LibcMismatch (imAlias entry) (imLibc entry) declared))"

definition guard_libc :: "string \<Rightarrow> image_error + string \<Rightarrow> image_error + string" where
  "guard_libc declared r = (case r of Inl e \<Rightarrow> Inl e
     | Inr img \<Rightarrow> (case refuseLibcMismatch img declared of Some e \<Rightarrow> Inl e | None \<Rightarrow> Inr img))"

definition imageForManifestLinux :: "SampleManifest \<Rightarrow> image_error + string" where
  "imageForManifestLinux m =
     (let env = Normalize (smEnvironment m)
      in case javaImageForManifest m of
        Some spec \<Rightarrow> guard_libc (eLibc env) (map_sum id jvImage spec)
      | None \<Rightarrow>
          if eExecutionContext env \<noteq> ''browser'' then
            (if eBrowserFamily env \<noteq> [] \<or> eBrowserMajor env \<noteq> [] \<or> eEngine env \<noteq> [] \<or> eEngineVersion env \<noteq> [] then Inl BrowserDimensions
             else case guard_libc (eLibc env) (imageForRuntimeVersion (eEcosystem env) (eRuntime env) (eRuntimeVersion env) (eLibc env)) of
               Inl e \<Rightarrow> Inl e
             | Inr img \<Rightarrow>
                 let (rt, providedVersion, _) = imageRuntimeForVersion (eEcosystem env) (eRuntime env) (eRuntimeVersion env)
                 in if eRuntimeVersion env \<noteq> [] \<and> eEcosystem env \<noteq> ''pypi'' \<and> \<not> runtimeVersionMatches providedVersion (eRuntimeVersion env)
                    then Inl (RuntimeMismatch providedVersion (eRuntimeVersion env))
                    else if eExecutionContext env \<noteq> [] \<and> eExecutionContext env \<noteq> rt then Inl (NoContext (eExecutionContext env))
                    else Inr img)
          else if eEcosystem env \<noteq> ''npm'' \<or> (eRuntime env \<noteq> [] \<and> eRuntime env \<noteq> ''node'') then Inl BrowserNeedsNode
          else if eBrowserFamily env \<noteq> ''chrome'' \<or> eBrowserMajor env \<noteq> ''134'' then Inl (NoBrowser (eBrowserFamily env) (eBrowserMajor env))
          else if eEngine env \<noteq> [] \<and> eEngine env \<noteq> ''chromium'' then Inl (NoEngine (eEngine env))
          else if eEngineVersion env \<noteq> [] \<and> eEngineVersion env \<noteq> ''134'' then Inl (NoEngineVersion (eEngineVersion env))
          else chrome134Image)"

definition imageForManifestOn :: "string \<Rightarrow> SampleManifest \<Rightarrow> image_error + string" where
  "imageForManifestOn containerOS m =
     (if containerOSOrLinux containerOS = ''windows'' then
        (let env = Normalize (smEnvironment m)
         in if eExecutionContext env = ''browser'' \<or> eBrowserFamily env \<noteq> [] then Inl WindowsBrowser
            else if javaImageForManifest m \<noteq> None then Inl WindowsJava
            else windowsImageFor (eEcosystem env) (runtimeOf m zero_env) (eRuntimeVersion env))
      else imageForManifestLinux m)"

definition imageForManifest :: "SampleManifest \<Rightarrow> image_error + string" where
  "imageForManifest m = imageForManifestOn ''linux'' m"

definition requirements_manifest :: "WorkerRequirements \<Rightarrow> SampleManifest" where
  "requirements_manifest w = zero_manifest\<lparr>smEnvironment := zero_env\<lparr>eSchemaVersion := 1, eEcosystem := wrEcosystem w, eRuntime := wrRuntime w,
     eRuntimeVersion := wrRuntimeVersion w, eExecutionContext := wrExecutionContext w, eBrowserFamily := wrBrowserFamily w,
     eBrowserMajor := wrBrowserMajor w, eEngine := wrEngine w, eEngineVersion := wrEngineVersion w\<rparr>, smVerifierAdapter := wrVerifierAdapter w\<rparr>"

definition ContainerSupportsRequirementsOn :: "string \<Rightarrow> WorkerRequirements \<Rightarrow> bool" where
  "ContainerSupportsRequirementsOn containerOS w =
     (if wrOS w \<noteq> [] \<and> \<not> EqualFold (wrOS w) (containerOSOrLinux containerOS) then False
      else if wrEcosystem w = [] then
        (if containerOSOrLinux containerOS = ''windows'' then False
         else wrRuntime w = [] \<and> wrRuntimeVersion w = [] \<and> wrExecutionContext w = [] \<and> wrBrowserFamily w = [] \<and>
              wrBrowserMajor w = [] \<and> wrEngine w = [] \<and> wrEngineVersion w = [])
      else ok (imageForManifestOn containerOS (requirements_manifest w)))"

definition ContainerSupportsRequirements :: "WorkerRequirements \<Rightarrow> bool" where
  "ContainerSupportsRequirements w = ContainerSupportsRequirementsOn ''linux'' w"

section \<open>What a run states\<close>

definition NPMResolver :: "string \<Rightarrow> string" where
  "NPMResolver runtime = (if ToLower (TrimSpace runtime) = ''bun'' then ''bun''
     else if ToLower (TrimSpace runtime) = ''deno'' then ''deno'' else ''npm'')"

definition image_or_empty :: "image_error + string \<Rightarrow> string" where
  "image_or_empty r = (case r of Inl _ \<Rightarrow> [] | Inr img \<Rightarrow> img)"

text \<open>\<open>StageEnvironment\<close>: the container, what the Java registry entry, the browser image and the Maven lane add.\<close>

definition container_env ::
  "string \<Rightarrow> EnvironmentFingerprint \<Rightarrow> SampleManifest \<Rightarrow> string \<Rightarrow> string \<Rightarrow> string \<times> string \<times> string \<Rightarrow> EnvironmentFingerprint" where
  "container_env osName host m eco img provided =
     (let (rt, ver, lang) = provided;
          (bucket, libc) = (if osName = ''windows'' then (''windowsservercore'', []) else imageBase img);
          arch = (if eArch (Normalize host) = [] then ''x64'' else eArch (Normalize host));
          packageManager = (if eco = ''npm'' then NPMResolver (runtimeOf m host)
            else if smVerifierAdapter m = ''gradle-java@1'' then ''gradle''
            else if eco = ''maven'' then ''maven'' else ePackageManager (smEnvironment m))
      in zero_env\<lparr>eSchemaVersion := 1, eEcosystem := eco, eOS := osName, eOSVersionBucket := bucket, eArch := arch, eRuntime := rt,
           eRuntimeVersion := ver, eLanguage := lang, eExecutionContext := rt, eModuleSystem := eModuleSystem (smEnvironment m),
           ePackageManager := packageManager, eVirtualization := ''container'', eContainerRuntime := ''docker'', eLibc := libc, eCI := eCI host\<rparr>)"

definition java_spec :: "SampleManifest \<Rightarrow> javaVerifierImage option" where
  "java_spec m = (case javaImageForManifest m of Some (Inr spec) \<Rightarrow> Some spec | _ \<Rightarrow> None)"

definition state_java :: "SampleManifest \<Rightarrow> EnvironmentFingerprint \<Rightarrow> EnvironmentFingerprint" where
  "state_java m env = (case java_spec m of None \<Rightarrow> env | Some spec \<Rightarrow> (case registryEntryFor (jvImage spec) of None \<Rightarrow> env
     | Some entry \<Rightarrow> env\<lparr>eOSVersionBucket := imBucket entry, eDistro := imDistro entry, eLibc := imLibc entry\<rparr>))"

definition state_browser :: "string \<Rightarrow> EnvironmentFingerprint \<Rightarrow> EnvironmentFingerprint" where
  "state_browser img env = (if chrome134Image = Inr img then env\<lparr>eExecutionContext := ''browser'', eBrowserFamily := ''chrome'', eBrowserMajor := ''134'',
     eEngine := ''chromium'', eEngineVersion := ''134''\<rparr> else env)"

definition state_maven :: "SampleManifest \<Rightarrow> string \<Rightarrow> string \<Rightarrow> EnvironmentFingerprint \<Rightarrow> EnvironmentFingerprint" where
  "state_maven m eco ver env =
     (if eco = ''maven'' then
        (let language = eLanguageVersion (smEnvironment m);
             env' = env\<lparr>eLanguageVersion := (if language = [] then ver else language), eCompiler := ''javac'', eCompilerVersion := ver\<rparr>
         in case java_spec m of None \<Rightarrow> env' | Some spec \<Rightarrow> env'\<lparr>ePackageManagerVersion := jvPackageManagerVersion spec\<rparr>)
      else env)"

definition StageEnvironment :: "string \<Rightarrow> EnvironmentFingerprint \<Rightarrow> SampleManifest \<Rightarrow> EnvironmentFingerprint" where
  "StageEnvironment containerOS host m =
     (let me = smEnvironment m;
          eco = (if eEcosystem me = [] then eEcosystem host else eEcosystem me);
          img = image_or_empty (imageForManifestOn (containerOSOrLinux containerOS) m);
          provided = imageRuntimeForVersion eco (runtimeOf m host) (eRuntimeVersion me)
      in Normalize (state_maven m eco (fst (snd provided)) (state_browser img (state_java m
           (container_env (containerOSOrLinux containerOS) host m eco img provided)))))"

definition VerifierImage_of :: "string \<Rightarrow> SampleManifest \<Rightarrow> VerifierImage option" where
  "VerifierImage_of containerOS m = (case imageForManifestOn (containerOSOrLinux containerOS) m of Inl _ \<Rightarrow> None | Inr img \<Rightarrow> verifierImageOf img)"

section \<open>The registry is consistent\<close>

definition the_ref :: "string \<Rightarrow> string" where
  "the_ref alias = (case map_of verifierImages alias of None \<Rightarrow> [] | Some e \<Rightarrow> ref e)"

definition linux_aliases :: "string list" where
  "linux_aliases = map fst (filter (\<lambda>(_, e). imLibc e \<noteq> []) verifierImages)"

definition windows_aliases :: "string list" where
  "windows_aliases = map fst (filter (\<lambda>(_, e). imLibc e = []) verifierImages)"

lemma registry_keys:
  "map fst verifierImages = [''node:22-alpine'', ''node:22'', ''oven/bun:1-alpine'', ''denoland/deno:alpine'', ''python:3.12-slim'', ''python:3.14-slim'',
     ''python:3.12-alpine'', ''python:3.14-alpine'', ''golang:1.26-alpine'', ''golang:1.26'', ''rust:1-alpine'', ''composer:2'', ''ruby:3'',
     ''dart:3.13.0'', ''elixir:1.20.1-alpine'', ''ghcr.io/puppeteer/puppeteer:24.4.0'', ''maven:3.9.11-eclipse-temurin-21-alpine'',
     ''gradle:8.14.3-jdk21-alpine'', ''maven:3.9.11-amazoncorretto-8-al2023'', ''maven:3.9.11-amazoncorretto-11-al2023'',
     ''maven:3.9.11-amazoncorretto-17-al2023'', ''maven:3.9.11-amazoncorretto-21-al2023'', ''maven:3.9.11-amazoncorretto-25-al2023'',
     ''gradle:8.14.3-jdk8-corretto-al2023'', ''gradle:8.14.3-jdk11-corretto-al2023'', ''gradle:8.14.3-jdk17-corretto-al2023'',
     ''gradle:8.14.3-jdk21-corretto-al2023'', ''gradle:9.7.0-jdk25-corretto-al2023'', ''golang:1.26-windowsservercore-ltsc2022'',
     ''python:3.12-windowsservercore-ltsc2022'', ''python:3.14-windowsservercore-ltsc2022'']"
  by (simp only: verifierImages_def image_entry_def list.map fst_conv)

lemma pinned_known: "list_all (\<lambda>a. pinned a = Inr (the_ref a)) (map fst verifierImages)"
proof -
  have "pinned a = Inr (the_ref a)" if "a \<in> fst ` set verifierImages" for a
    using that map_of_eq_None_iff [of verifierImages a] by (auto simp: pinned_def the_ref_def split: option.split)
  then show ?thesis by (simp add: list_all_iff)
qed

lemmas pinned_aliases [simp] = pinned_known [unfolded registry_keys list.pred_inject]

lemma registry_distinct: "distinct (map fst verifierImages)" "distinct (map fst byRef)"
  by code_simp+

lemma registry_consistent:
  "list_all (\<lambda>(_, e). pinnedImageReference (ref e) = Some (imDigest e) \<and> (imLibc e = [] \<longrightarrow> imBucket e = ''windowsservercore'') \<and>
     clearPlaceholder (imLibc e) = imLibc e \<and> clearPlaceholder (imBucket e) = imBucket e) verifierImages"
  by code_simp

lemma registry_lookup:
  assumes "(a, e) \<in> set verifierImages"
  shows "the_ref a = ref e" "registryEntryFor (ref e) = Some e"
proof -
  show "the_ref a = ref e" using map_of_is_SomeI [OF registry_distinct(1) assms] by (simp add: the_ref_def)
  have "(ref e, e) \<in> set byRef" using assms by (force simp: byRef_def)
  then show "registryEntryFor (ref e) = Some e" using map_of_is_SomeI [OF registry_distinct(2)] by (simp add: registryEntryFor_def)
qed

lemma aliases_listed:
  "linux_aliases = [''node:22-alpine'', ''node:22'', ''oven/bun:1-alpine'', ''denoland/deno:alpine'', ''python:3.12-slim'', ''python:3.14-slim'',
     ''python:3.12-alpine'', ''python:3.14-alpine'', ''golang:1.26-alpine'', ''golang:1.26'', ''rust:1-alpine'', ''composer:2'', ''ruby:3'',
     ''dart:3.13.0'', ''elixir:1.20.1-alpine'', ''ghcr.io/puppeteer/puppeteer:24.4.0'', ''maven:3.9.11-eclipse-temurin-21-alpine'',
     ''gradle:8.14.3-jdk21-alpine'', ''maven:3.9.11-amazoncorretto-8-al2023'', ''maven:3.9.11-amazoncorretto-11-al2023'',
     ''maven:3.9.11-amazoncorretto-17-al2023'', ''maven:3.9.11-amazoncorretto-21-al2023'', ''maven:3.9.11-amazoncorretto-25-al2023'',
     ''gradle:8.14.3-jdk8-corretto-al2023'', ''gradle:8.14.3-jdk11-corretto-al2023'', ''gradle:8.14.3-jdk17-corretto-al2023'',
     ''gradle:8.14.3-jdk21-corretto-al2023'', ''gradle:9.7.0-jdk25-corretto-al2023'']"
  "windows_aliases = [''golang:1.26-windowsservercore-ltsc2022'', ''python:3.12-windowsservercore-ltsc2022'', ''python:3.14-windowsservercore-ltsc2022'']"
  by code_simp+

lemma linux_entry:
  assumes "alias \<in> set linux_aliases"
  obtains e where "the_ref alias = ref e" "registryEntryFor (ref e) = Some e" "pinnedImageReference (ref e) = Some (imDigest e)" "imLibc e \<noteq> []"
    "clearPlaceholder (imLibc e) = imLibc e" "clearPlaceholder (imBucket e) = imBucket e"
proof -
  obtain e where e: "(alias, e) \<in> set verifierImages" "imLibc e \<noteq> []" using assms by (auto simp: linux_aliases_def)
  then show ?thesis using that [of e] registry_consistent registry_lookup [OF e(1)] unfolding list_all_iff by fastforce
qed

lemma windows_entry:
  assumes "alias \<in> set windows_aliases"
  obtains e where "the_ref alias = ref e" "registryEntryFor (ref e) = Some e" "pinnedImageReference (ref e) = Some (imDigest e)" "imLibc e = []"
    "imBucket e = ''windowsservercore''"
proof -
  obtain e where e: "(alias, e) \<in> set verifierImages" "imLibc e = []" using assms by (auto simp: windows_aliases_def)
  then show ?thesis using that [of e] registry_consistent registry_lookup [OF e(1)] unfolding list_all_iff by fastforce
qed

section \<open>Selection\<close>

lemma alias_lists:
  "set (map fst verifierImages) = set linux_aliases \<union> set windows_aliases"
  unfolding registry_keys aliases_listed by auto

lemma windows_selects: "windowsImageFor eco rt v = Inr img \<Longrightarrow> \<exists>a \<in> set windows_aliases. img = the_ref a"
  by (auto simp: windowsImageFor_def aliases_listed split: if_splits)

lemma windows_registered: "windowsImageFor eco rt v \<noteq> Inl (NotRegistered a)"
  by (auto simp: windowsImageFor_def split: if_splits)

lemma java_lines_registered:
  "map_of mavenJavaImages v = Some r \<Longrightarrow> \<exists>spec. r = Inr spec \<and> (\<exists>a \<in> set linux_aliases. jvImage spec = the_ref a) \<and>
     jvRuntimeVersion spec = (if v = [] then ''21'' else v) \<and> v \<in> {[], ''8'', ''11'', ''17'', ''21'', ''25''}"
  "map_of gradleJavaImages v = Some r \<Longrightarrow> \<exists>spec. r = Inr spec \<and> (\<exists>a \<in> set linux_aliases. jvImage spec = the_ref a) \<and>
     jvRuntimeVersion spec = v \<and> v \<in> {''8'', ''11'', ''17'', ''21'', ''25''}"
  by (auto simp: mavenJavaImages_def gradleJavaImages_def java_line_def aliases_listed split: if_splits)

lemma java_selected:
  assumes "javaImageForManifest m = Some r"
  shows "r \<noteq> Inl (NotRegistered a)"
    and "r = Inr spec \<Longrightarrow> (\<exists>a \<in> set linux_aliases. jvImage spec = the_ref a)"
proof -
  let ?images = "if smVerifierAdapter m = ''gradle-java@1'' then gradleJavaImages else mavenJavaImages"
  have known: "\<exists>s. r' = Inr s \<and> (\<exists>a \<in> set linux_aliases. jvImage s = the_ref a)" if "map_of ?images v = Some r'" for v r'
    using that java_lines_registered(1) [of v r'] java_lines_registered(2) [of v r'] by (auto split: if_splits)
  have "r \<noteq> Inl (NotRegistered a) \<and> (r = Inr spec \<longrightarrow> (\<exists>a \<in> set linux_aliases. jvImage spec = the_ref a))"
    using assms known unfolding javaImageForManifest_def Let_def
    by (auto split: if_splits option.splits sum.splits)
  then show "r \<noteq> Inl (NotRegistered a)" "r = Inr spec \<Longrightarrow> (\<exists>a \<in> set linux_aliases. jvImage spec = the_ref a)" by blast+
qed

lemma runtime_selected:
  "imageForRuntimeVersion eco rt v libc \<noteq> Inl (NotRegistered a)"
  "imageForRuntimeVersion eco rt v libc = Inr img \<Longrightarrow> \<exists>a \<in> set linux_aliases. img = the_ref a"
proof -
  let ?m = "maven_manifest rt v"
  have "eEcosystem (Normalize (smEnvironment ?m)) = ''maven''"
    by (simp add: maven_manifest_def Normalize_def clear_fields_def derive_context_def derive_engine_def)
  then obtain r where r: "javaImageForManifest ?m = Some r" by (simp add: javaImageForManifest_def Let_def)
  define j where "j = (case javaImageForManifest ?m of None \<Rightarrow> Inr [] | Some spec \<Rightarrow> map_sum id jvImage spec)"
  have java: "j \<noteq> Inl (NotRegistered a)" "j = Inr img \<Longrightarrow> \<exists>a \<in> set linux_aliases. img = the_ref a"
    using java_selected [OF r] r unfolding j_def by (cases r; auto)+
  show "imageForRuntimeVersion eco rt v libc \<noteq> Inl (NotRegistered a)"
    using java(1) unfolding imageForRuntimeVersion_def python314Image_def j_def [symmetric] by simp
  show "imageForRuntimeVersion eco rt v libc = Inr img \<Longrightarrow> \<exists>a \<in> set linux_aliases. img = the_ref a"
    using java(2) unfolding imageForRuntimeVersion_def python314Image_def j_def [symmetric] by (simp add: aliases_listed split: if_splits)
qed

lemma guard_libc_Inr: "guard_libc declared r = Inr img \<longleftrightarrow> r = Inr img \<and> refuseLibcMismatch img declared = None"
  by (auto simp: guard_libc_def split: sum.splits option.splits)

lemma guard_libc_registered: "r \<noteq> Inl (NotRegistered a) \<Longrightarrow> guard_libc declared r \<noteq> Inl (NotRegistered a)"
  by (auto simp: guard_libc_def refuseLibcMismatch_def split: sum.splits option.splits if_splits)

lemma chrome_registered: "\<exists>c \<in> set linux_aliases. chrome134Image = Inr (the_ref c)"
  by (rule bexI [of _ "''ghcr.io/puppeteer/puppeteer:24.4.0''"]) (simp_all add: chrome134Image_def aliases_listed)

lemma linux_selected:
  shows "imageForManifestLinux m \<noteq> Inl (NotRegistered a)"
    and "imageForManifestLinux m = Inr img \<Longrightarrow> (\<exists>a \<in> set linux_aliases. img = the_ref a) \<and>
      (eExecutionContext (Normalize (smEnvironment m)) \<noteq> ''browser'' \<longrightarrow> refuseLibcMismatch img (eLibc (Normalize (smEnvironment m))) = None)"
proof -
  let ?env = "Normalize (smEnvironment m)"
  have "imageForManifestLinux m \<noteq> Inl (NotRegistered a) \<and> (imageForManifestLinux m = Inr img \<longrightarrow>
     (\<exists>a \<in> set linux_aliases. img = the_ref a) \<and> (eExecutionContext ?env \<noteq> ''browser'' \<longrightarrow> refuseLibcMismatch img (eLibc ?env) = None))"
  proof (cases "javaImageForManifest m")
    case (Some r)
    have "map_sum id jvImage r \<noteq> Inl (NotRegistered a)" "map_sum id jvImage r = Inr img \<Longrightarrow> \<exists>a \<in> set linux_aliases. img = the_ref a"
      using java_selected [OF Some] by (cases r; auto)+
    then show ?thesis using Some guard_libc_registered by (simp add: imageForManifestLinux_def Let_def guard_libc_Inr)
  next
    case None
    note sel = runtime_selected [of "eEcosystem ?env" "eRuntime ?env" "eRuntimeVersion ?env" "eLibc ?env"]
    obtain c where chrome: "c \<in> set linux_aliases" "chrome134Image = Inr (the_ref c)" using chrome_registered by blast
    define g where "g = guard_libc (eLibc ?env) (imageForRuntimeVersion (eEcosystem ?env) (eRuntime ?env) (eRuntimeVersion ?env) (eLibc ?env))"
    have g: "g \<noteq> Inl (NotRegistered a)" "g = Inr img \<Longrightarrow> (\<exists>a \<in> set linux_aliases. img = the_ref a) \<and> refuseLibcMismatch img (eLibc ?env) = None"
      using guard_libc_registered [OF sel(1)] sel(2) unfolding g_def guard_libc_Inr by blast+
    obtain rt ver lang where "imageRuntimeForVersion (eEcosystem ?env) (eRuntime ?env) (eRuntimeVersion ?env) = (rt, ver, lang)"
      by (cases "imageRuntimeForVersion (eEcosystem ?env) (eRuntime ?env) (eRuntimeVersion ?env)")
    note rt = this
    show ?thesis
    proof (cases "eExecutionContext ?env = ''browser''")
      case True
      show ?thesis unfolding imageForManifestLinux_def Let_def None chrome(2) using True chrome(1) by (simp, blast)
    next
      case False
      show ?thesis unfolding imageForManifestLinux_def Let_def None g_def [symmetric] rt using False g by (cases g) simp_all
    qed
  qed
  then show "imageForManifestLinux m \<noteq> Inl (NotRegistered a)" "imageForManifestLinux m = Inr img \<Longrightarrow> (\<exists>a \<in> set linux_aliases. img = the_ref a) \<and>
      (eExecutionContext ?env \<noteq> ''browser'' \<longrightarrow> refuseLibcMismatch img (eLibc ?env) = None)" by blast+
qed

lemma containerOSOrLinux_idem [simp]: "containerOSOrLinux (containerOSOrLinux os) = containerOSOrLinux os"
  by (simp add: containerOSOrLinux_def)

lemma imageForManifestOn_os [simp]: "imageForManifestOn (containerOSOrLinux os) m = imageForManifestOn os m"
  by (simp add: imageForManifestOn_def)

lemma selected_entry:
  assumes "imageForManifestOn os m = Inr img"
  obtains e where "registryEntryFor img = Some e" "img = ref e" "pinnedImageReference img = Some (imDigest e)"
    "clearPlaceholder (imLibc e) = imLibc e" "clearPlaceholder (imBucket e) = imBucket e"
    "imLibc e = [] \<longleftrightarrow> containerOSOrLinux os = ''windows''" "containerOSOrLinux os = ''windows'' \<longrightarrow> imBucket e = ''windowsservercore''"
proof (cases "containerOSOrLinux os = ''windows''")
  case True
  then have "\<exists>rt v. windowsImageFor (eEcosystem (Normalize (smEnvironment m))) rt v = Inr img"
    using assms by (auto simp: imageForManifestOn_def Let_def split: if_splits)
  then obtain a where a: "a \<in> set windows_aliases" "img = the_ref a" using windows_selects by blast
  obtain e where e: "the_ref a = ref e" "registryEntryFor (ref e) = Some e" "pinnedImageReference (ref e) = Some (imDigest e)" "imLibc e = []"
    "imBucket e = ''windowsservercore''" by (rule windows_entry [OF a(1)])
  have "clearPlaceholder ''windowsservercore'' = ''windowsservercore''" by code_simp
  then show ?thesis using that [of e] e a(2) True by simp
next
  case False
  then have "imageForManifestLinux m = Inr img" using assms by (simp add: imageForManifestOn_def)
  then obtain a where a: "a \<in> set linux_aliases" "img = the_ref a" using linux_selected(2) by blast
  obtain e where "the_ref a = ref e" "registryEntryFor (ref e) = Some e" "pinnedImageReference (ref e) = Some (imDigest e)" "imLibc e \<noteq> []"
    "clearPlaceholder (imLibc e) = imLibc e" "clearPlaceholder (imBucket e) = imBucket e" by (rule linux_entry [OF a(1)])
  then show ?thesis using that [of e] a(2) False by simp
qed

lemma selection_never_panics: "imageForManifestOn os m \<noteq> Inl (NotRegistered a)"
  using windows_registered linux_selected(1) by (auto simp: imageForManifestOn_def Let_def)


section \<open>The stated environment\<close>

lemma Normalize_fields:
  "eEcosystem (Normalize e) = eEcosystem e" "eFrameworks (Normalize e) = eFrameworks e"
  "eOS (Normalize e) = clearPlaceholder (eOS e)" "eVirtualization (Normalize e) = clearPlaceholder (eVirtualization e)"
  "eRuntime (Normalize e) = clearPlaceholder (eRuntime e)" "eRuntimeVersion (Normalize e) = clearPlaceholder (eRuntimeVersion e)"
  "eLanguage (Normalize e) = clearPlaceholder (eLanguage e)" "eLanguageVersion (Normalize e) = clearPlaceholder (eLanguageVersion e)"
  "eLibc (Normalize e) = clearPlaceholder (eLibc e)" "eOSVersionBucket (Normalize e) = clearPlaceholder (eOSVersionBucket e)"
  "eBrowserFamily (Normalize e) = clearPlaceholder (eBrowserFamily e)" "eBrowserMajor (Normalize e) = clearPlaceholder (eBrowserMajor e)"
  "eEngineVersion (Normalize e) = clearPlaceholder (eEngineVersion e)"
  "eExecutionContext (Normalize e) = (if clearPlaceholder (eExecutionContext e) = [] \<and> clearPlaceholder (eRuntime e) \<in> {''node'', ''bun'', ''deno''}
     then clearPlaceholder (eRuntime e) else clearPlaceholder (eExecutionContext e))"
  "eEngine (Normalize e) = (if clearPlaceholder (eEngine e) = [] then engine_of_family (clearPlaceholder (eBrowserFamily e)) else clearPlaceholder (eEngine e))"
  by (auto simp: Normalize_def clear_fields_def derive_context_def derive_engine_def)

lemma runtimes_clear:
  assumes "imageRuntimeForVersion eco rt0 v = (rt, ver, lang)"
  shows "clearPlaceholder rt = rt"
proof -
  have "list_all (\<lambda>w. clearPlaceholder w = w) [[], ''bun'', ''deno'', ''node'', ''python'', ''go'', ''rust'', ''php'', ''ruby'', ''dart'', ''elixir'', ''java'']"
    by code_simp
  then show ?thesis using assms by (auto simp: imageRuntimeForVersion_def split: if_splits)
qed

lemma literals_clear:
  "clearPlaceholder ''container'' = ''container''" "clearPlaceholder ''linux'' = ''linux''" "clearPlaceholder ''windows'' = ''windows''"
  "clearPlaceholder ''browser'' = ''browser''" "clearPlaceholder ''chrome'' = ''chrome''" "clearPlaceholder ''134'' = ''134''"
  "clearPlaceholder ''chromium'' = ''chromium''" "clearPlaceholder ''windowsservercore'' = ''windowsservercore''"
  by code_simp+

lemma os_clear: "clearPlaceholder (containerOSOrLinux os) = containerOSOrLinux os"
  by (simp add: containerOSOrLinux_def literals_clear)

lemma runtimeOf_eq: "runtimeOf m host = eRuntime (smEnvironment m)"
  by (simp add: runtimeOf_def)

lemma container_env_fields:
  "eEcosystem (container_env os host m eco img (rt, ver, lang)) = eco" "eOS (container_env os host m eco img (rt, ver, lang)) = os"
  "eVirtualization (container_env os host m eco img (rt, ver, lang)) = ''container''"
  "eRuntime (container_env os host m eco img (rt, ver, lang)) = rt" "eRuntimeVersion (container_env os host m eco img (rt, ver, lang)) = ver"
  "eExecutionContext (container_env os host m eco img (rt, ver, lang)) = rt" "eFrameworks (container_env os host m eco img (rt, ver, lang)) = []"
  "eBrowserFamily (container_env os host m eco img (rt, ver, lang)) = []" "eBrowserMajor (container_env os host m eco img (rt, ver, lang)) = []"
  "eEngine (container_env os host m eco img (rt, ver, lang)) = []" "eEngineVersion (container_env os host m eco img (rt, ver, lang)) = []"
  "eLibc (container_env os host m eco img (rt, ver, lang)) = (if os = ''windows'' then [] else snd (imageBase img))"
  "eOSVersionBucket (container_env os host m eco img (rt, ver, lang)) = (if os = ''windows'' then ''windowsservercore'' else fst (imageBase img))"
  by (simp_all add: container_env_def Let_def zero_env_def split: prod.split)

lemma state_java_fields:
  "eEcosystem (state_java m env) = eEcosystem env" "eOS (state_java m env) = eOS env" "eVirtualization (state_java m env) = eVirtualization env"
  "eRuntime (state_java m env) = eRuntime env" "eRuntimeVersion (state_java m env) = eRuntimeVersion env"
  "eExecutionContext (state_java m env) = eExecutionContext env" "eFrameworks (state_java m env) = eFrameworks env"
  "eBrowserFamily (state_java m env) = eBrowserFamily env" "eBrowserMajor (state_java m env) = eBrowserMajor env"
  "eEngine (state_java m env) = eEngine env" "eEngineVersion (state_java m env) = eEngineVersion env"
  by (simp_all add: state_java_def split: option.split)

lemma state_browser_fields:
  "eEcosystem (state_browser img env) = eEcosystem env" "eOS (state_browser img env) = eOS env"
  "eVirtualization (state_browser img env) = eVirtualization env" "eRuntime (state_browser img env) = eRuntime env"
  "eRuntimeVersion (state_browser img env) = eRuntimeVersion env" "eFrameworks (state_browser img env) = eFrameworks env"
  "eLibc (state_browser img env) = eLibc env" "eOSVersionBucket (state_browser img env) = eOSVersionBucket env"
  by (simp_all add: state_browser_def)

lemma state_maven_fields:
  "eEcosystem (state_maven m eco ver env) = eEcosystem env" "eOS (state_maven m eco ver env) = eOS env"
  "eVirtualization (state_maven m eco ver env) = eVirtualization env" "eRuntime (state_maven m eco ver env) = eRuntime env"
  "eRuntimeVersion (state_maven m eco ver env) = eRuntimeVersion env" "eExecutionContext (state_maven m eco ver env) = eExecutionContext env"
  "eFrameworks (state_maven m eco ver env) = eFrameworks env" "eBrowserFamily (state_maven m eco ver env) = eBrowserFamily env"
  "eBrowserMajor (state_maven m eco ver env) = eBrowserMajor env" "eEngine (state_maven m eco ver env) = eEngine env"
  "eEngineVersion (state_maven m eco ver env) = eEngineVersion env" "eLibc (state_maven m eco ver env) = eLibc env"
  "eOSVersionBucket (state_maven m eco ver env) = eOSVersionBucket env"
  by (simp_all add: state_maven_def Let_def split: option.split)

lemma StageEnvironment_fields:
  fixes os host m
  defines "env \<equiv> StageEnvironment os host m"
    and "eco \<equiv> (if eEcosystem (smEnvironment m) = [] then eEcosystem host else eEcosystem (smEnvironment m))"
  assumes "imageRuntimeForVersion eco (eRuntime (smEnvironment m)) (eRuntimeVersion (smEnvironment m)) = (rt, ver, lang)"
  shows "eEcosystem env = eco" "eOS env = containerOSOrLinux os" "eVirtualization env = ''container''" "eRuntime env = rt"
    "eRuntimeVersion env = clearPlaceholder ver" "eFrameworks env = []"
    "chrome134Image = Inr (image_or_empty (imageForManifestOn os m)) \<Longrightarrow> eExecutionContext env = ''browser'' \<and> eBrowserFamily env = ''chrome'' \<and>
       eBrowserMajor env = ''134'' \<and> eEngine env = ''chromium'' \<and> eEngineVersion env = ''134''"
    "chrome134Image \<noteq> Inr (image_or_empty (imageForManifestOn os m)) \<Longrightarrow> eExecutionContext env = rt \<and> eBrowserFamily env = [] \<and>
       eBrowserMajor env = [] \<and> eEngine env = [] \<and> eEngineVersion env = []"
    "eco = ''maven'' \<Longrightarrow> eLanguageVersion env =
       clearPlaceholder (if eLanguageVersion (smEnvironment m) = [] then ver else eLanguageVersion (smEnvironment m))"
proof -
  note rtc = runtimes_clear [OF assms(3)]
  have env: "env = Normalize (state_maven m eco ver (state_browser (image_or_empty (imageForManifestOn os m)) (state_java m
      (container_env (containerOSOrLinux os) host m eco (image_or_empty (imageForManifestOn os m)) (rt, ver, lang)))))"
    unfolding env_def StageEnvironment_def eco_def [symmetric] runtimeOf_eq assms(3) Let_def by simp
  note fs = env Normalize_fields state_maven_fields state_java_fields container_env_fields os_clear literals_clear rtc
  show "eEcosystem env = eco" "eOS env = containerOSOrLinux os" "eVirtualization env = ''container''" "eRuntime env = rt"
    "eRuntimeVersion env = clearPlaceholder ver" "eFrameworks env = []"
    by (simp_all add: fs state_browser_fields)
  show "chrome134Image = Inr (image_or_empty (imageForManifestOn os m)) \<Longrightarrow> eExecutionContext env = ''browser'' \<and> eBrowserFamily env = ''chrome'' \<and>
       eBrowserMajor env = ''134'' \<and> eEngine env = ''chromium'' \<and> eEngineVersion env = ''134''"
    by (simp add: fs state_browser_def)
  show "chrome134Image \<noteq> Inr (image_or_empty (imageForManifestOn os m)) \<Longrightarrow> eExecutionContext env = rt \<and> eBrowserFamily env = [] \<and>
       eBrowserMajor env = [] \<and> eEngine env = [] \<and> eEngineVersion env = []"
    by (simp add: fs state_browser_def engine_of_family_def)
  show "eco = ''maven'' \<Longrightarrow> eLanguageVersion env =
       clearPlaceholder (if eLanguageVersion (smEnvironment m) = [] then ver else eLanguageVersion (smEnvironment m))"
    by (simp add: env Normalize_fields state_maven_def Let_def split: option.split)
qed

lemma java_image_selected:
  "imageForManifestOn os m = Inr img \<Longrightarrow> javaImageForManifest m = Some (Inr spec) \<Longrightarrow> jvImage spec = img"
  by (auto simp: imageForManifestOn_def imageForManifestLinux_def Let_def guard_libc_Inr split: if_splits)

lemma StageEnvironment_base:
  assumes "imageForManifestOn os m = Inr img" "registryEntryFor img = Some e"
  shows "eLibc (StageEnvironment os host m) = imLibc e" "eOSVersionBucket (StageEnvironment os host m) = imBucket e"
proof -
  obtain e' where "registryEntryFor img = Some e'" "clearPlaceholder (imLibc e') = imLibc e'" "clearPlaceholder (imBucket e') = imBucket e'"
    "imLibc e' = [] \<longleftrightarrow> containerOSOrLinux os = ''windows''" "containerOSOrLinux os = ''windows'' \<longrightarrow> imBucket e' = ''windowsservercore''"
    by (rule selected_entry [OF assms(1)])
  then have e: "clearPlaceholder (imLibc e) = imLibc e" "clearPlaceholder (imBucket e) = imBucket e"
    "imLibc e = [] \<longleftrightarrow> containerOSOrLinux os = ''windows''" "containerOSOrLinux os = ''windows'' \<longrightarrow> imBucket e = ''windowsservercore''"
    using assms(2) by simp_all
  have java: "java_spec m = None \<or> (\<exists>spec. java_spec m = Some spec \<and> jvImage spec = img)"
    using java_image_selected [OF assms(1)] by (auto simp: java_spec_def split: option.split sum.split)
  have shown: "eLibc (StageEnvironment os host m) = clearPlaceholder (eLibc (state_java m (container_env (containerOSOrLinux os) host m eco img (rt, ver, lang)))) \<and>
      eOSVersionBucket (StageEnvironment os host m) = clearPlaceholder (eOSVersionBucket (state_java m (container_env (containerOSOrLinux os) host m eco img (rt, ver, lang))))"
    if "eco = (if eEcosystem (smEnvironment m) = [] then eEcosystem host else eEcosystem (smEnvironment m))"
      "imageRuntimeForVersion eco (runtimeOf m host) (eRuntimeVersion (smEnvironment m)) = (rt, ver, lang)" for eco rt ver lang
    unfolding StageEnvironment_def Let_def that(1) [symmetric] that(2)
    by (simp add: assms(1) image_or_empty_def Normalize_fields state_maven_fields state_browser_fields)
  obtain eco rt ver lang where "eco = (if eEcosystem (smEnvironment m) = [] then eEcosystem host else eEcosystem (smEnvironment m))"
    "imageRuntimeForVersion eco (runtimeOf m host) (eRuntimeVersion (smEnvironment m)) = (rt, ver, lang)" by (metis prod_cases3)
  note shown [OF this]
  then show "eLibc (StageEnvironment os host m) = imLibc e" "eOSVersionBucket (StageEnvironment os host m) = imBucket e"
    using java assms(2) e by (auto simp: state_java_def container_env_fields imageBase_def)
qed

text \<open>C36: the environment a container run states is the one of the image that ran it: its libc and base are those of the registry entry, its
  operating system that of the daemon, and the server's check that a receipt describes where it ran accepts it.\<close>

theorem stated_environment_is_the_image:
  assumes "imageForManifestOn os m = Inr img" and "registryEntryFor img = Some e" and "vrEnvironment r = StageEnvironment os host m"
    and "vrSandboxCapability r = ''CONTAINER_RUN''" and "vrEnvironmentHash r = envHash (vrEnvironment r)"
  shows "eLibc (vrEnvironment r) = imLibc e \<and> eOSVersionBucket (vrEnvironment r) = imBucket e \<and> eOS (vrEnvironment r) = containerOSOrLinux os \<and>
    receiptDescribesWhereItRan envHash r = None"
proof -
  obtain rt ver lang where "imageRuntimeForVersion (if eEcosystem (smEnvironment m) = [] then eEcosystem host else eEcosystem (smEnvironment m))
      (eRuntime (smEnvironment m)) (eRuntimeVersion (smEnvironment m)) = (rt, ver, lang)" by (metis prod_cases3)
  note f = StageEnvironment_fields [OF this, of os]
  have "containerOSOrLinux os = ''linux'' \<or> containerOSOrLinux os = ''windows''" by (simp add: containerOSOrLinux_def)
  then show ?thesis
    using StageEnvironment_base [OF assms(1,2), of host] f(2,3) assms(3-5) by (auto simp: receiptDescribesWhereItRan_def Let_def)
qed

section \<open>Concrete manifests\<close>

definition manifest_in :: "string \<Rightarrow> string \<Rightarrow> string \<Rightarrow> string \<Rightarrow> SampleManifest" where
  "manifest_in eco runtime version libc = zero_manifest\<lparr>smEnvironment := zero_env\<lparr>eSchemaVersion := 1, eEcosystem := eco, eRuntime := runtime,
     eRuntimeVersion := version, eLibc := libc\<rparr>\<rparr>"

lemma glibc_node_image:
  "imageForManifestOn ''linux'' (manifest_in ''npm'' ''node'' ''22.3'' ''glibc'') = Inr (the_ref ''node:22'')"
  "registryEntryFor (the_ref ''node:22'') \<noteq> None"
  by code_simp+


theorem stated_environment_is_the_image_witness:
  "\<exists>r e. registryEntryFor (the_ref ''node:22'') = Some e \<and> vrEnvironment r = StageEnvironment ''linux'' zero_env (manifest_in ''npm'' ''node'' ''22.3'' ''glibc'') \<and>
     eLibc (vrEnvironment r) = imLibc e \<and> receiptDescribesWhereItRan eOS r = None"
proof -
  obtain e where e: "registryEntryFor (the_ref ''node:22'') = Some e"
    using glibc_node_image(2) by blast
  define r where "r = zero_receipt\<lparr>vrEnvironment := StageEnvironment ''linux'' zero_env (manifest_in ''npm'' ''node'' ''22.3'' ''glibc''),
    vrSandboxCapability := ''CONTAINER_RUN'', vrEnvironmentHash := eOS (StageEnvironment ''linux'' zero_env (manifest_in ''npm'' ''node'' ''22.3'' ''glibc''))\<rparr>"
  have r: "vrEnvironment r = StageEnvironment ''linux'' zero_env (manifest_in ''npm'' ''node'' ''22.3'' ''glibc'')"
    "vrSandboxCapability r = ''CONTAINER_RUN''" "vrEnvironmentHash r = eOS (vrEnvironment r)" by (simp_all add: r_def)
  show ?thesis using stated_environment_is_the_image [OF glibc_node_image(1) e r(1,2), of eOS] r(3) e r(1) by blast
qed

text \<open>The browser lane does not look at the libc the manifest declares.\<close>

lemma browser_lane_ignores_libc:
  "imageForManifestOn ''linux'' (zero_manifest\<lparr>smEnvironment := zero_env\<lparr>eEcosystem := ''npm'', eExecutionContext := ''browser'', eBrowserFamily := ''chrome'',
      eBrowserMajor := ''134'', eLibc := ''musl''\<rparr>\<rparr>) = chrome134Image"
  "map_option imLibc (registryEntryFor (image_or_empty chrome134Image)) = Some ''glibc''"
  by code_simp+

text \<open>
  A worker accepts a job by its requirements, which do not name the libc; when no image has the declared libc the run fails before a container
  starts, and its receipt still states the base and libc that the fallback of \<open>imageBase\<close> gives for no image.
\<close>

lemma refused_image_is_still_stated:
  "ContainerSupportsRequirements \<lparr>wrSandboxCapability = ''CONTAINER_RUN'', wrVerifierAdapter = [], wrOS = [], wrEcosystem = ''composer'', wrRuntime = ''php'',
     wrRuntimeVersion = ''8'', wrExecutionContext = [], wrBrowserFamily = [], wrBrowserMajor = [], wrEngine = [], wrEngineVersion = [], wrFrameworks = []\<rparr>"
  "imageForManifestOn ''linux'' (manifest_in ''composer'' ''php'' ''8'' ''glibc'') = Inl (LibcMismatch ''composer:2'' ''musl'' ''glibc'')"
  "VerifierImage_of ''linux'' (manifest_in ''composer'' ''php'' ''8'' ''glibc'') = None"
  "eLibc (StageEnvironment ''linux'' zero_env (manifest_in ''composer'' ''php'' ''8'' ''glibc'')) = ''glibc''"
  by code_simp+

end
