(* ===== verification/CrossWork.thy ===== *)
theory CrossWork
  imports Images
begin

text \<open>
  The cross work of the network: what the server asks of another machine (\<open>src/internal/httpapi/samples.go\<close>), the retries
  and boot passes that keep it on offer, and the worker's choice of a job and of the manifest it runs
  (\<open>src/internal/verifier/crossclient.go\<close>).  The store is the queue of \<open>JobQueue\<close>; a stored requirement or manifest
  decodes, so the branches for a document that does not are absent; a call of the store that fails changes nothing.
\<close>

section \<open>What a cross job asks for\<close>

definition maxCrossAttempts :: int where
  "maxCrossAttempts = 4"

definition maxTimedOutCrossAttempts :: int where
  "maxTimedOutCrossAttempts = 2"

definition crossJobOS :: "EnvironmentFingerprint \<Rightarrow> string" where
  "crossJobOS env = (if \<not> EqualFold (TrimSpace (eVirtualization env)) ''container'' then [] else ToLower (TrimSpace (eOS env)))"

definition candidates :: "WorkerRequirements \<Rightarrow> WorkerRequirements list" where
  "candidates want = [want, want\<lparr>wrRuntimeVersion := []\<rparr>, want\<lparr>wrExecutionContext := []\<rparr>, want\<lparr>wrRuntimeVersion := [], wrExecutionContext := []\<rparr>]"

definition crossRequirementsAFleetCanRun :: "WorkerRequirements \<Rightarrow> WorkerRequirements \<times> bool" where
  "crossRequirementsAFleetCanRun want = (case find ContainerSupportsRequirements (candidates want) of
     Some candidate \<Rightarrow> (candidate, True)
   | None \<Rightarrow> (want, False))"

definition cross_requirements :: "SampleManifest \<Rightarrow> WorkerRequirements" where
  "cross_requirements manifest = (let env = smEnvironment manifest in
     \<lparr>wrSandboxCapability = ''CONTAINER_RUN'', wrVerifierAdapter = smVerifierAdapter manifest, wrOS = crossJobOS env,
      wrEcosystem = eEcosystem env, wrRuntime = eRuntime env, wrRuntimeVersion = RuntimeLine (eRuntime env) (eRuntimeVersion env),
      wrExecutionContext = eExecutionContext env, wrBrowserFamily = eBrowserFamily env, wrBrowserMajor = eBrowserMajor env,
      wrEngine = eEngine env, wrEngineVersion = eEngineVersion env,
      wrFrameworks = filter (\<lambda>f. WantedTargetFromFramework f \<noteq> None) (eFrameworks env)\<rparr>)"

definition crossJobFor :: "string \<Rightarrow> SampleManifest \<Rightarrow> JobRow" where
  "crossJobFor sampleID manifest =
     (let (requirements, runnable) = crossRequirementsAFleetCanRun (cross_requirements manifest)
      in \<lparr>jbID = 0, jbSampleID = sampleID, jbReason = ''cross'', jbWantEnv = Some requirements,
          jbStatus = (if runnable then ''open'' else JobStatusUnsupported), jbClaimedBy = [], jbClaimedAt = None, jbCreatedAt = None\<rparr>)"

section \<open>Queueing on the server\<close>

definition queueCrossVerificationOn :: "int \<Rightarrow> string \<Rightarrow> queue_db \<Rightarrow> queue_error + queue_db" where
  "queueCrossVerificationOn now sampleID db =
     (let row = map_of (qdSamples db) sampleID;
          manifest = (case row of None \<Rightarrow> zero_manifest | Some s \<Rightarrow> saManifest s)
      in if (case row of None \<Rightarrow> False | Some s \<Rightarrow> ToUpper (saStatus s) \<in> {''CROSS_PASS'', ''MATRIX_PASS'', ''STABLE''}) then Inr db
         else if list_ex (\<lambda>j. jbReason j = ''cross'' \<and> jbStatus j \<in> {''open'', ''claimed'', JobStatusUnsupported}) (PG_JobsForSample sampleID db) then Inr db
         else case PG_EnsureCrossJob now (crossJobFor sampleID manifest) db of Inl e \<Rightarrow> Inl e | Inr (db', _) \<Rightarrow> Inr db')"

fun out_of_time :: "int \<Rightarrow> ReceiptRow list \<Rightarrow> bool" where
  "out_of_time timedOut [] = (maxTimedOutCrossAttempts \<le> timedOut)"
| "out_of_time timedOut (row # rows) =
     (let kind = ReceiptTerminationKind (rrReceipt row)
      in if ContractWasJudged (rrContractResult row) kind (ReceiptHasFailureEvidence (rrReceipt row)) then False
         else out_of_time (if kind = ''timeout'' then timedOut + 1 else timedOut) rows)"

definition crossWorkIsOutOfTime :: "ReceiptRow list \<Rightarrow> bool" where
  "crossWorkIsOutOfTime rows = out_of_time 0 rows"

text \<open>The two best-effort writes of the receipt path: an error of the store leaves the tables as they are.\<close>

definition recordCrossWorkOutOfTime :: "int \<Rightarrow> string \<Rightarrow> SampleManifest \<Rightarrow> queue_db \<Rightarrow> queue_db" where
  "recordCrossWorkOutOfTime now sampleID manifest db =
     (case PG_EnsureCrossJob now ((crossJobFor sampleID manifest)\<lparr>jbStatus := JobStatusUnsupported\<rparr>) db of Inl _ \<Rightarrow> db | Inr (db', _) \<Rightarrow> db')"

definition cross_attempts :: "string \<Rightarrow> queue_db \<Rightarrow> int" where
  "cross_attempts sampleID db = int (length (filter (\<lambda>j. jbReason j = ''cross'') (PG_JobsForSample sampleID db)))"

definition requeueCrossVerification :: "int \<Rightarrow> string \<Rightarrow> string \<Rightarrow> queue_db \<Rightarrow> queue_db" where
  "requeueCrossVerification now sampleID outcome db =
     (if \<not> EqualFold (TrimSpace outcome) ''SKIPPED'' then db
      else if maxCrossAttempts \<le> cross_attempts sampleID db then db
      else case queueCrossVerificationOn now sampleID db of Inl _ \<Rightarrow> db | Inr db' \<Rightarrow> db')"

definition wake :: "int \<Rightarrow> queue_db \<times> int \<Rightarrow> string \<Rightarrow> queue_db \<times> int" where
  "wake now acc i = (case queueCrossVerificationOn now i (fst acc) of Inl _ \<Rightarrow> acc | Inr db \<Rightarrow> (db, snd acc + 1))"

definition ReconcileStrandedDrafts :: "int \<Rightarrow> int \<Rightarrow> queue_db \<Rightarrow> queue_db \<times> int" where
  "ReconcileStrandedDrafts now limit db = foldl (wake now) (db, 0) (PG_StrandedDrafts maxCrossAttempts limit db)"

definition crossAttemptsSpent :: "string \<Rightarrow> queue_db \<Rightarrow> bool" where
  "crossAttemptsSpent sampleID db \<longleftrightarrow> maxCrossAttempts \<le> cross_attempts sampleID db"

text \<open>One job of the review; \<open>clock\<close> gives the instant of the statement that updates a job.\<close>

definition review_job :: "(int \<Rightarrow> int) \<Rightarrow> queue_db \<times> int \<times> int \<Rightarrow> JobRow \<Rightarrow> queue_db \<times> int \<times> int" where
  "review_job clock acc job =
     (let (db, repaired, unsupported) = acc
      in case jbWantEnv job of
           None \<Rightarrow> acc
         | Some want \<Rightarrow>
             let (runnable, good) = crossRequirementsAFleetCanRun want;
                 status = (if good then ''open'' else JobStatusUnsupported)
             in if runnable = want \<and> status = jbStatus job then acc
                else if status = ''open'' \<and> jbStatus job = JobStatusUnsupported \<and> crossAttemptsSpent (jbSampleID job) db then acc
                else (PG_SetJobRequirements (clock (jbID job)) (jbID job) (Some runnable) status db,
                      if good then repaired + 1 else repaired, if good then unsupported else unsupported + 1))"

definition ReconcileCrossJobLanes :: "int \<Rightarrow> (int \<Rightarrow> int) \<Rightarrow> int \<Rightarrow> queue_db \<Rightarrow> queue_db \<times> int \<times> int" where
  "ReconcileCrossJobLanes now clock limit db = foldl (review_job clock) (db, 0, 0) (PG_CrossJobsForLaneReview now limit db)"

section \<open>The worker\<close>

record worker =
  wkCap :: string
  wkContainerOS :: string
  wkEnv :: EnvironmentFingerprint

definition canPrepare :: "worker \<Rightarrow> WorkerRequirements option \<Rightarrow> bool" where
  "canPrepare cv raw = (case raw of None \<Rightarrow> True | Some want \<Rightarrow>
     if wrSandboxCapability want \<noteq> [] \<and> wrSandboxCapability want \<noteq> wkCap cv then False
     else if wkCap cv \<noteq> ''CONTAINER_RUN'' \<and> wrOS want \<noteq> [] \<and> \<not> EqualFold (wrOS want) (eOS (wkEnv cv)) then False
     else if wkCap cv = ''CONTAINER_RUN'' \<and> \<not> ContainerSupportsRequirementsOn (wkContainerOS cv) want then False
     else if wkCap cv \<noteq> ''CONTAINER_RUN'' \<and> wrEcosystem want \<noteq> [] \<and> eEcosystem (wkEnv cv) \<noteq> wrEcosystem want then False
     else if wkCap cv \<noteq> ''CONTAINER_RUN'' \<and> wrEcosystem want = [] \<and> wrRuntime want \<noteq> [] \<and> eRuntime (wkEnv cv) \<noteq> wrRuntime want then False
     else list_all (\<lambda>required. list_ex (\<lambda>available. EqualFold (TrimSpace available) (TrimSpace required)) (eFrameworks (wkEnv cv))) (wrFrameworks want))"

definition exactJavaMatrixWant :: "WorkerRequirements \<Rightarrow> bool" where
  "exactJavaMatrixWant want \<longleftrightarrow> wrSandboxCapability want = ''CONTAINER_RUN'' \<and>
     (wrVerifierAdapter want = ''maven-java@1'' \<or> wrVerifierAdapter want = ''gradle-java@1'') \<and>
     wrEcosystem want = ''maven'' \<and> wrRuntime want = ''java'' \<and> wrRuntimeVersion want \<in> {''8'', ''11'', ''17'', ''21'', ''25''} \<and>
     wrExecutionContext want = ''java'' \<and> wrBrowserFamily want = [] \<and> wrBrowserMajor want = [] \<and>
     wrEngine want = [] \<and> wrEngineVersion want = [] \<and> length (wrFrameworks want) = 0"

definition canPrepareJob :: "worker \<Rightarrow> JobRow \<Rightarrow> bool" where
  "canPrepareJob cv job = (if \<not> canPrepare cv (jbWantEnv job) then False
     else if jbReason job \<noteq> ''matrix'' then True
     else case jbWantEnv job of None \<Rightarrow> False | Some want \<Rightarrow> exactJavaMatrixWant want)"

definition unrunnableCoordinate :: "JobRow \<Rightarrow> string option" where
  "unrunnableCoordinate job = (case jbWantEnv job of None \<Rightarrow> None | Some want \<Rightarrow>
     if wrSandboxCapability want \<noteq> [] \<and> wrSandboxCapability want \<noteq> ''CONTAINER_RUN'' then None
     else let parts = filter (\<lambda>f. f \<noteq> []) [wrEcosystem want, wrRuntime want, wrRuntimeVersion want] @
                (if wrExecutionContext want \<noteq> [] \<and> wrExecutionContext want \<noteq> wrRuntime want then [wrExecutionContext want] else []) @
                (if wrBrowserFamily want \<noteq> [] then [wrBrowserFamily want @ '' '' @ wrBrowserMajor want] else [])
          in if parts = [] then None else Some (Join parts '' ''))"

text \<open>The scan of the offered jobs up to the first that can be prepared, with the coordinates of those passed over.\<close>

fun scan_jobs :: "worker \<Rightarrow> JobRow list \<Rightarrow> JobRow option \<times> string list" where
  "scan_jobs cv [] = (None, [])"
| "scan_jobs cv (job # jobs) =
     (if jbReason job \<noteq> ''cross'' \<and> jbReason job \<noteq> ''matrix'' then scan_jobs cv jobs
      else if \<not> canPrepareJob cv job then
        (case scan_jobs cv jobs of (found, noLane) \<Rightarrow> (found, (case unrunnableCoordinate job of None \<Rightarrow> noLane | Some c \<Rightarrow> c # noLane)))
      else (Some job, []))"

definition matrixExecutionManifest :: "SampleManifest \<Rightarrow> WorkerRequirements option \<Rightarrow> string + SampleManifest" where
  "matrixExecutionManifest m raw = (case raw of
     None \<Rightarrow> Inl ''requirements''
   | Some want \<Rightarrow>
       if \<not> exactJavaMatrixWant want then Inl ''requirements''
       else let env = smEnvironment m; target = eLanguageVersion env in
         if smVerifierAdapter m \<noteq> wrVerifierAdapter want \<or> eEcosystem env \<noteq> wrEcosystem want \<or> eRuntime env \<noteq> wrRuntime want \<or>
            (eExecutionContext env \<noteq> [] \<and> eExecutionContext env \<noteq> wrExecutionContext want) then Inl ''manifest''
         else if target \<noteq> [] \<and> (get 0 java_lines target = 0 \<or> get 0 java_lines (wrRuntimeVersion want) < get 0 java_lines target) then Inl ''target''
         else Inr (m\<lparr>smEnvironment := env\<lparr>eRuntimeVersion := wrRuntimeVersion want, eExecutionContext := wrExecutionContext want\<rparr>\<rparr>))"

definition lane_requirements :: "SampleManifest \<Rightarrow> WorkerRequirements" where
  "lane_requirements m = (let env = smEnvironment m in
     \<lparr>wrSandboxCapability = ''CONTAINER_RUN'', wrVerifierAdapter = smVerifierAdapter m, wrOS = [], wrEcosystem = eEcosystem env, wrRuntime = eRuntime env,
      wrRuntimeVersion = eRuntimeVersion env, wrExecutionContext = eExecutionContext env, wrBrowserFamily = eBrowserFamily env,
      wrBrowserMajor = eBrowserMajor env, wrEngine = eEngine env, wrEngineVersion = eEngineVersion env, wrFrameworks = []\<rparr>)"

definition manifestHasALane :: "SampleManifest \<Rightarrow> bool" where
  "manifestHasALane m = ContainerSupportsRequirements (lane_requirements m)"

definition laneCandidates :: "SampleManifest \<Rightarrow> SampleManifest list" where
  "laneCandidates m = (let env = smEnvironment m in
     [m, m\<lparr>smEnvironment := env\<lparr>eRuntimeVersion := []\<rparr>\<rparr>, m\<lparr>smEnvironment := env\<lparr>eExecutionContext := []\<rparr>\<rparr>,
      m\<lparr>smEnvironment := env\<lparr>eRuntimeVersion := [], eExecutionContext := []\<rparr>\<rparr>])"

definition job_manifest :: "SampleManifest \<Rightarrow> WorkerRequirements \<Rightarrow> SampleManifest" where
  "job_manifest m want = (let env = smEnvironment m in m\<lparr>smEnvironment := env\<lparr>
     eRuntimeVersion := (if wrRuntimeVersion want \<noteq> [] then wrRuntimeVersion want else eRuntimeVersion env),
     eExecutionContext := (if wrExecutionContext want \<noteq> [] then wrExecutionContext want else eExecutionContext env)\<rparr>\<rparr>)"

definition crossExecutionManifest :: "SampleManifest \<Rightarrow> WorkerRequirements option \<Rightarrow> SampleManifest" where
  "crossExecutionManifest m raw = (case raw of None \<Rightarrow> m
   | Some want \<Rightarrow> (case find manifestHasALane (laneCandidates (job_manifest m want)) of
       Some candidate \<Rightarrow> candidate
     | None \<Rightarrow> job_manifest m want))"

section \<open>The review of lanes\<close>

lemma fleet_idem:
  assumes "crossRequirementsAFleetCanRun want = (w, good)"
  shows "crossRequirementsAFleetCanRun w = (w, good)"
proof (cases good)
  case True
  then have "ContainerSupportsRequirements w"
    using assms by (auto simp: crossRequirementsAFleetCanRun_def find_Some_iff split: option.splits)
  then show ?thesis using True by (simp add: crossRequirementsAFleetCanRun_def candidates_def)
next
  case False
  then have "w = want" using assms by (auto simp: crossRequirementsAFleetCanRun_def split: option.splits)
  then show ?thesis using assms by simp
qed

text \<open>A row the review leaves, and what it makes of another.\<close>

definition settled :: "bool \<Rightarrow> JobRow \<Rightarrow> bool" where
  "settled spent j \<longleftrightarrow> (case jbWantEnv j of None \<Rightarrow> True | Some want \<Rightarrow>
     let (runnable, good) = crossRequirementsAFleetCanRun want; status = (if good then ''open'' else JobStatusUnsupported)
     in runnable = want \<and> status = jbStatus j \<or> status = ''open'' \<and> jbStatus j = JobStatusUnsupported \<and> spent)"

definition reviewed :: "bool \<Rightarrow> JobRow \<Rightarrow> JobRow" where
  "reviewed spent j = (if settled spent j then j else case jbWantEnv j of None \<Rightarrow> j | Some want \<Rightarrow>
     (case crossRequirementsAFleetCanRun want of (runnable, good) \<Rightarrow>
        j\<lparr>jbWantEnv := Some runnable, jbStatus := (if good then ''open'' else JobStatusUnsupported), jbClaimedBy := [], jbClaimedAt := None\<rparr>))"

lemma reviewed_fields [simp]: "jbID (reviewed s j) = jbID j" "jbSampleID (reviewed s j) = jbSampleID j" "jbReason (reviewed s j) = jbReason j"
  by (simp_all add: reviewed_def Let_def split: option.split prod.split)

lemma reviewed_settled: "settled s (reviewed s j)"
proof (cases "jbWantEnv j")
  case (Some want)
  obtain w good where wg: "crossRequirementsAFleetCanRun want = (w, good)" by (cases "crossRequirementsAFleetCanRun want")
  then show ?thesis using Some fleet_idem [OF wg] by (auto simp: reviewed_def settled_def Let_def)
qed (simp add: reviewed_def settled_def)

lemma reviewed_reviewable: "reviewable now j \<Longrightarrow> reviewable now (reviewed s j)"
  by (auto simp: reviewed_def reviewable_def Let_def split: option.split prod.split)

lemma settled_review: "settled (crossAttemptsSpent (jbSampleID j) db) j \<Longrightarrow> review_job clock (db, a, b) j = (db, a, b)"
  by (auto simp: settled_def review_job_def Let_def split: option.splits prod.splits if_splits)

lemma settled_reviews: "\<forall>j \<in> set js. settled (crossAttemptsSpent (jbSampleID j) db) j \<Longrightarrow> foldl (review_job clock) (db, a, b) js = (db, a, b)"
  by (induction js) (simp_all add: settled_review)

lemma reviewable_later: "reviewable now j \<Longrightarrow> now \<le> later \<Longrightarrow> reviewable later j"
  by (auto simp: reviewable_def split: option.splits)

definition rows_updated :: "(JobRow \<Rightarrow> JobRow) \<Rightarrow> queue_db \<Rightarrow> queue_db" where
  "rows_updated f db = db\<lparr>qdJobs := map f (qdJobs db)\<rparr>"

lemma review_step:
  assumes "distinct (map jbID (qdJobs db))" "j \<in> set (qdJobs db)" "reviewable now j" "now \<le> clock (jbID j)"
  shows "fst (review_job clock (db, a, b) j) = rows_updated (\<lambda>k. if k = j then reviewed (crossAttemptsSpent (jbSampleID j) db) j else k) db"
proof -
  let ?s = "crossAttemptsSpent (jbSampleID j) db"
  have same: "k \<in> set (qdJobs db) \<Longrightarrow> jbID k = jbID j \<longleftrightarrow> k = j" for k
    using assms(1,2) by (auto simp: distinct_map inj_on_def)
  have upd: "PG_SetJobRequirements (clock (jbID j)) (jbID j) w st db =
      rows_updated (\<lambda>k. if k = j then j\<lparr>jbWantEnv := w, jbStatus := st, jbClaimedBy := [], jbClaimedAt := None\<rparr> else k) db" for w st
  proof -
    have "map (\<lambda>k. if jbID k = jbID j \<and> reviewable (clock (jbID j)) k then k\<lparr>jbWantEnv := w, jbStatus := st, jbClaimedBy := [], jbClaimedAt := None\<rparr> else k) (qdJobs db) =
        map (\<lambda>k. if k = j then j\<lparr>jbWantEnv := w, jbStatus := st, jbClaimedBy := [], jbClaimedAt := None\<rparr> else k) (qdJobs db)"
      by (rule map_cong [OF refl]) (use same reviewable_later [OF assms(3,4)] in auto)
    then show ?thesis by (simp only: PG_SetJobRequirements_def update_jobs_def rows_updated_def)
  qed
  have idle: "x = j \<Longrightarrow> rows_updated (\<lambda>k. if k = j then x else k) db = db" for x
    unfolding rows_updated_def by (auto intro!: map_idI)
  show ?thesis
  proof (cases "jbWantEnv j")
    case None
    then have "reviewed ?s j = j" "review_job clock (db, a, b) j = (db, a, b)" by (simp_all add: review_job_def reviewed_def)
    then show ?thesis by (simp only: fst_conv idle)
  next
    case (Some want)
    obtain w good where "crossRequirementsAFleetCanRun want = (w, good)" by (cases "crossRequirementsAFleetCanRun want")
    note wg = this
    show ?thesis
    proof (cases "settled ?s j")
      case True
      then have "reviewed ?s j = j" by (simp add: reviewed_def)
      then show ?thesis by (simp only: fst_conv idle settled_review [OF True])
    next
      case False
      let ?st = "if good then ''open'' else JobStatusUnsupported"
      have "reviewed ?s j = j\<lparr>jbWantEnv := Some w, jbStatus := ?st, jbClaimedBy := [], jbClaimedAt := None\<rparr>"
        using False Some wg by (simp add: reviewed_def)
      moreover have "fst (review_job clock (db, a, b) j) = PG_SetJobRequirements (clock (jbID j)) (jbID j) (Some w) ?st db"
        using False wg by (cases good) (simp_all add: settled_def review_job_def Some Let_def, blast+)
      ultimately show ?thesis by (simp only: upd)
    qed
  qed
qed

lemma length_filter_sort: "length (filter P (sort_by lt xs)) = length (filter P xs)"
  by (metis mset_filter mset_sort_by size_mset)

lemma attempts_rows: "(\<And>k. jbSampleID (f k) = jbSampleID k) \<Longrightarrow> (\<And>k. jbReason (f k) = jbReason k) \<Longrightarrow>
  cross_attempts i (rows_updated f db) = cross_attempts i db"
proof -
  have count: "cross_attempts i db = int (length (filter (\<lambda>j. jbSampleID j = i \<and> jbReason j = ''cross'') (qdJobs db)))" for i db
    by (simp add: cross_attempts_def PG_JobsForSample_def length_filter_sort conj_commute)
  assume "\<And>k. jbSampleID (f k) = jbSampleID k" "\<And>k. jbReason (f k) = jbReason k"
  then show ?thesis by (simp add: count rows_updated_def filter_map comp_def)
qed

lemma review_fold:
  assumes "distinct (map jbID (qdJobs db))" "set js \<subseteq> set (qdJobs db)" "distinct js" "\<forall>j \<in> set js. reviewable now j" "\<forall>i. now \<le> clock i"
  shows "fst (foldl (review_job clock) (db, a, b) js) =
    rows_updated (\<lambda>k. if k \<in> set js then reviewed (crossAttemptsSpent (jbSampleID k) db) k else k) db"
  using assms
proof (induction js arbitrary: db a b)
  case Nil
  then show ?case by (simp add: rows_updated_def)
next
  case (Cons j js)
  let ?f = "\<lambda>k. if k = j then reviewed (crossAttemptsSpent (jbSampleID j) db) j else k"
  obtain db1 a1 b1 where s: "review_job clock (db, a, b) j = (db1, a1, b1)" by (metis prod_cases3)
  have db1: "db1 = rows_updated ?f db" using review_step [of db j now clock a b] Cons.prems s by simp
  have same: "k \<in> set (qdJobs db) \<Longrightarrow> jbID k = jbID j \<longleftrightarrow> k = j" for k
    using Cons.prems(1,2) by (auto simp: distinct_map inj_on_def)
  have ids: "map jbID (qdJobs db1) = map jbID (qdJobs db)" unfolding db1 rows_updated_def by auto
  have spent: "crossAttemptsSpent i db1 = crossAttemptsSpent i db" for i
    unfolding db1 crossAttemptsSpent_def by (subst attempts_rows) auto
  have sub: "set js \<subseteq> set (qdJobs db1)"
  proof
    fix k assume "k \<in> set js"
    then have "k \<noteq> j" "k \<in> set (qdJobs db)" using Cons.prems by auto
    then show "k \<in> set (qdJobs db1)" unfolding db1 rows_updated_def by force
  qed
  have "fst (foldl (review_job clock) (db1, a1, b1) js) = rows_updated (\<lambda>k. if k \<in> set js then reviewed (crossAttemptsSpent (jbSampleID k) db1) k else k) db1"
    using Cons.IH [of db1 a1 b1] Cons.prems ids sub by auto
  also have "\<dots> = rows_updated (\<lambda>k. if k \<in> set (j # js) then reviewed (crossAttemptsSpent (jbSampleID k) db) k else k) db"
  proof -
    have "(if ?f k \<in> set js then reviewed (crossAttemptsSpent (jbSampleID (?f k)) db) (?f k) else ?f k) =
        (if k \<in> set (j # js) then reviewed (crossAttemptsSpent (jbSampleID k) db) k else k)" if k: "k \<in> set (qdJobs db)" for k
    proof (cases "k = j")
      case True
      have "?f j \<in> set js \<Longrightarrow> ?f j = j" using same [of "?f j"] Cons.prems(2) by auto
      then show ?thesis using True Cons.prems(3) by auto
    qed auto
    then show ?thesis unfolding spent unfolding db1 rows_updated_def by simp
  qed
  finally show ?case using s by simp
qed

lemma insert_by_map: "(\<And>x y. lt (f x) (f y) = lt x y) \<Longrightarrow> insert_by lt (f x) (map f ys) = map f (insert_by lt x ys)"
  by (induction ys) auto

lemma sort_by_map: "(\<And>x y. lt (f x) (f y) = lt x y) \<Longrightarrow> sort_by lt (map f xs) = map f (sort_by lt xs)"
  unfolding sort_by_def by (induction xs) (simp_all add: insert_by_map)


section \<open>Retries\<close>

definition pending :: "string \<Rightarrow> queue_db \<Rightarrow> bool" where
  "pending i db \<longleftrightarrow> (\<exists>j \<in> set (qdJobs db). jbSampleID j = i \<and> jbReason j = ''cross'' \<and> jbStatus j \<in> {''open'', ''claimed'', JobStatusUnsupported})"

lemma cross_attempts_count: "cross_attempts i db = int (length (filter (\<lambda>j. jbSampleID j = i \<and> jbReason j = ''cross'') (qdJobs db)))"
  by (simp add: cross_attempts_def PG_JobsForSample_def length_filter_sort conj_commute)

lemma found: "find P xs = Some k \<Longrightarrow> k \<in> set xs \<and> P k"
  by (induction xs) (auto split: if_splits)

lemma ensured_job:
  assumes "PG_EnsureCrossJob now j db = Inr (db', n)"
  shows "db' = db \<and> pending (jbSampleID j) db \<or> (\<exists>row. qdJobs db' = qdJobs db @ [row] \<and> jbSampleID row = jbSampleID j \<and> jbReason row = ''cross'' \<and>
    jbStatus row = default_status (jbStatus j))"
proof -
  let ?P = "\<lambda>k. jbSampleID k = jbSampleID j \<and> jbReason k = ''cross'' \<and>
    (jbStatus k \<in> {''open'', ''claimed''} \<or> default_status (jbStatus j) = JobStatusUnsupported \<and> jbStatus k = JobStatusUnsupported)"
  show ?thesis
  proof (cases "first_job ?P db")
    case None
    then have "\<exists>n. insert_job now (jbSampleID j) ''cross'' (jbWantEnv j) (default_status (jbStatus j)) db = Inr (db', n)"
      using assms unfolding PG_EnsureCrossJob_def Let_def by (auto split: if_splits)
    then show ?thesis by (auto simp: insert_job_def split: if_splits)
  next
    case (Some k)
    then have "k \<in> set (qdJobs db)" "?P k" by (auto simp: first_job_def dest!: found)
    then have "pending (jbSampleID j) db" by (auto simp: pending_def)
    moreover have "db' = db" using assms Some unfolding PG_EnsureCrossJob_def Let_def by (auto split: if_splits)
    ultimately show ?thesis by blast
  qed
qed

lemma crossJobFor_fields:
  "jbSampleID (crossJobFor i m) = i" "jbReason (crossJobFor i m) = ''cross''" "jbStatus (crossJobFor i m) \<in> {''open'', JobStatusUnsupported}"
  by (simp_all add: crossJobFor_def split: prod.split)

lemma queued:
  assumes "queueCrossVerificationOn now i db = Inr db'"
  shows "db' = db \<or> \<not> pending i db \<and> (\<exists>row. qdJobs db' = qdJobs db @ [row] \<and> jbSampleID row = i \<and> jbReason row = ''cross'' \<and>
      jbStatus row \<in> {''open'', JobStatusUnsupported})"
proof -
  let ?m = "case map_of (qdSamples db) i of None \<Rightarrow> zero_manifest | Some s \<Rightarrow> saManifest s"
  have p: "list_ex (\<lambda>j. jbReason j = ''cross'' \<and> jbStatus j \<in> {''open'', ''claimed'', JobStatusUnsupported}) (PG_JobsForSample i db) = pending i db"
    by (auto simp: list_ex_iff PG_JobsForSample_def pending_def)
  have "default_status (jbStatus (crossJobFor i ?m)) = jbStatus (crossJobFor i ?m)"
    using crossJobFor_fields(3) [of i ?m] by (auto simp: default_status_def JobStatusUnsupported_def)
  moreover have "db' = db \<or> \<not> pending i db \<and> (\<exists>n. PG_EnsureCrossJob now (crossJobFor i ?m) db = Inr (db', n))"
    using assms unfolding queueCrossVerificationOn_def Let_def p by (auto split: if_splits sum.splits prod.splits)
  ultimately show ?thesis using ensured_job [of now "crossJobFor i ?m" db db'] crossJobFor_fields [of i ?m] by auto
qed

lemma queued_attempts:
  assumes "queueCrossVerificationOn now i db = Inr db'" "pending i db \<or> cross_attempts i db < maxCrossAttempts"
  shows "cross_attempts s db' \<le> max maxCrossAttempts (cross_attempts s db)"
  using queued [OF assms(1)] assms(2) by (auto simp: cross_attempts_count)

lemma queued_keeps:
  assumes "queueCrossVerificationOn now i db = Inr db'" "pending k db \<or> cross_attempts k db < maxCrossAttempts"
  shows "pending k db' \<or> cross_attempts k db' < maxCrossAttempts"
proof -
  consider "db' = db" | row where "qdJobs db' = qdJobs db @ [row]" "jbSampleID row = i" "jbReason row = ''cross''" "jbStatus row \<in> {''open'', JobStatusUnsupported}"
    using queued [OF assms(1)] by blast
  then show ?thesis
  proof cases
    case 2
    have "pending i db'" using 2 by (auto simp: pending_def)
    moreover have "pending k db \<Longrightarrow> pending k db'" using 2 by (auto simp: pending_def)
    moreover have "k \<noteq> i \<Longrightarrow> cross_attempts k db' = cross_attempts k db" using 2 by (simp add: cross_attempts_count)
    ultimately show ?thesis using assms(2) by metis
  qed (use assms in simp)
qed

lemma woken_attempts:
  assumes "\<forall>i \<in> set is. pending i db \<or> cross_attempts i db < maxCrossAttempts"
  shows "cross_attempts s (fst (foldl (wake now) (db, n) is)) \<le> max maxCrossAttempts (cross_attempts s db)"
  using assms
proof (induction "is" arbitrary: db n)
  case (Cons i "is")
  obtain db1 n1 where w: "wake now (db, n) i = (db1, n1)" by (cases "wake now (db, n) i")
  have "db1 = db \<or> queueCrossVerificationOn now i db = Inr db1" using w by (auto simp: wake_def split: sum.splits)
  then have "cross_attempts s db1 \<le> max maxCrossAttempts (cross_attempts s db)" "\<forall>k \<in> set is. pending k db1 \<or> cross_attempts k db1 < maxCrossAttempts"
    using queued_attempts [of now i db db1 s] queued_keeps [of now i db db1] Cons.prems by auto
  then show ?case using Cons.IH [of db1 n1] w by simp
qed simp

lemma stranded_attempts: "i \<in> set (PG_StrandedDrafts maxCrossAttempts limit db) \<Longrightarrow> cross_attempts i db < maxCrossAttempts"
  by (auto simp: PG_StrandedDrafts_def cross_attempts_count dest!: in_set_takeD)

lemma review_attempts: "cross_attempts s (fst (foldl (review_job clock) acc js)) = cross_attempts s (fst acc)"
proof (induction js arbitrary: acc)
  case (Cons j js)
  have "cross_attempts s (PG_SetJobRequirements t i w st db) = cross_attempts s db" for t i w st db
    using attempts_rows [of "\<lambda>j. if jbID j = i \<and> reviewable t j then j\<lparr>jbWantEnv := w, jbStatus := st, jbClaimedBy := [], jbClaimedAt := None\<rparr> else j" s db]
    by (simp add: PG_SetJobRequirements_def update_jobs_def rows_updated_def)
  then have "cross_attempts s (fst (review_job clock acc j)) = cross_attempts s (fst acc)"
    by (cases acc) (simp add: review_job_def Let_def split: option.split prod.split)
  then show ?case using Cons.IH [of "review_job clock acc j"] by simp
qed simp

text \<open>C12: the retries of a sample are bounded: neither the retry after a skipped attempt nor the pass over stranded drafts nor the review of lanes
  takes the cross jobs of a sample past the cap.\<close>

theorem retries_stay_within_the_cap:
  "cross_attempts s (requeueCrossVerification now i outcome db) \<le> max maxCrossAttempts (cross_attempts s db) \<and>
   cross_attempts s (fst (ReconcileStrandedDrafts now limit db)) \<le> max maxCrossAttempts (cross_attempts s db) \<and>
   cross_attempts s (fst (ReconcileCrossJobLanes now clock limit db)) = cross_attempts s db"
proof (intro conjI)
  show "cross_attempts s (requeueCrossVerification now i outcome db) \<le> max maxCrossAttempts (cross_attempts s db)"
    using queued_attempts [of now i db _ s] by (auto simp: requeueCrossVerification_def split: sum.split)
  show "cross_attempts s (fst (ReconcileStrandedDrafts now limit db)) \<le> max maxCrossAttempts (cross_attempts s db)"
    unfolding ReconcileStrandedDrafts_def using woken_attempts stranded_attempts by blast
  show "cross_attempts s (fst (ReconcileCrossJobLanes now clock limit db)) = cross_attempts s db"
    unfolding ReconcileCrossJobLanes_def by (simp add: review_attempts)
qed


section \<open>A sample written with a newer toolchain\<close>

definition go_sample :: SampleManifest where
  "go_sample = zero_manifest\<lparr>smEnvironment := zero_env\<lparr>eEcosystem := ''golang'', eRuntime := ''go'', eRuntimeVersion := ''1.27.0''\<rparr>\<rparr>"

definition go_db :: "string \<Rightarrow> queue_db" where
  "go_db status = (new_queue [(''s1'', draft_sample\<lparr>saManifest := go_sample\<rparr>)] [''s1''] [])\<lparr>qdNextID := 2, qdJobs := [\<lparr>jbID = 1, jbSampleID = ''s1'', jbReason = ''cross'',
     jbWantEnv = Some (cross_requirements go_sample), jbStatus = status, jbClaimedBy = [], jbClaimedAt = None, jbCreatedAt = Some 0\<rparr>]\<rparr>"



text \<open>A draft whose only job is unsupported is returned as stranded at every start and counted as woken, with nothing queued.\<close>

lemma unsupported_draft_counts_as_woken: "ReconcileStrandedDrafts 5 10 (go_db JobStatusUnsupported) = (go_db JobStatusUnsupported, 1)"
  by code_simp

text \<open>A sample measured in a Windows container is asked of no worker, although a Windows worker has an image for it.\<close>

definition windows_sample :: SampleManifest where
  "windows_sample = zero_manifest\<lparr>smEnvironment := zero_env\<lparr>eOS := ''windows'', eVirtualization := ''container'', eEcosystem := ''golang'', eRuntime := ''go'', eRuntimeVersion := ''1.26.2''\<rparr>\<rparr>"

lemma windows_job_is_unsupported:
  "jbStatus (crossJobFor ''s1'' windows_sample) = JobStatusUnsupported" "ContainerSupportsRequirementsOn ''windows'' (cross_requirements windows_sample)"
  by code_simp+

end
