(* ===== verification/CrossReceipts.thy ===== *)
theory CrossReceipts
  imports CrossWork
begin

text \<open>
  From a job to the receipt that answers it: the lanes a requirement can name, the manifest a claimed job runs against, the
  environment its container states and the checks of the server on it, composed.
\<close>

section \<open>Lanes\<close>

definition clear_requirements :: "WorkerRequirements \<Rightarrow> bool" where
  "clear_requirements w \<longleftrightarrow> list_all (\<lambda>v. clearPlaceholder v = v)
     [wrRuntime w, wrExecutionContext w, wrBrowserFamily w, wrBrowserMajor w, wrEngine w, wrEngineVersion w]"

definition provides :: "WorkerRequirements \<Rightarrow> string \<times> string" where
  "provides w = (case imageRuntimeForVersion (wrEcosystem w) (wrRuntime w) (wrRuntimeVersion w) of (rt, ver, _) \<Rightarrow> (rt, ver))"

text \<open>The browser lane and the others.\<close>

definition browser_lane :: "WorkerRequirements \<Rightarrow> bool" where
  "browser_lane w \<longleftrightarrow> wrExecutionContext w = ''browser'' \<and> wrEcosystem w = ''npm'' \<and> wrRuntime w \<in> {[], ''node''} \<and> wrBrowserFamily w = ''chrome'' \<and>
     wrBrowserMajor w = ''134'' \<and> wrEngine w \<in> {[], ''chromium''} \<and> wrEngineVersion w \<in> {[], ''134''}"

definition plain_lane :: "WorkerRequirements \<Rightarrow> bool" where
  "plain_lane w \<longleftrightarrow> wrBrowserFamily w = [] \<and> wrBrowserMajor w = [] \<and> wrEngine w = [] \<and> wrEngineVersion w = [] \<and>
     (wrExecutionContext w = [] \<or> wrExecutionContext w = fst (provides w)) \<and>
     (wrEcosystem w = ''npm'' \<longrightarrow> wrRuntime w \<in> {[], ''node'', ''bun'', ''deno''}) \<and>
     (wrEcosystem w = ''pypi'' \<longrightarrow> wrRuntime w \<in> {[], ''python''} \<and> clearPlaceholder (wrRuntimeVersion w) \<in> {[], ''3.12'', ''3.14''}) \<and>
     (wrEcosystem w = ''maven'' \<longrightarrow> wrRuntime w \<in> {[], ''java''} \<and> clearPlaceholder (wrRuntimeVersion w) \<in> {[], ''8'', ''11'', ''17'', ''21'', ''25''}) \<and>
     (wrEcosystem w \<noteq> ''pypi'' \<and> wrEcosystem w \<noteq> ''maven'' \<and> clearPlaceholder (wrRuntimeVersion w) \<noteq> [] \<longrightarrow>
        runtimeVersionMatches (snd (provides w)) (clearPlaceholder (wrRuntimeVersion w)))"

lemma requirements_env:
  fixes w
  defines "n \<equiv> Normalize (smEnvironment (requirements_manifest w))"
  assumes "clear_requirements w"
  shows "eEcosystem n = wrEcosystem w" "eRuntime n = wrRuntime w" "eRuntimeVersion n = clearPlaceholder (wrRuntimeVersion w)" "eLibc n = []" "eLanguageVersion n = []"
    "eExecutionContext n = (if wrExecutionContext w = [] \<and> wrRuntime w \<in> {''node'', ''bun'', ''deno''} then wrRuntime w else wrExecutionContext w)"
    "eBrowserFamily n = wrBrowserFamily w" "eBrowserMajor n = wrBrowserMajor w" "eEngineVersion n = wrEngineVersion w"
    "eEngine n = (if wrEngine w = [] then engine_of_family (wrBrowserFamily w) else wrEngine w)"
    "smVerifierAdapter (requirements_manifest w) = wrVerifierAdapter w"
  using assms(2) unfolding n_def clear_requirements_def requirements_manifest_def
  by (auto simp add: Normalize_fields zero_env_def)

lemma provides_clear: "fst (provides w) = fst (imageRuntimeForVersion (wrEcosystem w) (wrRuntime w) v)"
  "wrEcosystem w \<notin> {''pypi'', ''maven''} \<Longrightarrow> snd (provides w) = fst (snd (imageRuntimeForVersion (wrEcosystem w) (wrRuntime w) v))"
  by (simp_all add: provides_def imageRuntimeForVersion_def)

lemma java_lane:
  assumes "clear_requirements w" "javaImageForManifest (requirements_manifest w) = Some (Inr spec)"
  shows "plain_lane w"
proof -
  note n = requirements_env [OF assms(1)]
  let ?v = "clearPlaceholder (wrRuntimeVersion w)"
  have images: "?v \<in> {[], ''8'', ''11'', ''17'', ''21'', ''25''}"
    if "map_of (if wrVerifierAdapter w = ''gradle-java@1'' then gradleJavaImages else mavenJavaImages) ?v = Some r" for r
    using that java_lines_registered(1) [of ?v r] java_lines_registered(2) [of ?v r] by (auto split: if_splits)
  have eco: "wrEcosystem w = ''maven''" using assms(2) by (auto simp: javaImageForManifest_def n Let_def split: if_splits)
  have rt: "wrRuntime w \<in> {[], ''java''}" using assms(2) by (auto simp: javaImageForManifest_def n Let_def split: if_splits)
  have ctx: "wrExecutionContext w \<in> {[], ''java''}" using assms(2) rt by (auto simp: javaImageForManifest_def n Let_def split: if_splits)
  have br: "wrBrowserFamily w = []" "wrBrowserMajor w = []" "wrEngine w = []" "wrEngineVersion w = []"
    using assms(2) by (auto simp: javaImageForManifest_def n Let_def split: if_splits)
  have "\<exists>r. map_of (if wrVerifierAdapter w = ''gradle-java@1'' then gradleJavaImages else mavenJavaImages) ?v = Some r"
    using assms(2) by (auto simp: javaImageForManifest_def n Let_def split: if_splits option.splits)
  then have "?v \<in> {[], ''8'', ''11'', ''17'', ''21'', ''25''}" using images by blast
  then show ?thesis using eco rt ctx br by (auto simp: plain_lane_def provides_def imageRuntimeForVersion_def)
qed

lemma supported_lane:
  assumes "ContainerSupportsRequirements w" "wrEcosystem w \<noteq> []" "clear_requirements w"
  shows "browser_lane w \<or> plain_lane w"
proof -
  note n = requirements_env [OF assms(3)]
  let ?m = "requirements_manifest w" and ?v = "clearPlaceholder (wrRuntimeVersion w)"
  obtain img where img: "imageForManifestLinux ?m = Inr img"
    using assms(1,2) by (auto simp: ContainerSupportsRequirements_def ContainerSupportsRequirementsOn_def imageForManifestOn_def containerOSOrLinux_def ok_def
        split: if_splits sum.splits)
  show ?thesis
  proof (cases "javaImageForManifest ?m")
    case (Some r)
    then obtain spec where "r = Inr spec" using img by (cases r) (auto simp: imageForManifestLinux_def Let_def guard_libc_Inr)
    then show ?thesis using java_lane [OF assms(3)] Some by blast
  next
    case None
    then have eco: "wrEcosystem w \<noteq> ''maven''" by (auto simp: javaImageForManifest_def n Let_def split: if_splits)
    show ?thesis
    proof (cases "eExecutionContext (Normalize (smEnvironment ?m)) = ''browser''")
      case True
      then have ctx: "wrExecutionContext w = ''browser''" by (auto simp: n split: if_splits)
      have "wrEcosystem w = ''npm'' \<and> wrRuntime w \<in> {[], ''node''} \<and> wrBrowserFamily w = ''chrome'' \<and> wrBrowserMajor w = ''134'' \<and>
          wrEngineVersion w \<in> {[], ''134''}"
        using img True unfolding imageForManifestLinux_def Let_def None by (auto simp: n split: if_splits)
      moreover have "wrEngine w \<in> {[], ''chromium''}"
        using img True unfolding imageForManifestLinux_def Let_def None by (auto simp: n split: if_splits)
      ultimately show ?thesis using ctx by (simp add: browser_lane_def)
    next
      case False
      obtain rt ver lang where p: "imageRuntimeForVersion (wrEcosystem w) (wrRuntime w) ?v = (rt, ver, lang)" by (metis prod_cases3)
      have pr: "fst (provides w) = rt" using provides_clear(1) [of w ?v] p by simp
      have pv: "wrEcosystem w \<noteq> ''pypi'' \<Longrightarrow> snd (provides w) = ver" using provides_clear(2) [of w ?v] p eco by simp
      have br: "eBrowserFamily (Normalize (smEnvironment ?m)) = [] \<and> eBrowserMajor (Normalize (smEnvironment ?m)) = [] \<and>
          eEngine (Normalize (smEnvironment ?m)) = [] \<and> eEngineVersion (Normalize (smEnvironment ?m)) = []"
        using img False unfolding imageForManifestLinux_def Let_def None by (auto split: if_splits)
      then have img2: "(case guard_libc [] (imageForRuntimeVersion (wrEcosystem w) (wrRuntime w) ?v []) of Inl e \<Rightarrow> Inl e | Inr img \<Rightarrow>
            if ?v \<noteq> [] \<and> wrEcosystem w \<noteq> ''pypi'' \<and> \<not> runtimeVersionMatches ver ?v then Inl (RuntimeMismatch ver ?v)
            else if eExecutionContext (Normalize (smEnvironment ?m)) \<noteq> [] \<and> eExecutionContext (Normalize (smEnvironment ?m)) \<noteq> rt
              then Inl (NoContext (eExecutionContext (Normalize (smEnvironment ?m)))) else Inr img) = Inr img"
        using img False unfolding imageForManifestLinux_def Let_def None n(1-4) p prod.case option.case by simp
      then obtain img' where img3: "imageForRuntimeVersion (wrEcosystem w) (wrRuntime w) ?v [] = Inr img'"
        and vm: "?v \<noteq> [] \<longrightarrow> wrEcosystem w \<noteq> ''pypi'' \<longrightarrow> runtimeVersionMatches ver ?v"
        and cx: "eExecutionContext (Normalize (smEnvironment ?m)) = [] \<or> eExecutionContext (Normalize (smEnvironment ?m)) = rt"
        by (auto simp: guard_libc_Inr split: sum.splits if_splits)
      have npm: "wrEcosystem w = ''npm'' \<longrightarrow> wrRuntime w \<in> {[], ''node'', ''bun'', ''deno''}"
        using img3 by (auto simp: imageForRuntimeVersion_def split: if_splits)
      have pypi: "wrEcosystem w = ''pypi'' \<longrightarrow> wrRuntime w \<in> {[], ''python''} \<and> ?v \<in> {[], ''3.12'', ''3.14''}"
        using img3 by (auto simp: imageForRuntimeVersion_def split: if_splits)
      have "wrExecutionContext w = [] \<or> wrExecutionContext w = rt" using cx by (auto simp: n(6) split: if_splits)
      then show ?thesis using br npm pypi vm pr pv eco unfolding plain_lane_def n by (auto split: if_splits)
    qed
  qed
qed

section \<open>The manifest a job runs against\<close>

definition unplaced :: "WorkerRequirements \<Rightarrow> WorkerRequirements" where
  "unplaced w = w\<lparr>wrSandboxCapability := ''CONTAINER_RUN'', wrOS := [], wrFrameworks := []\<rparr>"

lemma unplaced_fields [simp]:
  "wrEcosystem (unplaced w) = wrEcosystem w" "wrRuntime (unplaced w) = wrRuntime w" "wrRuntimeVersion (unplaced w) = wrRuntimeVersion w"
  "wrExecutionContext (unplaced w) = wrExecutionContext w" "wrBrowserFamily (unplaced w) = wrBrowserFamily w"
  "wrBrowserMajor (unplaced w) = wrBrowserMajor w" "wrEngine (unplaced w) = wrEngine w" "wrEngineVersion (unplaced w) = wrEngineVersion w"
  "wrVerifierAdapter (unplaced w) = wrVerifierAdapter w" "wrOS (unplaced w) = []"
  by (simp_all add: unplaced_def)

lemma requirements_manifest_unplaced: "requirements_manifest (unplaced w) = requirements_manifest w"
  by (simp add: requirements_manifest_def)

lemma supports_unplaced:
  "ContainerSupportsRequirements w \<longleftrightarrow> (wrOS w = [] \<or> EqualFold (wrOS w) ''linux'') \<and> ContainerSupportsRequirements (unplaced w)"
  by (auto simp: ContainerSupportsRequirements_def ContainerSupportsRequirementsOn_def requirements_manifest_unplaced containerOSOrLinux_def)

lemma candidates_unplaced: "map unplaced (candidates w) = candidates (unplaced w)"
  by (simp add: candidates_def unplaced_def)

lemma candidates_fields:
  assumes "c \<in> set (candidates w)"
  shows "wrOS c = wrOS w" "wrEcosystem c = wrEcosystem w" "wrRuntime c = wrRuntime w" "wrBrowserFamily c = wrBrowserFamily w"
    "wrBrowserMajor c = wrBrowserMajor w" "wrEngine c = wrEngine w" "wrEngineVersion c = wrEngineVersion w" "wrFrameworks c = wrFrameworks w"
    "wrVerifierAdapter c = wrVerifierAdapter w" "wrSandboxCapability c = wrSandboxCapability w"
    "wrRuntimeVersion c \<in> {[], wrRuntimeVersion w}" "wrExecutionContext c \<in> {[], wrExecutionContext w}"
  using assms by (auto simp: candidates_def)

lemma find_map: "find P (map f xs) = map_option f (find (P \<circ> f) xs)"
  by (induction xs) simp_all

lemma find_cong_set: "(\<And>x. x \<in> set xs \<Longrightarrow> P x = Q x) \<Longrightarrow> find P xs = find Q xs"
  by (induction xs) auto

lemma find_of_four:
  "P b \<Longrightarrow> \<exists>k. find P [a, b, c, d] = Some k \<and> k \<in> {a, b}"
  "P d \<Longrightarrow> \<exists>k. find P [a, b, c, d] = Some k"
  by auto

lemma lane_requirements_fields:
  "wrRuntimeVersion (lane_requirements m) = eRuntimeVersion (smEnvironment m)" "wrExecutionContext (lane_requirements m) = eExecutionContext (smEnvironment m)"
  "wrEcosystem (lane_requirements m) = eEcosystem (smEnvironment m)" "wrRuntime (lane_requirements m) = eRuntime (smEnvironment m)"
  "wrBrowserFamily (lane_requirements m) = eBrowserFamily (smEnvironment m)" "wrBrowserMajor (lane_requirements m) = eBrowserMajor (smEnvironment m)"
  "wrEngine (lane_requirements m) = eEngine (smEnvironment m)" "wrEngineVersion (lane_requirements m) = eEngineVersion (smEnvironment m)"
  by (simp_all add: lane_requirements_def Let_def)

lemma lane_candidates: "map lane_requirements (laneCandidates m) = candidates (lane_requirements m)"
  by (simp add: laneCandidates_def candidates_def lane_requirements_def Let_def)

lemma find_lane: "map_option lane_requirements (find manifestHasALane (laneCandidates m)) = find ContainerSupportsRequirements (candidates (lane_requirements m))"
proof -
  have "manifestHasALane = ContainerSupportsRequirements \<circ> lane_requirements" by (simp add: fun_eq_iff manifestHasALane_def)
  then show ?thesis by (simp add: lane_candidates [symmetric] find_map)
qed

definition same_sample :: "SampleManifest \<Rightarrow> SampleManifest \<Rightarrow> bool" where
  "same_sample m c \<longleftrightarrow> smVerifierAdapter c = smVerifierAdapter m \<and>
     (smEnvironment c)\<lparr>eRuntimeVersion := [], eExecutionContext := []\<rparr> = (smEnvironment m)\<lparr>eRuntimeVersion := [], eExecutionContext := []\<rparr>"

lemma same_sample_fields:
  assumes "same_sample m c"
  shows "eEcosystem (smEnvironment c) = eEcosystem (smEnvironment m)" "eRuntime (smEnvironment c) = eRuntime (smEnvironment m)"
    "eBrowserFamily (smEnvironment c) = eBrowserFamily (smEnvironment m)" "eBrowserMajor (smEnvironment c) = eBrowserMajor (smEnvironment m)"
    "eEngine (smEnvironment c) = eEngine (smEnvironment m)" "eEngineVersion (smEnvironment c) = eEngineVersion (smEnvironment m)"
    "smVerifierAdapter c = smVerifierAdapter m"
proof -
  note env = assms [unfolded same_sample_def, THEN conjunct2]
  show "eEcosystem (smEnvironment c) = eEcosystem (smEnvironment m)" "eRuntime (smEnvironment c) = eRuntime (smEnvironment m)"
    "eBrowserFamily (smEnvironment c) = eBrowserFamily (smEnvironment m)" "eBrowserMajor (smEnvironment c) = eBrowserMajor (smEnvironment m)"
    "eEngine (smEnvironment c) = eEngine (smEnvironment m)" "eEngineVersion (smEnvironment c) = eEngineVersion (smEnvironment m)"
    using arg_cong [OF env, of eEcosystem] arg_cong [OF env, of eRuntime] arg_cong [OF env, of eBrowserFamily] arg_cong [OF env, of eBrowserMajor]
      arg_cong [OF env, of eEngine] arg_cong [OF env, of eEngineVersion] by simp_all
  show "smVerifierAdapter c = smVerifierAdapter m" using assms by (simp add: same_sample_def)
qed

lemma same_sample_candidate: "c \<in> set (laneCandidates (job_manifest m want)) \<Longrightarrow> same_sample m c"
  by (auto simp: laneCandidates_def job_manifest_def same_sample_def Let_def)

text \<open>A job that was opened is run against a manifest that has a lane and keeps what the job asks for.\<close>

lemma executed_manifest:
  assumes run: "crossRequirementsAFleetCanRun (cross_requirements m) = (want, True)"
  defines "c \<equiv> crossExecutionManifest m (Some want)"
  shows "ContainerSupportsRequirements (lane_requirements c)"
    "wrRuntimeVersion want \<noteq> [] \<Longrightarrow> eRuntimeVersion (smEnvironment c) = wrRuntimeVersion want"
    "wrExecutionContext want \<noteq> [] \<Longrightarrow> eExecutionContext (smEnvironment c) = wrExecutionContext want"
    "same_sample m c" "eExecutionContext (smEnvironment c) \<in> {[], eExecutionContext (smEnvironment m)}"
proof -
  let ?base = "cross_requirements m" and ?j = "job_manifest m want"
  have f: "find ContainerSupportsRequirements (candidates ?base) = Some want"
    using run by (auto simp: crossRequirementsAFleetCanRun_def split: option.splits)
  then have want: "want \<in> set (candidates ?base)" "ContainerSupportsRequirements want"
    by (auto simp: find_Some_iff)
  note cf = candidates_fields [OF want(1)]
  have os: "wrOS ?base = [] \<or> EqualFold (wrOS ?base) ''linux''" using supports_unplaced [of want] want(2) cf(1) by simp
  have same: "ContainerSupportsRequirements w = (ContainerSupportsRequirements \<circ> unplaced) w" if "w \<in> set (candidates ?base)" for w
    using supports_unplaced [of w] os candidates_fields(1) [OF that] by simp
  have "find (ContainerSupportsRequirements \<circ> unplaced) (candidates ?base) = Some want"
    using f find_cong_set [of "candidates ?base" ContainerSupportsRequirements "ContainerSupportsRequirements \<circ> unplaced"] same by metis
  then have f': "find ContainerSupportsRequirements (candidates (unplaced ?base)) = Some (unplaced want)"
    by (simp add: candidates_unplaced [symmetric] find_map)
  have lane: "\<exists>c'. find manifestHasALane (laneCandidates ?j) = Some c' \<and>
      (wrRuntimeVersion want \<noteq> [] \<longrightarrow> eRuntimeVersion (smEnvironment c') = wrRuntimeVersion want) \<and>
      (wrExecutionContext want \<noteq> [] \<longrightarrow> eExecutionContext (smEnvironment c') = wrExecutionContext want)"
  proof (cases "wrRuntimeVersion want = []")
    case False
    then have v: "wrRuntimeVersion want = wrRuntimeVersion ?base" using cf(11) by simp
    have x: "(if wrExecutionContext want \<noteq> [] then wrExecutionContext want else eExecutionContext (smEnvironment m)) = wrExecutionContext ?base"
      using cf(12) by (auto simp: cross_requirements_def Let_def)
    have "lane_requirements ?j = unplaced ?base"
      using False v x by (simp add: lane_requirements_def job_manifest_def unplaced_def cross_requirements_def Let_def)
    then have "map_option lane_requirements (find manifestHasALane (laneCandidates ?j)) = Some (unplaced want)" using find_lane f' by simp
    then obtain c' where "find manifestHasALane (laneCandidates ?j) = Some c'" "lane_requirements c' = unplaced want" by blast
    moreover from this have "eRuntimeVersion (smEnvironment c') = wrRuntimeVersion want" "eExecutionContext (smEnvironment c') = wrExecutionContext want"
      by (metis unplaced_fields(3,4) lane_requirements_fields)+
    ultimately show ?thesis by blast
  next
    case True
    let ?x = "wrExecutionContext ?base"
    have x: "eExecutionContext (smEnvironment m) = ?x" by (simp add: cross_requirements_def Let_def)
    have j: "lane_requirements ?j = (unplaced ?base)\<lparr>wrRuntimeVersion := eRuntimeVersion (smEnvironment m)\<rparr>"
      using True cf(12) by (auto simp: lane_requirements_def job_manifest_def unplaced_def cross_requirements_def Let_def)
    have w: "unplaced want = (unplaced ?base)\<lparr>wrRuntimeVersion := [], wrExecutionContext := wrExecutionContext want\<rparr>"
      using want(1) True by (auto simp: candidates_def unplaced_def)
    have sup: "ContainerSupportsRequirements (unplaced want)" using supports_unplaced want(2) by blast
    obtain k where k: "find ContainerSupportsRequirements (candidates (lane_requirements ?j)) = Some k"
      "wrExecutionContext want \<noteq> [] \<longrightarrow> wrExecutionContext k = ?x"
    proof (cases "wrExecutionContext want = []")
      case True
      then have "ContainerSupportsRequirements ((lane_requirements ?j)\<lparr>wrRuntimeVersion := [], wrExecutionContext := []\<rparr>)"
        using sup unfolding j w by simp
      then obtain k where "find ContainerSupportsRequirements (candidates (lane_requirements ?j)) = Some k"
        using find_of_four(2) [where P = ContainerSupportsRequirements] unfolding candidates_def by meson
      then show thesis using that True by simp
    next
      case False
      then have "wrExecutionContext want = ?x" using cf(12) by simp
      then have "unplaced want = (unplaced ?base)\<lparr>wrRuntimeVersion := [], wrExecutionContext := ?x\<rparr>" using w by (simp only:)
      also have "\<dots> = (lane_requirements ?j)\<lparr>wrRuntimeVersion := []\<rparr>" unfolding j by (simp add: unplaced_def)
      finally have "ContainerSupportsRequirements ((lane_requirements ?j)\<lparr>wrRuntimeVersion := []\<rparr>)" using sup by simp
      then obtain k where "find ContainerSupportsRequirements (candidates (lane_requirements ?j)) = Some k"
        "k \<in> {lane_requirements ?j, (lane_requirements ?j)\<lparr>wrRuntimeVersion := []\<rparr>}"
        using find_of_four(1) [where P = ContainerSupportsRequirements] unfolding candidates_def by meson
      then show thesis using that [of k] j by auto
    qed
    then obtain c' where "find manifestHasALane (laneCandidates ?j) = Some c'" "lane_requirements c' = k" using find_lane [of ?j] by auto
    then show ?thesis using k(2) cf(12) True lane_requirements_fields(2) by fastforce
  qed
  then obtain c' where c': "find manifestHasALane (laneCandidates ?j) = Some c'"
    "wrRuntimeVersion want \<noteq> [] \<longrightarrow> eRuntimeVersion (smEnvironment c') = wrRuntimeVersion want"
    "wrExecutionContext want \<noteq> [] \<longrightarrow> eExecutionContext (smEnvironment c') = wrExecutionContext want" by blast
  have c: "c = c'" using c'(1) by (simp add: c_def crossExecutionManifest_def)
  show "ContainerSupportsRequirements (lane_requirements c)" using c'(1) unfolding c by (auto simp: find_Some_iff manifestHasALane_def)
  show "wrRuntimeVersion want \<noteq> [] \<Longrightarrow> eRuntimeVersion (smEnvironment c) = wrRuntimeVersion want" using c' c by blast
  show "wrExecutionContext want \<noteq> [] \<Longrightarrow> eExecutionContext (smEnvironment c) = wrExecutionContext want" using c' c by blast
  have "c' \<in> set (laneCandidates ?j)" using c'(1) by (auto simp: find_Some_iff)
  then show "same_sample m c" using same_sample_candidate c by blast
  show "eExecutionContext (smEnvironment c) \<in> {[], eExecutionContext (smEnvironment m)}"
    using \<open>c' \<in> set (laneCandidates ?j)\<close> cf(12) unfolding c
    by (auto simp: laneCandidates_def job_manifest_def cross_requirements_def Let_def split: if_splits)
qed

section \<open>The receipt of a cross job\<close>

lemma refs_start: "list_all (\<lambda>a. take 2 (the_ref a) = take 2 a) (map fst verifierImages)"
  by code_simp

lemmas ref_starts = refs_start [unfolded registry_keys list.pred_inject, simplified]

lemma chrome_ref: "chrome134Image = Inr img \<Longrightarrow> take 2 img = ''gh''"
  by (auto simp: chrome134Image_def ref_starts)

lemma java_line_ref: "map_of mavenJavaImages v = Some (Inr spec) \<or> map_of gradleJavaImages v = Some (Inr spec) \<Longrightarrow> take 2 (jvImage spec) \<noteq> ''gh''"
  by (auto simp: mavenJavaImages_def gradleJavaImages_def java_line_def ref_starts split: if_splits)

lemma plain_java_ref: "javaImageForManifest m = Some (Inr spec) \<Longrightarrow> take 2 (jvImage spec) \<noteq> ''gh''"
  using java_line_ref unfolding javaImageForManifest_def Let_def by (auto split: if_splits option.splits sum.splits)

lemma plain_ref:
  assumes "imageForRuntimeVersion eco rt v libc = Inr img"
  shows "take 2 img \<noteq> ''gh''"
proof -
  define j where "j = (case javaImageForManifest (maven_manifest rt v) of None \<Rightarrow> Inr [] | Some spec \<Rightarrow> map_sum id jvImage spec)"
  have "j = Inr img \<Longrightarrow> take 2 img \<noteq> ''gh''"
  proof (cases "javaImageForManifest (maven_manifest rt v)")
    case (Some r)
    assume "j = Inr img"
    then show ?thesis using Some plain_java_ref unfolding j_def by (cases r) auto
  qed (auto simp: j_def)
  then show ?thesis
    using assms unfolding imageForRuntimeVersion_def python314Image_def j_def [symmetric] by (simp add: ref_starts split: if_splits; auto simp: ref_starts)
qed

lemma plain_windows_ref: "windowsImageFor eco rt v = Inr img \<Longrightarrow> take 2 img \<noteq> ''gh''"
  by (auto simp: windowsImageFor_def ref_starts split: if_splits)

lemma plain_not_chrome:
  assumes "eExecutionContext (Normalize (smEnvironment c)) \<noteq> ''browser''"
  shows "chrome134Image \<noteq> Inr (image_or_empty (imageForManifestOn os c))"
proof (cases "imageForManifestOn os c")
  case (Inl e)
  then show ?thesis using chrome_ref [of "[]"] by (auto simp: image_or_empty_def)
next
  case (Inr img)
  have "take 2 img \<noteq> ''gh''"
  proof (cases "containerOSOrLinux os = ''windows''")
    case True
    then show ?thesis using Inr plain_windows_ref by (auto simp: imageForManifestOn_def Let_def split: if_splits)
  next
    case False
    then have linux: "imageForManifestLinux c = Inr img" using Inr by (simp add: imageForManifestOn_def)
    show ?thesis
    proof (cases "javaImageForManifest c")
      case (Some r)
      then show ?thesis using linux plain_java_ref [of c] by (cases r) (auto simp: imageForManifestLinux_def Let_def guard_libc_Inr)
    next
      case None
      let ?n = "Normalize (smEnvironment c)"
      have "\<exists>img'. guard_libc (eLibc ?n) (imageForRuntimeVersion (eEcosystem ?n) (eRuntime ?n) (eRuntimeVersion ?n) (eLibc ?n)) = Inr img' \<and> img' = img"
        using linux assms unfolding imageForManifestLinux_def Let_def None by (auto split: if_splits sum.splits prod.splits)
      then show ?thesis using plain_ref by (auto simp: guard_libc_Inr)
    qed
  qed
  then show ?thesis using Inr chrome_ref by (auto simp: image_or_empty_def)
qed

lemma browser_is_chrome:
  assumes "browser_lane (lane_requirements c)" "clear_requirements (lane_requirements c)" "containerOSOrLinux os = ''linux''"
  shows "chrome134Image = Inr (image_or_empty (imageForManifestOn os c))"
proof -
  let ?n = "Normalize (smEnvironment c)"
  have clear: "clearPlaceholder (eRuntime (smEnvironment c)) = eRuntime (smEnvironment c)"
    "clearPlaceholder (eEngine (smEnvironment c)) = eEngine (smEnvironment c)"
    using assms(2) by (simp_all add: clear_requirements_def lane_requirements_def Let_def)
  have n: "eEcosystem ?n = ''npm''" "eRuntime ?n \<in> {[], ''node''}" "eExecutionContext ?n = ''browser''" "eBrowserFamily ?n = ''chrome''"
    "eBrowserMajor ?n = ''134''" "eEngine ?n = ''chromium''" "eEngineVersion ?n \<in> {[], ''134''}"
    using assms(1) clear by (auto simp: browser_lane_def lane_requirements_def Let_def Normalize_fields literals_clear engine_of_family_def)
  have "javaImageForManifest c = None" using n(1) by (simp add: javaImageForManifest_def Let_def)
  then have "imageForManifestLinux c = chrome134Image" using n unfolding imageForManifestLinux_def Let_def by auto
  moreover obtain a where "chrome134Image = Inr (the_ref a)" using chrome_registered by blast
  ultimately have selected: "imageForManifestOn os c = Inr (the_ref a)" using assms(3) by (simp add: imageForManifestOn_def)
  show ?thesis unfolding selected image_or_empty_def sum.case by (rule \<open>chrome134Image = Inr (the_ref a)\<close>)
qed

lemma Normalize_clear:
  assumes "Normalize e = e"
  shows "clearPlaceholder (eRuntime e) = eRuntime e" "clearPlaceholder (eExecutionContext e) = eExecutionContext e"
    "clearPlaceholder (eBrowserFamily e) = eBrowserFamily e" "clearPlaceholder (eBrowserMajor e) = eBrowserMajor e"
    "clearPlaceholder (eEngine e) = eEngine e" "clearPlaceholder (eEngineVersion e) = eEngineVersion e"
  using all_clear_Normalize [of e] unfolding assms all_clear_def dimensions_def by simp_all

lemma versionSatisfies_refl: "versionSatisfies v v" "versionSatisfies [] v"
proof -
  have "TrimSpace [] = []" by code_simp
  then show "versionSatisfies v v" "versionSatisfies [] v" by (simp_all add: versionSatisfies_def Let_def)
qed

lemma rt_not_browser: "fst (provides w) \<noteq> ''browser''"
  by (simp add: provides_def imageRuntimeForVersion_def)

lemma windows_has_no_browser:
  assumes "ContainerSupportsRequirementsOn os w" "wrBrowserFamily w = ''chrome''" "clear_requirements w" "wrEcosystem w \<noteq> []"
  shows "containerOSOrLinux os = ''linux''"
proof (rule ccontr)
  assume "containerOSOrLinux os \<noteq> ''linux''"
  then have "containerOSOrLinux os = ''windows''" by (auto simp: containerOSOrLinux_def split: if_splits)
  then show False using assms requirements_env(7) [OF assms(3)]
    by (auto simp: ContainerSupportsRequirementsOn_def imageForManifestOn_def Let_def ok_def split: if_splits)
qed

lemma framework_free: "list_all (\<lambda>required. list_ex (\<lambda>got. P required got) []) xs \<longleftrightarrow> xs = []"
  by (cases xs) simp_all

lemma receiptMatches_iff:
  "receiptMatchesRequirements r w \<longleftrightarrow> (let env = Normalize (vrEnvironment r) in
     (wrSandboxCapability w = [] \<or> vrSandboxCapability r = wrSandboxCapability w) \<and> (wrVerifierAdapter w = [] \<or> vrVerifierAdapter r = wrVerifierAdapter w) \<and>
     (wrOS w = [] \<or> EqualFold (wrOS w) (eOS env)) \<and> (wrEcosystem w = [] \<or> wrEcosystem w = eEcosystem env) \<and>
     (wrRuntime w = [] \<or> wrRuntime w = eRuntime env) \<and> (wrExecutionContext w = [] \<or> wrExecutionContext w = eExecutionContext env) \<and>
     (wrBrowserFamily w = [] \<or> wrBrowserFamily w = eBrowserFamily env) \<and> (wrEngine w = [] \<or> wrEngine w = eEngine env) \<and>
     versionSatisfies (wrRuntimeVersion w) (eRuntimeVersion env) \<and> versionSatisfies (wrBrowserMajor w) (eBrowserMajor env) \<and>
     versionSatisfies (wrEngineVersion w) (eEngineVersion env) \<and>
     list_all (\<lambda>required. list_ex (\<lambda>got. EqualFold (TrimSpace required) (TrimSpace got)) (eFrameworks env)) (wrFrameworks w))"
  unfolding receiptMatchesRequirements_def Let_def by (simp del: list_all_iff list_ex_iff; blast)

text \<open>The check of the server on the receipt of a job it opened and a container worker took.\<close>

lemma cross_receipt_matches:
  assumes open_job: "jbStatus (crossJobFor sid m) = ''open''" "jbWantEnv (crossJobFor sid m) = Some want"
    and norm: "Normalize (smEnvironment m) = smEnvironment m" and eco: "eEcosystem (smEnvironment m) \<noteq> []"
    and cap: "wkCap cv = ''CONTAINER_RUN''" and prep: "canPrepare cv (Some want)"
  defines "c \<equiv> crossExecutionManifest m (Some want)"
  assumes r: "vrEnvironment r = StageEnvironment (wkContainerOS cv) (wkEnv cv) c" "vrVerifierAdapter r = smVerifierAdapter c"
    "vrSandboxCapability r = wkCap cv"
  shows "receiptMatchesRequirements r want \<longleftrightarrow> wrFrameworks want = [] \<and> (wrRuntime want = [] \<or> wrRuntime want = eRuntime (vrEnvironment r)) \<and>
    versionSatisfies (wrRuntimeVersion want) (eRuntimeVersion (vrEnvironment r))"
    and "browser_lane (lane_requirements c) \<or> plain_lane (lane_requirements c)"
    and "eRuntime (vrEnvironment r) = fst (provides (lane_requirements c)) \<and>
      eRuntimeVersion (vrEnvironment r) = clearPlaceholder (snd (provides (lane_requirements c)))"
proof -
  obtain good where run0: "crossRequirementsAFleetCanRun (cross_requirements m) = (want, good)"
    using open_job by (cases "crossRequirementsAFleetCanRun (cross_requirements m)") (simp add: crossJobFor_def)
  have run: "crossRequirementsAFleetCanRun (cross_requirements m) = (want, True)"
    using run0 open_job(1) by (auto simp: crossJobFor_def JobStatusUnsupported_def split: if_splits)
  note c = executed_manifest [OF run, folded c_def]
  note sf = same_sample_fields [OF c(4)]
  let ?w = "lane_requirements c" and ?env = "vrEnvironment r"
  have want: "want \<in> set (candidates (cross_requirements m))"
    using run by (auto simp: crossRequirementsAFleetCanRun_def find_Some_iff split: option.splits)
  note cf = candidates_fields [OF want]
  have wf: "wrEcosystem want = eEcosystem (smEnvironment m)" "wrRuntime want = eRuntime (smEnvironment m)"
    "wrBrowserFamily want = eBrowserFamily (smEnvironment m)" "wrBrowserMajor want = eBrowserMajor (smEnvironment m)"
    "wrEngine want = eEngine (smEnvironment m)" "wrEngineVersion want = eEngineVersion (smEnvironment m)"
    "wrVerifierAdapter want = smVerifierAdapter m" "wrSandboxCapability want = ''CONTAINER_RUN''"
    using cf by (simp_all add: cross_requirements_def Let_def)
  note nc = Normalize_clear [OF norm]
  have ctx: "clearPlaceholder (eExecutionContext (smEnvironment c)) = eExecutionContext (smEnvironment c)" using c(5) nc(2) by auto
  have clear: "clear_requirements ?w" using nc ctx sf by (simp add: clear_requirements_def lane_requirements_def Let_def)
  have lane: "browser_lane ?w \<or> plain_lane ?w"
    using supported_lane [OF c(1) _ clear] eco sf(1) by (simp add: lane_requirements_fields)
  then show "browser_lane ?w \<or> plain_lane ?w" .
  obtain rt ver lang where p: "imageRuntimeForVersion (eEcosystem (smEnvironment c)) (eRuntime (smEnvironment c)) (eRuntimeVersion (smEnvironment c)) = (rt, ver, lang)"
    by (metis prod_cases3)
  have pr: "provides ?w = (rt, ver)" using p by (simp add: provides_def lane_requirements_fields)
  note f = StageEnvironment_fields [of c "wkEnv cv" rt ver lang "wkContainerOS cv", folded r(1)]
  have ecoc: "eEcosystem (smEnvironment c) \<noteq> []" using eco sf(1) by simp
  have f1: "eEcosystem ?env = eEcosystem (smEnvironment c)" "eOS ?env = containerOSOrLinux (wkContainerOS cv)" "eRuntime ?env = rt"
    "eRuntimeVersion ?env = clearPlaceholder ver" "eFrameworks ?env = []"
    using f(1,2,4,5,6) p ecoc by simp_all
  show "eRuntime ?env = fst (provides ?w) \<and> eRuntimeVersion ?env = clearPlaceholder (snd (provides ?w))" using f1 pr by simp
  have sup: "ContainerSupportsRequirementsOn (wkContainerOS cv) want" using prep cap by (auto simp: canPrepare_def split: if_splits)
  have os: "wrOS want = [] \<or> EqualFold (wrOS want) (eOS ?env)" using sup f1(2) by (auto simp: ContainerSupportsRequirementsOn_def split: if_splits)
  have wclear: "clear_requirements want"
    using nc cf(12) wf by (auto simp: clear_requirements_def cross_requirements_def Let_def)
  have dims: "(wrExecutionContext want = [] \<or> wrExecutionContext want = eExecutionContext ?env) \<and> (wrBrowserFamily want = [] \<or> wrBrowserFamily want = eBrowserFamily ?env) \<and>
     (wrEngine want = [] \<or> wrEngine want = eEngine ?env) \<and> versionSatisfies (wrBrowserMajor want) (eBrowserMajor ?env) \<and>
     versionSatisfies (wrEngineVersion want) (eEngineVersion ?env)"
  proof (cases "browser_lane ?w")
    case True
    then have "wrBrowserFamily want = ''chrome''" using wf(3) sf(3) by (simp add: browser_lane_def lane_requirements_fields)
    then have "containerOSOrLinux (wkContainerOS cv) = ''linux''" using windows_has_no_browser [OF sup _ wclear] wf(1) eco by simp
    then have "chrome134Image = Inr (image_or_empty (imageForManifestOn (wkContainerOS cv) c))" using browser_is_chrome [OF True clear] by simp
    then have "eExecutionContext ?env = ''browser''" "eBrowserFamily ?env = ''chrome''" "eBrowserMajor ?env = ''134''" "eEngine ?env = ''chromium''" "eEngineVersion ?env = ''134''"
      using f(7) p ecoc by simp_all
    moreover have "wrExecutionContext want = [] \<or> wrExecutionContext want = ''browser''"
      using True c(3) by (cases "wrExecutionContext want = []") (simp_all add: browser_lane_def lane_requirements_fields)
    moreover have "wrBrowserFamily want = ''chrome''" "wrBrowserMajor want = ''134''" "wrEngine want \<in> {[], ''chromium''}" "wrEngineVersion want \<in> {[], ''134''}"
      using True wf(3-6) sf(3-6) by (simp_all add: browser_lane_def lane_requirements_fields)
    ultimately show ?thesis by (elim disjE insertE emptyE) (simp_all add: versionSatisfies_refl)
  next
    case False
    then have plain: "plain_lane ?w" using lane by simp
    have "eExecutionContext (smEnvironment c) = [] \<or> eExecutionContext (smEnvironment c) = rt" "rt \<noteq> ''browser''"
      using plain pr rt_not_browser [of ?w] by (simp_all add: plain_lane_def lane_requirements_fields)
    then have "eExecutionContext (Normalize (smEnvironment c)) \<noteq> ''browser''"
      unfolding Normalize_fields ctx by (elim disjE) (simp_all, auto)
    then have "chrome134Image \<noteq> Inr (image_or_empty (imageForManifestOn (wkContainerOS cv) c))" by (rule plain_not_chrome)
    then have "eExecutionContext ?env = rt" using f(8) p ecoc by simp
    moreover have "eBrowserFamily (smEnvironment c) = []" "eBrowserMajor (smEnvironment c) = []" "eEngine (smEnvironment c) = []"
      "eEngineVersion (smEnvironment c) = []" "eExecutionContext (smEnvironment c) \<in> {[], rt}"
      using plain pr by (simp_all add: plain_lane_def lane_requirements_fields)
    ultimately show ?thesis using c(3) wf(3-6) sf(3-6) versionSatisfies_refl(2) by (cases "wrExecutionContext want = []") auto
  qed
  have norm_env: "Normalize ?env = ?env" unfolding r(1) StageEnvironment_def Let_def by simp
  have "vrSandboxCapability r = wrSandboxCapability want" "vrVerifierAdapter r = wrVerifierAdapter want" "wrEcosystem want = eEcosystem ?env"
    using r(2,3) cap wf sf f1 by simp_all
  then show "receiptMatchesRequirements r want \<longleftrightarrow> wrFrameworks want = [] \<and> (wrRuntime want = [] \<or> wrRuntime want = eRuntime ?env) \<and>
    versionSatisfies (wrRuntimeVersion want) (eRuntimeVersion ?env)"
    unfolding receiptMatches_iff Let_def norm_env f1(5) framework_free using os dims by blast
qed

lemma open_job_runs:
  assumes "jbStatus (crossJobFor sid m) = ''open''" "jbWantEnv (crossJobFor sid m) = Some want"
  shows "crossRequirementsAFleetCanRun (cross_requirements m) = (want, True)" "want \<in> set (candidates (cross_requirements m))"
proof -
  obtain good where "crossRequirementsAFleetCanRun (cross_requirements m) = (want, good)"
    using assms by (cases "crossRequirementsAFleetCanRun (cross_requirements m)") (simp add: crossJobFor_def)
  then show run: "crossRequirementsAFleetCanRun (cross_requirements m) = (want, True)"
    using assms(1) by (auto simp: crossJobFor_def JobStatusUnsupported_def split: if_splits)
  show "want \<in> set (candidates (cross_requirements m))"
    using run by (auto simp: crossRequirementsAFleetCanRun_def find_Some_iff split: option.splits)
qed

lemma versions_clear:
  "clearPlaceholder ''22'' = ''22''" "clearPlaceholder ''1'' = ''1''" "clearPlaceholder ''2'' = ''2''" "clearPlaceholder ''3.12'' = ''3.12''"
  "clearPlaceholder ''3.14'' = ''3.14''" "clearPlaceholder ''1.26'' = ''1.26''" "clearPlaceholder ''8'' = ''8''" "clearPlaceholder ''3'' = ''3''"
  "clearPlaceholder ''11'' = ''11''" "clearPlaceholder ''17'' = ''17''" "clearPlaceholder ''21'' = ''21''" "clearPlaceholder ''25'' = ''25''"
  by code_simp+

lemma dots_majorBucket: "CHR ''.'' \<notin> set (majorBucket v)"
  by (simp add: majorBucket_seg0 seg0_no_dot)

lemma no_dots: "CHR ''.'' \<notin> set v \<Longrightarrow> filter (\<lambda>c. c = CHR ''.'') v = []"
  by (auto simp: filter_empty_conv)

lemma dots_versionBucket: "length (filter (\<lambda>c. c = CHR ''.'') (versionBucket v)) \<le> 1"
  by (auto simp: versionBucket_segs no_dots seg0_no_dot)

lemma matches_major: "runtimeVersionMatches provided v \<Longrightarrow> CHR ''.'' \<notin> set v \<Longrightarrow> v = provided"
  by (auto simp: runtimeVersionMatches_def HasPrefix_iff)

lemma matches_minor: "runtimeVersionMatches ''1.26'' v \<Longrightarrow> length (filter (\<lambda>c. c = CHR ''.'') v) \<le> 1 \<Longrightarrow> v = ''1.26''"
  by (auto simp: runtimeVersionMatches_def HasPrefix_iff)

lemma RuntimeLine_major: "runtime \<in> {''node'', ''bun'', ''deno''} \<Longrightarrow> CHR ''.'' \<notin> set (RuntimeLine runtime v)"
proof -
  have "ToLower (TrimSpace ''node'') = ''node''" "ToLower (TrimSpace ''bun'') = ''bun''" "ToLower (TrimSpace ''deno'') = ''deno''" by code_simp+
  then show "runtime \<in> {''node'', ''bun'', ''deno''} \<Longrightarrow> ?thesis" by (auto simp: RuntimeLine_def Let_def dots_majorBucket)
qed

lemma RuntimeLine_minor: "length (filter (\<lambda>c. c = CHR ''.'') (RuntimeLine runtime v)) \<le> 1"
  using dots_versionBucket [of "TrimSpace v"] no_dots [OF dots_majorBucket, of "TrimSpace v"] by (simp add: RuntimeLine_def Let_def)


text \<open>C39: a cross job that names a release line of two components on a lane whose image states one (Rust, PHP, Ruby, Dart, Elixir), or that asks for a
  framework, is opened and taken but no receipt of a container answers it.\<close>

theorem release_line_is_never_answered:
  assumes open_job: "jbStatus (crossJobFor sid m) = ''open''" "jbWantEnv (crossJobFor sid m) = Some want"
    and norm: "Normalize (smEnvironment m) = smEnvironment m"
    and cap: "wkCap cv = ''CONTAINER_RUN''" and prep: "canPrepare cv (Some want)"
    and r: "vrEnvironment r = StageEnvironment (wkContainerOS cv) (wkEnv cv) (crossExecutionManifest m (Some want))"
      "vrVerifierAdapter r = smVerifierAdapter (crossExecutionManifest m (Some want))" "vrSandboxCapability r = wkCap cv"
    and lane: "eEcosystem (smEnvironment m) \<in> {''cargo'', ''composer'', ''gem'', ''pub'', ''hex''} \<and> CHR ''.'' \<in> set (TrimSpace (wrRuntimeVersion want)) \<or>
      eEcosystem (smEnvironment m) \<noteq> [] \<and> wrFrameworks want \<noteq> []"
  shows "\<not> receiptMatchesRequirements r want"
proof -
  let ?w = "lane_requirements (crossExecutionManifest m (Some want))"
  have eco: "eEcosystem (smEnvironment m) \<noteq> []" using lane by auto
  note match = cross_receipt_matches [OF open_job norm eco cap prep r]
  have w: "wrEcosystem ?w = eEcosystem (smEnvironment m)"
    using same_sample_fields [OF executed_manifest(4) [OF open_job_runs(1) [OF open_job]]] by (simp add: lane_requirements_fields)
  have "\<not> versionSatisfies (wrRuntimeVersion want) (eRuntimeVersion (vrEnvironment r))"
    if "eEcosystem (smEnvironment m) \<in> {''cargo'', ''composer'', ''gem'', ''pub'', ''hex''}" and dot: "CHR ''.'' \<in> set (TrimSpace (wrRuntimeVersion want))"
  proof -
    have one: "eRuntimeVersion (vrEnvironment r) \<in> {''1'', ''8'', ''3''}"
      using that(1) match(3) w by (auto simp: provides_def imageRuntimeForVersion_def versions_clear)
    have trim: "TrimSpace ''1'' = ''1''" "TrimSpace ''8'' = ''8''" "TrimSpace ''3'' = ''3''" by code_simp+
    have "length (Split (TrimSpace (eRuntimeVersion (vrEnvironment r))) CHR ''.'') = 1" using one by (auto simp: trim)
    moreover have "2 \<le> length (Split (TrimSpace (wrRuntimeVersion want)) CHR ''.'')"
    proof -
      obtain a b where "TrimSpace (wrRuntimeVersion want) = a @ CHR ''.'' # b" "CHR ''.'' \<notin> set a" using split_list_first [OF dot] by blast
      moreover have "Split b CHR ''.'' \<noteq> []" by (cases b) (auto split: list.splits)
      ultimately show ?thesis using Split_append_sep [of "CHR ''.''" a b] by (cases "Split b CHR ''.''") auto
    qed
    moreover have "TrimSpace (wrRuntimeVersion want) \<noteq> []" using dot by auto
    ultimately show ?thesis unfolding versionSatisfies_iff by (auto dest: arg_cong [where f = length])
  qed
  then show ?thesis using match(1) lane by blast
qed


section \<open>Concrete jobs\<close>

definition node_sample :: SampleManifest where
  "node_sample = zero_manifest\<lparr>smEnvironment := zero_env\<lparr>eEcosystem := ''npm'', eRuntime := ''node'', eRuntimeVersion := ''22.3.1'', eExecutionContext := ''node''\<rparr>\<rparr>"

definition rust_sample :: SampleManifest where
  "rust_sample = zero_manifest\<lparr>smEnvironment := zero_env\<lparr>eEcosystem := ''cargo'', eRuntime := ''rust'', eRuntimeVersion := ''1.80.1''\<rparr>\<rparr>"

definition java_sample :: SampleManifest where
  "java_sample = zero_manifest\<lparr>smEnvironment := zero_env\<lparr>eEcosystem := ''maven'', eRuntime := ''java'', eLanguageVersion := ''11''\<rparr>, smVerifierAdapter := ''maven-java@1''\<rparr>"

definition linux_worker :: worker where
  "linux_worker = \<lparr>wkCap = ''CONTAINER_RUN'', wkContainerOS = ''linux'', wkEnv = zero_env\<rparr>"

definition receipt_of :: "worker \<Rightarrow> SampleManifest \<Rightarrow> VerificationReceipt" where
  "receipt_of cv c = zero_receipt\<lparr>vrEnvironment := StageEnvironment (wkContainerOS cv) (wkEnv cv) c, vrVerifierAdapter := smVerifierAdapter c,
     vrSandboxCapability := wkCap cv\<rparr>"

definition asked :: "SampleManifest \<Rightarrow> WorkerRequirements" where
  "asked m = fst (crossRequirementsAFleetCanRun (cross_requirements m))"

lemma asked_want: "jbWantEnv (crossJobFor sid m) = Some (asked m)"
  by (simp add: crossJobFor_def asked_def split: prod.split)


theorem release_line_is_never_answered_witness:
  "jbStatus (crossJobFor ''s'' rust_sample) = ''open'' \<and> canPrepare linux_worker (Some (asked rust_sample)) \<and> wrRuntimeVersion (asked rust_sample) = ''1.80'' \<and>
   \<not> receiptMatchesRequirements (receipt_of linux_worker (crossExecutionManifest rust_sample (Some (asked rust_sample)))) (asked rust_sample)"
proof -
  have "jbStatus (crossJobFor ''s'' rust_sample) = ''open''" "wrRuntimeVersion (asked rust_sample) = ''1.80''"
    "Normalize (smEnvironment rust_sample) = smEnvironment rust_sample" "canPrepare linux_worker (Some (asked rust_sample))"
    "eEcosystem (smEnvironment rust_sample) = ''cargo''" "TrimSpace ''1.80'' = ''1.80''" by code_simp+
  then show ?thesis
    using release_line_is_never_answered [OF _ asked_want, of "''s''" rust_sample linux_worker
        "receipt_of linux_worker (crossExecutionManifest rust_sample (Some (asked rust_sample)))"]
    by (simp add: receipt_of_def linux_worker_def)
qed

definition matrix_job :: JobRow where
  "matrix_job = \<lparr>jbID = 7, jbSampleID = ''s'', jbReason = ''matrix'', jbWantEnv = Some \<lparr>wrSandboxCapability = ''CONTAINER_RUN'', wrVerifierAdapter = ''maven-java@1'',
     wrOS = [], wrEcosystem = ''maven'', wrRuntime = ''java'', wrRuntimeVersion = ''17'', wrExecutionContext = ''java'', wrBrowserFamily = [], wrBrowserMajor = [],
     wrEngine = [], wrEngineVersion = [], wrFrameworks = []\<rparr>, jbStatus = ''claimed'', jbClaimedBy = ''p'', jbClaimedAt = Some 0, jbCreatedAt = Some 0\<rparr>"


end
